(* ===== verification/Prelude.thy ===== *)
theory Prelude
  imports Main "HOL-Library.Word" "HOL-Library.AList" "HOL-Library.Monad_Syntax" "HOL-Library.Multiset"
begin

text \<open>
  What the components of the gossip package share: the Go values the code computes with
  (byte slices, errors, 64-bit words, instants and durations, maps, sets), the in-place
  deletion loop that four components use, and the generic interface of a machine with an
  invariant. Run-time panics are the value \<open>None\<close> of an option result, so a computation
  that may panic is written in the option monad.
\<close>

section \<open>Automation shared by the components\<close>

named_theorems go_simps \<open>rewrite rules for Go values: slices, maps, sets\<close>
named_theorems wf_intros \<open>introduction rules for the well-formedness of component states\<close>

section \<open>Machine integers, byte slices and errors\<close>

type_synonym u64 = "64 word"

text \<open>
  A byte slice may be nil, which the code tests for (\<open>pkiID == nil\<close>), and a nil slice has
  length 0 and converts to the empty string. A Go string is a list of bytes.
\<close>

type_synonym bytes = "string option"

definition str_of :: "bytes \<Rightarrow> string" where
  "str_of b = (case b of None \<Rightarrow> [] | Some s \<Rightarrow> s)"

definition bytes_len :: "bytes \<Rightarrow> nat" where
  "bytes_len b = length (str_of b)"

definition bytes_eq :: "bytes \<Rightarrow> bytes \<Rightarrow> bool" where
  "bytes_eq a b \<longleftrightarrow> str_of a = str_of b"

lemma str_of_simps [simp, go_simps]: "str_of None = []" "str_of (Some s) = s"
  by (simp_all add: str_of_def)

lemma bytes_eq_refl [simp]: "bytes_eq a a"
  by (simp add: bytes_eq_def)

lemma bytes_eq_sym: "bytes_eq a b \<longleftrightarrow> bytes_eq b a"
  by (auto simp: bytes_eq_def)

lemma bytes_len_0 [go_simps]: "bytes_len b = 0 \<longleftrightarrow> str_of b = []"
  by (simp add: bytes_len_def)

text \<open>An error value carries its message; a Go result \<open>(T, error)\<close> is a sum.\<close>

datatype error = Error string

section \<open>Time\<close>

text \<open>
  An instant is its number of nanoseconds since the Unix epoch and a duration is a number
  of nanoseconds. \<open>Time.Sub\<close> and \<open>time.Since\<close> saturate at the bounds of a 64-bit
  duration. \<open>time.Unix(0, n)\<close> and \<open>UnixNano\<close> read and write the signed 64-bit count.
\<close>

type_synonym instant = int
type_synonym duration = int

definition max_duration :: duration where
  "max_duration = 2 ^ 63 - 1"

definition time_sub :: "instant \<Rightarrow> instant \<Rightarrow> duration" where
  "time_sub a b = max (- (2 ^ 63)) (min max_duration (a - b))"

definition time_since :: "instant \<Rightarrow> instant \<Rightarrow> duration" where
  "time_since now t = time_sub now t"

definition unix0 :: "u64 \<Rightarrow> instant" where
  "unix0 w = sint w"

definition unix_nano :: "instant \<Rightarrow> u64" where
  "unix_nano t = word_of_int t"

lemma unix_nano_unix0 [simp]: "unix_nano (unix0 w) = w"
  by (simp add: unix_nano_def unix0_def)

definition second :: duration where
  "second = 1000000000"

lemma time_since_gt_iff:
  assumes "- (2 ^ 63) \<le> d" and "d < max_duration"
  shows "time_since now t > d \<longleftrightarrow> now - t > d"
  using assms by (auto simp: time_since_def time_sub_def max_duration_def)

lemma time_since_mono: "t \<le> t' \<Longrightarrow> time_since now t' \<le> time_since now t"
  by (auto simp: time_since_def time_sub_def max_duration_def)

section \<open>Maps\<close>

text \<open>
  A Go map is an association list with distinct keys. Go leaves the order of a \<open>range\<close>
  over a map open: the model ranges in list order, and a statement about every such list
  is a statement about every order.
\<close>

type_synonym ('k, 'v) gomap = "('k \<times> 'v) list"

abbreviation map_get :: "('k, 'v) gomap \<Rightarrow> 'k \<Rightarrow> 'v option" where
  "map_get m k \<equiv> map_of m k"

abbreviation map_put :: "'k \<Rightarrow> 'v \<Rightarrow> ('k, 'v) gomap \<Rightarrow> ('k, 'v) gomap" where
  "map_put k v m \<equiv> AList.update k v m"

abbreviation map_del :: "'k \<Rightarrow> ('k, 'v) gomap \<Rightarrow> ('k, 'v) gomap" where
  "map_del k m \<equiv> AList.delete k m"

abbreviation map_wf :: "('k, 'v) gomap \<Rightarrow> bool" where
  "map_wf m \<equiv> distinct (map fst m)"

definition map_has :: "('k, 'v) gomap \<Rightarrow> 'k \<Rightarrow> bool" where
  "map_has m k \<longleftrightarrow> map_of m k \<noteq> None"

lemma map_put_get [simp, go_simps]: "map_of (map_put k v m) = (map_of m)(k \<mapsto> v)"
  by (rule update_conv')

lemma map_del_get [simp, go_simps]: "map_of (map_del k m) = (map_of m)(k := None)"
  by (rule delete_conv')

lemma map_put_wf [simp, wf_intros]: "map_wf m \<Longrightarrow> map_wf (map_put k v m)"
  by (rule distinct_update)

lemma map_del_wf [simp, wf_intros]: "map_wf m \<Longrightarrow> map_wf (map_del k m)"
  by (rule distinct_delete)

lemma map_has_iff [go_simps]: "map_has m k \<longleftrightarrow> k \<in> dom (map_of m)"
  by (auto simp: map_has_def)

lemma map_keys: "fst ` set m = dom (map_of m)"
  by (rule dom_map_of_conv_image_fst [symmetric])

lemma map_entry_in: "map_of m k = Some v \<Longrightarrow> (k, v) \<in> set m"
  by (rule map_of_SomeD)

lemma map_entry_iff: "map_wf m \<Longrightarrow> (k, v) \<in> set m \<longleftrightarrow> map_of m k = Some v"
  by simp

text \<open>Lookups stay lookups: the library would turn them into membership of pairs.\<close>

declare map_of_eq_Some_iff [simp del] Some_eq_map_of_iff [simp del]

lemma map_dom_finite [simp]: "finite (dom (map_of m))"
  by (rule finite_dom_map_of)

lemma map_size_card: "map_wf m \<Longrightarrow> length m = card (dom (map_of m))"
  by (metis distinct_card distinct_map length_map map_keys set_map)

lemma map_put_size:
  "map_wf m \<Longrightarrow> length (map_put k v m) = (if map_has m k then length m else Suc (length m))"
  by (simp add: map_size_card map_has_iff insert_absorb)

lemma map_del_size:
  "map_wf m \<Longrightarrow> length (map_del k m) = (if map_has m k then length m - 1 else length m)"
  by (auto simp: map_size_card map_has_iff)

text \<open>
  What every keyed store of the package promises: a lookup after an insert or a removal
  reads the last write to its key, and the other keys keep their values. The client lemmas
  say what a sequence of inserts and removals leaves behind.
\<close>

locale key_store =
  fixes empty :: 'm
    and lookup :: "'m \<Rightarrow> 'k \<Rightarrow> 'v option"
    and put :: "'k \<Rightarrow> 'v \<Rightarrow> 'm \<Rightarrow> 'm"
    and rem :: "'k \<Rightarrow> 'm \<Rightarrow> 'm"
    and wf :: "'m \<Rightarrow> bool"
  assumes lookup_empty: "lookup empty = Map.empty"
    and lookup_put: "wf m \<Longrightarrow> lookup (put k v m) = (lookup m)(k \<mapsto> v)"
    and lookup_rem: "wf m \<Longrightarrow> lookup (rem k m) = (lookup m)(k := None)"
    and wf_empty: "wf empty"
    and wf_put: "wf m \<Longrightarrow> wf (put k v m)"
    and wf_rem: "wf m \<Longrightarrow> wf (rem k m)"
begin

lemma put_same: "wf m \<Longrightarrow> lookup (put k v m) k = Some v"
  by (simp add: lookup_put)

lemma put_other: "wf m \<Longrightarrow> k' \<noteq> k \<Longrightarrow> lookup (put k v m) k' = lookup m k'"
  by (simp add: lookup_put)

lemma rem_same: "wf m \<Longrightarrow> lookup (rem k m) k = None"
  by (simp add: lookup_rem)

lemma move_between:
  assumes "wf m" "wf n" "lookup m k = Some v"
  shows "lookup (put k v n) k = Some v \<and> lookup (rem k m) k = None"
  using assms by (simp add: lookup_put lookup_rem)

lemma wf_fold_put: "wf m \<Longrightarrow> wf (fold (\<lambda>(k, v). put k v) kvs m)"
  by (induction kvs arbitrary: m) (auto simp: wf_put)

lemma lookup_fold_put:
  "wf m \<Longrightarrow> lookup (fold (\<lambda>(k, v). put k v) kvs m) = lookup m ++ map_of (rev kvs)"
  by (induction kvs arbitrary: m) (auto simp: wf_put lookup_put map_add_def split: option.splits)

lemma wf_fold_rem: "wf m \<Longrightarrow> wf (fold rem ks m)"
  by (induction ks arbitrary: m) (auto simp: wf_rem)

lemma lookup_fold_rem:
  "wf m \<Longrightarrow> lookup (fold rem ks m) k = (if k \<in> set ks then None else lookup m k)"
  by (induction ks arbitrary: m) (auto simp: wf_rem lookup_rem)

end

interpretation gomap: key_store "[]" map_get map_put map_del map_wf
  by unfold_locales (simp_all add: fun_eq_iff)

section \<open>Sets\<close>

text \<open>The type \<open>Set\<close> of common.go keeps its items as the keys of a map to the empty struct.\<close>

type_synonym 'a goset = "('a, unit) gomap"

definition goset_items :: "'a goset \<Rightarrow> 'a list" where
  "goset_items s = map fst s"

lemma goset_items_dom [simp]: "set (goset_items s) = dom (map_of s)"
  by (simp add: goset_items_def map_keys)

section \<open>The in-place deletion loop\<close>

text \<open>
  \<open>for i := 0; i < n; i++ \<dots> xs = append(xs[:i], xs[i+1:]...); n--; i--\<close> is the loop the
  message store and the emitter delete with. The body \<open>f\<close> sees the state and the element
  at the index and either deletes it (\<open>None\<close>) or keeps its new value.
\<close>

function sweep :: "('s \<Rightarrow> 'a \<Rightarrow> 's \<times> 'a option) \<Rightarrow> 's \<Rightarrow> nat \<Rightarrow> 'a list \<Rightarrow> 's \<times> 'a list" where
  "sweep f s i xs =
     (if i < length xs
      then (case f s (xs ! i) of
              (s', None) \<Rightarrow> sweep f s' i (take i xs @ drop (Suc i) xs)
            | (s', Some y) \<Rightarrow> sweep f s' (Suc i) (xs[i := y]))
      else (s, xs))"
  by pat_completeness auto
termination
  by (relation "measure (\<lambda>(f, s, i, xs). length xs - i)") auto

declare sweep.simps [simp del]

text \<open>The same as one pass over the list.\<close>

fun sweep_list :: "('s \<Rightarrow> 'a \<Rightarrow> 's \<times> 'a option) \<Rightarrow> 's \<Rightarrow> 'a list \<Rightarrow> 's \<times> 'a list" where
  "sweep_list f s [] = (s, [])"
| "sweep_list f s (x # xs) =
     (case f s x of
        (s', None) \<Rightarrow> sweep_list f s' xs
      | (s', Some y) \<Rightarrow> (let (s'', ys) = sweep_list f s' xs in (s'', y # ys)))"

lemma sweep_prefix:
  "sweep f s (length ps) (ps @ xs) = (let (s', ys) = sweep_list f s xs in (s', ps @ ys))"
proof (induction xs arbitrary: ps s)
  case Nil
  show ?case by (subst sweep.simps) simp
next
  case (Cons x xs)
  obtain s' r where f: "f s x = (s', r)" by (cases "f s x")
  show ?case
  proof (cases r)
    case None
    with f Cons.IH [of s' ps] show ?thesis
      by (subst sweep.simps) (simp add: nth_append)
  next
    case (Some y)
    with f Cons.IH [of s' "ps @ [y]"] show ?thesis
      by (subst sweep.simps) (simp add: nth_append list_update_append split: prod.splits)
  qed
qed

lemma sweep_eq: "sweep f s 0 xs = sweep_list f s xs"
  using sweep_prefix [of f s "[]" xs] by simp

text \<open>The loop whose body deletes by a test and records what it deletes.\<close>

lemma sweep_list_filter:
  "sweep_list (\<lambda>s x. if P x then (s @ [g x], None) else (s, Some x)) s xs =
     (s @ map g (filter P xs), filter (\<lambda>x. \<not> P x) xs)"
  by (induction xs arbitrary: s) auto

section \<open>Machines with an invariant\<close>

text \<open>
  A component as a machine: the states it may start in, its steps, and a predicate every
  step keeps. The predicate then holds in every state a run reaches.
\<close>

locale inv_machine =
  fixes init :: "'s \<Rightarrow> bool"
    and step :: "'s \<Rightarrow> 's \<Rightarrow> bool"
    and Inv :: "'s \<Rightarrow> bool"
  assumes init_inv: "init s \<Longrightarrow> Inv s"
    and step_inv: "step s t \<Longrightarrow> Inv s \<Longrightarrow> Inv t"
begin

lemma run_inv: "step\<^sup>*\<^sup>* s t \<Longrightarrow> Inv s \<Longrightarrow> Inv t"
  by (induction rule: rtranclp_induct) (auto intro: step_inv)

lemma reach_inv: "init s \<Longrightarrow> step\<^sup>*\<^sup>* s t \<Longrightarrow> Inv t"
  by (blast intro: run_inv init_inv)

end

section \<open>Loops that may panic\<close>

text \<open>A loop that stops at the first panic.\<close>

fun foldM :: "('a \<Rightarrow> 's \<Rightarrow> 's option) \<Rightarrow> 'a list \<Rightarrow> 's \<Rightarrow> 's option" where
  "foldM f [] s = Some s"
| "foldM f (x # xs) s = Option.bind (f x s) (foldM f xs)"

lemma foldM_inv:
  assumes "foldM f xs s = Some t" and "I s"
    and "\<And>x s t. x \<in> set xs \<Longrightarrow> I s \<Longrightarrow> f x s = Some t \<Longrightarrow> I t"
  shows "I t"
  using assms by (induction xs arbitrary: s) (auto simp: bind_eq_Some_conv)

lemma foldM_total:
  assumes "I s" and "\<And>x s. x \<in> set xs \<Longrightarrow> I s \<Longrightarrow> \<exists>t. f x s = Some t \<and> I t"
  shows "\<exists>t. foldM f xs s = Some t \<and> I t"
  using assms
proof (induction xs arbitrary: s)
  case (Cons x xs)
  then obtain t where "f x s = Some t" "I t" by (metis list.set_intros(1))
  with Cons.IH [of t] Cons.prems(2) show ?case by simp
qed simp

end
