(* ===== verification/Emitter.thy ===== *)
theory Emitter
  imports Prelude
begin

text \<open>
  The batching emitter of channel.go: it buffers messages and hands the whole buffer to the
  callback when the buffer fills up or the delay passes, each message in \<open>iterations\<close>
  batches. The callback's calls are returned as the list of batches. The lemmas show that
  every message is emitted exactly \<open>iterations\<close> times, and how long the buffer gets.
\<close>

section \<open>State and operations\<close>

record 'm batchedMessage =
  bm_data :: 'm
  bm_iterationsLeft :: int

record 'm BatchingEmitter =
  be_iterations :: int
  be_burstSize :: int
  be_buff :: "'m batchedMessage list"
  be_stopFlag :: bool

definition NewBatchingEmitter :: "int \<Rightarrow> int \<Rightarrow> 'm BatchingEmitter" where
  "NewBatchingEmitter iterations burstSize =
     \<lparr>be_iterations = iterations, be_burstSize = burstSize, be_buff = [], be_stopFlag = False\<rparr>"

text \<open>The loop after the callback counts every message down and cuts out those at zero.\<close>

definition emit_body :: "unit \<Rightarrow> 'm batchedMessage \<Rightarrow> unit \<times> 'm batchedMessage option" where
  "emit_body st m =
     (let m' = m\<lparr>bm_iterationsLeft := bm_iterationsLeft m - 1\<rparr>
      in ((), if bm_iterationsLeft m' = 0 then None else Some m'))"

definition emit :: "'m BatchingEmitter \<Rightarrow> 'm BatchingEmitter \<times> 'm list list" where
  "emit p =
     (if be_stopFlag p then (p, [])
      else if be_buff p = [] then (p, [])
      else (let msgs2beEmitted = map bm_data (be_buff p);
                (_, buff) = sweep emit_body () 0 (be_buff p)
            in (p\<lparr>be_buff := buff\<rparr>, [msgs2beEmitted])))"

definition BatchingEmitter_Add :: "'m \<Rightarrow> 'm BatchingEmitter \<Rightarrow> 'm BatchingEmitter \<times> 'm list list" where
  "BatchingEmitter_Add message p =
     (if be_iterations p = 0 then (p, [])
      else (let p1 = p\<lparr>be_buff := be_buff p @ [\<lparr>bm_data = message, bm_iterationsLeft = be_iterations p\<rparr>]\<rparr>
            in if int (length (be_buff p1)) \<ge> be_burstSize p then emit p1 else (p1, [])))"

definition BatchingEmitter_Size :: "'m BatchingEmitter \<Rightarrow> nat" where
  "BatchingEmitter_Size p = length (be_buff p)"

definition BatchingEmitter_Stop :: "'m BatchingEmitter \<Rightarrow> 'm BatchingEmitter" where
  "BatchingEmitter_Stop p = p\<lparr>be_stopFlag := True\<rparr>"

text \<open>One round of \<open>periodicEmit\<close>.\<close>

definition periodicEmit :: "'m BatchingEmitter \<Rightarrow> 'm BatchingEmitter \<times> 'm list list" where
  "periodicEmit p = (if be_stopFlag p then (p, []) else emit p)"

text \<open>The calls on an emitter in any order, with all batches they hand to the callback.\<close>

datatype 'm emitter_op = OpAdd 'm | OpTick | OpStop

fun emitter_apply :: "'m emitter_op \<Rightarrow> 'm BatchingEmitter \<Rightarrow> 'm BatchingEmitter \<times> 'm list list" where
  "emitter_apply (OpAdd x) p = BatchingEmitter_Add x p"
| "emitter_apply OpTick p = periodicEmit p"
| "emitter_apply OpStop p = (BatchingEmitter_Stop p, [])"

fun emitter_run :: "'m emitter_op list \<Rightarrow> 'm BatchingEmitter \<Rightarrow> 'm BatchingEmitter \<times> 'm list list" where
  "emitter_run [] p = (p, [])"
| "emitter_run (a # as) p =
     (let (p1, bs) = emitter_apply a p; (p2, cs) = emitter_run as p1 in (p2, bs @ cs))"

section \<open>One emission\<close>

definition countdown :: "'m batchedMessage list \<Rightarrow> 'm batchedMessage list" where
  "countdown ms =
     map (\<lambda>m. m\<lparr>bm_iterationsLeft := bm_iterationsLeft m - 1\<rparr>) (filter (\<lambda>m. bm_iterationsLeft m \<noteq> 1) ms)"

lemma sweep_emit: "sweep_list emit_body () ms = ((), countdown ms)"
  by (induction ms) (auto simp: emit_body_def countdown_def Let_def)

lemma emit_eq:
  "emit p =
     (if be_stopFlag p \<or> be_buff p = [] then (p, [])
      else (p\<lparr>be_buff := countdown (be_buff p)\<rparr>, [map bm_data (be_buff p)]))"
  by (simp add: emit_def sweep_eq sweep_emit)

lemma emitter_apply_config [simp]:
  "be_iterations (fst (emitter_apply a p)) = be_iterations p"
  "be_burstSize (fst (emitter_apply a p)) = be_burstSize p"
  by (cases a; simp add: BatchingEmitter_Add_def periodicEmit_def BatchingEmitter_Stop_def emit_eq Let_def)+

section \<open>Every message is emitted a fixed number of times\<close>

definition pending :: "'m \<Rightarrow> 'm batchedMessage list \<Rightarrow> int" where
  "pending x ms = sum_list (map (\<lambda>m. if bm_data m = x then bm_iterationsLeft m else 0) ms)"

definition emissions :: "'m \<Rightarrow> 'm list list \<Rightarrow> int" where
  "emissions x bs = int (count_list (concat bs) x)"

definition additions :: "'m \<Rightarrow> 'm emitter_op list \<Rightarrow> int" where
  "additions x as = int (count_list as (OpAdd x))"

lemma emissions_append [simp]: "emissions x (as @ bs) = emissions x as + emissions x bs"
  by (simp add: emissions_def)

lemma emissions_Nil [simp]: "emissions x [] = 0"
  by (simp add: emissions_def)

lemma pending_append [simp]: "pending x (ms @ ns) = pending x ms + pending x ns"
  by (simp add: pending_def)

lemma pending_countdown:
  "pending x (countdown ms) + int (count_list (map bm_data ms) x) = pending x ms"
  by (induction ms) (auto simp: pending_def countdown_def)

lemma emit_conserves:
  "pending x (be_buff (fst (emit p))) + emissions x (snd (emit p)) = pending x (be_buff p)"
  using pending_countdown [of x "be_buff p"]
  by (simp add: emit_eq emissions_def)

lemma op_conserves:
  "pending x (be_buff (fst (emitter_apply a p))) + emissions x (snd (emitter_apply a p)) =
     pending x (be_buff p) + be_iterations p * additions x [a]"
proof (cases a)
  case (OpAdd y)
  let ?p1 = "p\<lparr>be_buff := be_buff p @ [\<lparr>bm_data = y, bm_iterationsLeft = be_iterations p\<rparr>]\<rparr>"
  show ?thesis
    using OpAdd emit_conserves [of x ?p1]
    by (auto simp: BatchingEmitter_Add_def additions_def pending_def Let_def)
qed (use emit_conserves [of x p] in
      \<open>auto simp: periodicEmit_def BatchingEmitter_Stop_def additions_def\<close>)

lemma additions_Cons: "additions x (a # as) = additions x [a] + additions x as"
  by (simp add: additions_def)

lemma run_conserves:
  "emitter_run as p = (p', bs) \<Longrightarrow>
     pending x (be_buff p') + emissions x bs = pending x (be_buff p) + be_iterations p * additions x as"
proof (induction as arbitrary: p p' bs)
  case Nil
  then show ?case by (simp add: additions_def)
next
  case (Cons a as)
  obtain p1 bs1 where op: "emitter_apply a p = (p1, bs1)" by (cases "emitter_apply a p")
  obtain bs2 where run: "emitter_run as p1 = (p', bs2)" and bs: "bs = bs1 @ bs2"
    using Cons.prems op by (auto split: prod.splits)
  have "be_iterations p1 = be_iterations p" using emitter_apply_config(1) [of a p] op by simp
  with Cons.IH [OF run] op_conserves [of x a p] op show ?case
    by (simp add: bs additions_Cons [of x a as] algebra_simps)
qed

section \<open>How long the buffer gets\<close>

text \<open>
  The iterations left grow along the buffer, and from position \<open>burstSize - 1\<close> on they grow
  strictly: a message that arrives there is emitted at once. So at most
  \<open>iterations - 1\<close> messages lie beyond that position.
\<close>

definition lefts :: "'m BatchingEmitter \<Rightarrow> int list" where
  "lefts p = map bm_iterationsLeft (be_buff p)"

definition steep :: "nat \<Rightarrow> int \<Rightarrow> int list \<Rightarrow> bool" where
  "steep b T ls \<longleftrightarrow>
     sorted ls \<and> (\<forall>l\<in>set ls. 1 \<le> l \<and> l \<le> T) \<and>
     sorted_wrt (<) (drop b ls) \<and> (\<forall>l\<in>set (drop b ls). l < T)"

definition ticked :: "int list \<Rightarrow> int list" where
  "ticked ls = map (\<lambda>l. l - 1) (filter (\<lambda>l. l \<noteq> 1) ls)"

lemma lefts_countdown: "map bm_iterationsLeft (countdown ms) = ticked (map bm_iterationsLeft ms)"
  by (induction ms) (auto simp: countdown_def ticked_def)

lemma sorted_ones:
  assumes "sorted ls" "\<forall>l\<in>set ls. (1::int) \<le> l"
  shows "\<exists>r. filter (\<lambda>l. l \<noteq> 1) ls = drop r ls"
  using assms
proof (induction ls)
  case (Cons l ls)
  show ?case
  proof (cases "l = 1")
    case True
    with Cons obtain r where "filter (\<lambda>l. l \<noteq> 1) ls = drop r ls" by auto
    with True show ?thesis by (intro exI [of _ "Suc r"]) simp
  next
    case False
    with Cons.prems have "\<forall>k\<in>set (l # ls). k \<noteq> 1" by fastforce
    then have "filter (\<lambda>l. l \<noteq> 1) (l # ls) = l # ls" by (simp add: filter_id_conv)
    then show ?thesis by (intro exI [of _ 0]) simp
  qed
qed simp

lemma steep_ticked:
  assumes "steep b T ls"
  shows "steep b T (ticked ls) \<and> (\<forall>l\<in>set (ticked ls). l < T)"
proof -
  obtain r where r: "filter (\<lambda>l. l \<noteq> 1) ls = drop r ls"
    using sorted_ones [of ls] assms by (auto simp: steep_def)
  have "sorted_wrt (<) (drop r (drop b ls))"
    using assms unfolding steep_def by (blast intro: sorted_wrt_drop)
  then have "sorted_wrt (<) (drop b (drop r ls))" by (simp add: add.commute)
  moreover have "\<forall>l\<in>set (drop r ls). 1 \<le> l \<and> l \<le> T \<and> l \<noteq> 1"
    using assms by (auto simp: steep_def simp flip: r)
  moreover have "set (drop b (drop r ls)) \<subseteq> set (drop r ls)" by (rule set_drop_subset)
  moreover have "sorted (drop r ls)" using assms by (simp add: steep_def sorted_wrt_drop)
  moreover have "\<forall>l\<in>set (drop r ls). 1 \<le> l - 1 \<and> l - 1 < T" using calculation(2) by auto
  moreover have "sorted (map (\<lambda>l. l - 1) (drop r ls))"
    using calculation(4) unfolding sorted_wrt_map by (rule sorted_wrt_mono_rel [rotated]) simp
  moreover have "sorted_wrt (<) (map (\<lambda>l. l - 1) (drop b (drop r ls)))"
    using calculation(1) unfolding sorted_wrt_map by (rule sorted_wrt_mono_rel [rotated]) simp
  ultimately show ?thesis
    unfolding ticked_def r steep_def drop_map by auto
qed

lemma steep_snoc:
  assumes "steep b T ls" "1 \<le> T"
  shows "length ls < b \<Longrightarrow> steep b T (ls @ [T])"
    and "steep b T (ticked (ls @ [T]))"
proof -
  show "length ls < b \<Longrightarrow> steep b T (ls @ [T])"
    using assms by (auto simp: steep_def sorted_append)
  have T: "T \<noteq> 1 \<Longrightarrow> ticked (ls @ [T]) = ticked ls @ [T - 1]" "T = 1 \<Longrightarrow> ticked (ls @ [T]) = ticked ls"
    by (auto simp: ticked_def)
  have low: "\<forall>l\<in>set (drop b (ticked ls)). l < T - 1"
  proof -
    obtain r where r: "filter (\<lambda>l. l \<noteq> 1) ls = drop r ls"
      using sorted_ones [of ls] assms by (auto simp: steep_def)
    have "set (drop b (drop r ls)) \<subseteq> set (drop b ls)"
      using set_drop_subset [of r "drop b ls"] by (simp add: add.commute)
    then show ?thesis using assms(1)
      by (auto simp: ticked_def r drop_map steep_def)
  qed
  have st: "steep b T (ticked ls)" "\<forall>l\<in>set (ticked ls). l < T"
    using steep_ticked [OF assms(1)] by auto
  show "steep b T (ticked (ls @ [T]))"
  proof (cases "T = 1")
    case False
    have "\<forall>l\<in>set (ticked ls). l \<le> T - 1" using st(2) by fastforce
    with False st(1) low assms(2) show ?thesis
      unfolding T(1) [OF False] by (auto simp: steep_def sorted_append sorted_wrt_append dest: in_set_dropD)
  qed (use T st in simp)
qed

lemma strict_length:
  assumes "sorted_wrt (<) ls" "\<forall>l\<in>set ls. (1::int) \<le> l \<and> l < T"
  shows "int (length ls) \<le> max 0 (T - 1)"
proof -
  have "card (set ls) \<le> card {1..<T}" using assms(2) by (intro card_mono) auto
  moreover have "card (set ls) = length ls"
    using assms(1) by (simp add: distinct_card strict_sorted_iff)
  ultimately show ?thesis by simp
qed

definition emitter_ok :: "'m BatchingEmitter \<Rightarrow> bool" where
  "emitter_ok p \<longleftrightarrow>
     be_burstSize p \<ge> 1 \<and> be_iterations p \<ge> 1 \<and> \<not> be_stopFlag p \<and>
     steep (nat (be_burstSize p - 1)) (be_iterations p) (lefts p)"

lemma emit_ok: "emitter_ok p \<Longrightarrow> emitter_ok (fst (emit p))"
  using steep_ticked [of "nat (be_burstSize p - 1)" "be_iterations p" "lefts p"]
  by (auto simp: emitter_ok_def emit_eq lefts_def lefts_countdown)

lemma Add_ok: "emitter_ok p \<Longrightarrow> emitter_ok (fst (BatchingEmitter_Add x p))"
  using steep_snoc [of "nat (be_burstSize p - 1)" "be_iterations p" "lefts p"]
  by (auto simp: emitter_ok_def BatchingEmitter_Add_def emit_eq lefts_def lefts_countdown Let_def)

text \<open>The emitter as a machine that is not stopped.\<close>

inductive emitter_step :: "'m BatchingEmitter \<Rightarrow> 'm BatchingEmitter \<Rightarrow> bool" where
  es_Add: "emitter_step p (fst (BatchingEmitter_Add x p))"
| es_tick: "emitter_step p (fst (periodicEmit p))"

interpretation emitter: inv_machine
  "\<lambda>p. \<exists>T B. 1 \<le> T \<and> 1 \<le> B \<and> p = NewBatchingEmitter T B" emitter_step emitter_ok
proof unfold_locales
  show "emitter_step p q \<Longrightarrow> emitter_ok p \<Longrightarrow> emitter_ok q" for p q :: "'a BatchingEmitter"
    by (induction rule: emitter_step.induct) (auto simp: Add_ok emit_ok periodicEmit_def)
qed (auto simp: emitter_ok_def NewBatchingEmitter_def lefts_def steep_def)

lemma emitter_ok_size:
  assumes "emitter_ok p"
  shows "int (BatchingEmitter_Size p) \<le> (be_burstSize p - 1) + (be_iterations p - 1)"
proof -
  let ?b = "nat (be_burstSize p - 1)"
  have st: "steep ?b (be_iterations p) (lefts p)" "be_iterations p \<ge> 1" "be_burstSize p \<ge> 1"
    using assms by (auto simp: emitter_ok_def)
  have "\<forall>l\<in>set (drop ?b (lefts p)). 1 \<le> l \<and> l < be_iterations p"
    using st(1) by (auto simp: steep_def dest: in_set_dropD)
  then have "int (length (drop ?b (lefts p))) \<le> max 0 (be_iterations p - 1)"
    using st(1) by (intro strict_length) (auto simp: steep_def)
  with st(2,3) show ?thesis by (simp add: BatchingEmitter_Size_def lefts_def)
qed

lemma step_config: "emitter_step p q \<Longrightarrow> be_iterations q = be_iterations p \<and> be_burstSize q = be_burstSize p"
  by (erule emitter_step.cases)
     (auto simp: BatchingEmitter_Add_def periodicEmit_def emit_eq Let_def)

lemma steps_config:
  "emitter_step\<^sup>*\<^sup>* p q \<Longrightarrow> be_iterations q = be_iterations p \<and> be_burstSize q = be_burstSize p"
  by (induction rule: rtranclp_induct) (auto dest: step_config)

section \<open>Properties\<close>

text \<open>C38. Whatever order messages are added, rounds pass and the emitter is stopped in, the times a
  message was emitted plus the iterations its buffered copies have left are the configured
  iterations times the number of times it was added: a message that has left the buffer was
  emitted exactly that often.\<close>

theorem emitter_conservation:
  assumes "emitter_run as (NewBatchingEmitter T B) = (p, bs)"
  shows "pending x (be_buff p) + emissions x bs = T * additions x as"
  using run_conserves [OF assms, of x] by (simp add: NewBatchingEmitter_def pending_def)

theorem emitter_conservation_witness:
  "emissions (1::nat) (snd (emitter_run [OpAdd 1, OpAdd 2, OpTick, OpTick] (NewBatchingEmitter 3 2))) = 3"
proof -
  have run: "emitter_run [OpAdd (1::nat), OpAdd 2, OpTick, OpTick] (NewBatchingEmitter 3 2) =
      ((NewBatchingEmitter 3 2), [[1, 2], [1, 2], [1, 2]])"
    by (simp add: NewBatchingEmitter_def BatchingEmitter_Add_def periodicEmit_def emit_eq countdown_def Let_def)
  from emitter_conservation [OF run, of 1] show ?thesis
    unfolding run by (simp add: additions_def NewBatchingEmitter_def pending_def)
qed

text \<open>While it is not stopped, an emitter with at least one iteration and a burst size of at least one
  never buffers more than \<open>burstSize + iterations - 2\<close> messages.\<close>

theorem emitter_bounded:
  assumes "1 \<le> T" "1 \<le> B" "emitter_step\<^sup>*\<^sup>* (NewBatchingEmitter T B) p"
  shows "int (BatchingEmitter_Size p) \<le> B + T - 2"
proof -
  have "emitter_ok p" using assms by (blast intro: emitter.reach_inv)
  from emitter_ok_size [OF this] steps_config [OF assms(3)] show ?thesis
    by (simp add: NewBatchingEmitter_def)
qed

theorem emitter_bounded_witness:
  "int (BatchingEmitter_Size (fst (BatchingEmitter_Add (5::nat) (NewBatchingEmitter 3 1)))) \<le> 2"
proof -
  have "emitter_step\<^sup>*\<^sup>* (NewBatchingEmitter 3 1) (fst (BatchingEmitter_Add (5::nat) (NewBatchingEmitter 3 1)))"
    by (intro r_into_rtranclp es_Add)
  from emitter_bounded [OF _ _ this] show ?thesis by simp
qed

end
