(* ===== verification/Format.thy ===== *)
theory Format
  imports Prelude
begin

text \<open>
  The formatting and parsing of the standard library that the package's keys and topics go
  through: \<open>fmt.Sprintf("%d", n)\<close>, \<open>strconv.ParseUint(s, 10, 64)\<close> and
  \<open>hex.EncodeToString\<close>. Printing is injective and parsing undoes it, which is what makes
  digests and subscription topics stand for the sequence numbers and nonces in them.
\<close>

section \<open>Decimal\<close>

definition digit_char :: "nat \<Rightarrow> char" where
  "digit_char d = char_of (48 + d)"

definition char_digit :: "char \<Rightarrow> nat option" where
  "char_digit c =
     (let n = of_char c :: nat in if 48 \<le> n \<and> n \<le> 57 then Some (n - 48) else None)"

fun fmt_d :: "nat \<Rightarrow> string" where
  "fmt_d n = (if n < 10 then [digit_char n] else fmt_d (n div 10) @ [digit_char (n mod 10)])"

declare fmt_d.simps [simp del]

definition fmt_u64 :: "u64 \<Rightarrow> string" where
  "fmt_u64 w = fmt_d (unat w)"

fun parse_digits :: "nat \<Rightarrow> string \<Rightarrow> nat option" where
  "parse_digits acc [] = Some acc"
| "parse_digits acc (c # cs) =
     (case char_digit c of None \<Rightarrow> None | Some d \<Rightarrow> parse_digits (10 * acc + d) cs)"

text \<open>An empty string, a byte that is no digit and a value above 64 bits are errors.\<close>

definition parse_uint :: "string \<Rightarrow> error + u64" where
  "parse_uint s =
     (if s = [] then Inl (Error ''invalid syntax'')
      else case parse_digits 0 s of
        None \<Rightarrow> Inl (Error ''invalid syntax'')
      | Some n \<Rightarrow>
          if n < 2 ^ 64 then Inr (of_nat n) else Inl (Error ''value out of range''))"

lemma char_digit_digit_char [simp]: "d < 10 \<Longrightarrow> char_digit (digit_char d) = Some d"
  by (simp add: char_digit_def digit_char_def Let_def)

lemma parse_digits_append:
  "parse_digits acc (xs @ ys) = Option.bind (parse_digits acc xs) (\<lambda>a. parse_digits a ys)"
  by (induction xs arbitrary: acc) (auto split: option.splits)

lemma parse_digits_fmt_d: "parse_digits 0 (fmt_d n) = Some n"
proof (induction n rule: fmt_d.induct)
  case (1 n)
  show ?case
  proof (cases "n < 10")
    case True
    then show ?thesis by (simp add: fmt_d.simps [of n])
  next
    case False
    with 1 show ?thesis by (simp add: fmt_d.simps [of n] parse_digits_append)
  qed
qed

lemma fmt_d_nonempty [simp]: "fmt_d n \<noteq> []"
  by (simp add: fmt_d.simps [of n])

lemma fmt_d_inject [simp]: "fmt_d m = fmt_d n \<longleftrightarrow> m = n"
  by (metis option.inject parse_digits_fmt_d)

lemma fmt_u64_inject [simp]: "fmt_u64 v = fmt_u64 w \<longleftrightarrow> v = w"
  by (simp add: fmt_u64_def word_unat_eq_iff)

lemma fmt_u64_nonempty [simp]: "fmt_u64 w \<noteq> []"
  by (simp add: fmt_u64_def)

lemma parse_uint_fmt_u64 [simp]: "parse_uint (fmt_u64 w) = Inr w"
proof -
  have "unat w < 2 ^ 64" by (rule order_less_le_trans [OF unsigned_less]) simp
  then show ?thesis by (simp add: parse_uint_def fmt_u64_def parse_digits_fmt_d)
qed

lemma fmt_d_digits: "c \<in> set (fmt_d n) \<Longrightarrow> char_digit c \<noteq> None"
proof (induction n rule: fmt_d.induct)
  case (1 n)
  then show ?case
    by (cases "n < 10") (auto simp: fmt_d.simps [of n])
qed

section \<open>Hexadecimal\<close>

definition hex_digit :: "nat \<Rightarrow> char" where
  "hex_digit d = (if d < 10 then char_of (48 + d) else char_of (87 + d))"

fun hex_encode :: "string \<Rightarrow> string" where
  "hex_encode [] = []"
| "hex_encode (c # cs) =
     hex_digit ((of_char c :: nat) div 16) # hex_digit ((of_char c :: nat) mod 16) # hex_encode cs"

lemma hex_digit_inject:
  assumes "a < 16" "b < 16" "hex_digit a = hex_digit b"
  shows "a = b"
proof -
  have "(of_char (hex_digit a) :: nat) = of_char (hex_digit b)" using assms(3) by simp
  with assms(1,2) show ?thesis
    by (auto simp: hex_digit_def split: if_splits)
qed

lemma hex_byte_inject:
  assumes "hex_digit ((of_char c :: nat) div 16) = hex_digit ((of_char d :: nat) div 16)"
    and "hex_digit ((of_char c :: nat) mod 16) = hex_digit ((of_char d :: nat) mod 16)"
  shows "c = d"
proof -
  have "(of_char c :: nat) < 256" "(of_char d :: nat) < 256"
    using nat_of_char_less_256 by auto
  then have "(of_char c :: nat) div 16 = of_char d div 16" "(of_char c :: nat) mod 16 = of_char d mod 16"
    using assms by (auto intro!: hex_digit_inject simp: less_mult_imp_div_less)
  then have "(of_char c :: nat) = of_char d" by (metis mult_div_mod_eq)
  then show ?thesis by simp
qed

lemma hex_encode_inject [simp]: "hex_encode s = hex_encode t \<longleftrightarrow> s = t"
proof
  show "hex_encode s = hex_encode t \<Longrightarrow> s = t"
  proof (induction s arbitrary: t)
    case Nil
    then show ?case by (cases t) auto
  next
    case (Cons c s)
    then show ?case by (cases t) (auto dest: hex_byte_inject)
  qed
qed simp

section \<open>Topics\<close>

text \<open>
  \<open>fmt.Sprintf("%d %s", nonce, hex.EncodeToString(pkiID))\<close>, the topic an acknowledgement
  is published on: no two pairs of a nonce and an identity share one.
\<close>

definition ack_topic :: "u64 \<Rightarrow> bytes \<Rightarrow> string" where
  "ack_topic nonce pkiID = fmt_u64 nonce @ '' '' @ hex_encode (str_of pkiID)"

lemma split_at_space:
  assumes "xs @ CHR '' '' # ys = xs' @ CHR '' '' # ys'"
    and "CHR '' '' \<notin> set xs" and "CHR '' '' \<notin> set xs'"
  shows "xs = xs' \<and> ys = ys'"
  using assms
proof (induction xs arbitrary: xs')
  case Nil
  then show ?case by (cases xs') auto
next
  case (Cons x xs)
  then show ?case by (cases xs') auto
qed

lemma space_not_in_fmt_u64: "CHR '' '' \<notin> set (fmt_u64 w)"
  using fmt_d_digits [of "CHR '' ''" "unat w"] by (auto simp: fmt_u64_def char_digit_def Let_def)

lemma ack_topic_inject:
  "ack_topic n p = ack_topic n' p' \<longleftrightarrow> n = n' \<and> str_of p = str_of p'"
proof
  assume "ack_topic n p = ack_topic n' p'"
  then have "fmt_u64 n = fmt_u64 n' \<and> hex_encode (str_of p) = hex_encode (str_of p')"
    by (intro split_at_space) (auto simp: ack_topic_def space_not_in_fmt_u64)
  then show "n = n' \<and> str_of p = str_of p'" by simp
qed (simp add: ack_topic_def)

end
