(* ===== verification/Messages.thy ===== *)
theory Messages
  imports Format
begin

text \<open>
  The protocol messages (message.proto, message.pb.go): one record per message, the enums
  with a constructor for the values a proto3 enum may carry beyond the named ones, the
  content of a gossip message as one datatype, and the getters. A pointer field is an
  option (nil is \<open>None\<close>), a repeated message field a list of pointers. A getter of a content
  gives the wrapped message when the content is of its kind and nil otherwise.
\<close>

section \<open>Enums\<close>

datatype PullMsgType =
    PullMsgType_UNDEFINED
  | PullMsgType_BLOCK_MSG
  | PullMsgType_IDENTITY_MSG
  | PullMsgType_Other "32 word"

datatype Tag =
    Tag_UNDEFINED
  | Tag_EMPTY
  | Tag_ORG_ONLY
  | Tag_CHAN_ONLY
  | Tag_CHAN_AND_ORG
  | Tag_CHAN_OR_ORG
  | Tag_Other "32 word"

text \<open>The name tables; a lookup of a number they lack gives the empty string.\<close>

fun PullMsgType_name :: "PullMsgType \<Rightarrow> string" where
  "PullMsgType_name PullMsgType_UNDEFINED = ''UNDEFINED''"
| "PullMsgType_name PullMsgType_BLOCK_MSG = ''BLOCK_MSG''"
| "PullMsgType_name PullMsgType_IDENTITY_MSG = ''IDENTITY_MSG''"
| "PullMsgType_name (PullMsgType_Other _) = []"

fun Tag_name :: "Tag \<Rightarrow> string" where
  "Tag_name Tag_UNDEFINED = ''UNDEFINED''"
| "Tag_name Tag_EMPTY = ''EMPTY''"
| "Tag_name Tag_ORG_ONLY = ''ORG_ONLY''"
| "Tag_name Tag_CHAN_ONLY = ''CHAN_ONLY''"
| "Tag_name Tag_CHAN_AND_ORG = ''CHAN_AND_ORG''"
| "Tag_name Tag_CHAN_OR_ORG = ''CHAN_OR_ORG''"
| "Tag_name (Tag_Other _) = []"

section \<open>Messages\<close>

record SecretEnvelope =
  se_Payload :: bytes
  se_Signature :: bytes

record Envelope =
  ev_Payload :: bytes
  ev_Signature :: bytes
  ev_SecretEnvelope :: "SecretEnvelope option"

datatype Secret_Content = Secret_InternalEndpoint string

record Secret =
  sc_Content :: "Secret_Content option"

datatype PeerTime = PeerTime (IncNum: u64) (SeqNum: u64)

record Member =
  mb_Endpoint :: string
  mb_Metadata :: bytes
  mb_PkiId :: bytes

record AliveMessage =
  am_Membership :: "Member option"
  am_Timestamp :: "PeerTime option"
  am_Identity :: bytes

record MembershipRequest =
  mq_SelfInformation :: "Envelope option"
  mq_Known :: "bytes list"

record MembershipResponse =
  mr_Alive :: "Envelope option list"
  mr_Dead :: "Envelope option list"

record Payload =
  pl_SeqNum :: u64
  pl_Data :: bytes
  pl_PrivateData :: "bytes list"

record DataMessage =
  dm_Payload :: "Payload option"

record GossipHello =
  gh_Nonce :: u64
  gh_Metadata :: bytes
  gh_MsgType :: PullMsgType

record DataDigest =
  dd_Nonce :: u64
  dd_Digests :: "bytes list"
  dd_MsgType :: PullMsgType

record DataRequest =
  dr_Nonce :: u64
  dr_Digests :: "bytes list"
  dr_MsgType :: PullMsgType

record DataUpdate =
  du_Nonce :: u64
  du_Data :: "Envelope option list"
  du_MsgType :: PullMsgType

datatype Empty = Empty

record ConnEstablish =
  ce_PkiId :: bytes
  ce_Identity :: bytes
  ce_TlsCertHash :: bytes

record Chaincode =
  cc_Name :: string
  cc_Version :: string
  cc_Metadata :: bytes

record Properties =
  pr_LedgerHeight :: u64
  pr_LeftChannel :: bool
  pr_Chaincodes :: "Chaincode list"

record StateInfo =
  si_Timestamp :: "PeerTime option"
  si_PkiId :: bytes
  si_Channel_MAC :: bytes
  si_Properties :: "Properties option"

record StateInfoSnapshot =
  ss_Elements :: "Envelope option list"

record StateInfoPullRequest =
  sp_Channel_MAC :: bytes

record RemoteStateRequest =
  rq_StartSeqNum :: u64
  rq_EndSeqNum :: u64

record RemoteStateResponse =
  rr_Payloads :: "Payload list"

record LeadershipMessage =
  lm_PkiId :: bytes
  lm_Timestamp :: "PeerTime option"
  lm_IsDeclaration :: bool

record PeerIdentity =
  pi_PkiId :: bytes
  pi_Cert :: bytes
  pi_Metadata :: bytes

record Acknowledgement =
  ak_Error :: string

record PvtDataDigest =
  pd_TxId :: string
  pd_Namespace :: string
  pd_Collection :: string
  pd_BlockSeq :: u64
  pd_SeqInBlock :: u64

record RemotePvtDataRequest =
  pq_Digests :: "PvtDataDigest list"

record PvtDataElement =
  pe_Digest :: "PvtDataDigest option"
  pe_Payload :: "bytes list"

record RemotePvtDataResponse =
  ps_Elements :: "PvtDataElement list"

record PrivatePayload =
  pp_CollectionName :: string
  pp_Namespace :: string
  pp_TxId :: string
  pp_PrivateRwset :: bytes
  pp_PrivateSimHeight :: u64

record PrivateDataMessage =
  pm_Payload :: "PrivatePayload option"

text \<open>The oneof \<open>content\<close>: a wrapper carries the message it wraps.\<close>

datatype Content =
    AliveMsg AliveMessage
  | MemReq MembershipRequest
  | MemRes MembershipResponse
  | DataMsg DataMessage
  | HelloMsg GossipHello
  | DataDig DataDigest
  | DataReq DataRequest
  | DataUpdateMsg DataUpdate
  | EmptyMsg Empty
  | ConnMsg ConnEstablish
  | StateInfoMsg StateInfo
  | StateSnapshot StateInfoSnapshot
  | StateInfoPullReq StateInfoPullRequest
  | StateRequest RemoteStateRequest
  | StateResponse RemoteStateResponse
  | LeadershipMsg LeadershipMessage
  | PeerIdentityMsg PeerIdentity
  | AckMsg Acknowledgement
  | PrivateReq RemotePvtDataRequest
  | PrivateRes RemotePvtDataResponse
  | PrivateData PrivateDataMessage

record GossipMessage =
  gm_Nonce :: u64
  gm_Channel :: bytes
  gm_Tag :: Tag
  gm_Content :: "Content option"

text \<open>A gossip message together with the envelope it came in or was signed into.\<close>

record SignedGossipMessage =
  sg_Envelope :: "Envelope option"
  sg_Msg :: GossipMessage

section \<open>Getters\<close>

definition GetInternalEndpoint :: "Secret \<Rightarrow> string" where
  "GetInternalEndpoint s =
     (case sc_Content s of Some (Secret_InternalEndpoint e) \<Rightarrow> e | None \<Rightarrow> [])"

definition GetAliveMsg :: "GossipMessage \<Rightarrow> AliveMessage option" where
  "GetAliveMsg m = (case gm_Content m of Some (AliveMsg x) \<Rightarrow> Some x | _ \<Rightarrow> None)"

definition GetMemReq :: "GossipMessage \<Rightarrow> MembershipRequest option" where
  "GetMemReq m = (case gm_Content m of Some (MemReq x) \<Rightarrow> Some x | _ \<Rightarrow> None)"

definition GetMemRes :: "GossipMessage \<Rightarrow> MembershipResponse option" where
  "GetMemRes m = (case gm_Content m of Some (MemRes x) \<Rightarrow> Some x | _ \<Rightarrow> None)"

definition GetDataMsg :: "GossipMessage \<Rightarrow> DataMessage option" where
  "GetDataMsg m = (case gm_Content m of Some (DataMsg x) \<Rightarrow> Some x | _ \<Rightarrow> None)"

definition GetHello :: "GossipMessage \<Rightarrow> GossipHello option" where
  "GetHello m = (case gm_Content m of Some (HelloMsg x) \<Rightarrow> Some x | _ \<Rightarrow> None)"

definition GetDataDig :: "GossipMessage \<Rightarrow> DataDigest option" where
  "GetDataDig m = (case gm_Content m of Some (DataDig x) \<Rightarrow> Some x | _ \<Rightarrow> None)"

definition GetDataReq :: "GossipMessage \<Rightarrow> DataRequest option" where
  "GetDataReq m = (case gm_Content m of Some (DataReq x) \<Rightarrow> Some x | _ \<Rightarrow> None)"

definition GetDataUpdate :: "GossipMessage \<Rightarrow> DataUpdate option" where
  "GetDataUpdate m = (case gm_Content m of Some (DataUpdateMsg x) \<Rightarrow> Some x | _ \<Rightarrow> None)"

definition GetEmpty :: "GossipMessage \<Rightarrow> Empty option" where
  "GetEmpty m = (case gm_Content m of Some (EmptyMsg x) \<Rightarrow> Some x | _ \<Rightarrow> None)"

definition GetConn :: "GossipMessage \<Rightarrow> ConnEstablish option" where
  "GetConn m = (case gm_Content m of Some (ConnMsg x) \<Rightarrow> Some x | _ \<Rightarrow> None)"

definition GetStateInfo :: "GossipMessage \<Rightarrow> StateInfo option" where
  "GetStateInfo m = (case gm_Content m of Some (StateInfoMsg x) \<Rightarrow> Some x | _ \<Rightarrow> None)"

definition GetStateSnapshot :: "GossipMessage \<Rightarrow> StateInfoSnapshot option" where
  "GetStateSnapshot m = (case gm_Content m of Some (StateSnapshot x) \<Rightarrow> Some x | _ \<Rightarrow> None)"

definition GetStateInfoPullReq :: "GossipMessage \<Rightarrow> StateInfoPullRequest option" where
  "GetStateInfoPullReq m = (case gm_Content m of Some (StateInfoPullReq x) \<Rightarrow> Some x | _ \<Rightarrow> None)"

definition GetStateRequest :: "GossipMessage \<Rightarrow> RemoteStateRequest option" where
  "GetStateRequest m = (case gm_Content m of Some (StateRequest x) \<Rightarrow> Some x | _ \<Rightarrow> None)"

definition GetStateResponse :: "GossipMessage \<Rightarrow> RemoteStateResponse option" where
  "GetStateResponse m = (case gm_Content m of Some (StateResponse x) \<Rightarrow> Some x | _ \<Rightarrow> None)"

definition GetLeadershipMsg :: "GossipMessage \<Rightarrow> LeadershipMessage option" where
  "GetLeadershipMsg m = (case gm_Content m of Some (LeadershipMsg x) \<Rightarrow> Some x | _ \<Rightarrow> None)"

definition GetPeerIdentity :: "GossipMessage \<Rightarrow> PeerIdentity option" where
  "GetPeerIdentity m = (case gm_Content m of Some (PeerIdentityMsg x) \<Rightarrow> Some x | _ \<Rightarrow> None)"

definition GetAck :: "GossipMessage \<Rightarrow> Acknowledgement option" where
  "GetAck m = (case gm_Content m of Some (AckMsg x) \<Rightarrow> Some x | _ \<Rightarrow> None)"

definition GetPrivateReq :: "GossipMessage \<Rightarrow> RemotePvtDataRequest option" where
  "GetPrivateReq m = (case gm_Content m of Some (PrivateReq x) \<Rightarrow> Some x | _ \<Rightarrow> None)"

definition GetPrivateRes :: "GossipMessage \<Rightarrow> RemotePvtDataResponse option" where
  "GetPrivateRes m = (case gm_Content m of Some (PrivateRes x) \<Rightarrow> Some x | _ \<Rightarrow> None)"

definition GetPrivateData :: "GossipMessage \<Rightarrow> PrivateDataMessage option" where
  "GetPrivateData m = (case gm_Content m of Some (PrivateData x) \<Rightarrow> Some x | _ \<Rightarrow> None)"

lemmas getter_defs =
  GetAliveMsg_def GetMemReq_def GetMemRes_def GetDataMsg_def GetHello_def GetDataDig_def
  GetDataReq_def GetDataUpdate_def GetEmpty_def GetConn_def GetStateInfo_def
  GetStateSnapshot_def GetStateInfoPullReq_def GetStateRequest_def GetStateResponse_def
  GetLeadershipMsg_def GetPeerIdentity_def GetAck_def GetPrivateReq_def GetPrivateRes_def
  GetPrivateData_def

text \<open>A message is of one kind: a getter succeeds for exactly one constructor.\<close>

lemma getter_Some_iff [go_simps]:
  "GetAliveMsg m = Some x0 \<longleftrightarrow> gm_Content m = Some (AliveMsg x0)"
  "GetMemReq m = Some x1 \<longleftrightarrow> gm_Content m = Some (MemReq x1)"
  "GetMemRes m = Some x2 \<longleftrightarrow> gm_Content m = Some (MemRes x2)"
  "GetDataMsg m = Some x3 \<longleftrightarrow> gm_Content m = Some (DataMsg x3)"
  "GetHello m = Some x4 \<longleftrightarrow> gm_Content m = Some (HelloMsg x4)"
  "GetDataDig m = Some x5 \<longleftrightarrow> gm_Content m = Some (DataDig x5)"
  "GetDataReq m = Some x6 \<longleftrightarrow> gm_Content m = Some (DataReq x6)"
  "GetDataUpdate m = Some x7 \<longleftrightarrow> gm_Content m = Some (DataUpdateMsg x7)"
  "GetEmpty m = Some x8 \<longleftrightarrow> gm_Content m = Some (EmptyMsg x8)"
  "GetConn m = Some x9 \<longleftrightarrow> gm_Content m = Some (ConnMsg x9)"
  "GetStateInfo m = Some x10 \<longleftrightarrow> gm_Content m = Some (StateInfoMsg x10)"
  "GetStateSnapshot m = Some x11 \<longleftrightarrow> gm_Content m = Some (StateSnapshot x11)"
  "GetStateInfoPullReq m = Some x12 \<longleftrightarrow> gm_Content m = Some (StateInfoPullReq x12)"
  "GetStateRequest m = Some x13 \<longleftrightarrow> gm_Content m = Some (StateRequest x13)"
  "GetStateResponse m = Some x14 \<longleftrightarrow> gm_Content m = Some (StateResponse x14)"
  "GetLeadershipMsg m = Some x15 \<longleftrightarrow> gm_Content m = Some (LeadershipMsg x15)"
  "GetPeerIdentity m = Some x16 \<longleftrightarrow> gm_Content m = Some (PeerIdentityMsg x16)"
  "GetAck m = Some x17 \<longleftrightarrow> gm_Content m = Some (AckMsg x17)"
  "GetPrivateReq m = Some x18 \<longleftrightarrow> gm_Content m = Some (PrivateReq x18)"
  "GetPrivateRes m = Some x19 \<longleftrightarrow> gm_Content m = Some (PrivateRes x19)"
  "GetPrivateData m = Some x20 \<longleftrightarrow> gm_Content m = Some (PrivateData x20)"
  by (auto simp: getter_defs split: option.splits Content.splits)

end
