(* ===== verification/Policy.thy ===== *)
theory Policy
  imports Messages
begin

text \<open>
  Classification of messages and the replacement policy of msg.go. The logical time of a
  peer is linearly ordered by incarnation and then sequence number, and the policies
  compare it. The interface a message store needs of a policy is the locale
  \<open>replacing_policy\<close>, with \<open>newest_policy\<close> for the policies that keep the newest
  message of each peer; both are interpreted on the code's comparator.
\<close>

section \<open>Classification\<close>

definition IsPullMsg :: "GossipMessage \<Rightarrow> bool" where
  "IsPullMsg m \<longleftrightarrow>
     GetDataReq m \<noteq> None \<or> GetDataUpdate m \<noteq> None \<or> GetHello m \<noteq> None \<or> GetDataDig m \<noteq> None"

definition IsChannelRestricted :: "GossipMessage \<Rightarrow> bool" where
  "IsChannelRestricted m \<longleftrightarrow>
     gm_Tag m = Tag_CHAN_AND_ORG \<or> gm_Tag m = Tag_CHAN_ONLY \<or> gm_Tag m = Tag_CHAN_OR_ORG"

definition IsOrgRestricted :: "GossipMessage \<Rightarrow> bool" where
  "IsOrgRestricted m \<longleftrightarrow> gm_Tag m = Tag_CHAN_AND_ORG \<or> gm_Tag m = Tag_ORG_ONLY"

definition IsPrivateDataMsg :: "GossipMessage \<Rightarrow> bool" where
  "IsPrivateDataMsg m \<longleftrightarrow>
     GetPrivateReq m \<noteq> None \<or> GetPrivateRes m \<noteq> None \<or> GetPrivateData m \<noteq> None"

definition GetPullMsgType :: "GossipMessage \<Rightarrow> PullMsgType" where
  "GetPullMsgType m =
     (case GetHello m of Some h \<Rightarrow> gh_MsgType h
      | None \<Rightarrow> (case GetDataDig m of Some d \<Rightarrow> dd_MsgType d
      | None \<Rightarrow> (case GetDataReq m of Some r \<Rightarrow> dr_MsgType r
      | None \<Rightarrow> (case GetDataUpdate m of Some u \<Rightarrow> du_MsgType u
      | None \<Rightarrow> PullMsgType_UNDEFINED))))"

definition tag_should_be :: "Tag \<Rightarrow> GossipMessage \<Rightarrow> error option" where
  "tag_should_be t m =
     (if gm_Tag m \<noteq> t then Some (Error (''tag should be '' @ Tag_name t)) else None)"

text \<open>The tests of \<open>IsTagLegal\<close> in the code's order; \<open>None\<close> is the nil error.\<close>

definition IsTagLegal :: "GossipMessage \<Rightarrow> error option" where
  "IsTagLegal m =
     (if gm_Tag m = Tag_UNDEFINED then Some (Error ''undefined tag'')
      else if GetDataMsg m \<noteq> None then tag_should_be Tag_CHAN_AND_ORG m
      else if GetAliveMsg m \<noteq> None \<or> GetMemReq m \<noteq> None \<or> GetMemRes m \<noteq> None
        then tag_should_be Tag_EMPTY m
      else if GetPeerIdentity m \<noteq> None then tag_should_be Tag_ORG_ONLY m
      else if IsPullMsg m then
        (case GetPullMsgType m of
           PullMsgType_BLOCK_MSG \<Rightarrow> tag_should_be Tag_CHAN_AND_ORG m
         | PullMsgType_IDENTITY_MSG \<Rightarrow> tag_should_be Tag_EMPTY m
         | t \<Rightarrow> Some (Error (''invalid PullMsgType:'' @ PullMsgType_name t)))
      else if GetStateInfo m \<noteq> None \<or> GetStateInfoPullReq m \<noteq> None \<or>
              GetStateSnapshot m \<noteq> None \<or> GetStateRequest m \<noteq> None \<or> GetStateResponse m \<noteq> None
        then tag_should_be Tag_CHAN_OR_ORG m
      else if GetLeadershipMsg m \<noteq> None then tag_should_be Tag_CHAN_AND_ORG m
      else Some (Error ''unknown message type''))"

lemmas classify_defs = IsPullMsg_def IsChannelRestricted_def IsOrgRestricted_def
  IsPrivateDataMsg_def GetPullMsgType_def tag_should_be_def IsTagLegal_def

text \<open>The tag each content is sent with: the specification of \<open>IsTagLegal\<close>.\<close>

definition pull_tag :: "PullMsgType \<Rightarrow> Tag option" where
  "pull_tag t =
     (case t of PullMsgType_BLOCK_MSG \<Rightarrow> Some Tag_CHAN_AND_ORG
      | PullMsgType_IDENTITY_MSG \<Rightarrow> Some Tag_EMPTY | _ \<Rightarrow> None)"

fun required_tag :: "Content \<Rightarrow> Tag option" where
  "required_tag (DataMsg _) = Some Tag_CHAN_AND_ORG"
| "required_tag (AliveMsg _) = Some Tag_EMPTY"
| "required_tag (MemReq _) = Some Tag_EMPTY"
| "required_tag (MemRes _) = Some Tag_EMPTY"
| "required_tag (PeerIdentityMsg _) = Some Tag_ORG_ONLY"
| "required_tag (HelloMsg h) = pull_tag (gh_MsgType h)"
| "required_tag (DataDig d) = pull_tag (dd_MsgType d)"
| "required_tag (DataReq r) = pull_tag (dr_MsgType r)"
| "required_tag (DataUpdateMsg u) = pull_tag (du_MsgType u)"
| "required_tag (StateInfoMsg _) = Some Tag_CHAN_OR_ORG"
| "required_tag (StateInfoPullReq _) = Some Tag_CHAN_OR_ORG"
| "required_tag (StateSnapshot _) = Some Tag_CHAN_OR_ORG"
| "required_tag (StateRequest _) = Some Tag_CHAN_OR_ORG"
| "required_tag (StateResponse _) = Some Tag_CHAN_OR_ORG"
| "required_tag (LeadershipMsg _) = Some Tag_CHAN_AND_ORG"
| "required_tag _ = None"

definition tag_spec :: "GossipMessage \<Rightarrow> bool" where
  "tag_spec m \<longleftrightarrow>
     (case gm_Content m of None \<Rightarrow> False | Some c \<Rightarrow> required_tag c = Some (gm_Tag m))"

lemma IsTagLegal_iff: "IsTagLegal m = None \<longleftrightarrow> tag_spec m"
proof (cases "gm_Content m")
  case None
  then show ?thesis by (simp add: tag_spec_def classify_defs getter_defs)
next
  case (Some c)
  then show ?thesis
    by (cases c) (auto simp: tag_spec_def classify_defs getter_defs pull_tag_def split: PullMsgType.splits)
qed

section \<open>Logical time\<close>

instantiation PeerTime :: linorder
begin

definition less_eq_PeerTime :: "PeerTime \<Rightarrow> PeerTime \<Rightarrow> bool" where
  "less_eq_PeerTime a b \<longleftrightarrow> IncNum a < IncNum b \<or> IncNum a = IncNum b \<and> SeqNum a \<le> SeqNum b"

definition less_PeerTime :: "PeerTime \<Rightarrow> PeerTime \<Rightarrow> bool" where
  "less_PeerTime a b \<longleftrightarrow> IncNum a < IncNum b \<or> IncNum a = IncNum b \<and> SeqNum a < SeqNum b"

instance
  by standard
     (auto simp: less_eq_PeerTime_def less_PeerTime_def PeerTime.expand not_less order_le_less)

end

section \<open>The comparator\<close>

datatype InvalidationResult = MessageNoAction | MessageInvalidates | MessageInvalidated

text \<open>
  A result \<open>None\<close> is the panic of a nil pointer dereference: the policies read the
  membership, the timestamp or the payload of a message without a test.
\<close>

definition compareTimestamps :: "PeerTime option \<Rightarrow> PeerTime option \<Rightarrow> InvalidationResult option" where
  "compareTimestamps thisTS thatTS = do {
     a \<leftarrow> thisTS;
     b \<leftarrow> thatTS;
     Some (if IncNum a = IncNum b
           then (if SeqNum a > SeqNum b then MessageInvalidates else MessageInvalidated)
           else if IncNum a < IncNum b then MessageInvalidated
           else MessageInvalidates)
   }"

definition abs_diff :: "u64 \<Rightarrow> u64 \<Rightarrow> u64" where
  "abs_diff a b = (if a > b then a - b else b - a)"

definition aliveInvalidationPolicy :: "AliveMessage \<Rightarrow> AliveMessage \<Rightarrow> InvalidationResult option" where
  "aliveInvalidationPolicy thisMsg thatMsg = do {
     a \<leftarrow> am_Membership thisMsg;
     b \<leftarrow> am_Membership thatMsg;
     if \<not> bytes_eq (mb_PkiId a) (mb_PkiId b) then Some MessageNoAction
     else compareTimestamps (am_Timestamp thisMsg) (am_Timestamp thatMsg)
   }"

definition leaderInvalidationPolicy ::
  "LeadershipMessage \<Rightarrow> LeadershipMessage \<Rightarrow> InvalidationResult option" where
  "leaderInvalidationPolicy thisMsg thatMsg =
     (if \<not> bytes_eq (lm_PkiId thisMsg) (lm_PkiId thatMsg) then Some MessageNoAction
      else compareTimestamps (lm_Timestamp thisMsg) (lm_Timestamp thatMsg))"

definition stateInvalidationPolicy :: "StateInfo \<Rightarrow> StateInfo \<Rightarrow> InvalidationResult option" where
  "stateInvalidationPolicy thisMsg thatMsg =
     (if \<not> bytes_eq (si_PkiId thisMsg) (si_PkiId thatMsg) then Some MessageNoAction
      else compareTimestamps (si_Timestamp thisMsg) (si_Timestamp thatMsg))"

definition idInvalidationPolicy :: "PeerIdentity \<Rightarrow> PeerIdentity \<Rightarrow> InvalidationResult option" where
  "idInvalidationPolicy thisMsg thatMsg =
     (if bytes_eq (pi_PkiId thisMsg) (pi_PkiId thatMsg) then Some MessageInvalidated
      else Some MessageNoAction)"

definition dataInvalidationPolicy ::
  "int \<Rightarrow> DataMessage \<Rightarrow> DataMessage \<Rightarrow> InvalidationResult option" where
  "dataInvalidationPolicy dataBlockStorageSize thisMsg thatMsg = do {
     p \<leftarrow> dm_Payload thisMsg;
     q \<leftarrow> dm_Payload thatMsg;
     Some (if pl_SeqNum p = pl_SeqNum q then MessageInvalidated
           else if abs_diff (pl_SeqNum p) (pl_SeqNum q) \<le> word_of_int dataBlockStorageSize
             then MessageNoAction
           else if pl_SeqNum p > pl_SeqNum q then MessageInvalidates
           else MessageInvalidated)
   }"

definition invalidationPolicy ::
  "int \<Rightarrow> SignedGossipMessage \<Rightarrow> SignedGossipMessage \<Rightarrow> InvalidationResult option" where
  "invalidationPolicy dataBlockStorageSize this that =
     (let m = sg_Msg this; n = sg_Msg that in
      case (GetAliveMsg m, GetAliveMsg n) of
        (Some a, Some b) \<Rightarrow> aliveInvalidationPolicy a b
      | _ \<Rightarrow> (case (GetDataMsg m, GetDataMsg n) of
        (Some a, Some b) \<Rightarrow> dataInvalidationPolicy dataBlockStorageSize a b
      | _ \<Rightarrow> (case (GetStateInfo m, GetStateInfo n) of
        (Some a, Some b) \<Rightarrow> stateInvalidationPolicy a b
      | _ \<Rightarrow> (case (GetPeerIdentity m, GetPeerIdentity n) of
        (Some a, Some b) \<Rightarrow> idInvalidationPolicy a b
      | _ \<Rightarrow> (case (GetLeadershipMsg m, GetLeadershipMsg n) of
        (Some a, Some b) \<Rightarrow> leaderInvalidationPolicy a b
      | _ \<Rightarrow> Some MessageNoAction)))))"

definition NewGossipMessageComparator ::
  "int \<Rightarrow> SignedGossipMessage \<Rightarrow> SignedGossipMessage \<Rightarrow> InvalidationResult option" where
  "NewGossipMessageComparator dataBlockStorageSize = invalidationPolicy dataBlockStorageSize"

lemmas policy_defs = NewGossipMessageComparator_def invalidationPolicy_def aliveInvalidationPolicy_def
  dataInvalidationPolicy_def stateInvalidationPolicy_def idInvalidationPolicy_def
  leaderInvalidationPolicy_def

lemma compareTimestamps_order [simp]:
  "compareTimestamps (Some a) (Some b) =
     Some (if b < a then MessageInvalidates else MessageInvalidated)"
  by (auto simp: compareTimestamps_def less_PeerTime_def)

lemma compareTimestamps_panic [simp]:
  "compareTimestamps None b = None" "compareTimestamps a None = None"
  by (simp_all add: compareTimestamps_def)

section \<open>What the comparator compares\<close>

text \<open>
  A message the comparator has a policy for, reduced to what the policy reads: the kind
  with the peer and its time, the sequence number of a block, or the identity. A message
  with a nil pointer where a policy dereferences, or of another kind, has no view.
\<close>

datatype view =
    VAlive string PeerTime
  | VData u64
  | VState string PeerTime
  | VIdentity string
  | VLeader string PeerTime

definition view_of :: "SignedGossipMessage \<Rightarrow> view option" where
  "view_of s =
     (case gm_Content (sg_Msg s) of
        Some (AliveMsg a) \<Rightarrow> do {
          m \<leftarrow> am_Membership a; t \<leftarrow> am_Timestamp a; Some (VAlive (str_of (mb_PkiId m)) t) }
      | Some (DataMsg d) \<Rightarrow> do { p \<leftarrow> dm_Payload d; Some (VData (pl_SeqNum p)) }
      | Some (StateInfoMsg i) \<Rightarrow> do { t \<leftarrow> si_Timestamp i; Some (VState (str_of (si_PkiId i)) t) }
      | Some (PeerIdentityMsg i) \<Rightarrow> Some (VIdentity (str_of (pi_PkiId i)))
      | Some (LeadershipMsg l) \<Rightarrow> do { t \<leftarrow> lm_Timestamp l; Some (VLeader (str_of (lm_PkiId l)) t) }
      | _ \<Rightarrow> None)"

definition comparable :: "SignedGossipMessage \<Rightarrow> bool" where
  "comparable s \<longleftrightarrow> view_of s \<noteq> None"

definition newer_wins :: "string \<Rightarrow> PeerTime \<Rightarrow> string \<Rightarrow> PeerTime \<Rightarrow> InvalidationResult" where
  "newer_wins k t k' t' =
     (if k \<noteq> k' then MessageNoAction else if t' < t then MessageInvalidates else MessageInvalidated)"

definition data_wins :: "int \<Rightarrow> u64 \<Rightarrow> u64 \<Rightarrow> InvalidationResult" where
  "data_wins n a b =
     (if a = b then MessageInvalidated
      else if abs_diff a b \<le> word_of_int n then MessageNoAction
      else if b < a then MessageInvalidates else MessageInvalidated)"

fun view_policy :: "int \<Rightarrow> view \<Rightarrow> view \<Rightarrow> InvalidationResult" where
  "view_policy n (VAlive k t) (VAlive k' t') = newer_wins k t k' t'"
| "view_policy n (VData a) (VData b) = data_wins n a b"
| "view_policy n (VState k t) (VState k' t') = newer_wins k t k' t'"
| "view_policy n (VIdentity k) (VIdentity k') =
     (if k = k' then MessageInvalidated else MessageNoAction)"
| "view_policy n (VLeader k t) (VLeader k' t') = newer_wins k t k' t'"
| "view_policy n _ _ = MessageNoAction"

lemma view_of_cases [consumes 1, case_names alive data state identity leader]:
  assumes "view_of s = Some v"
  obtains
    (alive) a m t where "gm_Content (sg_Msg s) = Some (AliveMsg a)" "am_Membership a = Some m"
      "am_Timestamp a = Some t" "v = VAlive (str_of (mb_PkiId m)) t"
  | (data) d p where "gm_Content (sg_Msg s) = Some (DataMsg d)" "dm_Payload d = Some p"
      "v = VData (pl_SeqNum p)"
  | (state) i t where "gm_Content (sg_Msg s) = Some (StateInfoMsg i)" "si_Timestamp i = Some t"
      "v = VState (str_of (si_PkiId i)) t"
  | (identity) i where "gm_Content (sg_Msg s) = Some (PeerIdentityMsg i)"
      "v = VIdentity (str_of (pi_PkiId i))"
  | (leader) l t where "gm_Content (sg_Msg s) = Some (LeadershipMsg l)" "lm_Timestamp l = Some t"
      "v = VLeader (str_of (lm_PkiId l)) t"
  using assms
  by (auto simp: view_of_def bind_eq_Some_conv split: option.splits Content.splits)

lemma invalidationPolicy_view:
  assumes "view_of x = Some v" "view_of y = Some w"
  shows "invalidationPolicy n x y = Some (view_policy n v w)"
  using assms
  by (elim view_of_cases)
     (simp_all add: policy_defs getter_defs bytes_eq_def newer_wins_def data_wins_def)

lemma newer_wins_conv: "newer_wins k t k' t' = MessageInvalidates \<Longrightarrow> newer_wins k' t' k t = MessageInvalidated"
  by (auto simp: newer_wins_def split: if_splits)

lemma newer_wins_noact: "newer_wins k t k' t' = MessageNoAction \<longleftrightarrow> k \<noteq> k'"
  by (auto simp: newer_wins_def)

lemma newer_wins_clash:
  "newer_wins k t k1 t1 = MessageInvalidates \<Longrightarrow> newer_wins k t k2 t2 = MessageInvalidated \<Longrightarrow>
   newer_wins k1 t1 k2 t2 \<noteq> MessageNoAction"
  by (auto simp: newer_wins_def split: if_splits)

lemma abs_diff_sym: "abs_diff a b = abs_diff b a"
  by (auto simp: abs_diff_def)

lemma unat_abs_diff: "unat (abs_diff a b) = (if unat b \<le> unat a then unat a - unat b else unat b - unat a)"
  by (auto simp: abs_diff_def unat_sub word_less_nat_alt word_le_nat_alt)

lemma data_wins_clash:
  assumes "data_wins n x a = MessageInvalidates" "data_wins n x b = MessageInvalidated"
  shows "data_wins n a b \<noteq> MessageNoAction"
proof -
  let ?n = "unat (word_of_int n :: u64)"
  from assms(1) have "unat a < unat x" "?n < unat x - unat a"
    by (auto simp: data_wins_def word_le_nat_alt word_less_nat_alt unat_abs_diff split: if_splits)
  moreover from assms(2) have "x = b \<or> unat x < unat b"
    by (auto simp: data_wins_def word_le_nat_alt word_less_nat_alt unat_abs_diff split: if_splits)
  ultimately have "?n < unat b - unat a" "unat a < unat b" by auto
  then show ?thesis
    by (auto simp: data_wins_def word_le_nat_alt word_less_nat_alt unat_abs_diff)
qed

lemma data_wins_noact: "data_wins n a b = MessageNoAction \<Longrightarrow> data_wins n b a = MessageNoAction"
  by (auto simp: data_wins_def abs_diff_sym split: if_splits)

lemma data_wins_conv: "data_wins n a b = MessageInvalidates \<Longrightarrow> data_wins n b a = MessageInvalidated"
  by (auto simp: data_wins_def abs_diff_sym split: if_splits)

section \<open>The interface of a replacement policy\<close>

text \<open>
  What a message store relies on: between good messages the policy never panics, a message
  is invalidated by itself, \<open>NoAction\<close> is symmetric, invalidating is the converse of being
  invalidated, and a message never invalidates one stored message while an unrelated stored
  message invalidates it.
\<close>

locale replacing_policy =
  fixes pol :: "'m \<Rightarrow> 'm \<Rightarrow> InvalidationResult option"
    and good :: "'m \<Rightarrow> bool"
  assumes pol_total: "good x \<Longrightarrow> good y \<Longrightarrow> pol x y \<noteq> None"
    and pol_self: "good x \<Longrightarrow> pol x x = Some MessageInvalidated"
    and pol_noact_sym: "good x \<Longrightarrow> good y \<Longrightarrow> pol x y = Some MessageNoAction \<Longrightarrow> pol y x = Some MessageNoAction"
    and pol_conv: "good x \<Longrightarrow> good y \<Longrightarrow> pol x y = Some MessageInvalidates \<Longrightarrow> pol y x = Some MessageInvalidated"
    and pol_clash: "good x \<Longrightarrow> good a \<Longrightarrow> good b \<Longrightarrow> pol x a = Some MessageInvalidates \<Longrightarrow>
      pol x b = Some MessageInvalidated \<Longrightarrow> pol a b \<noteq> Some MessageNoAction"
begin

lemma pol_cases:
  assumes "good x" "good y"
  obtains "pol x y = Some MessageNoAction" | "pol x y = Some MessageInvalidates"
    | "pol x y = Some MessageInvalidated"
  using pol_total [OF assms] by (metis InvalidationResult.exhaust not_Some_eq)

end

text \<open>
  The policies on alive, state-info and leadership messages: of two messages of one peer
  the one with the later time stands.
\<close>

locale newest_policy =
  fixes pol :: "'m \<Rightarrow> 'm \<Rightarrow> InvalidationResult option"
    and good :: "'m \<Rightarrow> bool"
    and peer :: "'m \<Rightarrow> string"
    and stamp :: "'m \<Rightarrow> PeerTime"
  assumes pol_newest: "good x \<Longrightarrow> good y \<Longrightarrow> pol x y = Some (newer_wins (peer x) (stamp x) (peer y) (stamp y))"

sublocale newest_policy \<subseteq> replacing_policy pol good
  by unfold_locales
     (auto simp: pol_newest newer_wins_def split: if_splits)

lemma view_policy_laws:
  "view_policy n v v = MessageInvalidated"
  "view_policy n v w = MessageNoAction \<Longrightarrow> view_policy n w v = MessageNoAction"
  "view_policy n v w = MessageInvalidates \<Longrightarrow> view_policy n w v = MessageInvalidated"
  "view_policy n v a = MessageInvalidates \<Longrightarrow> view_policy n v b = MessageInvalidated \<Longrightarrow>
     view_policy n a b \<noteq> MessageNoAction"
proof -
  show "view_policy n v v = MessageInvalidated"
    by (cases v) (auto simp: newer_wins_def data_wins_def)
  show "view_policy n v w = MessageNoAction \<Longrightarrow> view_policy n w v = MessageNoAction"
    by (cases v; cases w) (auto simp: newer_wins_noact data_wins_noact)
  show "view_policy n v w = MessageInvalidates \<Longrightarrow> view_policy n w v = MessageInvalidated"
    by (cases v; cases w) (auto simp: newer_wins_conv data_wins_conv split: if_splits)
  show "view_policy n v a = MessageInvalidates \<Longrightarrow> view_policy n v b = MessageInvalidated \<Longrightarrow>
      view_policy n a b \<noteq> MessageNoAction"
    by (cases v; cases a; simp split: if_splits)
       (cases b; simp; (erule (1) newer_wins_clash data_wins_clash)?)+
qed

interpretation comparator: replacing_policy "NewGossipMessageComparator n" comparable for n
proof unfold_locales
  fix x y a b :: SignedGossipMessage
  assume "comparable x"
  then obtain v where v: "view_of x = Some v" by (auto simp: comparable_def)
  then show "NewGossipMessageComparator n x x = Some MessageInvalidated"
    by (simp add: NewGossipMessageComparator_def invalidationPolicy_view view_policy_laws(1))
  assume "comparable y"
  then obtain w where w: "view_of y = Some w" by (auto simp: comparable_def)
  note pol = NewGossipMessageComparator_def invalidationPolicy_view
  show "NewGossipMessageComparator n x y \<noteq> None" using v w by (simp add: pol)
  show "NewGossipMessageComparator n x y = Some MessageNoAction \<Longrightarrow>
      NewGossipMessageComparator n y x = Some MessageNoAction"
    using v w by (simp add: pol) (erule view_policy_laws(2))
  show "NewGossipMessageComparator n x y = Some MessageInvalidates \<Longrightarrow>
      NewGossipMessageComparator n y x = Some MessageInvalidated"
    using v w by (simp add: pol) (erule view_policy_laws(3))
next
  fix x a b :: SignedGossipMessage
  assume "comparable x" "comparable a" "comparable b"
  then obtain v w u where "view_of x = Some v" "view_of a = Some w" "view_of b = Some u"
    by (auto simp: comparable_def)
  then show "NewGossipMessageComparator n x a = Some MessageInvalidates \<Longrightarrow>
      NewGossipMessageComparator n x b = Some MessageInvalidated \<Longrightarrow>
      NewGossipMessageComparator n a b \<noteq> Some MessageNoAction"
    by (simp add: NewGossipMessageComparator_def invalidationPolicy_view) (erule (1) view_policy_laws(4))
qed

section \<open>Alive, state-info and leadership messages\<close>

definition alive_ok :: "SignedGossipMessage \<Rightarrow> bool" where
  "alive_ok s \<longleftrightarrow> (\<exists>k t. view_of s = Some (VAlive k t))"

definition state_ok :: "SignedGossipMessage \<Rightarrow> bool" where
  "state_ok s \<longleftrightarrow> (\<exists>k t. view_of s = Some (VState k t))"

definition leader_ok :: "SignedGossipMessage \<Rightarrow> bool" where
  "leader_ok s \<longleftrightarrow> (\<exists>k t. view_of s = Some (VLeader k t))"

definition msg_peer :: "SignedGossipMessage \<Rightarrow> string" where
  "msg_peer s =
     (case view_of s of Some (VAlive k _) \<Rightarrow> k | Some (VState k _) \<Rightarrow> k | Some (VLeader k _) \<Rightarrow> k | _ \<Rightarrow> [])"

definition msg_stamp :: "SignedGossipMessage \<Rightarrow> PeerTime" where
  "msg_stamp s =
     (case view_of s of Some (VAlive _ t) \<Rightarrow> t | Some (VState _ t) \<Rightarrow> t | Some (VLeader _ t) \<Rightarrow> t
      | _ \<Rightarrow> PeerTime 0 0)"

lemmas newest_defs = alive_ok_def state_ok_def leader_ok_def msg_peer_def msg_stamp_def

interpretation alive_policy: newest_policy "NewGossipMessageComparator n" alive_ok msg_peer msg_stamp for n
  by unfold_locales
     (auto simp: newest_defs NewGossipMessageComparator_def invalidationPolicy_view)

interpretation state_policy: newest_policy "NewGossipMessageComparator n" state_ok msg_peer msg_stamp for n
  by unfold_locales
     (auto simp: newest_defs NewGossipMessageComparator_def invalidationPolicy_view)

interpretation leader_policy: newest_policy "NewGossipMessageComparator n" leader_ok msg_peer msg_stamp for n
  by unfold_locales
     (auto simp: newest_defs NewGossipMessageComparator_def invalidationPolicy_view)

lemma alive_okE:
  assumes "alive_ok s"
  obtains a m t where "GetAliveMsg (sg_Msg s) = Some a" "am_Membership a = Some m"
    "am_Timestamp a = Some t" "msg_peer s = str_of (mb_PkiId m)" "msg_stamp s = t"
proof -
  from assms obtain k t where v: "view_of s = Some (VAlive k t)" by (auto simp: alive_ok_def)
  then show ?thesis
    by (cases rule: view_of_cases) (auto intro!: that simp: v getter_defs newest_defs)
qed

lemma alive_okI:
  "GetAliveMsg (sg_Msg s) = Some a \<Longrightarrow> am_Membership a = Some m \<Longrightarrow> am_Timestamp a = Some t \<Longrightarrow>
   alive_ok s \<and> msg_peer s = str_of (mb_PkiId m) \<and> msg_stamp s = t"
  by (simp add: getter_Some_iff newest_defs view_of_def)

section \<open>Properties\<close>

text \<open>C40. A message passes \<open>IsTagLegal\<close> exactly when it has a content of a kind that has a tag
  and carries that tag; in particular an undefined tag, a content without a tag rule and a pull
  message of an unknown type are all refused.\<close>

theorem IsTagLegal_correct:
  "(IsTagLegal m = None) = (case gm_Content m of None \<Rightarrow> False | Some c \<Rightarrow> required_tag c = Some (gm_Tag m))"
  using IsTagLegal_iff [of m] by (simp add: tag_spec_def)

end
