(* ===== verification/MsgStore.thy ===== *)
theory MsgStore
  imports Policy
begin

text \<open>
  The message store of msg.go over any message type and any replacement policy: adding with
  invalidation, validity checks, purging, and the two-phase expiration (a message older
  than the time to live is marked expired and reported, one older than twice that is
  dropped). The calls of the invalidation trigger and of the expiration callback are
  returned as the list of their arguments, in order; the clients fold them over their own
  state. The lemmas are proved once in the policy locales and used through their
  interpretations on the comparator.
\<close>

section \<open>State and operations\<close>

record 'm stored =
  sd_data :: 'm
  sd_created :: instant
  sd_expired :: bool

record 'm MessageStore =
  ms_messages :: "'m stored list"
  ms_msgTTL :: duration
  ms_expiredCount :: int
  ms_done :: bool

type_synonym 'm policy = "'m \<Rightarrow> 'm \<Rightarrow> InvalidationResult option"

definition newMsgStore :: "'m MessageStore" where
  "newMsgStore = \<lparr>ms_messages = [], ms_msgTTL = 0, ms_expiredCount = 0, ms_done = False\<rparr>"

definition NewMessageStoreExpirable :: "duration \<Rightarrow> 'm MessageStore" where
  "NewMessageStoreExpirable msgTTL = newMsgStore\<lparr>ms_msgTTL := msgTTL\<rparr>"

text \<open>
  The loop of \<open>Add\<close>: at index \<open>i\<close>, a stored message that invalidates the new one ends the
  call, one the new message invalidates is triggered and cut out of the slice (the index
  stays), any other is passed. The result is the call's answer, the messages and the
  trigger calls.
\<close>

function add_loop ::
  "'m policy \<Rightarrow> 'm \<Rightarrow> nat \<Rightarrow> 'm stored list \<Rightarrow> 'm list \<Rightarrow> (bool \<times> 'm stored list \<times> 'm list) option" where
  "add_loop policy message i ms trig =
     (if i < length ms
      then (case policy message (sd_data (ms ! i)) of
              None \<Rightarrow> None
            | Some MessageInvalidated \<Rightarrow> Some (False, ms, trig)
            | Some MessageInvalidates \<Rightarrow>
                add_loop policy message i (take i ms @ drop (Suc i) ms) (trig @ [sd_data (ms ! i)])
            | Some MessageNoAction \<Rightarrow> add_loop policy message (Suc i) ms trig)
      else Some (True, ms, trig))"
  by pat_completeness auto
termination
  by (relation "measure (\<lambda>(policy, message, i, ms, trig). length ms - i)") auto

declare add_loop.simps [simp del]

definition MessageStore_Add ::
  "'m policy \<Rightarrow> instant \<Rightarrow> 'm \<Rightarrow> 'm MessageStore \<Rightarrow> (bool \<times> 'm MessageStore \<times> 'm list) option" where
  "MessageStore_Add policy now message s =
     (case add_loop policy message 0 (ms_messages s) [] of
        None \<Rightarrow> None
      | Some (False, ms, trig) \<Rightarrow> Some (False, s\<lparr>ms_messages := ms\<rparr>, trig)
      | Some (True, ms, trig) \<Rightarrow>
          Some (True, s\<lparr>ms_messages := ms @ [\<lparr>sd_data = message, sd_created = now, sd_expired = False\<rparr>]\<rparr>, trig))"

fun check_valid :: "'m policy \<Rightarrow> 'm \<Rightarrow> 'm stored list \<Rightarrow> bool option" where
  "check_valid policy message [] = Some True"
| "check_valid policy message (m # ms) =
     (case policy message (sd_data m) of
        None \<Rightarrow> None
      | Some r \<Rightarrow> if r = MessageInvalidated then Some False else check_valid policy message ms)"

definition MessageStore_CheckValid :: "'m policy \<Rightarrow> 'm \<Rightarrow> 'm MessageStore \<Rightarrow> bool option" where
  "MessageStore_CheckValid policy message s = check_valid policy message (ms_messages s)"

definition MessageStore_Size :: "'m MessageStore \<Rightarrow> int" where
  "MessageStore_Size s = int (length (ms_messages s)) - ms_expiredCount s"

definition MessageStore_Get :: "'m MessageStore \<Rightarrow> 'm list" where
  "MessageStore_Get s = map sd_data (filter (\<lambda>m. \<not> sd_expired m) (ms_messages s))"

definition isPurgeNeeded :: "('m stored \<Rightarrow> bool) \<Rightarrow> 'm MessageStore \<Rightarrow> bool" where
  "isPurgeNeeded shouldBePurged s \<longleftrightarrow> (\<exists>m \<in> set (ms_messages s). shouldBePurged m)"

definition MessageStore_Purge :: "('m \<Rightarrow> bool) \<Rightarrow> 'm MessageStore \<Rightarrow> 'm MessageStore \<times> 'm list" where
  "MessageStore_Purge shouldBePurged s =
     (if \<not> isPurgeNeeded (\<lambda>m. shouldBePurged (sd_data m)) s then (s, [])
      else (let (trig, ms) =
              sweep (\<lambda>trig m. if shouldBePurged (sd_data m) then (trig @ [sd_data m], None)
                              else (trig, Some m)) [] 0 (ms_messages s)
            in (s\<lparr>ms_messages := ms\<rparr>, trig)))"

definition MessageStore_Stop :: "'m MessageStore \<Rightarrow> 'm MessageStore" where
  "MessageStore_Stop s = s\<lparr>ms_done := True\<rparr>"

definition hasMessageExpired :: "duration \<Rightarrow> instant \<Rightarrow> 'm stored \<Rightarrow> bool" where
  "hasMessageExpired msgTTL now m \<longleftrightarrow>
     \<not> sd_expired m \<and> time_since now (sd_created m) > msgTTL \<or>
     time_since now (sd_created m) > msgTTL * 2"

text \<open>
  The loop of \<open>expireMessages\<close> works on the counter and the callback calls; all its reads
  of the clock are the one instant \<open>now\<close>.
\<close>

definition expire_body ::
  "duration \<Rightarrow> instant \<Rightarrow> int \<times> 'm list \<Rightarrow> 'm stored \<Rightarrow> (int \<times> 'm list) \<times> 'm stored option" where
  "expire_body msgTTL now st m =
     (let (expiredCount, calls) = st in
      if \<not> sd_expired m then
        (if time_since now (sd_created m) > msgTTL
         then ((expiredCount + 1, calls @ [sd_data m]), Some (m\<lparr>sd_expired := True\<rparr>))
         else (st, Some m))
      else if time_since now (sd_created m) > msgTTL * 2 then ((expiredCount - 1, calls), None)
      else (st, Some m))"

definition expireMessages :: "instant \<Rightarrow> 'm MessageStore \<Rightarrow> 'm MessageStore \<times> 'm list" where
  "expireMessages now s =
     (let ((expiredCount, calls), ms) =
        sweep (expire_body (ms_msgTTL s) now) (ms_expiredCount s, []) 0 (ms_messages s)
      in (s\<lparr>ms_messages := ms, ms_expiredCount := expiredCount\<rparr>, calls))"

text \<open>One round of \<open>expirationRoutine\<close>; after \<open>Stop\<close> the routine has returned.\<close>

definition expirationTick :: "instant \<Rightarrow> 'm MessageStore \<Rightarrow> 'm MessageStore \<times> 'm list" where
  "expirationTick now s =
     (if ms_done s then (s, [])
      else if isPurgeNeeded (hasMessageExpired (ms_msgTTL s) now) s then expireMessages now s
      else (s, []))"

section \<open>What the loops compute\<close>

definition datas :: "'m MessageStore \<Rightarrow> 'm list" where
  "datas s = map sd_data (ms_messages s)"

lemma add_loop_prefix_all:
  assumes "\<forall>m\<in>set ms. policy x (sd_data m) \<in> {Some MessageNoAction, Some MessageInvalidates}"
  shows "add_loop policy x (length ps) (ps @ ms) trig =
    Some (True, ps @ filter (\<lambda>m. policy x (sd_data m) \<noteq> Some MessageInvalidates) ms,
          trig @ map sd_data (filter (\<lambda>m. policy x (sd_data m) = Some MessageInvalidates) ms))"
  using assms
proof (induction ms arbitrary: ps trig)
  case Nil
  show ?case by (simp add: add_loop.simps)
next
  case (Cons m ms)
  have rest: "\<forall>m\<in>set ms. policy x (sd_data m) \<in> {Some MessageNoAction, Some MessageInvalidates}"
    using Cons.prems by simp
  from Cons.prems consider "policy x (sd_data m) = Some MessageNoAction"
    | "policy x (sd_data m) = Some MessageInvalidates" by auto
  then show ?case
  proof cases
    case 1
    with Cons.IH [OF rest, of "ps @ [m]"] show ?thesis
      by (subst add_loop.simps) (simp add: nth_append)
  next
    case 2
    with Cons.IH [OF rest, of ps] show ?thesis
      by (subst add_loop.simps) (simp add: nth_append)
  qed
qed

lemma add_loop_prefix_reject:
  assumes "\<forall>m\<in>set us. policy x (sd_data m) = Some MessageNoAction"
    and "policy x (sd_data m) = Some MessageInvalidated"
  shows "add_loop policy x (length ps) (ps @ us @ m # vs) trig = Some (False, ps @ us @ m # vs, trig)"
  using assms(1)
proof (induction us arbitrary: ps)
  case Nil
  with assms(2) show ?case by (subst add_loop.simps) (simp add: nth_append)
next
  case (Cons u us)
  with Cons.IH [of "ps @ [u]"] show ?case
    by (subst add_loop.simps) (simp add: nth_append)
qed

lemma add_loop_answer:
  "map_option fst (add_loop policy x (length ps) (ps @ ms) trig) = check_valid policy x ms"
proof (induction ms arbitrary: ps trig)
  case Nil
  show ?case by (simp add: add_loop.simps)
next
  case (Cons m ms)
  show ?case
  proof (cases "policy x (sd_data m)")
    case None
    then show ?thesis by (subst add_loop.simps) (simp add: nth_append)
  next
    case (Some r)
    with Cons.IH [of "ps @ [m]" trig] Cons.IH [of ps "trig @ [sd_data m]"] show ?thesis
      by (cases r) (subst add_loop.simps, simp add: nth_append)+
  qed
qed

lemma check_valid_False:
  "check_valid policy x ms = Some False \<Longrightarrow>
     \<exists>us m vs. ms = us @ m # vs \<and> policy x (sd_data m) = Some MessageInvalidated \<and>
       (\<forall>u\<in>set us. policy x (sd_data u) \<noteq> None \<and> policy x (sd_data u) \<noteq> Some MessageInvalidated)"
proof (induction ms)
  case (Cons m ms)
  then show ?case
  proof (cases "policy x (sd_data m) = Some MessageInvalidated")
    case True
    then show ?thesis by (intro exI [of _ "[]"]) auto
  next
    case False
    with Cons obtain us m' vs where "ms = us @ m' # vs"
      "policy x (sd_data m') = Some MessageInvalidated"
      "\<forall>u\<in>set us. policy x (sd_data u) \<noteq> None \<and> policy x (sd_data u) \<noteq> Some MessageInvalidated"
      by (auto split: option.splits)
    with False Cons.prems show ?thesis
      by (intro exI [of _ "m # us"]) (auto split: option.splits)
  qed
qed simp

lemma check_valid_True:
  "check_valid policy x ms = Some True \<longleftrightarrow>
     (\<forall>m\<in>set ms. policy x (sd_data m) \<in> {Some MessageNoAction, Some MessageInvalidates})"
  by (induction ms) (auto split: option.splits if_splits InvalidationResult.splits
      intro: InvalidationResult.exhaust)

lemma Purge_eq:
  "MessageStore_Purge P s = (s\<lparr>ms_messages := filter (\<lambda>m. \<not> P (sd_data m)) (ms_messages s)\<rparr>, filter P (datas s))"
proof (cases "isPurgeNeeded (\<lambda>m. P (sd_data m)) s")
  case True
  then show ?thesis
    by (simp add: MessageStore_Purge_def sweep_eq sweep_list_filter datas_def filter_map comp_def)
next
  case False
  then have "\<forall>m\<in>set (ms_messages s). \<not> P (sd_data m)" by (simp add: isPurgeNeeded_def)
  with False show ?thesis by (simp add: MessageStore_Purge_def datas_def filter_map comp_def)
qed

text \<open>Expiring is one pass: mark the overdue, drop the marked that are twice overdue.\<close>

definition overdue :: "duration \<Rightarrow> instant \<Rightarrow> 'm stored \<Rightarrow> bool" where
  "overdue ttl now m \<longleftrightarrow> \<not> sd_expired m \<and> time_since now (sd_created m) > ttl"

definition dropped :: "duration \<Rightarrow> instant \<Rightarrow> 'm stored \<Rightarrow> bool" where
  "dropped ttl now m \<longleftrightarrow> sd_expired m \<and> time_since now (sd_created m) > ttl * 2"

definition mark :: "duration \<Rightarrow> instant \<Rightarrow> 'm stored \<Rightarrow> 'm stored" where
  "mark ttl now m = (if overdue ttl now m then m\<lparr>sd_expired := True\<rparr> else m)"

definition n_expired :: "'m stored list \<Rightarrow> int" where
  "n_expired ms = int (length (filter sd_expired ms))"

lemma mark_data [simp]: "sd_data (mark ttl now m) = sd_data m"
  by (simp add: mark_def)

lemma sweep_expire:
  "sweep_list (expire_body ttl now) (n, calls) ms =
     ((n + int (length (filter (overdue ttl now) ms)) - int (length (filter (dropped ttl now) ms)),
       calls @ map sd_data (filter (overdue ttl now) ms)),
      map (mark ttl now) (filter (\<lambda>m. \<not> dropped ttl now m) ms))"
  by (induction ms arbitrary: n calls)
     (auto simp: expire_body_def overdue_def dropped_def mark_def Let_def)

lemma expireMessages_eq:
  "expireMessages now s =
     (let ttl = ms_msgTTL s; ms = ms_messages s in
      (s\<lparr>ms_messages := map (mark ttl now) (filter (\<lambda>m. \<not> dropped ttl now m) ms),
         ms_expiredCount := ms_expiredCount s + int (length (filter (overdue ttl now) ms))
           - int (length (filter (dropped ttl now) ms))\<rparr>,
       map sd_data (filter (overdue ttl now) ms)))"
  by (simp add: expireMessages_def sweep_eq sweep_expire Let_def)

lemma hasMessageExpired_iff:
  "\<not> hasMessageExpired ttl now m \<Longrightarrow> \<not> overdue ttl now m \<and> \<not> dropped ttl now m"
  by (auto simp: hasMessageExpired_def overdue_def dropped_def)

text \<open>The test before the pass never skips work: a round is always the whole pass.\<close>

lemma expirationTick_eq:
  "expirationTick now s = (if ms_done s then (s, []) else expireMessages now s)"
proof (cases "isPurgeNeeded (hasMessageExpired (ms_msgTTL s) now) s")
  case False
  then have "\<forall>m\<in>set (ms_messages s). \<not> overdue (ms_msgTTL s) now m \<and> \<not> dropped (ms_msgTTL s) now m"
    by (auto simp: isPurgeNeeded_def dest: hasMessageExpired_iff)
  then have "expireMessages now s = (s, [])"
    by (simp add: expireMessages_eq Let_def filter_empty_conv filter_id_conv [THEN iffD2] map_idI mark_def)
  with False show ?thesis by (simp add: expirationTick_def)
qed (simp add: expirationTick_def)

section \<open>The size counter\<close>

text \<open>
  \<open>Add\<close> and \<open>Purge\<close> cut expired messages out without counting \<open>expiredCount\<close> down, so the
  counter is an upper bound of the number of expired messages, and \<open>Size\<close> a lower bound of
  the number of messages \<open>Get\<close> returns.
\<close>

definition counter_ok :: "'m MessageStore \<Rightarrow> bool" where
  "counter_ok s \<longleftrightarrow> n_expired (ms_messages s) \<le> ms_expiredCount s"

lemma length_split: "length xs = length (filter P xs) + length (filter (\<lambda>x. \<not> P x) xs)"
  by (rule sum_length_filter_compl [symmetric])

lemma Size_Get:
  "MessageStore_Size s = int (length (MessageStore_Get s)) + n_expired (ms_messages s) - ms_expiredCount s"
  using length_split [of "ms_messages s" sd_expired]
  by (simp add: MessageStore_Size_def MessageStore_Get_def n_expired_def)

lemma n_expired_append [simp]: "n_expired (xs @ ys) = n_expired xs + n_expired ys"
  by (simp add: n_expired_def)

lemma n_expired_filter: "n_expired (filter P ms) \<le> n_expired ms"
  by (induction ms) (auto simp: n_expired_def)

lemma n_expired_pass:
  "n_expired (map (mark ttl now) (filter (\<lambda>m. \<not> dropped ttl now m) ms)) =
     n_expired ms + int (length (filter (overdue ttl now) ms)) - int (length (filter (dropped ttl now) ms))"
  by (induction ms) (auto simp: n_expired_def mark_def overdue_def dropped_def)

lemma add_loop_messages:
  "add_loop policy x (length ps) (ps @ ms) trig = Some (b, ms', trig') \<Longrightarrow>
     \<exists>ns. ms' = ps @ ns \<and> n_expired ns \<le> n_expired ms"
proof (induction ms arbitrary: ps trig)
  case Nil
  then show ?case by (simp add: add_loop.simps)
next
  case (Cons m ms)
  have step: "n_expired (m # ns) \<le> n_expired (m # ms)" "n_expired ns \<le> n_expired (m # ms)"
    if "n_expired ns \<le> n_expired ms" for ns
    using that by (auto simp: n_expired_def)
  from Cons.prems obtain r where r: "policy x (sd_data m) = Some r"
    by (subst (asm) add_loop.simps) (auto simp: nth_append split: option.splits)
  show ?case
  proof (cases r)
    case MessageNoAction
    with r Cons.prems have "add_loop policy x (length (ps @ [m])) ((ps @ [m]) @ ms) trig = Some (b, ms', trig')"
      by (subst (asm) add_loop.simps) (simp add: nth_append)
    from Cons.IH [OF this] show ?thesis using step(1) by auto
  next
    case MessageInvalidates
    with r Cons.prems have "add_loop policy x (length ps) (ps @ ms) (trig @ [sd_data m]) = Some (b, ms', trig')"
      by (subst (asm) add_loop.simps) (simp add: nth_append)
    from Cons.IH [OF this] show ?thesis using step(2) by auto
  next
    case MessageInvalidated
    with r Cons.prems show ?thesis
      by (subst (asm) add_loop.simps) (auto simp: nth_append)
  qed
qed

lemma Add_counter_ok:
  assumes "MessageStore_Add policy now x s = Some (b, s', trig)" and "counter_ok s"
  shows "counter_ok s'"
proof -
  from assms(1) obtain ms where loop: "add_loop policy x 0 (ms_messages s) [] = Some (b, ms, trig)"
    and s': "s' = s\<lparr>ms_messages := if b then ms @ [\<lparr>sd_data = x, sd_created = now, sd_expired = False\<rparr>] else ms\<rparr>"
    by (auto simp: MessageStore_Add_def split: option.splits bool.splits)
  have "n_expired ms \<le> n_expired (ms_messages s)"
    using add_loop_messages [of policy x "[]" "ms_messages s" "[]" b ms trig] loop by simp
  with assms(2) s' show ?thesis by (auto simp: counter_ok_def n_expired_def)
qed

lemma Purge_counter_ok: "counter_ok s \<Longrightarrow> counter_ok (fst (MessageStore_Purge P s))"
  using n_expired_filter [of "\<lambda>m. \<not> P (sd_data m)" "ms_messages s"]
  by (simp add: Purge_eq counter_ok_def)

lemma tick_counter_ok: "counter_ok s \<Longrightarrow> counter_ok (fst (expirationTick now s))"
  by (simp add: expirationTick_eq expireMessages_eq counter_ok_def n_expired_pass Let_def)

lemma Stop_counter_ok: "counter_ok (MessageStore_Stop s) \<longleftrightarrow> counter_ok s"
  by (simp add: counter_ok_def MessageStore_Stop_def)

lemma new_counter_ok [simp]: "counter_ok newMsgStore" "counter_ok (NewMessageStoreExpirable ttl)"
  by (simp_all add: counter_ok_def newMsgStore_def NewMessageStoreExpirable_def n_expired_def)

section \<open>Stores over a replacement policy\<close>

text \<open>
  The invariant of a store: its messages are good for the policy and unrelated to each
  other, so none of them would have been kept had the other been there first.
\<close>

definition store_ok :: "'m policy \<Rightarrow> ('m \<Rightarrow> bool) \<Rightarrow> 'm MessageStore \<Rightarrow> bool" where
  "store_ok policy good s \<longleftrightarrow>
     (\<forall>d\<in>set (datas s). good d) \<and>
     sorted_wrt (\<lambda>a b. policy a b = Some MessageNoAction) (datas s)"

lemma datas_simps [simp]:
  "datas newMsgStore = []" "datas (NewMessageStoreExpirable ttl) = []"
  by (simp_all add: datas_def newMsgStore_def NewMessageStoreExpirable_def)

lemma store_ok_new [simp]: "store_ok pol good newMsgStore" "store_ok pol good (NewMessageStoreExpirable ttl)"
  by (simp_all add: store_ok_def)

lemma store_ok_filter:
  "store_ok pol good s \<Longrightarrow> datas s' = filter P (datas s) \<Longrightarrow> store_ok pol good s'"
  by (auto simp: store_ok_def intro: sorted_wrt_filter)

lemma datas_filter: "map sd_data (filter (\<lambda>m. P (sd_data m)) ms) = filter P (map sd_data ms)"
  by (simp add: filter_map comp_def)

lemma Purge_store_ok: "store_ok pol good s \<Longrightarrow> store_ok pol good (fst (MessageStore_Purge P s))"
  by (rule store_ok_filter [where P = "\<lambda>d. \<not> P d"]) (auto simp: Purge_eq datas_def filter_map comp_def)

lemma sorted_wrt_pass:
  "sorted_wrt R (map sd_data ms) \<Longrightarrow> sorted_wrt R (map sd_data (filter P ms))"
  by (simp add: sorted_wrt_map sorted_wrt_filter)

lemma tick_datas:
  "datas (fst (expirationTick now s)) =
     (if ms_done s then datas s
      else map sd_data (filter (\<lambda>m. \<not> dropped (ms_msgTTL s) now m) (ms_messages s)))"
  by (simp add: expirationTick_eq expireMessages_eq datas_def Let_def comp_def)

lemma tick_store_ok: "store_ok pol good s \<Longrightarrow> store_ok pol good (fst (expirationTick now s))"
  unfolding store_ok_def tick_datas by (auto simp: datas_def sorted_wrt_pass)

lemma tick_fields [simp]:
  "ms_msgTTL (fst (expirationTick now s)) = ms_msgTTL s"
  "ms_done (fst (expirationTick now s)) = ms_done s"
  by (simp_all add: expirationTick_eq expireMessages_eq Let_def)

lemma Add_answer:
  "map_option fst (MessageStore_Add pol now x s) = MessageStore_CheckValid pol x s"
  using add_loop_answer [of pol x "[]" "ms_messages s" "[]"]
  by (auto simp: MessageStore_Add_def MessageStore_CheckValid_def split: option.splits bool.splits)

context replacing_policy
begin

lemma check_total:
  assumes "\<forall>d\<in>set (map sd_data ms). good d" "good x"
  shows "check_valid pol x ms = Some (\<forall>d\<in>set (map sd_data ms). pol x d \<noteq> Some MessageInvalidated)"
  using assms(1)
proof (induction ms)
  case (Cons m ms)
  from Cons.prems have "pol x (sd_data m) \<noteq> None" using assms(2) pol_total by simp
  with Cons show ?case by auto
qed simp

lemma CheckValid_eq:
  assumes "store_ok pol good s" "good x"
  shows "MessageStore_CheckValid pol x s = Some (\<forall>d\<in>set (datas s). pol x d \<noteq> Some MessageInvalidated)"
  using assms check_total [of "ms_messages s" x]
  by (simp add: MessageStore_CheckValid_def store_ok_def datas_def)

lemma Add_reject:
  assumes ok: "store_ok pol good s" and x: "good x" and d: "d \<in> set (datas s)" "pol x d = Some MessageInvalidated"
  shows "MessageStore_Add pol now x s = Some (False, s, [])"
proof -
  have "check_valid pol x (ms_messages s) = Some False"
    using CheckValid_eq [OF ok x] d by (auto simp: MessageStore_CheckValid_def)
  from check_valid_False [OF this] obtain us m vs where split: "ms_messages s = us @ m # vs"
    and m: "pol x (sd_data m) = Some MessageInvalidated"
    and us: "\<forall>u\<in>set us. pol x (sd_data u) \<noteq> None \<and> pol x (sd_data u) \<noteq> Some MessageInvalidated"
    by auto
  have "pol x (sd_data u) = Some MessageNoAction" if u: "u \<in> set us" for u
  proof -
    have good: "good (sd_data u)" "good (sd_data m)"
      and "pol (sd_data u) (sd_data m) = Some MessageNoAction"
      using ok split u by (auto simp: store_ok_def datas_def sorted_wrt_append)
    then have "pol x (sd_data u) \<noteq> Some MessageInvalidates"
      using pol_clash [OF x good] m by blast
    with us u show ?thesis using pol_cases [OF x good(1)] by auto
  qed
  then show ?thesis
    using add_loop_prefix_reject [of us pol x m "[]" vs "[]"] m split
    by (simp add: MessageStore_Add_def)
qed

lemma Add_accept:
  assumes ok: "store_ok pol good s" and x: "good x" and d: "\<forall>d\<in>set (datas s). pol x d \<noteq> Some MessageInvalidated"
  shows "MessageStore_Add pol now x s =
    Some (True,
          s\<lparr>ms_messages := filter (\<lambda>m. pol x (sd_data m) \<noteq> Some MessageInvalidates) (ms_messages s)
              @ [\<lparr>sd_data = x, sd_created = now, sd_expired = False\<rparr>]\<rparr>,
          filter (\<lambda>d. pol x d = Some MessageInvalidates) (datas s))"
proof -
  have "\<forall>m\<in>set (ms_messages s). pol x (sd_data m) \<in> {Some MessageNoAction, Some MessageInvalidates}"
  proof
    fix m
    assume "m \<in> set (ms_messages s)"
    then have "sd_data m \<in> set (datas s)" "good (sd_data m)"
      using ok by (auto simp: datas_def store_ok_def)
    with d pol_cases [OF x, of "sd_data m"] show "pol x (sd_data m) \<in> {Some MessageNoAction, Some MessageInvalidates}"
      by auto
  qed
  then show ?thesis
    using add_loop_prefix_all [of "ms_messages s" pol x "[]" "[]"]
    by (simp add: MessageStore_Add_def datas_def filter_map comp_def)
qed

lemma Add_total:
  assumes "store_ok pol good s" "good x"
  shows "\<exists>b s' trig. MessageStore_Add pol now x s = Some (b, s', trig)"
proof (cases "\<forall>d\<in>set (datas s). pol x d \<noteq> Some MessageInvalidated")
  case True
  from Add_accept [OF assms this] show ?thesis by blast
next
  case False
  with Add_reject [OF assms] show ?thesis by blast
qed

lemma Add_datas:
  assumes "store_ok pol good s" "good x" "MessageStore_Add pol now x s = Some (b, s', trig)"
  shows "datas s' =
    (if b then filter (\<lambda>d. pol x d \<noteq> Some MessageInvalidates) (datas s) @ [x] else datas s)
    \<and> b = (\<forall>d\<in>set (datas s). pol x d \<noteq> Some MessageInvalidated)
    \<and> trig = (if b then filter (\<lambda>d. pol x d = Some MessageInvalidates) (datas s) else [])"
proof (cases "\<forall>d\<in>set (datas s). pol x d \<noteq> Some MessageInvalidated")
  case True
  from Add_accept [OF assms(1,2) this, of now] assms(3) True show ?thesis
    by (auto simp: datas_def filter_map comp_def)
next
  case False
  with Add_reject [OF assms(1,2)] assms(3) show ?thesis by auto
qed

lemma Add_store_ok:
  assumes ok: "store_ok pol good s" and x: "good x" and add: "MessageStore_Add pol now x s = Some (b, s', trig)"
  shows "store_ok pol good s'"
proof (cases b)
  case True
  with Add_datas [OF ok x add]
  have d: "datas s' = filter (\<lambda>d. pol x d \<noteq> Some MessageInvalidates) (datas s) @ [x]"
    and no: "\<forall>d\<in>set (datas s). pol x d \<noteq> Some MessageInvalidated" by auto
  have "pol e x = Some MessageNoAction"
    if "e \<in> set (filter (\<lambda>d. pol x d \<noteq> Some MessageInvalidates) (datas s))" for e
  proof -
    from that ok no have "good e" "pol x e \<noteq> Some MessageInvalidates" "pol x e \<noteq> Some MessageInvalidated"
      by (auto simp: store_ok_def)
    with pol_cases [OF x, of e] show ?thesis
      using pol_noact_sym [OF x] by auto
  qed
  with ok x show ?thesis
    by (auto simp: store_ok_def d sorted_wrt_append sorted_wrt_filter)
next
  case False
  with Add_datas [OF ok x add] ok show ?thesis by (simp add: store_ok_def)
qed

lemma CheckValid_stored:
  assumes ok: "store_ok pol good s" and x: "x \<in> set (datas s)"
  shows "MessageStore_CheckValid pol x s = Some False"
proof -
  have "good x" using ok x by (simp add: store_ok_def)
  then show ?thesis using CheckValid_eq [OF ok] x pol_self by auto
qed

text \<open>Once stored, a message is refused until a round drops it: expiring alone does not re-admit it.\<close>

lemma tick_keeps:
  assumes "m \<in> set (ms_messages s)" "time_since t (sd_created m) \<le> ms_msgTTL s * 2"
  shows "\<exists>m' \<in> set (ms_messages (fst (expirationTick t s))).
    sd_data m' = sd_data m \<and> sd_created m' = sd_created m"
  using assms
  by (intro bexI [of _ "if ms_done s then m else mark (ms_msgTTL s) t m"])
     (auto simp: expirationTick_eq expireMessages_eq Let_def dropped_def mark_def)

lemma ticks_keep:
  assumes "store_ok pol good s" "m \<in> set (ms_messages s)"
    and "\<forall>t\<in>set ts. time_since t (sd_created m) \<le> ms_msgTTL s * 2"
  shows "store_ok pol good (fold (\<lambda>t s. fst (expirationTick t s)) ts s) \<and>
    sd_data m \<in> set (datas (fold (\<lambda>t s. fst (expirationTick t s)) ts s))"
  using assms
proof (induction ts arbitrary: s m)
  case Nil
  then show ?case by (auto simp: datas_def)
next
  case (Cons t ts)
  then obtain m' where "m' \<in> set (ms_messages (fst (expirationTick t s)))"
    "sd_data m' = sd_data m" "sd_created m' = sd_created m"
    using tick_keeps [of m s t] by auto
  with Cons.IH [of "fst (expirationTick t s)" m'] Cons.prems show ?case
    by (simp add: tick_store_ok)
qed

lemma replay_refused:
  assumes ok: "store_ok pol good s" and x: "good x"
    and add: "MessageStore_Add pol now x s = Some (True, s', trig)"
    and ts: "\<forall>t\<in>set ts. time_since t now \<le> ms_msgTTL s * 2"
  shows "MessageStore_CheckValid pol x (fold (\<lambda>t s. fst (expirationTick t s)) ts s') = Some False"
proof -
  let ?m = "\<lparr>sd_data = x, sd_created = now, sd_expired = False\<rparr>"
  have all: "\<forall>d\<in>set (datas s). pol x d \<noteq> Some MessageInvalidated"
    using Add_datas [OF ok x add] by simp
  from Add_accept [OF ok x all] add
  have "?m \<in> set (ms_messages s')" "ms_msgTTL s' = ms_msgTTL s" by auto
  with ticks_keep [OF Add_store_ok [OF ok x add], of ?m ts] ts
  show ?thesis by (intro CheckValid_stored) auto
qed

end

text \<open>Adding a list of messages, each at its instant.\<close>

definition adds :: "'m policy \<Rightarrow> (instant \<times> 'm) list \<Rightarrow> 'm MessageStore \<Rightarrow> 'm MessageStore option" where
  "adds policy = foldM (\<lambda>(now, x) s. map_option (fst \<circ> snd) (MessageStore_Add policy now x s))"

context newest_policy
begin

definition holds_newest :: "'m set \<Rightarrow> 'm MessageStore \<Rightarrow> bool" where
  "holds_newest seen s \<longleftrightarrow>
     store_ok pol good s \<and> peer ` set (datas s) = peer ` seen \<and> set (datas s) \<subseteq> seen \<and>
     (\<forall>d\<in>set (datas s). \<forall>x\<in>seen. peer x = peer d \<longrightarrow> stamp x \<le> stamp d)"

lemma distinct_peers: "store_ok pol good s \<Longrightarrow> distinct (map peer (datas s))"
  unfolding store_ok_def
proof (induction "datas s" arbitrary: s)
  case (Cons d ds)
  from Cons.hyps(2) [symmetric] Cons.prems show ?case
    using Cons.hyps(1) [of "\<lparr>ms_messages = tl (ms_messages s), ms_msgTTL = 0, ms_expiredCount = 0, ms_done = False\<rparr>"]
    by (auto simp: datas_def map_tl pol_newest newer_wins_noact)
qed simp

lemma Add_newest:
  assumes inv: "holds_newest seen s" and x: "good x" and add: "MessageStore_Add pol now x s = Some (b, s', trig)"
  shows "holds_newest (insert x seen) s'"
proof -
  have ok: "store_ok pol good s" using inv by (simp add: holds_newest_def)
  note data = Add_datas [OF ok x add]
  have good: "\<And>d. d \<in> set (datas s) \<Longrightarrow> good d" using ok by (simp add: store_ok_def)
  show ?thesis
  proof (cases b)
    case True
    with data have d: "datas s' = filter (\<lambda>d. pol x d \<noteq> Some MessageInvalidates) (datas s) @ [x]"
      and no: "\<forall>d\<in>set (datas s). pol x d \<noteq> Some MessageInvalidated" by auto
    have older: "stamp d < stamp x" if "d \<in> set (datas s)" "peer d = peer x" for d
      using no that good x by (auto simp: pol_newest newer_wins_def split: if_splits)
    have kept: "set (datas s') = insert x {d \<in> set (datas s). peer d \<noteq> peer x}"
      using older good x by (auto simp: d pol_newest newer_wins_def)
    have below: "stamp y < stamp x" if "y \<in> seen" "peer y = peer x" for y
    proof -
      have "peer y \<in> peer ` set (datas s)" using inv that(1) by (simp add: holds_newest_def)
      then obtain d where "d \<in> set (datas s)" "peer d = peer y" by auto
      moreover from this inv that have "stamp y \<le> stamp d" by (auto simp: holds_newest_def)
      ultimately show ?thesis using older [of d] that(2) by simp
    qed
    have "peer ` set (datas s') = peer ` insert x seen"
    proof -
      have "peer ` set (datas s') = insert (peer x) (peer ` set (datas s))" by (auto simp: kept)
      with inv show ?thesis by (simp add: holds_newest_def)
    qed
    with inv Add_store_ok [OF ok x add] below show ?thesis
      by (auto simp: holds_newest_def kept intro: less_imp_le)
  next
    case False
    with data have "datas s' = datas s" "\<not> (\<forall>d\<in>set (datas s). pol x d \<noteq> Some MessageInvalidated)"
      by auto
    then obtain d where d: "d \<in> set (datas s)" "pol x d = Some MessageInvalidated" and "datas s' = datas s"
      by blast
    then have "peer d = peer x" "stamp x \<le> stamp d"
      using good x by (auto simp: pol_newest newer_wins_def split: if_splits)
    moreover have "peer x \<in> peer ` seen"
    proof -
      have "peer x \<in> peer ` set (datas s)" using d(1) \<open>peer d = peer x\<close> by (metis image_eqI)
      with inv show ?thesis by (simp add: holds_newest_def)
    qed
    moreover have "e = d" if "e \<in> set (datas s)" "peer e = peer x" for e
      using distinct_peers [OF ok] that d(1) \<open>peer d = peer x\<close> by (auto simp: distinct_map inj_on_def)
    ultimately have "peer ` insert x seen = peer ` set (datas s)"
      and "\<forall>e\<in>set (datas s). \<forall>y\<in>insert x seen. peer y = peer e \<longrightarrow> stamp y \<le> stamp e"
      using inv by (simp_all add: holds_newest_def insert_absorb) metis
    with inv Add_store_ok [OF ok x add] show ?thesis
      unfolding holds_newest_def \<open>datas s' = datas s\<close> by blast
  qed
qed

lemma adds_newest:
  assumes "\<forall>x\<in>set xs. good (snd x)" "holds_newest seen s"
  shows "\<exists>s'. adds pol xs s = Some s' \<and> holds_newest (seen \<union> snd ` set xs) s'"
  using assms
proof (induction xs arbitrary: s seen)
  case Nil
  then show ?case by (simp add: adds_def)
next
  case (Cons tx xs)
  obtain t x where tx: "tx = (t, x)" by (cases tx)
  from Cons.prems tx obtain b s1 trig where add: "MessageStore_Add pol t x s = Some (b, s1, trig)"
    using Add_total [of s x t] by (auto simp: holds_newest_def)
  with Cons.prems tx have "holds_newest (insert x seen) s1" by (auto intro: Add_newest)
  with Cons.IH [of "insert x seen" s1] Cons.prems tx add show ?case
    by (auto simp: adds_def insert_commute Un_insert_left)
qed

lemma holds_newest_empty: "datas s = [] \<Longrightarrow> holds_newest {} s"
  by (simp add: holds_newest_def store_ok_def)

text \<open>
  A peer whose expired message is superseded: the counter keeps the expired message, so a
  store with one live message reports size 0.
\<close>

lemma Size_drifts:
  assumes x: "good x" and y: "good y" and "peer x = peer y" "stamp x < stamp y"
    and ttl: "time_since t1 t0 > ttl"
    and "MessageStore_Add pol t0 x (NewMessageStoreExpirable ttl) = Some (True, s1, trig1)"
    and "MessageStore_Add pol t2 y (fst (expirationTick t1 s1)) = Some (b, s2, trig2)"
  shows "b \<and> MessageStore_Get s2 = [y] \<and> MessageStore_Size s2 = 0"
proof -
  have "store_ok pol good (NewMessageStoreExpirable ttl)"
    by (simp add: store_ok_def datas_def NewMessageStoreExpirable_def newMsgStore_def)
  from Add_accept [OF this x, of t0] assms(6)
  have s1: "s1 = (NewMessageStoreExpirable ttl)\<lparr>ms_messages := [\<lparr>sd_data = x, sd_created = t0, sd_expired = False\<rparr>]\<rparr>"
    by (simp add: NewMessageStoreExpirable_def newMsgStore_def datas_def)
  then have tick: "fst (expirationTick t1 s1) =
      (NewMessageStoreExpirable ttl)\<lparr>ms_messages := [\<lparr>sd_data = x, sd_created = t0, sd_expired = True\<rparr>],
        ms_expiredCount := 1\<rparr>" (is "_ = ?s")
    using ttl
    by (simp add: expirationTick_eq expireMessages_eq Let_def NewMessageStoreExpirable_def newMsgStore_def
        overdue_def dropped_def mark_def)
  have yx: "pol y x = Some MessageInvalidates"
    using assms by (simp add: pol_newest newer_wins_def)
  have "store_ok pol good ?s" using x by (simp add: store_ok_def datas_def)
  from Add_accept [OF this y, of t2] yx assms(7) tick
  show ?thesis
    by (auto simp: datas_def MessageStore_Get_def MessageStore_Size_def)
qed

end

section \<open>Example messages\<close>

definition example_alive :: "string \<Rightarrow> u64 \<Rightarrow> u64 \<Rightarrow> SignedGossipMessage" where
  "example_alive k inc sq =
     \<lparr>sg_Envelope = Some \<lparr>ev_Payload = Some ''p'', ev_Signature = Some ''p'', ev_SecretEnvelope = None\<rparr>,
      sg_Msg = \<lparr>gm_Nonce = 0, gm_Channel = None, gm_Tag = Tag_EMPTY,
        gm_Content = Some (AliveMsg \<lparr>am_Membership = Some \<lparr>mb_Endpoint = k, mb_Metadata = None, mb_PkiId = Some k\<rparr>,
          am_Timestamp = Some (PeerTime inc sq), am_Identity = None\<rparr>)\<rparr>\<rparr>"

lemma view_of_example [simp]: "view_of (example_alive k inc sq) = Some (VAlive k (PeerTime inc sq))"
  by (simp add: view_of_def example_alive_def)

lemma example_alive_ok [simp]:
  "alive_ok (example_alive k inc sq)" "comparable (example_alive k inc sq)"
  "msg_peer (example_alive k inc sq) = k" "msg_stamp (example_alive k inc sq) = PeerTime inc sq"
  by (simp_all add: newest_defs comparable_def)

lemma example_policy:
  "NewGossipMessageComparator n (example_alive k inc sq) (example_alive k' inc' sq') =
     Some (newer_wins k (PeerTime inc sq) k' (PeerTime inc' sq'))"
  using alive_policy.pol_newest [of "example_alive k inc sq" "example_alive k' inc' sq'" n] by simp

lemma example_time [simp]: "PeerTime i a < PeerTime j b \<longleftrightarrow> i < j \<or> i = j \<and> a < b"
  by (simp add: less_PeerTime_def)

section \<open>Properties\<close>

text \<open>Adding any sequence of alive messages never panics and leaves exactly one message for
  each peer heard of, one of the messages received, with the latest logical time of that peer.\<close>

theorem alive_adds_newest:
  assumes "\<forall>x\<in>set xs. alive_ok (snd x)"
  shows "\<exists>s. adds (NewGossipMessageComparator n) xs (NewMessageStoreExpirable ttl) = Some s \<and>
    distinct (map msg_peer (datas s)) \<and>
    msg_peer ` set (datas s) = msg_peer ` snd ` set xs \<and>
    (\<forall>d\<in>set (datas s). d \<in> snd ` set xs \<and>
       (\<forall>x\<in>snd ` set xs. msg_peer x = msg_peer d \<longrightarrow> msg_stamp x \<le> msg_stamp d))"
  using alive_policy.adds_newest [OF assms alive_policy.holds_newest_empty, of "NewMessageStoreExpirable ttl" n]
  by (auto simp: alive_policy.holds_newest_def alive_policy.distinct_peers)

theorem alive_adds_newest_witness:
  "\<exists>s. adds (NewGossipMessageComparator 0)
      [(1, example_alive ''a'' 7 1), (2, example_alive ''b'' 7 5), (3, example_alive ''a'' 7 2)]
      (NewMessageStoreExpirable 100) = Some s \<and>
    msg_peer ` set (datas s) = {''a'', ''b''}"
proof -
  have h: "\<forall>x\<in>set [(1, example_alive ''a'' 7 1), (2, example_alive ''b'' 7 5), (3, example_alive ''a'' 7 2)].
      alive_ok (snd x)" by simp
  show ?thesis using alive_adds_newest [OF h, of 0 100] by auto
qed

text \<open>C37. A store whose messages the comparator leaves side by side handles an addition in one of two
  ways: if a stored message invalidates the new one, nothing changes, no stored message is lost and no
  trigger fires; otherwise exactly the messages it invalidates are cut out and triggered, in
  order, and the new message is appended. The result is again such a store.\<close>

theorem comparator_Add:
  assumes "store_ok (NewGossipMessageComparator n) comparable s" "comparable x"
  shows "MessageStore_Add (NewGossipMessageComparator n) now x s =
    (if \<exists>d\<in>set (datas s). NewGossipMessageComparator n x d = Some MessageInvalidated then Some (False, s, [])
     else Some (True,
       s\<lparr>ms_messages :=
           filter (\<lambda>m. NewGossipMessageComparator n x (sd_data m) \<noteq> Some MessageInvalidates) (ms_messages s)
           @ [\<lparr>sd_data = x, sd_created = now, sd_expired = False\<rparr>]\<rparr>,
       filter (\<lambda>d. NewGossipMessageComparator n x d = Some MessageInvalidates) (datas s))) \<and>
    (\<exists>b s' trig. MessageStore_Add (NewGossipMessageComparator n) now x s = Some (b, s', trig) \<and>
       store_ok (NewGossipMessageComparator n) comparable s')"
proof -
  obtain b s' trig where "MessageStore_Add (NewGossipMessageComparator n) now x s = Some (b, s', trig)"
    using comparator.Add_total [OF assms, of now] by auto
  then show ?thesis
    using comparator.Add_accept [OF assms, of now] comparator.Add_reject [OF assms, of _ now]
      comparator.Add_store_ok [OF assms, of now]
    by auto
qed

text \<open>On messages whose nil-able fields are present the comparator is a replacement policy: it
  never panics, a message is invalidated by itself, \<open>NoAction\<close> is symmetric, invalidating is the
  converse of being invalidated, and no message can invalidate one stored message and be
  invalidated by another one that is unrelated to the first.\<close>

theorem comparator_laws:
  assumes "comparable x" "comparable a" "comparable b"
  shows "NewGossipMessageComparator n x a \<noteq> None \<and>
    NewGossipMessageComparator n x x = Some MessageInvalidated \<and>
    (NewGossipMessageComparator n x a = Some MessageNoAction \<longrightarrow>
       NewGossipMessageComparator n a x = Some MessageNoAction) \<and>
    (NewGossipMessageComparator n x a = Some MessageInvalidates \<longrightarrow>
       NewGossipMessageComparator n a x = Some MessageInvalidated) \<and>
    (NewGossipMessageComparator n x a = Some MessageInvalidates \<and>
     NewGossipMessageComparator n x b = Some MessageInvalidated \<longrightarrow>
       NewGossipMessageComparator n a b \<noteq> Some MessageNoAction)"
  using comparator.pol_total [OF assms(1,2)] comparator.pol_self [OF assms(1)]
    comparator.pol_noact_sym [OF assms(1,2)] comparator.pol_conv [OF assms(1,2)]
    comparator.pol_clash [OF assms] by blast

theorem comparator_laws_witness:
  "NewGossipMessageComparator 5 (example_alive ''a'' 7 2) (example_alive ''a'' 7 1) = Some MessageInvalidates \<and>
   NewGossipMessageComparator 5 (example_alive ''a'' 7 1) (example_alive ''a'' 7 2) = Some MessageInvalidated"
proof -
  have "NewGossipMessageComparator 5 (example_alive ''a'' 7 2) (example_alive ''a'' 7 1) = Some MessageInvalidates"
    by (simp add: example_policy newer_wins_def)
  with comparator_laws [of "example_alive ''a'' 7 2" "example_alive ''a'' 7 1" "example_alive ''b'' 7 1" 5]
  show ?thesis by simp
qed

theorem comparator_Add_witness:
  "MessageStore_Add (NewGossipMessageComparator 5) 9 (example_alive ''a'' 7 2) (NewMessageStoreExpirable 100) =
     Some (True, (NewMessageStoreExpirable 100)\<lparr>ms_messages :=
       [\<lparr>sd_data = example_alive ''a'' 7 2, sd_created = 9, sd_expired = False\<rparr>]\<rparr>, [])"
proof -
  have "store_ok (NewGossipMessageComparator 5) comparable (NewMessageStoreExpirable 100)" by simp
  from comparator_Add [OF this, of "example_alive ''a'' 7 2" 9] show ?thesis
    by (simp add: NewMessageStoreExpirable_def newMsgStore_def datas_def)
qed

text \<open>For every policy and every store, \<open>Add\<close> accepts a message exactly when \<open>CheckValid\<close> on the
  same store does, and panics exactly when it does.\<close>

theorem Add_agrees_CheckValid:
  "map_option fst (MessageStore_Add policy now x s) = MessageStore_CheckValid policy x s"
  by (rule Add_answer)

text \<open>A message that was added is refused as a duplicate through any number of expiration rounds,
  up to twice its time to live after it was added: expiring it does not re-admit it.\<close>

theorem replay_is_refused:
  assumes "store_ok (NewGossipMessageComparator n) comparable s" "comparable x"
    and "MessageStore_Add (NewGossipMessageComparator n) now x s = Some (True, s', trig)"
    and "\<forall>t\<in>set ts. time_since t now \<le> ms_msgTTL s * 2"
  shows "MessageStore_CheckValid (NewGossipMessageComparator n) x
    (fold (\<lambda>t s. fst (expirationTick t s)) ts s') = Some False"
  using assms by (rule comparator.replay_refused)

theorem replay_is_refused_witness:
  "MessageStore_CheckValid (NewGossipMessageComparator 5) (example_alive ''a'' 7 2)
    (fold (\<lambda>t s. fst (expirationTick t s)) [50, 150, 200]
      ((NewMessageStoreExpirable 100)\<lparr>ms_messages :=
         [\<lparr>sd_data = example_alive ''a'' 7 2, sd_created = 9, sd_expired = False\<rparr>]\<rparr>)) = Some False"
proof (rule replay_is_refused [where s = "NewMessageStoreExpirable 100" and now = 9 and trig = "[]"])
  show "MessageStore_Add (NewGossipMessageComparator 5) 9 (example_alive ''a'' 7 2) (NewMessageStoreExpirable 100) =
     Some (True, (NewMessageStoreExpirable 100)\<lparr>ms_messages :=
       [\<lparr>sd_data = example_alive ''a'' 7 2, sd_created = 9, sd_expired = False\<rparr>]\<rparr>, [])"
    by (subst comparator.Add_accept) (simp_all add: NewMessageStoreExpirable_def newMsgStore_def datas_def store_ok_def)
qed (simp_all add: time_since_def time_sub_def max_duration_def NewMessageStoreExpirable_def newMsgStore_def store_ok_def datas_def)

text \<open>A round of the expiration routine, unless the store is stopped: the messages older than the
  time to live that are not yet marked are marked and reported to the callback, in order, the
  marked ones older than twice the time to live are dropped, everything else is kept, and the
  counter moves by the difference.\<close>

theorem expirationTick_correct:
  "expirationTick now s =
    (if ms_done s then (s, [])
     else (s\<lparr>ms_messages :=
             map (\<lambda>m. if \<not> sd_expired m \<and> time_since now (sd_created m) > ms_msgTTL s
                      then m\<lparr>sd_expired := True\<rparr> else m)
               (filter (\<lambda>m. \<not> (sd_expired m \<and> time_since now (sd_created m) > ms_msgTTL s * 2)) (ms_messages s)),
           ms_expiredCount := ms_expiredCount s
             + int (length (filter (overdue (ms_msgTTL s) now) (ms_messages s)))
             - int (length (filter (dropped (ms_msgTTL s) now) (ms_messages s)))\<rparr>,
           map sd_data (filter (\<lambda>m. \<not> sd_expired m \<and> time_since now (sd_created m) > ms_msgTTL s) (ms_messages s))))"
  by (simp add: expirationTick_eq expireMessages_eq Let_def mark_def [abs_def] overdue_def [abs_def] dropped_def [abs_def])

inductive store_step :: "'m policy \<Rightarrow> 'm MessageStore \<Rightarrow> 'm MessageStore \<Rightarrow> bool" for policy where
  st_Add: "MessageStore_Add policy now x s = Some (b, s', trig) \<Longrightarrow> store_step policy s s'"
| st_Purge: "store_step policy s (fst (MessageStore_Purge P s))"
| st_tick: "store_step policy s (fst (expirationTick now s))"
| st_Stop: "store_step policy s (MessageStore_Stop s)"

interpretation counter: inv_machine "\<lambda>s. \<exists>ttl. s = NewMessageStoreExpirable ttl" "store_step policy" counter_ok for policy
proof unfold_locales
  show "store_step policy s t \<Longrightarrow> counter_ok s \<Longrightarrow> counter_ok t" for s t :: "'a MessageStore"
    by (induction rule: store_step.induct)
       (auto simp: Purge_counter_ok tick_counter_ok Stop_counter_ok dest: Add_counter_ok)
qed auto

text \<open>Adding, purging and expiring, in any order from a new store, keep \<open>Size\<close> at or below the
  number of messages \<open>Get\<close> returns: the expired counter never misses an expired message.\<close>

theorem Size_below_Get:
  assumes "(store_step policy)\<^sup>*\<^sup>* (NewMessageStoreExpirable ttl) s"
  shows "MessageStore_Size s \<le> int (length (MessageStore_Get s))"
  using counter.reach_inv [OF _ assms] Size_Get [of s] by (auto simp: counter_ok_def)

theorem Size_below_Get_witness:
  "MessageStore_Size (MessageStore_Stop (NewMessageStoreExpirable 5 :: nat MessageStore)) \<le> 0"
proof -
  have "(store_step (\<lambda>_ _. Some MessageNoAction))\<^sup>*\<^sup>* (NewMessageStoreExpirable 5)
      (MessageStore_Stop (NewMessageStoreExpirable 5 :: nat MessageStore))"
    by (rule r_into_rtranclp) (rule st_Stop)
  from Size_below_Get [OF this] show ?thesis
    by (simp add: MessageStore_Stop_def NewMessageStoreExpirable_def newMsgStore_def MessageStore_Get_def)
qed

text \<open>The counter does miss that an expired message is gone: when an alive message expires and a
  newer message of the same peer then replaces it, the store holds one live message and
  reports size 0.\<close>

theorem alive_Size_drifts:
  assumes "alive_ok x" "alive_ok y" "msg_peer x = msg_peer y" "msg_stamp x < msg_stamp y"
    and "time_since t1 t0 > ttl"
    and "MessageStore_Add (NewGossipMessageComparator n) t0 x (NewMessageStoreExpirable ttl) = Some (True, s1, trig1)"
    and "MessageStore_Add (NewGossipMessageComparator n) t2 y (fst (expirationTick t1 s1)) = Some (b, s2, trig2)"
  shows "b \<and> MessageStore_Get s2 = [y] \<and> MessageStore_Size s2 = 0"
  using assms by (rule alive_policy.Size_drifts)

theorem alive_Size_drifts_witness:
  "\<exists>s1 s2. MessageStore_Add (NewGossipMessageComparator 5) 0 (example_alive ''a'' 7 1) (NewMessageStoreExpirable 100)
      = Some (True, s1, []) \<and>
    map_option (fst \<circ> snd) (MessageStore_Add (NewGossipMessageComparator 5) 160 (example_alive ''a'' 7 2)
      (fst (expirationTick 150 s1))) = Some s2 \<and>
    MessageStore_Get s2 = [example_alive ''a'' 7 2] \<and> MessageStore_Size s2 = 0"
proof -
  let ?P = "NewGossipMessageComparator 5" and ?x = "example_alive ''a'' 7 1" and ?y = "example_alive ''a'' 7 2"
  have new: "store_ok ?P alive_ok (NewMessageStoreExpirable 100)" by simp
  from alive_policy.Add_accept [OF new, of ?x 0] obtain s1 where
    s1: "MessageStore_Add ?P 0 ?x (NewMessageStoreExpirable 100) = Some (True, s1, [])" by simp
  have ok: "store_ok ?P alive_ok (fst (expirationTick 150 s1))"
    by (intro tick_store_ok alive_policy.Add_store_ok [OF new _ s1]) simp
  from alive_policy.Add_total [OF ok, of ?y 160] obtain b s2 trig where
    s2: "MessageStore_Add ?P 160 ?y (fst (expirationTick 150 s1)) = Some (b, s2, trig)" by auto
  from alive_Size_drifts [OF _ _ _ _ _ s1 s2] have "MessageStore_Get s2 = [?y] \<and> MessageStore_Size s2 = 0"
    by (simp add: time_since_def time_sub_def max_duration_def)
  with s1 s2 show ?thesis by auto
qed

end
