(* ===== verification/Crypto.thy ===== *)
theory Crypto
  imports Policy
begin

text \<open>
  The message crypto service of common.go (\<open>NaiveMessageCryptoService\<close>) and the signing of
  messages in msg.go. Marshalling is the protobuf library, so it is a parameter: a codec
  of four functions. What the lemmas need of it, that a marshalled message unmarshals to
  itself, is the hypothesis \<open>codec_ok\<close>. Signing relies on a signer and a verifier whose
  contract is the locale \<open>signature_scheme\<close>; the crypto service provides it.
\<close>

section \<open>The codec\<close>

record codec =
  marshal :: "GossipMessage \<Rightarrow> error + bytes"
  unmarshal :: "bytes \<Rightarrow> error + GossipMessage"
  marshal_secret :: "Secret \<Rightarrow> error + bytes"
  unmarshal_secret :: "bytes \<Rightarrow> error + Secret"

definition codec_ok :: "codec \<Rightarrow> bool" where
  "codec_ok c \<longleftrightarrow>
     (\<forall>m p. marshal c m = Inr p \<longrightarrow> unmarshal c p = Inr m) \<and>
     (\<forall>x p. marshal_secret c x = Inr p \<longrightarrow> unmarshal_secret c p = Inr x)"

type_synonym Signer = "bytes \<Rightarrow> error + bytes"
type_synonym verifier = "bytes \<Rightarrow> bytes \<Rightarrow> bytes \<Rightarrow> error option"

section \<open>The crypto service\<close>

text \<open>A nil map is \<open>None\<close>: the service then allows every peer, or has revoked none.\<close>

record NaiveMessageCryptoService =
  AllowedPkiIDS :: "string goset option"
  RevokedPkiIDS :: "string goset option"

definition OrgByPeerId :: "bytes \<Rightarrow> bytes" where
  "OrgByPeerId peerId = None"

definition GetPKIidOfCert :: "bytes \<Rightarrow> bytes" where
  "GetPKIidOfCert peerId = peerId"

text \<open>\<open>make\<close> gives a non-nil slice also for an empty message.\<close>

definition mcs_Sign :: "bytes \<Rightarrow> error + bytes" where
  "mcs_Sign msg = Inr (Some (str_of msg))"

fun fmt_byte_list :: "string \<Rightarrow> string" where
  "fmt_byte_list [] = []"
| "fmt_byte_list [c] = fmt_d (of_char c)"
| "fmt_byte_list (c # cs) = fmt_d (of_char c) @ '' '' @ fmt_byte_list cs"

definition fmt_bytes :: "bytes \<Rightarrow> string" where
  "fmt_bytes b = ''['' @ fmt_byte_list (str_of b) @ '']''"

definition mcs_Verify :: "bytes \<Rightarrow> bytes \<Rightarrow> bytes \<Rightarrow> error option" where
  "mcs_Verify peerId signature message =
     (if \<not> bytes_eq signature message
      then Some (Error (''wrong signature:'' @ fmt_bytes signature @ '', '' @ fmt_bytes message))
      else None)"

definition VerifyBlock :: "bytes \<Rightarrow> u64 \<Rightarrow> bytes \<Rightarrow> error option" where
  "VerifyBlock chainID seqNum signedBlock = None"

definition VerifyByChannel ::
  "NaiveMessageCryptoService \<Rightarrow> bytes \<Rightarrow> bytes \<Rightarrow> bytes \<Rightarrow> bytes \<Rightarrow> error option" where
  "VerifyByChannel cs chainID peerId signature message =
     (case AllowedPkiIDS cs of
        None \<Rightarrow> None
      | Some ids \<Rightarrow> if map_has ids (str_of peerId) then None else Some (Error ''forbidden''))"

definition ValidateIdType :: "NaiveMessageCryptoService \<Rightarrow> bytes \<Rightarrow> error option" where
  "ValidateIdType cs peerId =
     (case RevokedPkiIDS cs of
        None \<Rightarrow> None
      | Some ids \<Rightarrow> if map_has ids (str_of (GetPKIidOfCert peerId)) then Some (Error ''revoked'') else None)"

text \<open>
  The global table \<open>ExpirationTimes\<close> is an argument; its zero time is \<open>None\<close>. An identity
  the table lacks expires an hour after the call.
\<close>

type_synonym expiration_table = "(string, instant option) gomap"

definition Expiration :: "expiration_table \<Rightarrow> instant \<Rightarrow> bytes \<Rightarrow> error + instant option" where
  "Expiration ExpirationTimes now peerId =
     (case map_get ExpirationTimes (str_of peerId) of
        Some exp \<Rightarrow> Inr exp
      | None \<Rightarrow> Inr (Some (now + 3600 * second)))"

definition Revoke :: "bytes \<Rightarrow> NaiveMessageCryptoService \<Rightarrow> NaiveMessageCryptoService" where
  "Revoke pkiID cs =
     (let ids = (case RevokedPkiIDS cs of None \<Rightarrow> [] | Some ids \<Rightarrow> ids)
      in cs\<lparr>RevokedPkiIDS := Some (map_put (str_of pkiID) () ids)\<rparr>)"

lemma mcs_Verify_iff [simp]: "mcs_Verify p sig msg = None \<longleftrightarrow> str_of sig = str_of msg"
  by (simp add: mcs_Verify_def bytes_eq_def)

definition revoked :: "NaiveMessageCryptoService \<Rightarrow> string \<Rightarrow> bool" where
  "revoked cs k \<longleftrightarrow> (case RevokedPkiIDS cs of None \<Rightarrow> False | Some ids \<Rightarrow> map_has ids k)"

lemma ValidateIdType_iff: "ValidateIdType cs p = None \<longleftrightarrow> \<not> revoked cs (str_of p)"
  by (simp add: ValidateIdType_def revoked_def GetPKIidOfCert_def split: option.splits)

lemma revoked_Revoke: "revoked (Revoke p cs) k \<longleftrightarrow> k = str_of p \<or> revoked cs k"
  by (auto simp: revoked_def Revoke_def map_has_def Let_def split: option.splits)

section \<open>Signing\<close>

text \<open>
  \<open>Sign\<close> works on the message in place: it clears the envelope before marshalling, so a
  failure leaves it nil; the secret envelope of the old envelope is carried over.
\<close>

definition Sign ::
  "codec \<Rightarrow> Signer \<Rightarrow> SignedGossipMessage \<Rightarrow> (error + Envelope) \<times> SignedGossipMessage" where
  "Sign c signer m =
     (let secretEnvelope = (case sg_Envelope m of None \<Rightarrow> None | Some e \<Rightarrow> ev_SecretEnvelope e);
          m0 = m\<lparr>sg_Envelope := None\<rparr>
      in case marshal c (sg_Msg m) of
           Inl err \<Rightarrow> (Inl err, m0)
         | Inr payload \<Rightarrow>
             (case signer payload of
                Inl err \<Rightarrow> (Inl err, m0)
              | Inr sig \<Rightarrow>
                  (let e = \<lparr>ev_Payload = payload, ev_Signature = sig, ev_SecretEnvelope = secretEnvelope\<rparr>
                   in (Inr e, m0\<lparr>sg_Envelope := Some e\<rparr>))))"

definition SignedGossipMessage_Verify ::
  "bytes \<Rightarrow> verifier \<Rightarrow> SignedGossipMessage \<Rightarrow> error option" where
  "SignedGossipMessage_Verify peerId verify m =
     (case sg_Envelope m of
        None \<Rightarrow> Some (Error ''missing envelope'')
      | Some e \<Rightarrow>
          if bytes_len (ev_Payload e) = 0 then Some (Error ''empty payload'')
          else if bytes_len (ev_Signature e) = 0 then Some (Error ''empty signature'')
          else (case verify peerId (ev_Signature e) (ev_Payload e) of
                  Some err \<Rightarrow> Some err
                | None \<Rightarrow>
                    (case ev_SecretEnvelope e of
                       None \<Rightarrow> None
                     | Some se \<Rightarrow>
                         if bytes_len (se_Payload se) = 0 then Some (Error ''empty payload'')
                         else if bytes_len (se_Signature se) = 0 then Some (Error ''empty signature'')
                         else verify peerId (se_Signature se) (se_Payload se))))"

text \<open>\<open>NoopSign\<close> returns the message also when marshalling fails; its envelope is then nil.\<close>

definition NoopSign :: "codec \<Rightarrow> GossipMessage \<Rightarrow> SignedGossipMessage \<times> error option" where
  "NoopSign c m =
     (case Sign c (\<lambda>_. Inr None) \<lparr>sg_Envelope = None, sg_Msg = m\<rparr> of
        (Inl err, s) \<Rightarrow> (s, Some err)
      | (Inr _, s) \<Rightarrow> (s, None))"

definition wrap_unmarshal :: "error \<Rightarrow> error" where
  "wrap_unmarshal err =
     (case err of Error t \<Rightarrow> Error (''failed unmarshaling GossipMessage from envelope:'' @ t))"

definition ToGossipMessage :: "codec \<Rightarrow> Envelope \<Rightarrow> error + SignedGossipMessage" where
  "ToGossipMessage c e =
     (case unmarshal c (ev_Payload e) of
        Inl err \<Rightarrow> Inl (wrap_unmarshal err)
      | Inr m \<Rightarrow> Inr \<lparr>sg_Envelope = Some e, sg_Msg = m\<rparr>)"

definition SignSecret :: "codec \<Rightarrow> Signer \<Rightarrow> Secret \<Rightarrow> Envelope \<Rightarrow> error option \<times> Envelope" where
  "SignSecret c signer secret e =
     (case marshal_secret c secret of
        Inl err \<Rightarrow> (Some err, e)
      | Inr payload \<Rightarrow>
          (case signer payload of
             Inl err \<Rightarrow> (Some err, e)
           | Inr sig \<Rightarrow>
               (None, e\<lparr>ev_SecretEnvelope := Some \<lparr>se_Payload = payload, se_Signature = sig\<rparr>\<rparr>)))"

definition InternalEndpoint :: "codec \<Rightarrow> SecretEnvelope \<Rightarrow> string" where
  "InternalEndpoint c se =
     (case unmarshal_secret c (se_Payload se) of Inl _ \<Rightarrow> [] | Inr x \<Rightarrow> GetInternalEndpoint x)"

lemmas signing_defs = Sign_def NoopSign_def ToGossipMessage_def SignSecret_def InternalEndpoint_def

lemma Sign_msg [simp]: "sg_Msg (snd (Sign c signer m)) = sg_Msg m"
  by (simp add: Sign_def Let_def split: sum.splits)

lemma Sign_envelope: "Sign c signer m = (Inr e, s) \<Longrightarrow> s = m\<lparr>sg_Envelope := Some e\<rparr>"
  by (auto simp: Sign_def Let_def split: sum.splits)

lemma Sign_ToGossipMessage:
  assumes "codec_ok c" "Sign c signer m = (Inr e, s)"
  shows "ToGossipMessage c e = Inr s"
proof -
  have "marshal c (sg_Msg m) = Inr (ev_Payload e)" "s = m\<lparr>sg_Envelope := Some e\<rparr>"
    using assms(2) by (auto simp: Sign_def Let_def split: sum.splits)
  moreover from this assms(1) have "unmarshal c (ev_Payload e) = Inr (sg_Msg m)"
    by (simp add: codec_ok_def)
  ultimately show ?thesis by (simp add: ToGossipMessage_def)
qed

lemma NoopSign_eq:
  "NoopSign c m =
     (case marshal c m of
        Inl err \<Rightarrow> (\<lparr>sg_Envelope = None, sg_Msg = m\<rparr>, Some err)
      | Inr p \<Rightarrow> (\<lparr>sg_Envelope = Some \<lparr>ev_Payload = p, ev_Signature = None, ev_SecretEnvelope = None\<rparr>,
                   sg_Msg = m\<rparr>, None))"
  by (simp add: NoopSign_def Sign_def Let_def split: sum.splits)

section \<open>The contract of a signer and its verifier\<close>

text \<open>
  What \<open>Verify\<close> needs to accept what \<open>Sign\<close> made: the signer's signatures verify under the
  signer's identity, and a signature of a non-empty message is not empty.
\<close>

locale signature_scheme =
  fixes sign :: Signer
    and verify :: verifier
    and owner :: "bytes \<Rightarrow> bool"
  assumes sign_verifies: "owner p \<Longrightarrow> sign msg = Inr sig \<Longrightarrow> verify p sig msg = None"
    and sign_nonempty: "sign msg = Inr sig \<Longrightarrow> bytes_len msg \<noteq> 0 \<Longrightarrow> bytes_len sig \<noteq> 0"
begin

definition secret_ok :: "bytes \<Rightarrow> SecretEnvelope option \<Rightarrow> bool" where
  "secret_ok p se \<longleftrightarrow>
     (case se of None \<Rightarrow> True
      | Some x \<Rightarrow> bytes_len (se_Payload x) \<noteq> 0 \<and> bytes_len (se_Signature x) \<noteq> 0 \<and>
          verify p (se_Signature x) (se_Payload x) = None)"

lemma signed:
  assumes "Sign c sign m = (Inr e, s)" "owner p" "bytes_len (ev_Payload e) \<noteq> 0"
  shows "verify p (ev_Signature e) (ev_Payload e) = None" "bytes_len (ev_Signature e) \<noteq> 0"
proof -
  have "sign (ev_Payload e) = Inr (ev_Signature e)"
    using assms(1) by (auto simp: Sign_def Let_def split: sum.splits)
  then show "verify p (ev_Signature e) (ev_Payload e) = None" "bytes_len (ev_Signature e) \<noteq> 0"
    using assms sign_verifies sign_nonempty by blast+
qed

lemma Sign_Verify:
  assumes "Sign c sign m = (Inr e, s)" "owner p" "bytes_len (ev_Payload e) \<noteq> 0"
    and "case sg_Envelope m of None \<Rightarrow> True | Some old \<Rightarrow> secret_ok p (ev_SecretEnvelope old)"
  shows "SignedGossipMessage_Verify p verify s = None"
proof -
  have "s = m\<lparr>sg_Envelope := Some e\<rparr>" using Sign_envelope assms(1) .
  moreover have "ev_SecretEnvelope e = Option.bind (sg_Envelope m) ev_SecretEnvelope"
    using assms(1) by (auto simp: Sign_def Let_def split: sum.splits option.splits)
  ultimately show ?thesis
    using assms(3,4) signed [OF assms(1-3)]
    by (auto simp: SignedGossipMessage_Verify_def secret_ok_def split: option.splits)
qed

lemma SignSecret_ok:
  assumes "SignSecret c sign x e = (None, e')" "owner p"
    and "\<And>pl. marshal_secret c x = Inr pl \<Longrightarrow> bytes_len pl \<noteq> 0"
  shows "secret_ok p (ev_SecretEnvelope e') \<and> ev_Payload e' = ev_Payload e \<and> ev_Signature e' = ev_Signature e"
proof -
  obtain pl sig where "marshal_secret c x = Inr pl" "sign pl = Inr sig"
    "e' = e\<lparr>ev_SecretEnvelope := Some \<lparr>se_Payload = pl, se_Signature = sig\<rparr>\<rparr>"
    using assms(1) by (auto simp: SignSecret_def split: sum.splits)
  with assms(2,3) sign_verifies sign_nonempty show ?thesis by (auto simp: secret_ok_def)
qed

lemma SignSecret_Verify:
  assumes sg: "Sign c sign m = (Inr e, s)" "owner p" "bytes_len (ev_Payload e) \<noteq> 0"
    and sec: "SignSecret c sign x e = (None, e')"
    and ne: "\<And>pl. marshal_secret c x = Inr pl \<Longrightarrow> bytes_len pl \<noteq> 0"
  shows "SignedGossipMessage_Verify p verify (s\<lparr>sg_Envelope := Some e'\<rparr>) = None"
  using SignSecret_ok [OF sec sg(2) ne] sg(3) signed [OF sg]
  by (auto simp: SignedGossipMessage_Verify_def secret_ok_def split: option.splits)

end

interpretation naive: signature_scheme mcs_Sign mcs_Verify "\<lambda>_. True"
  by unfold_locales (auto simp: mcs_Sign_def bytes_len_def)

section \<open>A codec to compute with\<close>

text \<open>
  A codec that meets \<open>codec_ok\<close>: it knows a list of messages and encodes each as its
  position, and refuses the others. It only serves to evaluate statements that have
  \<open>codec_ok\<close> as a hypothesis.
\<close>

fun index_of :: "'a \<Rightarrow> 'a list \<Rightarrow> nat option" where
  "index_of x [] = None"
| "index_of x (y # ys) = (if x = y then Some 0 else map_option Suc (index_of x ys))"

lemma index_of_nth: "index_of x xs = Some i \<Longrightarrow> i < length xs \<and> xs ! i = x"
  by (induction xs arbitrary: i) (auto split: if_splits)

definition table_enc :: "'a list \<Rightarrow> 'a \<Rightarrow> error + bytes" where
  "table_enc xs x = (case index_of x xs of None \<Rightarrow> Inl (Error ''unknown'') | Some i \<Rightarrow> Inr (Some (replicate (Suc i) CHR ''x'')))"

definition table_dec :: "'a list \<Rightarrow> bytes \<Rightarrow> error + 'a" where
  "table_dec xs b =
     (let n = bytes_len b in if 0 < n \<and> n \<le> length xs then Inr (xs ! (n - 1)) else Inl (Error ''malformed''))"

lemma table_dec_enc: "table_enc xs x = Inr p \<Longrightarrow> table_dec xs p = Inr x"
  using index_of_nth [of x xs]
  by (auto simp: table_enc_def table_dec_def bytes_len_def split: option.splits)

definition table_codec :: "GossipMessage list \<Rightarrow> Secret list \<Rightarrow> codec" where
  "table_codec ms xs =
     \<lparr>marshal = table_enc ms, unmarshal = table_dec ms, marshal_secret = table_enc xs, unmarshal_secret = table_dec xs\<rparr>"

lemma table_codec_ok [simp]: "codec_ok (table_codec ms xs)"
  by (simp add: codec_ok_def table_codec_def table_dec_enc)

definition empty_msg :: GossipMessage where
  "empty_msg = \<lparr>gm_Nonce = 7, gm_Channel = None, gm_Tag = Tag_EMPTY, gm_Content = Some (EmptyMsg Empty)\<rparr>"

definition example_secret :: Secret where
  "example_secret = \<lparr>sc_Content = Some (Secret_InternalEndpoint ''h:1'')\<rparr>"

definition example_codec :: codec where
  "example_codec = table_codec [empty_msg] [example_secret]"

section \<open>Properties\<close>

text \<open>A message signed by the crypto service and extended with a signed secret verifies for every
  peer identity, and what a receiver decodes from its envelope is the message that was signed.\<close>

theorem sign_then_verify:
  assumes "codec_ok c"
    and "Sign c mcs_Sign m = (Inr e, s)" "bytes_len (ev_Payload e) \<noteq> 0"
    and "SignSecret c mcs_Sign x e = (None, e')"
    and "\<forall>pl. marshal_secret c x = Inr pl \<longrightarrow> bytes_len pl \<noteq> 0"
  shows "\<exists>r. ToGossipMessage c e' = Inr r \<and> sg_Msg r = sg_Msg m \<and>
    SignedGossipMessage_Verify p mcs_Verify r = None \<and>
    (\<forall>se. ev_SecretEnvelope e' = Some se \<longrightarrow> InternalEndpoint c se = GetInternalEndpoint x)"
proof -
  have s: "s = m\<lparr>sg_Envelope := Some e\<rparr>" using Sign_envelope assms(2) .
  have "marshal c (sg_Msg m) = Inr (ev_Payload e)"
    using assms(2) by (auto simp: Sign_def Let_def split: sum.splits)
  with assms(1) have "unmarshal c (ev_Payload e) = Inr (sg_Msg m)" by (simp add: codec_ok_def)
  moreover have "ev_Payload e' = ev_Payload e" using assms(4) by (auto simp: SignSecret_def split: sum.splits)
  ultimately have r: "ToGossipMessage c e' = Inr (s\<lparr>sg_Envelope := Some e'\<rparr>)"
    by (simp add: ToGossipMessage_def s)
  moreover have "SignedGossipMessage_Verify p mcs_Verify (s\<lparr>sg_Envelope := Some e'\<rparr>) = None"
    using naive.SignSecret_Verify [OF assms(2) _ assms(3,4)] assms(5) by blast
  moreover have "\<forall>se. ev_SecretEnvelope e' = Some se \<longrightarrow> InternalEndpoint c se = GetInternalEndpoint x"
    using assms(1,4) by (auto simp: SignSecret_def InternalEndpoint_def codec_ok_def split: sum.splits)
  ultimately show ?thesis by (simp add: s)
qed

theorem sign_then_verify_witness:
  "\<exists>r. ToGossipMessage example_codec
      (snd (SignSecret example_codec mcs_Sign example_secret
        \<lparr>ev_Payload = Some ''x'', ev_Signature = Some ''x'', ev_SecretEnvelope = None\<rparr>)) = Inr r \<and>
    sg_Msg r = empty_msg \<and> SignedGossipMessage_Verify (Some ''p'') mcs_Verify r = None"
proof -
  let ?m = "\<lparr>sg_Envelope = None, sg_Msg = empty_msg\<rparr>"
  let ?e = "\<lparr>ev_Payload = Some ''x'', ev_Signature = Some ''x'', ev_SecretEnvelope = None\<rparr>"
  have c: "marshal example_codec empty_msg = Inr (Some ''x'')"
    "marshal_secret example_codec example_secret = Inr (Some ''x'')"
    by (simp_all add: example_codec_def table_codec_def table_enc_def)
  have sg: "Sign example_codec mcs_Sign ?m = (Inr ?e, ?m\<lparr>sg_Envelope := Some ?e\<rparr>)"
    by (simp add: Sign_def c mcs_Sign_def Let_def)
  have sec: "SignSecret example_codec mcs_Sign example_secret ?e =
      (None, snd (SignSecret example_codec mcs_Sign example_secret ?e))"
    by (simp add: SignSecret_def c mcs_Sign_def)
  have ok: "codec_ok example_codec" by (simp add: example_codec_def)
  from sign_then_verify [OF ok sg _ sec, of "Some ''p''"] show ?thesis
    by (auto simp: c bytes_len_def)
qed

text \<open>A message signed with \<open>NoopSign\<close> carries no signature, and \<open>Verify\<close> refuses it for every
  identity and every verifier.\<close>

theorem NoopSign_never_verifies:
  "SignedGossipMessage_Verify p verify (fst (NoopSign c m)) \<noteq> None"
  by (simp add: NoopSign_eq SignedGossipMessage_Verify_def bytes_len_def split: sum.splits)

text \<open>Signing a message again replaces the payload and the signature, keeps the secret envelope of the
  envelope it had, and leaves the message itself unchanged; when marshalling or the signer
  fails, the error is returned and the message is left without an envelope.\<close>

theorem Sign_keeps_secret:
  "case Sign c signer m of
     (Inr e, s) \<Rightarrow> s = m\<lparr>sg_Envelope := Some e\<rparr> \<and> marshal c (sg_Msg m) = Inr (ev_Payload e) \<and>
       signer (ev_Payload e) = Inr (ev_Signature e) \<and>
       ev_SecretEnvelope e = Option.bind (sg_Envelope m) ev_SecretEnvelope
   | (Inl err, s) \<Rightarrow> s = m\<lparr>sg_Envelope := None\<rparr> \<and>
       (marshal c (sg_Msg m) = Inl err \<or> (\<exists>p. marshal c (sg_Msg m) = Inr p \<and> signer p = Inl err))"
  by (auto simp: Sign_def Let_def split: sum.splits option.splits)

text \<open>Revoking an identity makes exactly that identity invalid from then on, whatever was revoked
  before; revocations are never undone.\<close>

theorem Revoke_correct:
  "ValidateIdType (Revoke p cs) q = (if str_of q = str_of p then Some (Error ''revoked'') else ValidateIdType cs q)"
  by (auto simp: ValidateIdType_def Revoke_def GetPKIidOfCert_def map_has_def Let_def split: option.splits)

end
