(* ===== verification/IdMapper.thy ===== *)
theory IdMapper
  imports Crypto
begin

text \<open>
  The identity mapper of mapper.go: identities stored under their PKI-id, with the time of
  their last use and an expiration timer. The timers are kept with the entries they belong
  to, and the step that fires one is the call its closure makes. All reads of the clock in
  one operation are one instant. The calls of the purge trigger are returned, in order.
\<close>

section \<open>State and operations\<close>

record storedId =
  sid_pkiID :: bytes
  sid_lastAccessTime :: u64
  sid_peerId :: bytes
  sid_expirationTimer :: "instant option"

record IdMapper =
  im_pkiID2Cert :: "(string, storedId) gomap"
  im_selfPKIID :: string

type_synonym purges = "(bytes \<times> bytes) list"

definition fetchId :: "instant \<Rightarrow> storedId \<Rightarrow> storedId \<times> bytes" where
  "fetchId now si = (si\<lparr>sid_lastAccessTime := unix_nano now\<rparr>, sid_peerId si)"

definition fetchLastAccessTime :: "storedId \<Rightarrow> instant" where
  "fetchLastAccessTime si = unix0 (sid_lastAccessTime si)"

definition wrap_error :: "string \<Rightarrow> error \<Rightarrow> error" where
  "wrap_error t err = (case err of Error u \<Rightarrow> Error (t @ '': '' @ u))"

definition millisecond :: duration where
  "millisecond = 1000000"

definition IdMapper_Put ::
  "NaiveMessageCryptoService \<Rightarrow> expiration_table \<Rightarrow> instant \<Rightarrow> bytes \<Rightarrow> bytes \<Rightarrow> IdMapper \<Rightarrow>
     error option \<times> IdMapper" where
  "IdMapper_Put mcs ExpirationTimes now pkiID idType is =
     (if pkiID = None then (Some (Error ''PKIID is nil''), is)
      else if idType = None then (Some (Error ''idType is nil''), is)
      else case Expiration ExpirationTimes now idType of
        Inl err \<Rightarrow> (Some (wrap_error ''failed classifying idType'' err), is)
      | Inr expirationDate \<Rightarrow>
         (case ValidateIdType mcs idType of
            Some err \<Rightarrow> (Some err, is)
          | None \<Rightarrow>
             (let pid = GetPKIidOfCert idType in
              if \<not> bytes_eq pkiID pid
                then (Some (Error ''idType doesn't match the computed pkiID''), is)
              else if map_has (im_pkiID2Cert is) (str_of pkiID) then (None, is)
              else (case expirationDate of
                      Some t \<Rightarrow>
                        if now > t then (Some (Error ''idType expired''), is)
                        else (None, is\<lparr>im_pkiID2Cert := map_put (str_of pid)
                                \<lparr>sid_pkiID = pkiID, sid_lastAccessTime = unix_nano now, sid_peerId = idType,
                                 sid_expirationTimer = Some (now + time_sub (t + millisecond) now)\<rparr>
                                (im_pkiID2Cert is)\<rparr>)
                    | None \<Rightarrow>
                        (None, is\<lparr>im_pkiID2Cert := map_put (str_of pid)
                                \<lparr>sid_pkiID = pkiID, sid_lastAccessTime = unix_nano now, sid_peerId = idType,
                                 sid_expirationTimer = None\<rparr>
                                (im_pkiID2Cert is)\<rparr>)))))"

definition IdMapper_Get :: "instant \<Rightarrow> bytes \<Rightarrow> IdMapper \<Rightarrow> (error + bytes) \<times> IdMapper" where
  "IdMapper_Get now pkiID is =
     (case map_get (im_pkiID2Cert is) (str_of pkiID) of
        None \<Rightarrow> (Inl (Error ''PKIID wasn't found''), is)
      | Some si \<Rightarrow>
          (let (si', pid) = fetchId now si
           in (Inr pid, is\<lparr>im_pkiID2Cert := map_put (str_of pkiID) si' (im_pkiID2Cert is)\<rparr>)))"

definition IdMapper_Sign :: "bytes \<Rightarrow> error + bytes" where
  "IdMapper_Sign msg = mcs_Sign msg"

definition IdMapper_Verify ::
  "instant \<Rightarrow> bytes \<Rightarrow> bytes \<Rightarrow> bytes \<Rightarrow> IdMapper \<Rightarrow> error option \<times> IdMapper" where
  "IdMapper_Verify now vkID signature message is =
     (case IdMapper_Get now vkID is of
        (Inl err, is') \<Rightarrow> (Some err, is')
      | (Inr cert, is') \<Rightarrow> (mcs_Verify cert signature message, is'))"

definition IdMapper_delete :: "bytes \<Rightarrow> bytes \<Rightarrow> IdMapper \<Rightarrow> IdMapper \<times> purges" where
  "IdMapper_delete pkiID idType is =
     (is\<lparr>im_pkiID2Cert := map_del (str_of pkiID) (im_pkiID2Cert is)\<rparr>, [(pkiID, idType)])"

text \<open>
  The test of one entry in \<open>validateIds\<close>: unused for longer than the threshold, or suspected
  and no longer valid. The validation reads the identity with \<open>fetchId\<close>, so it renews
  the time of last use of every suspected entry.
\<close>

definition validate_entry ::
  "NaiveMessageCryptoService \<Rightarrow> duration \<Rightarrow> instant \<Rightarrow> (bytes \<Rightarrow> bool) \<Rightarrow> string \<Rightarrow> string \<Rightarrow> storedId \<Rightarrow>
     storedId \<times> bool" where
  "validate_entry mcs usageTh now isSuspected self pkiID si =
     (if pkiID \<noteq> self \<and> fetchLastAccessTime si + usageTh < now then (si, True)
      else if \<not> isSuspected (sid_peerId si) then (si, False)
      else (let (si', pid) = fetchId now si in (si', ValidateIdType mcs pid \<noteq> None)))"

fun validate_loop ::
  "(string \<Rightarrow> storedId \<Rightarrow> storedId \<times> bool) \<Rightarrow> (string, storedId) gomap \<Rightarrow>
     (string, storedId) gomap \<times> storedId list" where
  "validate_loop f [] = ([], [])"
| "validate_loop f ((k, si) # m) =
     (let (si', bad) = f k si; (m', revokedIds) = validate_loop f m
      in ((k, si') # m', if bad then si' # revokedIds else revokedIds))"

definition validateIds ::
  "NaiveMessageCryptoService \<Rightarrow> duration \<Rightarrow> instant \<Rightarrow> (bytes \<Rightarrow> bool) \<Rightarrow> IdMapper \<Rightarrow> IdMapper \<times> storedId list" where
  "validateIds mcs usageTh now isSuspected is =
     (let (m, revokedIds) =
        validate_loop (validate_entry mcs usageTh now isSuspected (im_selfPKIID is)) (im_pkiID2Cert is)
      in (is\<lparr>im_pkiID2Cert := m\<rparr>, revokedIds))"

text \<open>
  Stopping the timer of an entry and deleting the entry is one change here, since the timer
  is part of the entry.
\<close>

fun delete_all :: "storedId list \<Rightarrow> IdMapper \<Rightarrow> IdMapper \<times> purges" where
  "delete_all [] is = (is, [])"
| "delete_all (si # sis) is =
     (let (is1, ps) = IdMapper_delete (sid_pkiID si) (sid_peerId si) is;
          (is2, qs) = delete_all sis is1
      in (is2, ps @ qs))"

definition SuspectPeers ::
  "NaiveMessageCryptoService \<Rightarrow> duration \<Rightarrow> instant \<Rightarrow> (bytes \<Rightarrow> bool) \<Rightarrow> IdMapper \<Rightarrow> IdMapper \<times> purges" where
  "SuspectPeers mcs usageTh now isSuspected is =
     (let (is1, revokedIds) = validateIds mcs usageTh now isSuspected is
      in delete_all revokedIds is1)"

text \<open>One round of \<open>periodicalPurgeUnusedIds\<close>.\<close>

definition periodicalPurgeUnusedIds ::
  "NaiveMessageCryptoService \<Rightarrow> duration \<Rightarrow> instant \<Rightarrow> IdMapper \<Rightarrow> IdMapper \<times> purges" where
  "periodicalPurgeUnusedIds mcs usageTh now is = SuspectPeers mcs usageTh now (\<lambda>_. False) is"

definition NewIdMapper ::
  "NaiveMessageCryptoService \<Rightarrow> expiration_table \<Rightarrow> instant \<Rightarrow> bytes \<Rightarrow> IdMapper" where
  "NewIdMapper mcs ExpirationTimes now selfId =
     snd (IdMapper_Put mcs ExpirationTimes now (GetPKIidOfCert selfId) selfId
       \<lparr>im_pkiID2Cert = [], im_selfPKIID = str_of (GetPKIidOfCert selfId)\<rparr>)"

text \<open>The timer of an entry fires, at its instant or later.\<close>

definition timer_fires :: "instant \<Rightarrow> string \<Rightarrow> IdMapper \<Rightarrow> (IdMapper \<times> purges) option" where
  "timer_fires now k is =
     (case map_get (im_pkiID2Cert is) k of
        None \<Rightarrow> None
      | Some si \<Rightarrow>
          (case sid_expirationTimer si of
             None \<Rightarrow> None
           | Some t \<Rightarrow> if t \<le> now then Some (IdMapper_delete (sid_pkiID si) (sid_peerId si) is) else None))"

lemmas mapper_defs = IdMapper_Put_def IdMapper_Get_def IdMapper_delete_def fetchId_def GetPKIidOfCert_def

section \<open>The invariant\<close>

text \<open>
  Every entry lies under the PKI-id it carries, which is the one of its identity; the identity
  is not nil.
\<close>

definition entry_ok :: "string \<Rightarrow> storedId \<Rightarrow> bool" where
  "entry_ok k si \<longleftrightarrow>
     str_of (sid_pkiID si) = k \<and> str_of (GetPKIidOfCert (sid_peerId si)) = k \<and> sid_peerId si \<noteq> None"

definition mapper_ok :: "IdMapper \<Rightarrow> bool" where
  "mapper_ok is \<longleftrightarrow>
     map_wf (im_pkiID2Cert is) \<and>
     (\<forall>k si. map_get (im_pkiID2Cert is) k = Some si \<longrightarrow> entry_ok k si)"

lemma mapper_okI:
  "map_wf (im_pkiID2Cert is) \<Longrightarrow> (\<And>k si. map_get (im_pkiID2Cert is) k = Some si \<Longrightarrow> entry_ok k si) \<Longrightarrow> mapper_ok is"
  by (simp add: mapper_ok_def)

lemma Put_cases:
  assumes "IdMapper_Put mcs tab now pkiID idType is = (r, is')"
  obtains (error) e where "r = Some e" "is' = is"
  | (present) "r = None" "is' = is" "map_has (im_pkiID2Cert is) (str_of pkiID)"
      "bytes_eq pkiID idType" "pkiID \<noteq> None" "idType \<noteq> None" "\<not> revoked mcs (str_of idType)"
  | (new) si where "r = None" "is' = is\<lparr>im_pkiID2Cert := map_put (str_of pkiID) si (im_pkiID2Cert is)\<rparr>"
      "\<not> map_has (im_pkiID2Cert is) (str_of pkiID)" "bytes_eq pkiID idType" "pkiID \<noteq> None" "idType \<noteq> None"
      "sid_pkiID si = pkiID" "sid_peerId si = idType" "sid_lastAccessTime si = unix_nano now"
      "\<not> revoked mcs (str_of idType)"
      "Expiration tab now idType = Inr None \<and> sid_expirationTimer si = None \<or>
       (\<exists>t. Expiration tab now idType = Inr (Some t) \<and> now \<le> t \<and>
          sid_expirationTimer si = Some (now + time_sub (t + millisecond) now))"
proof -
  have key: "bytes_eq pkiID idType \<Longrightarrow> str_of idType = str_of pkiID" by (simp add: bytes_eq_def)
  show thesis
  proof (cases "ValidateIdType mcs idType")
    case None
    then have "\<not> revoked mcs (str_of idType)" by (simp add: ValidateIdType_iff)
    with None show ?thesis
      using assms error present new key
      by (auto simp: IdMapper_Put_def GetPKIidOfCert_def Let_def split: if_splits sum.splits option.splits)
  next
    case (Some e)
    with assms have "r \<noteq> None \<and> is' = is"
      by (simp add: IdMapper_Put_def Let_def split: if_splits sum.splits) (auto | metis)+
    with error show ?thesis by auto
  qed
qed

lemma Put_ok: "mapper_ok is \<Longrightarrow> mapper_ok (snd (IdMapper_Put mcs tab now pkiID idType is))"
proof (cases "IdMapper_Put mcs tab now pkiID idType is")
  case (Pair r is')
  assume ok: "mapper_ok is"
  from Pair have "mapper_ok is'"
    by (cases rule: Put_cases)
       (use ok in \<open>auto simp: mapper_ok_def entry_ok_def bytes_eq_def GetPKIidOfCert_def\<close>)
  with Pair show ?thesis by simp
qed

lemma entry_ok_access [simp]: "entry_ok k (si\<lparr>sid_lastAccessTime := t\<rparr>) = entry_ok k si"
  by (simp add: entry_ok_def)

lemma Get_ok: "mapper_ok is \<Longrightarrow> mapper_ok (snd (IdMapper_Get now pkiID is))"
  by (auto simp: mapper_ok_def IdMapper_Get_def fetchId_def split: option.splits)

lemma Verify_ok: "mapper_ok is \<Longrightarrow> mapper_ok (snd (IdMapper_Verify now vkID sig msg is))"
  using Get_ok [of "is" now vkID]
  by (auto simp: IdMapper_Verify_def split: prod.splits sum.splits)

lemma delete_ok: "mapper_ok is \<Longrightarrow> mapper_ok (fst (IdMapper_delete p q is))"
  by (auto simp: mapper_ok_def IdMapper_delete_def split: if_splits)

text \<open>What a validation does to the table, and the pairs it hands on.\<close>

lemma validate_loop_eq:
  "validate_loop f m = (map (\<lambda>(k, si). (k, fst (f k si))) m, map (\<lambda>(k, si). fst (f k si)) (filter (\<lambda>(k, si). snd (f k si)) m))"
  by (induction m) (auto split: prod.splits)

definition purged_entry ::
  "NaiveMessageCryptoService \<Rightarrow> duration \<Rightarrow> instant \<Rightarrow> (bytes \<Rightarrow> bool) \<Rightarrow> string \<Rightarrow> string \<Rightarrow> storedId \<Rightarrow> bool" where
  "purged_entry mcs usageTh now isSuspected self k si \<longleftrightarrow>
     k \<noteq> self \<and> fetchLastAccessTime si + usageTh < now \<or>
     isSuspected (sid_peerId si) \<and> revoked mcs (str_of (sid_peerId si))"

lemma validate_entry_eq:
  "validate_entry mcs th now sus self k si =
     (if (k \<noteq> self \<and> fetchLastAccessTime si + th < now) \<or> \<not> sus (sid_peerId si) then si
      else si\<lparr>sid_lastAccessTime := unix_nano now\<rparr>,
      purged_entry mcs th now sus self k si)"
  using ValidateIdType_iff [of mcs "sid_peerId si"]
  by (auto simp: validate_entry_def purged_entry_def fetchId_def)

lemma delete_all_eq:
  "delete_all sis is =
     (is\<lparr>im_pkiID2Cert := fold (\<lambda>si. map_del (str_of (sid_pkiID si))) sis (im_pkiID2Cert is)\<rparr>,
      map (\<lambda>si. (sid_pkiID si, sid_peerId si)) sis)"
  by (induction sis arbitrary: "is") (auto simp: IdMapper_delete_def)

lemma fold_del_get:
  "map_get (fold (\<lambda>si. map_del (key si)) sis m) k = (if k \<in> key ` set sis then None else map_get m k)"
  by (induction sis arbitrary: m) auto

lemma map_of_values: "map_of (map (\<lambda>(k, v). (k, f k v)) m) k = map_option (f k) (map_of m k)"
  by (induction m) auto

lemma SuspectPeers_get:
  assumes ok: "mapper_ok is" and res: "SuspectPeers mcs th now sus is = (is', ps)"
  defines "bad \<equiv> purged_entry mcs th now sus (im_selfPKIID is)"
  shows "map_get (im_pkiID2Cert is') k =
      (case map_get (im_pkiID2Cert is) k of
         None \<Rightarrow> None
       | Some si \<Rightarrow> if bad k si then None
           else Some (if sus (sid_peerId si) then si\<lparr>sid_lastAccessTime := unix_nano now\<rparr> else si))"
    and "ps = map (\<lambda>(k, si). (sid_pkiID si, sid_peerId si)) (filter (\<lambda>(k, si). bad k si) (im_pkiID2Cert is))"
    and "im_selfPKIID is' = im_selfPKIID is"
proof -
  let ?f = "validate_entry mcs th now sus (im_selfPKIID is)"
  let ?m = "im_pkiID2Cert is"
  let ?sis = "map (\<lambda>(k, si). fst (?f k si)) (filter (\<lambda>(k, si). snd (?f k si)) ?m)"
  have r: "is' = is\<lparr>im_pkiID2Cert := fold (\<lambda>si. map_del (str_of (sid_pkiID si))) ?sis (map (\<lambda>(k, si). (k, fst (?f k si))) ?m)\<rparr>"
      "ps = map (\<lambda>si. (sid_pkiID si, sid_peerId si)) ?sis"
    using res by (auto simp: SuspectPeers_def validateIds_def validate_loop_eq delete_all_eq)
  have snd_f: "snd (?f k si) = bad k si" for k si by (simp add: validate_entry_eq bad_def)
  have key: "sid_pkiID (fst (?f k si)) = sid_pkiID si" "sid_peerId (fst (?f k si)) = sid_peerId si" for k si
    by (simp_all add: validate_entry_eq)
  have "(\<lambda>si. str_of (sid_pkiID si)) ` set ?sis = {k. \<exists>si. map_get ?m k = Some si \<and> bad k si}"
  proof -
    have mem: "(k, si) \<in> set ?m \<longleftrightarrow> map_get ?m k = Some si" for k si
      using ok by (intro map_entry_iff) (simp add: mapper_ok_def)
    have "str_of (sid_pkiID si) = k" if "(k, si) \<in> set ?m" for k si
      using ok that mem [of k si] by (auto simp: mapper_ok_def entry_ok_def)
    then have "(\<lambda>si. str_of (sid_pkiID si)) ` set ?sis = fst ` {x \<in> set ?m. bad (fst x) (snd x)}"
      by (force simp: image_image snd_f key)
    also have "\<dots> = {k. \<exists>si. (k, si) \<in> set ?m \<and> bad k si}" by force
    finally show ?thesis by (simp add: mem)
  qed
  then show "map_get (im_pkiID2Cert is') k =
      (case map_get ?m k of None \<Rightarrow> None
       | Some si \<Rightarrow> if bad k si then None
           else Some (if sus (sid_peerId si) then si\<lparr>sid_lastAccessTime := unix_nano now\<rparr> else si))"
    unfolding r by (auto simp: fold_del_get map_of_values validate_entry_eq bad_def purged_entry_def split: option.splits)
  show "ps = map (\<lambda>(k, si). (sid_pkiID si, sid_peerId si)) (filter (\<lambda>(k, si). bad k si) ?m)"
    unfolding r by (simp add: snd_f key comp_def case_prod_beta')
  show "im_selfPKIID is' = im_selfPKIID is" by (simp add: r)
qed

lemma fold_del_wf: "map_wf m \<Longrightarrow> map_wf (fold (\<lambda>si. map_del (key si)) sis m)"
  by (induction sis arbitrary: m) auto

lemma delete_all_wf: "map_wf (im_pkiID2Cert is) \<Longrightarrow> map_wf (im_pkiID2Cert (fst (delete_all sis is)))"
  by (simp add: delete_all_eq fold_del_wf)

lemma SuspectPeers_ok: "mapper_ok is \<Longrightarrow> mapper_ok (fst (SuspectPeers mcs th now sus is))"
proof (rule mapper_okI)
  assume ok: "mapper_ok is"
  obtain is' ps where r: "SuspectPeers mcs th now sus is = (is', ps)" by (cases "SuspectPeers mcs th now sus is")
  show "entry_ok k si" if "map_get (im_pkiID2Cert (fst (SuspectPeers mcs th now sus is))) k = Some si" for k si
    using that ok SuspectPeers_get(1) [OF ok r]
    by (auto simp: r mapper_ok_def split: option.splits if_splits)
  have "map_wf (im_pkiID2Cert (fst (validateIds mcs th now sus is)))"
    using ok by (simp add: validateIds_def validate_loop_eq mapper_ok_def comp_def case_prod_beta')
  then show "map_wf (im_pkiID2Cert (fst (SuspectPeers mcs th now sus is)))"
    by (simp add: SuspectPeers_def delete_all_wf split: prod.splits) (metis delete_all_wf fst_conv)
qed

lemma timer_ok: "timer_fires now k is = Some (is', ps) \<Longrightarrow> mapper_ok is \<Longrightarrow> mapper_ok is'"
  using delete_ok by (auto simp: timer_fires_def split: option.splits if_splits) (metis fst_conv)

section \<open>The mapper as a machine\<close>

text \<open>
  The calls, with the revocations that happen in between them. The ghost component of the
  state lists the purge calls made so far.
\<close>

inductive mapper_step ::
  "expiration_table \<Rightarrow> duration \<Rightarrow> NaiveMessageCryptoService \<times> IdMapper \<Rightarrow>
     NaiveMessageCryptoService \<times> IdMapper \<Rightarrow> bool" for tab th where
  ms_Put: "mapper_step tab th (mcs, is) (mcs, snd (IdMapper_Put mcs tab now pkiID idType is))"
| ms_Get: "mapper_step tab th (mcs, is) (mcs, snd (IdMapper_Get now pkiID is))"
| ms_Verify: "mapper_step tab th (mcs, is) (mcs, snd (IdMapper_Verify now pkiID sig msg is))"
| ms_Suspect: "mapper_step tab th (mcs, is) (mcs, fst (SuspectPeers mcs th now sus is))"
| ms_timer: "timer_fires now k is = Some (is', ps) \<Longrightarrow> mapper_step tab th (mcs, is) (mcs, is')"
| ms_Revoke: "mapper_step tab th (mcs, is) (Revoke p mcs, is)"

lemma New_ok: "mapper_ok (NewIdMapper mcs tab now selfId)"
  unfolding NewIdMapper_def by (rule Put_ok) (simp add: mapper_ok_def)

interpretation mapper: inv_machine
  "\<lambda>(mcs, is). \<exists>tab now selfId. is = NewIdMapper mcs tab now selfId"
  "mapper_step tab th" "\<lambda>(mcs, is). mapper_ok is" for tab th
proof unfold_locales
  show "mapper_step tab th s t \<Longrightarrow> (case s of (mcs, is) \<Rightarrow> mapper_ok is) \<Longrightarrow> (case t of (mcs, is) \<Rightarrow> mapper_ok is)"
    for s t
    by (induction rule: mapper_step.induct)
       (auto simp: Put_ok Get_ok Verify_ok SuspectPeers_ok intro: timer_ok)
qed (auto simp: New_ok)

section \<open>Properties\<close>

text \<open>In every state the mapper reaches, under any calls, timers and revocations, the table has one
  entry per PKI-id, and each entry carries the PKI-id it lies under, computed from its own
  identity: no peer can occupy another peer's entry.\<close>

theorem mapper_invariant:
  assumes "(mapper_step tab th)\<^sup>*\<^sup>* (mcs0, NewIdMapper mcs0 tab0 now0 selfId) (mcs, is)"
  shows "map_wf (im_pkiID2Cert is) \<and>
    (\<forall>k si. map_get (im_pkiID2Cert is) k = Some si \<longrightarrow>
       str_of (sid_pkiID si) = k \<and> str_of (GetPKIidOfCert (sid_peerId si)) = k \<and> sid_peerId si \<noteq> None)"
  using mapper.reach_inv [OF _ assms] by (auto simp: mapper_ok_def entry_ok_def)

theorem mapper_invariant_witness:
  "\<exists>is. is = snd (IdMapper_Put \<lparr>AllowedPkiIDS = None, RevokedPkiIDS = None\<rparr> [] 5 (Some ''b'') (Some ''b'')
        (NewIdMapper \<lparr>AllowedPkiIDS = None, RevokedPkiIDS = None\<rparr> [] 0 (Some ''a''))) \<and>
     map fst (im_pkiID2Cert is) = [''a'', ''b''] \<and> map_wf (im_pkiID2Cert is)"
proof -
  let ?mcs = "\<lparr>AllowedPkiIDS = None, RevokedPkiIDS = None\<rparr>"
  have "(mapper_step [] 100)\<^sup>*\<^sup>* (?mcs, NewIdMapper ?mcs [] 0 (Some ''a''))
      (?mcs, snd (IdMapper_Put ?mcs [] 5 (Some ''b'') (Some ''b'') (NewIdMapper ?mcs [] 0 (Some ''a''))))"
    by (intro r_into_rtranclp ms_Put)
  from mapper_invariant [OF this] show ?thesis
    by (simp add: NewIdMapper_def mapper_defs Expiration_def ValidateIdType_def second_def map_has_def Let_def)
qed

text \<open>\<open>Put\<close> succeeds exactly on a non-nil PKI-id and identity that match, an identity that is not
  revoked, and an entry that is present already or an identity that has not expired. It then
  adds an entry only when there was none, never replaces one, and on an error changes nothing.\<close>

theorem Put_correct:
  "case IdMapper_Put mcs tab now pkiID idType im of (r, im') \<Rightarrow>
     (r = None) = (pkiID \<noteq> None \<and> idType \<noteq> None \<and> \<not> revoked mcs (str_of idType) \<and>
        str_of pkiID = str_of idType \<and>
        (map_has (im_pkiID2Cert im) (str_of pkiID) \<or>
         (\<forall>t. Expiration tab now idType = Inr (Some t) \<longrightarrow> now \<le> t))) \<and>
     (r \<noteq> None \<or> map_has (im_pkiID2Cert im) (str_of pkiID) \<longrightarrow> im' = im) \<and>
     (r = None \<longrightarrow> (\<exists>si. map_get (im_pkiID2Cert im') (str_of pkiID) = Some si \<and>
        (map_get (im_pkiID2Cert im) (str_of pkiID) = None \<longrightarrow> sid_peerId si = idType))) \<and>
     (\<forall>k. k \<noteq> str_of pkiID \<longrightarrow> map_get (im_pkiID2Cert im') k = map_get (im_pkiID2Cert im) k)"
proof -
  have exp: "\<exists>x. Expiration tab now idType = Inr x" by (simp add: Expiration_def split: option.splits)
  then show ?thesis
    by (auto simp: IdMapper_Put_def GetPKIidOfCert_def bytes_eq_def map_has_def Let_def ValidateIdType_def revoked_def
        split: option.splits if_splits)
qed

theorem Put_correct_witness:
  "\<exists>si. map_get (im_pkiID2Cert (snd (IdMapper_Put \<lparr>AllowedPkiIDS = None, RevokedPkiIDS = None\<rparr> [] 5 (Some ''b'') (Some ''b'')
     \<lparr>im_pkiID2Cert = [], im_selfPKIID = ''a''\<rparr>))) ''b'' = Some si \<and> sid_peerId si = Some ''b''"
proof -
  let ?mcs = "\<lparr>AllowedPkiIDS = None, RevokedPkiIDS = None\<rparr>" and ?is = "\<lparr>im_pkiID2Cert = [], im_selfPKIID = ''a''\<rparr>"
  obtain r is' where p: "IdMapper_Put ?mcs [] 5 (Some ''b'') (Some ''b'') ?is = (r, is')" by (rule prod.exhaust)
  have "r = None"
    using Put_correct [where mcs = ?mcs and tab = "[]" and now = 5 and pkiID = "Some ''b''" and idType = "Some ''b''" and im = ?is] p
    by (simp add: revoked_def Expiration_def second_def map_has_def)
  with Put_correct [where mcs = ?mcs and tab = "[]" and now = 5 and pkiID = "Some ''b''" and idType = "Some ''b''" and im = ?is] p show ?thesis by auto
qed

text \<open>One call of \<open>SuspectPeers\<close> removes exactly the entries of other peers unused for longer than the
  threshold and the suspected entries whose identity is revoked, calls the purge trigger for each of
  these and no other, in table order, renews the last use of the other suspected entries and leaves the
  rest of the table alone. The own entry is never removed for being unused.\<close>

theorem SuspectPeers_correct:
  assumes "mapper_ok is" "SuspectPeers mcs th now sus is = (is', ps)"
  shows "(\<forall>k. map_get (im_pkiID2Cert is') k =
      (case map_get (im_pkiID2Cert is) k of
         None \<Rightarrow> None
       | Some si \<Rightarrow>
           if k \<noteq> im_selfPKIID is \<and> fetchLastAccessTime si + th < now \<or>
              sus (sid_peerId si) \<and> revoked mcs (str_of (sid_peerId si)) then None
           else Some (if sus (sid_peerId si) then si\<lparr>sid_lastAccessTime := unix_nano now\<rparr> else si))) \<and>
    ps = map (\<lambda>(k, si). (sid_pkiID si, sid_peerId si))
      (filter (\<lambda>(k, si). purged_entry mcs th now sus (im_selfPKIID is) k si) (im_pkiID2Cert is))"
  using SuspectPeers_get [OF assms] by (auto simp: purged_entry_def split: option.splits)

theorem SuspectPeers_correct_witness:
  "snd (SuspectPeers \<lparr>AllowedPkiIDS = None, RevokedPkiIDS = Some [(''b'', ())]\<rparr> 100 50 (\<lambda>_. True)
     \<lparr>im_pkiID2Cert = [(''a'', \<lparr>sid_pkiID = Some ''a'', sid_lastAccessTime = 0, sid_peerId = Some ''a'', sid_expirationTimer = None\<rparr>),
        (''b'', \<lparr>sid_pkiID = Some ''b'', sid_lastAccessTime = 0, sid_peerId = Some ''b'', sid_expirationTimer = None\<rparr>)],
      im_selfPKIID = ''a''\<rparr>) = [(Some ''b'', Some ''b'')]"
proof -
  let ?mcs = "\<lparr>AllowedPkiIDS = None, RevokedPkiIDS = Some [(''b'', ())]\<rparr>"
  let ?is = "\<lparr>im_pkiID2Cert = [(''a'', \<lparr>sid_pkiID = Some ''a'', sid_lastAccessTime = 0, sid_peerId = Some ''a'', sid_expirationTimer = None\<rparr>),
        (''b'', \<lparr>sid_pkiID = Some ''b'', sid_lastAccessTime = 0, sid_peerId = Some ''b'', sid_expirationTimer = None\<rparr>)],
      im_selfPKIID = ''a''\<rparr>"
  obtain is' ps where r: "SuspectPeers ?mcs 100 50 (\<lambda>_. True) ?is = (is', ps)" by (rule prod.exhaust)
  have "mapper_ok ?is" by (auto simp: mapper_ok_def entry_ok_def GetPKIidOfCert_def)
  from SuspectPeers_correct [OF this r] show ?thesis
    unfolding r by (simp add: purged_entry_def fetchLastAccessTime_def unix0_def revoked_def map_has_def)
qed

text \<open>After a successful \<open>Put\<close>, looking the PKI-id up gives the identity that is stored for it, whose
  PKI-id it is, and a signature by the crypto service verifies under it.\<close>

theorem Put_then_Verify:
  assumes "mapper_ok is" "IdMapper_Put mcs tab now pkiID idType is = (None, is')"
  shows "\<exists>p. fst (IdMapper_Get t pkiID is') = Inr p \<and> bytes_eq (GetPKIidOfCert p) pkiID \<and>
    (\<forall>msg sig. IdMapper_Sign msg = Inr sig \<longrightarrow> fst (IdMapper_Verify t pkiID sig msg is') = None)"
proof -
  have ok: "mapper_ok is'" using Put_ok [OF assms(1), of mcs tab now pkiID idType] assms(2) by simp
  from assms(2) obtain si where si: "map_get (im_pkiID2Cert is') (str_of pkiID) = Some si"
    by (cases rule: Put_cases) (auto simp: map_has_def)
  with ok have "str_of (GetPKIidOfCert (sid_peerId si)) = str_of pkiID" by (auto simp: mapper_ok_def entry_ok_def)
  with si show ?thesis
    by (auto simp: IdMapper_Get_def IdMapper_Verify_def IdMapper_Sign_def fetchId_def bytes_eq_def
        dest: naive.sign_verifies [OF TrueI, of _ _ "sid_peerId si"])
qed

theorem Put_then_Verify_witness:
  "\<exists>p. fst (IdMapper_Get 7 (Some ''a'') (NewIdMapper \<lparr>AllowedPkiIDS = None, RevokedPkiIDS = None\<rparr> [] 5 (Some ''a''))) = Inr p"
proof -
  let ?mcs = "\<lparr>AllowedPkiIDS = None, RevokedPkiIDS = None\<rparr>"
  have "IdMapper_Put ?mcs [] 5 (Some ''a'') (Some ''a'') \<lparr>im_pkiID2Cert = [], im_selfPKIID = ''a''\<rparr> =
      (None, NewIdMapper ?mcs [] 5 (Some ''a''))"
    by (simp add: NewIdMapper_def mapper_defs Expiration_def ValidateIdType_def second_def map_has_def Let_def)
  from Put_then_Verify [OF _ this, of 7] show ?thesis by (auto simp: mapper_ok_def)
qed

end
