(* ===== verification/Util.thy ===== *)
theory Util
  imports Messages
begin

text \<open>
  Peers as the components exchange them, and the helper functions of common.go and filter.go:
  routing filters, the random selection of peers and indices, searching a slice, and the
  conversions between byte slices and strings. What the code draws from a random source
  is an argument: a permutation for \<open>rand.Perm\<close> and a list of 64-bit draws for
  \<open>RandomUInt64\<close>.
\<close>

section \<open>Peers\<close>

text \<open>
  The fields of \<open>Peer\<close> the gossip package reads and writes; the connection, channel and timer
  fields belong to other packages.
\<close>

record Peer =
  p_Endpoint :: string
  p_InternalEndpoint :: string
  p_PKIid :: bytes
  p_Metadata :: bytes
  p_Properties :: "Properties option"
  p_Envelope :: "Envelope option"

definition empty_peer :: Peer where
  "empty_peer = \<lparr>p_Endpoint = [], p_InternalEndpoint = [], p_PKIid = None, p_Metadata = None,
     p_Properties = None, p_Envelope = None\<rparr>"

definition PreferredEndpoint :: "Peer \<Rightarrow> string" where
  "PreferredEndpoint p = (if p_InternalEndpoint p \<noteq> [] then p_InternalEndpoint p else p_Endpoint p)"

record RemotePeer =
  rp_Endpoint :: string
  rp_PKIID :: bytes

text \<open>A received message carries who sent it; its connection is the transport's.\<close>

record ConnectionInfo =
  ci_ID :: bytes
  ci_Id :: bytes

record ReceivedMessage =
  rm_msg :: SignedGossipMessage
  rm_ConnInfo :: "ConnectionInfo option"

definition IsNotSameFilter :: "bytes \<Rightarrow> bytes \<Rightarrow> bool" where
  "IsNotSameFilter p that \<longleftrightarrow> \<not> bytes_eq p that"

section \<open>Routing filters and the selection of peers\<close>

type_synonym RoutingFilter = "Peer \<Rightarrow> bool"

definition SelectNonePolicy :: RoutingFilter where
  "SelectNonePolicy p = False"

definition SelectAllPolicy :: RoutingFilter where
  "SelectAllPolicy p = True"

fun CombineRoutingFilters :: "RoutingFilter list \<Rightarrow> RoutingFilter" where
  "CombineRoutingFilters [] p = True"
| "CombineRoutingFilters (f # fs) p = (if \<not> f p then False else CombineRoutingFilters fs p)"

text \<open>The loop of \<open>SelectPeers\<close> over the permuted indices.\<close>

fun select_loop :: "int \<Rightarrow> Peer list \<Rightarrow> RoutingFilter \<Rightarrow> nat list \<Rightarrow> RemotePeer list \<Rightarrow> RemotePeer list" where
  "select_loop k pool f [] res = res"
| "select_loop k pool f (i # is) res =
     (if int (length res) = k then res
      else if \<not> f (pool ! i) then select_loop k pool f is res
      else select_loop k pool f is
        (res @ [\<lparr>rp_Endpoint = PreferredEndpoint (pool ! i), rp_PKIID = p_PKIid (pool ! i)\<rparr>]))"

definition SelectPeers :: "nat list \<Rightarrow> int \<Rightarrow> Peer list \<Rightarrow> RoutingFilter \<Rightarrow> RemotePeer list" where
  "SelectPeers perm k peerPool f = select_loop k peerPool f perm []"

text \<open>What \<open>rand.Perm n\<close> returns.\<close>

definition is_perm :: "nat \<Rightarrow> nat list \<Rightarrow> bool" where
  "is_perm n xs \<longleftrightarrow> distinct xs \<and> set xs = {..<n}"

definition remote_of :: "Peer \<Rightarrow> RemotePeer" where
  "remote_of p = \<lparr>rp_Endpoint = PreferredEndpoint p, rp_PKIID = p_PKIid p\<rparr>"

lemma CombineRoutingFilters_iff [simp]: "CombineRoutingFilters fs p \<longleftrightarrow> (\<forall>f\<in>set fs. f p)"
  by (induction fs) auto

lemma select_loop_eq:
  "int (length res) \<le> k \<Longrightarrow>
   select_loop k pool f is res =
     res @ map remote_of (take (nat (k - int (length res))) (filter f (map ((!) pool) is)))"
proof (induction "is" arbitrary: res)
  case (Cons i "is")
  show ?case
  proof (cases "int (length res) = k")
    case False
    define n where "n = nat (k - int (length (res @ [remote_of (pool ! i)])))"
    have n: "nat (k - int (length res)) = Suc n" and le: "int (length (res @ [remote_of (pool ! i)])) \<le> k"
      using False Cons.prems by (simp_all add: n_def)
    show ?thesis
      using Cons.IH [OF Cons.prems] Cons.IH [OF le, folded n_def] False
      by (simp add: n remote_of_def [symmetric])
  qed (use Cons in simp)
qed simp

lemma SelectPeers_eq:
  "0 \<le> k \<Longrightarrow> SelectPeers perm k pool f = map remote_of (take (nat k) (filter f (map ((!) pool) perm)))"
  by (simp add: SelectPeers_def select_loop_eq)

lemma perm_nths:
  assumes "is_perm (length pool) perm"
  shows "mset (map ((!) pool) perm) = mset pool"
proof -
  have "mset perm = mset [0..<length pool]"
    using assms set_eq_iff_mset_eq_distinct [of perm "[0..<length pool]"]
    by (simp add: is_perm_def lessThan_atLeast0)
  then have "mset (map ((!) pool) perm) = image_mset ((!) pool) (mset [0..<length pool])"
    by (simp only: mset_map)
  also have "\<dots> = mset (map ((!) pool) [0..<length pool])" by (simp only: mset_map)
  also have "\<dots> = mset pool" by (simp only: map_nth)
  finally show ?thesis .
qed

section \<open>Random indices\<close>

text \<open>Go's remainder truncates: it has the sign of the dividend.\<close>

definition go_rem :: "int \<Rightarrow> int \<Rightarrow> int" where
  "go_rem a b = sgn a * (\<bar>a\<bar> mod \<bar>b\<bar>)"

text \<open>
  \<open>RandomUInt64\<close> reads eight bytes, the most significant one first (\<open>big.Int.SetBytes\<close>). When the random source
  fails, a 63-bit number of the other generator is used.
\<close>

definition SetBytes :: "8 word list \<Rightarrow> nat" where
  "SetBytes b = foldl (\<lambda>n x. 256 * n + unat x) 0 b"

definition RandomUInt64 :: "error + 8 word list \<Rightarrow> 63 word \<Rightarrow> u64" where
  "RandomUInt64 b int63 = (case b of Inr bs \<Rightarrow> word_of_nat (SetBytes bs) | Inl err \<Rightarrow> ucast int63)"

lemma SetBytes_Nil [simp]: "SetBytes [] = 0"
  by (simp add: SetBytes_def)

lemma SetBytes_snoc [simp]: "SetBytes (b @ [x]) = 256 * SetBytes b + unat x"
  by (simp add: SetBytes_def)

lemma SetBytes_onto: "n < 256 ^ k \<Longrightarrow> \<exists>b. length b = k \<and> SetBytes b = n"
proof (induction k arbitrary: n)
  case (Suc k)
  then have "n div 256 < 256 ^ k" by (simp add: less_mult_imp_div_less mult.commute)
  then obtain b where "length b = k" "SetBytes b = n div 256" using Suc.IH by blast
  moreover have "unat (word_of_nat (n mod 256) :: 8 word) = n mod 256" by (simp add: unat_of_nat)
  ultimately have "length (b @ [word_of_nat (n mod 256)]) = Suc k \<and> SetBytes (b @ [word_of_nat (n mod 256)]) = n" by simp
  then show ?case by blast
qed simp

text \<open>Every number is drawn, so a nonce that is an argument of the model is any nonce of the code.\<close>

lemma RandomUInt64_onto: "\<exists>bs. length bs = 8 \<and> RandomUInt64 (Inr bs) r = w"
proof -
  have "unat w < 256 ^ 8" using unsigned_less [of w, where ?'a = nat] by simp
  from SetBytes_onto [OF this] obtain bs where "length bs = 8" "SetBytes bs = unat w" by blast
  then show ?thesis by (auto simp: RandomUInt64_def)
qed

text \<open>The fallback never gives a number with the highest bit.\<close>

lemma RandomUInt64_fallback: "unat (RandomUInt64 (Inl err) r) < 2 ^ 63"
proof -
  have "unat (ucast r :: u64) \<le> unat r" by (simp add: unsigned_ucast_eq)
  also have "unat r < 2 ^ 63" using unsigned_less [of r, where ?'a = nat] by simp
  finally show ?thesis by (simp add: RandomUInt64_def)
qed

text \<open>\<open>None\<close> is the panic of a division by zero.\<close>

definition RandomInt :: "u64 \<Rightarrow> int \<Rightarrow> int option" where
  "RandomInt w n =
     (if n = 0 then None
      else (let m = go_rem (sint w) n in Some (if m < 0 then n + m else m)))"

fun IndexInSlice_from :: "int \<Rightarrow> ('a \<Rightarrow> 'b \<Rightarrow> bool) \<Rightarrow> 'b \<Rightarrow> 'a list \<Rightarrow> int" where
  "IndexInSlice_from i equals x [] = -1"
| "IndexInSlice_from i equals x (a # as) = (if equals a x then i else IndexInSlice_from (i + 1) equals x as)"

definition IndexInSlice :: "'a list \<Rightarrow> 'b \<Rightarrow> ('a \<Rightarrow> 'b \<Rightarrow> bool) \<Rightarrow> int" where
  "IndexInSlice array x equals = IndexInSlice_from 0 equals x array"

definition numbericEqual :: "int \<Rightarrow> int \<Rightarrow> bool" where
  "numbericEqual a b \<longleftrightarrow> a = b"

text \<open>
  The draws the loop of \<open>GetRandomIndices\<close> makes are a list; \<open>None\<close> means that the loop has used
  them up and still runs.
\<close>

fun draw_loop :: "int \<Rightarrow> int \<Rightarrow> u64 list \<Rightarrow> int list \<Rightarrow> int list option" where
  "draw_loop indiceCount highestIndex draws indices =
     (if int (length indices) < indiceCount
      then (case draws of
              [] \<Rightarrow> None
            | w # ws \<Rightarrow>
                (case RandomInt w (highestIndex + 1) of
                   None \<Rightarrow> None
                 | Some n \<Rightarrow>
                     if IndexInSlice indices n numbericEqual \<noteq> -1
                     then draw_loop indiceCount highestIndex ws indices
                     else draw_loop indiceCount highestIndex ws (indices @ [n])))
      else Some indices)"

declare draw_loop.simps [simp del]

definition GetRandomIndices :: "u64 list \<Rightarrow> int \<Rightarrow> int \<Rightarrow> int list option" where
  "GetRandomIndices draws indiceCount highestIndex =
     (if highestIndex + 1 < indiceCount then Some []
      else if highestIndex + 1 = indiceCount then Some (map int [0..<nat indiceCount])
      else draw_loop indiceCount highestIndex draws [])"

lemma go_rem_nonneg: "0 < n \<Longrightarrow> (let m = go_rem a n in if m < 0 then n + m else m) = a mod n"
proof -
  assume n: "0 < n"
  show ?thesis
  proof (cases "0 \<le> a")
    case True
    with n have "go_rem a n = a mod n" by (cases "a = 0") (simp_all add: go_rem_def)
    with n show ?thesis by (simp add: Let_def not_less)
  next
    case False
    then have m: "go_rem a n = - ((- a) mod n)" using n by (simp add: go_rem_def)
    show ?thesis
    proof (cases "(- a) mod n = 0")
      case True
      then have "a mod n = 0" by (metis dvd_minus_iff mod_0_imp_dvd mod_eq_0_iff_dvd)
      with True show ?thesis by (simp add: m)
    next
      case ne: False
      then have "0 < (- a) mod n" using n by (metis pos_mod_sign order_le_less)
      moreover have "a mod n = n - (- a) mod n" using ne zmod_zminus1_eq_if [of "- a" n] by (auto split: if_splits)
      ultimately show ?thesis by (simp add: m Let_def)
    qed
  qed
qed

lemma RandomInt_eq: "0 < n \<Longrightarrow> RandomInt w n = Some (sint w mod n)"
  using go_rem_nonneg [of n "sint w"] by (simp add: RandomInt_def Let_def)

lemma IndexInSlice_from_iff: "0 \<le> i \<Longrightarrow> IndexInSlice_from i eq x as = -1 \<longleftrightarrow> (\<forall>a\<in>set as. \<not> eq a x)"
  by (induction as arbitrary: i) auto

lemma IndexInSlice_iff: "IndexInSlice as x eq = -1 \<longleftrightarrow> (\<forall>a\<in>set as. \<not> eq a x)"
  by (simp add: IndexInSlice_def IndexInSlice_from_iff)

lemma draw_loop_sound:
  assumes "draw_loop c h ws ns = Some r" "c \<le> h + 1" "int (length ns) \<le> c"
    and "distinct ns" "set ns \<subseteq> {0..h}"
  shows "distinct r \<and> set r \<subseteq> {0..h} \<and> int (length r) = c"
  using assms
proof (induction c h ws ns rule: draw_loop.induct)
  case (1 c h ws ns)
  show ?case
  proof (cases "int (length ns) < c")
    case True
    then have h: "0 < h + 1" using 1(4) by simp
    from True 1(3) obtain w ws' where ws: "ws = w # ws'"
      by (subst (asm) draw_loop.simps) (auto split: list.splits)
    let ?n = "sint w mod (h + 1)"
    have n: "RandomInt w (h + 1) = Some ?n" "?n \<in> {0..h}"
      using RandomInt_eq [OF h] h pos_mod_bound [OF h, of "sint w"] by auto
    show ?thesis
    proof (cases "IndexInSlice ns ?n numbericEqual = -1")
      case False
      then have "draw_loop c h ws' ns = Some r"
        using 1(3) True ws n(1) by (subst (asm) draw_loop.simps) simp
      with 1(1) [OF True ws n(1) False] 1 show ?thesis by blast
    next
      case new: True
      then have "draw_loop c h ws' (ns @ [?n]) = Some r"
        using 1(3) True ws n(1) by (subst (asm) draw_loop.simps) simp
      moreover have "?n \<notin> set ns" using new by (auto simp: IndexInSlice_iff numbericEqual_def)
      ultimately show ?thesis using 1(2) [OF True ws n(1)] new 1(4-7) True n(2) by auto
    qed
  next
    case False
    with 1 show ?thesis by (subst (asm) draw_loop.simps) auto
  qed
qed

lemma draw_loop_enough:
  assumes "0 \<le> h" "c \<le> int (card (set ns \<union> (\<lambda>w. sint w mod (h + 1)) ` set ws))" "distinct ns"
  shows "draw_loop c h ws ns \<noteq> None"
  using assms(2,3)
proof (induction ws arbitrary: ns)
  case Nil
  then show ?case by (subst draw_loop.simps) (simp add: distinct_card)
next
  case (Cons w ws)
  let ?n = "sint w mod (h + 1)"
  have n: "RandomInt w (h + 1) = Some ?n" using assms(1) by (intro RandomInt_eq) simp
  show ?case
  proof (cases "?n \<in> set ns")
    case True
    then have "set ns \<union> (\<lambda>w. sint w mod (h + 1)) ` set (w # ws) = set ns \<union> (\<lambda>w. sint w mod (h + 1)) ` set ws"
      by auto
    with Cons True n show ?thesis
      by (subst draw_loop.simps) (auto simp: IndexInSlice_iff numbericEqual_def)
  next
    case False
    have "set (ns @ [?n]) \<union> (\<lambda>w. sint w mod (h + 1)) ` set ws = set ns \<union> (\<lambda>w. sint w mod (h + 1)) ` set (w # ws)"
      by auto
    with Cons.IH [of "ns @ [?n]"] Cons.prems False n show ?thesis
      by (subst draw_loop.simps) (auto simp: IndexInSlice_iff numbericEqual_def)
  qed
qed

section \<open>Conversions\<close>

definition BytesToStrings :: "bytes list \<Rightarrow> string list" where
  "BytesToStrings bs = map str_of bs"

definition StringsToBytes :: "string list \<Rightarrow> bytes list" where
  "StringsToBytes ss = map Some ss"

lemma BytesToStrings_StringsToBytes [simp]: "BytesToStrings (StringsToBytes ss) = ss"
  by (simp add: BytesToStrings_def StringsToBytes_def comp_def)

text \<open>SHA-256 is the standard library's; its function is an argument.\<close>

definition GenerateMAC :: "(string \<Rightarrow> string) \<Rightarrow> bytes \<Rightarrow> bytes \<Rightarrow> bytes" where
  "GenerateMAC ComputeSHA256 pkiID channelID = Some (ComputeSHA256 (str_of pkiID @ str_of channelID))"

text \<open>\<open>GetIntOrDefault\<close> and \<open>GetDurationOrDefault\<close> on a configuration that gives 0 to the keys it lacks.\<close>

definition GetIntOrDefault :: "(string \<Rightarrow> int) \<Rightarrow> string \<Rightarrow> int \<Rightarrow> int" where
  "GetIntOrDefault config key defVal = (if config key \<noteq> 0 then config key else defVal)"

definition GetDurationOrDefault :: "(string \<Rightarrow> duration) \<Rightarrow> string \<Rightarrow> duration \<Rightarrow> duration" where
  "GetDurationOrDefault config key defVal = (if config key \<noteq> 0 then config key else defVal)"

section \<open>Properties\<close>

text \<open>\<open>SelectPeers\<close> on a pool and a random permutation returns at most \<open>k\<close> peers, as many as the
  filter admits when these are fewer, every one a peer of the pool the filter admits, and none
  more often than the pool has it.\<close>

theorem SelectPeers_correct:
  assumes "0 \<le> k" "is_perm (length pool) perm"
  shows "length (SelectPeers perm k pool f) = min (nat k) (length (filter f pool)) \<and>
    mset (SelectPeers perm k pool f) \<subseteq># image_mset remote_of (filter_mset f (mset pool))"
proof -
  let ?xs = "filter f (map ((!) pool) perm)"
  have m: "mset ?xs = filter_mset f (mset pool)"
    by (simp only: mset_filter perm_nths [OF assms(2)])
  then have "length ?xs = length (filter f pool)" by (metis mset_filter size_mset)
  moreover have "mset (take (nat k) ?xs) \<subseteq># mset ?xs" by (metis append_take_drop_id mset_append mset_subset_eq_add_left)
  ultimately show ?thesis
    unfolding SelectPeers_eq [OF assms(1)] mset_map m [symmetric]
    by (simp add: image_mset_subseteq_mono)
qed

theorem SelectPeers_correct_witness:
  "length (SelectPeers [1, 0] 1 [empty_peer, empty_peer\<lparr>p_Endpoint := ''a''\<rparr>] (\<lambda>p. p_Endpoint p = ''a'')) = 1"
proof -
  have "is_perm (length [empty_peer, empty_peer\<lparr>p_Endpoint := ''a''\<rparr>]) [1, 0]" by (auto simp: is_perm_def)
  from SelectPeers_correct [OF _ this, of 1 "\<lambda>p. p_Endpoint p = ''a''"] show ?thesis by (simp add: empty_peer_def)
qed

text \<open>C39. \<open>GetRandomIndices\<close> asked for more indices than there are returns nil, and otherwise returns
  exactly the number asked for, all different and in range; its loop ends as soon as the draws
  hit that many different residues.\<close>

theorem GetRandomIndices_correct:
  assumes "0 \<le> c" "c \<le> int (card ((\<lambda>w. sint w mod (h + 1)) ` set draws)) \<or> h + 1 \<le> c"
  shows "\<exists>r. GetRandomIndices draws c h = Some r \<and>
    (if c \<le> h + 1 then distinct r \<and> set r \<subseteq> {0..h} \<and> int (length r) = c else r = [])"
proof -
  consider "h + 1 < c" | "h + 1 = c" | "c < h + 1" by linarith
  then show ?thesis
  proof cases
    case 3
    then have "draw_loop c h draws [] \<noteq> None"
      using assms draw_loop_enough [of h c "[]" draws] by auto
    then obtain r where r: "draw_loop c h draws [] = Some r" by auto
    with draw_loop_sound [OF r] 3 assms(1) show ?thesis by (auto simp: GetRandomIndices_def)
  qed (use assms(1) in \<open>auto simp: GetRandomIndices_def distinct_map inj_on_def\<close>)
qed

theorem GetRandomIndices_correct_witness:
  "\<exists>r. GetRandomIndices [5, 5, 3] 2 2 = Some r \<and> distinct r \<and> int (length r) = 2"
proof -
  have "(2::int) \<le> int (card ((\<lambda>w::u64. sint w mod (2 + 1)) ` set [5, 5, 3]))" by simp
  with GetRandomIndices_correct [of 2 2 "[5, 5, 3]"] show ?thesis by auto
qed

end
