(* ===== verification/Discovery.thy ===== *)
theory Discovery
  imports MsgStore IdMapper Util
begin

text \<open>
  The discovery component of discovery.go: who is alive, who is dead, and the messages that
  say so. This theory holds its state and operations; the invariant and the theorems are in
  the theories after it. The state record has the fields of \<open>GossipDiscovery\<close>, with
  the identity mapper it shares with the rest of the service and the adapter's stop flag.
  What an operation does to the outside (sending, gossiping, publishing, closing) is appended
  to \<open>di_out\<close>. A result \<open>None\<close> is a run-time panic. Each read of the clock in one call is the
  same instant; what comes from outside (random draws, whether a peer answers) is an argument.
\<close>

section \<open>State\<close>

record timestamp =
  ts_incTime :: instant
  ts_seqNum :: u64
  ts_lastSeen :: instant

definition before :: "timestamp \<Rightarrow> PeerTime \<Rightarrow> bool" where
  "before a b \<longleftrightarrow>
     unix_nano (ts_incTime a) = IncNum b \<and> ts_seqNum a < SeqNum b \<or>
     unix_nano (ts_incTime a) < IncNum b"

type_synonym MembershipStore = "(string, SignedGossipMessage) gomap"

definition NewMembershipStore :: MembershipStore where
  "NewMembershipStore = []"

definition GetMsgByID :: "MembershipStore \<Rightarrow> bytes \<Rightarrow> SignedGossipMessage option" where
  "GetMsgByID m pkiID = map_get m (str_of pkiID)"

definition MembershipStore_Size :: "MembershipStore \<Rightarrow> int" where
  "MembershipStore_Size m = int (length m)"

definition MembershipStore_Put :: "bytes \<Rightarrow> SignedGossipMessage \<Rightarrow> MembershipStore \<Rightarrow> MembershipStore" where
  "MembershipStore_Put pkiID msg m = map_put (str_of pkiID) msg m"

definition MembershipStore_Remove :: "bytes \<Rightarrow> MembershipStore \<Rightarrow> MembershipStore" where
  "MembershipStore_Remove pkiID m = map_del (str_of pkiID) m"

definition ToSlice :: "MembershipStore \<Rightarrow> SignedGossipMessage list" where
  "ToSlice m = map snd m"

lemmas membership_defs = NewMembershipStore_def GetMsgByID_def MembershipStore_Size_def
  MembershipStore_Put_def MembershipStore_Remove_def ToSlice_def

interpretation membership: key_store NewMembershipStore "\<lambda>m k. GetMsgByID m (Some k)"
  "\<lambda>k. MembershipStore_Put (Some k)" "\<lambda>k. MembershipStore_Remove (Some k)" map_wf
  by unfold_locales (simp_all add: membership_defs fun_eq_iff)

datatype disc_out =
    OutSend SignedGossipMessage RemotePeer
  | OutGossip SignedGossipMessage
  | OutForward ReceivedMessage
  | OutCloseConn RemotePeer
  | OutPublish string u64
  | OutSubscribe string duration
  | OutSendMemResponse "Member option" string u64
  | OutSendUntilAcked Peer SignedGossipMessage

record disc =
  di_incTime :: u64
  di_seqNum :: u64
  di_self :: Peer
  di_deadLastTS :: "(string, timestamp) gomap"
  di_aliveLastTS :: "(string, timestamp) gomap"
  di_id2Member :: "(string, Peer) gomap"
  di_aliveMembership :: MembershipStore
  di_deadMembership :: MembershipStore
  di_selfAliveMessage :: "SignedGossipMessage option"
  di_msgStore :: "SignedGossipMessage MessageStore"
  di_idMapper :: IdMapper
  di_port :: int
  di_toDieFlag :: bool
  di_stopping :: bool
  di_out :: "disc_out list"

text \<open>
  A disclosure policy gives for a peer the sieve and the envelope filter. The filter may
  change the message it is given, so it returns it with the envelope. Both read fields
  through pointers and may panic.
\<close>

type_synonym Sieve = "SignedGossipMessage \<Rightarrow> bool option"
type_synonym EnvelopeFilter = "SignedGossipMessage \<Rightarrow> (SignedGossipMessage \<times> Envelope option) option"
type_synonym DisclosurePolicy = "Peer \<Rightarrow> Sieve \<times> EnvelopeFilter"

text \<open>What discovery is configured with.\<close>

record denv =
  de_codec :: codec
  de_mcs :: NaiveMessageCryptoService
  de_ExpirationTimes :: expiration_table
  de_Id :: bytes
  de_IncludeIdPeriod :: instant
  de_aliveExpirationTimeout :: duration
  de_MaxConnectionAttempts :: nat
  de_disclosurePolicy :: DisclosurePolicy

definition out :: "disc_out \<Rightarrow> disc \<Rightarrow> disc" where
  "out a d = d\<lparr>di_out := di_out d @ [a]\<rparr>"

definition alive_comparator :: "SignedGossipMessage \<Rightarrow> SignedGossipMessage \<Rightarrow> InvalidationResult option" where
  "alive_comparator = NewGossipMessageComparator 0"

text \<open>The store of alive messages panics on a message of another kind.\<close>

definition aliveMsgStore_Add :: "instant \<Rightarrow> SignedGossipMessage \<Rightarrow> disc \<Rightarrow> (bool \<times> disc) option" where
  "aliveMsgStore_Add now m d = do {
     _ \<leftarrow> GetAliveMsg (sg_Msg m);
     (added, s, _) \<leftarrow> MessageStore_Add alive_comparator now m (di_msgStore d);
     Some (added, d\<lparr>di_msgStore := s\<rparr>)
   }"

definition aliveMsgStore_CheckValid :: "SignedGossipMessage \<Rightarrow> disc \<Rightarrow> bool option" where
  "aliveMsgStore_CheckValid m d = do {
     _ \<leftarrow> GetAliveMsg (sg_Msg m);
     MessageStore_CheckValid alive_comparator m (di_msgStore d)
   }"

section \<open>Validation and signing of alive messages\<close>

definition ValidateAliveMsg :: "denv \<Rightarrow> instant \<Rightarrow> SignedGossipMessage \<Rightarrow> disc \<Rightarrow> bool \<times> disc" where
  "ValidateAliveMsg env now m d =
     (case (GetAliveMsg (sg_Msg m), sg_Envelope m) of
        (Some am, Some e) \<Rightarrow>
          (case am_Membership am of
             None \<Rightarrow> (False, d)
           | Some mem \<Rightarrow>
               if mb_PkiId mem = None \<or> ev_Payload e = None \<or> ev_Signature e = None then (False, d)
               else if am_Identity am \<noteq> None then
                 (case IdMapper_Put (de_mcs env) (de_ExpirationTimes env) now (mb_PkiId mem) (am_Identity am) (di_idMapper d) of
                    (Some _, im) \<Rightarrow> (False, d\<lparr>di_idMapper := im\<rparr>)
                  | (None, im) \<Rightarrow>
                      (SignedGossipMessage_Verify (am_Identity am) mcs_Verify m = None, d\<lparr>di_idMapper := im\<rparr>))
               else
                 (case IdMapper_Get now (mb_PkiId mem) (di_idMapper d) of
                    (Inl _, im) \<Rightarrow> (False, d\<lparr>di_idMapper := im\<rparr>)
                  | (Inr idTypes, im) \<Rightarrow>
                      if idTypes = None then (False, d\<lparr>di_idMapper := im\<rparr>)
                      else (SignedGossipMessage_Verify idTypes mcs_Verify m = None, d\<lparr>di_idMapper := im\<rparr>)))
      | _ \<Rightarrow> (False, d))"

text \<open>
  \<open>SignMessage\<close> sets the identity of the message it is given, so it returns the message.
  The error of \<open>SignSecret\<close> is dropped, as in the code.
\<close>

definition set_identity :: "bytes \<Rightarrow> GossipMessage \<Rightarrow> GossipMessage" where
  "set_identity pid m =
     (case GetAliveMsg m of None \<Rightarrow> m | Some am \<Rightarrow> m\<lparr>gm_Content := Some (AliveMsg (am\<lparr>am_Identity := pid\<rparr>))\<rparr>)"

definition SignMessage :: "denv \<Rightarrow> instant \<Rightarrow> GossipMessage \<Rightarrow> string \<Rightarrow> Envelope option \<times> GossipMessage" where
  "SignMessage env now m internalEndpoint =
     (let m1 = (if GetAliveMsg m \<noteq> None \<and> now < de_IncludeIdPeriod env then set_identity (de_Id env) m else m)
      in case Sign (de_codec env) mcs_Sign \<lparr>sg_Envelope = None, sg_Msg = m1\<rparr> of
           (Inl _, _) \<Rightarrow> (None, m1)
         | (Inr e, _) \<Rightarrow>
             if internalEndpoint = [] then (Some e, m1)
             else (Some (snd (SignSecret (de_codec env) mcs_Sign
                      \<lparr>sc_Content = Some (Secret_InternalEndpoint internalEndpoint)\<rparr> e)), m1))"

definition aliveMsgAndInternalEndpoint :: "disc \<Rightarrow> GossipMessage \<times> string \<times> disc" where
  "aliveMsgAndInternalEndpoint d =
     (let d1 = d\<lparr>di_seqNum := di_seqNum d + 1\<rparr>;
          msg = \<lparr>gm_Nonce = 0, gm_Channel = None, gm_Tag = Tag_EMPTY,
            gm_Content = Some (AliveMsg
              \<lparr>am_Membership = Some \<lparr>mb_Endpoint = p_Endpoint (di_self d), mb_Metadata = p_Metadata (di_self d),
                 mb_PkiId = p_PKIid (di_self d)\<rparr>,
               am_Timestamp = Some (PeerTime (di_incTime d1) (di_seqNum d1)), am_Identity = None\<rparr>)\<rparr>
      in (msg, p_InternalEndpoint (di_self d), d1))"

definition createSignedAliveMessage ::
  "denv \<Rightarrow> instant \<Rightarrow> bool \<Rightarrow> disc \<Rightarrow> (error + SignedGossipMessage) \<times> disc" where
  "createSignedAliveMessage env now includeInternalEndpoint d =
     (let (msg, internalEndpoint, d1) = aliveMsgAndInternalEndpoint d
      in case SignMessage env now msg internalEndpoint of
           (None, _) \<Rightarrow> (Inl (Error ''Failed signing message''), d1)
         | (Some envp, msg1) \<Rightarrow>
             (Inr \<lparr>sg_Envelope = Some (if includeInternalEndpoint then envp else envp\<lparr>ev_SecretEnvelope := None\<rparr>),
                   sg_Msg = msg1\<rparr>, d1))"

definition createMembershipRequest ::
  "denv \<Rightarrow> instant \<Rightarrow> bool \<Rightarrow> disc \<Rightarrow> (error + GossipMessage) \<times> disc" where
  "createMembershipRequest env now includeInternalEndpoint d =
     (case createSignedAliveMessage env now includeInternalEndpoint d of
        (Inl err, d1) \<Rightarrow> (Inl err, d1)
      | (Inr am, d1) \<Rightarrow>
          (Inr \<lparr>gm_Nonce = 0, gm_Channel = None, gm_Tag = Tag_EMPTY,
             gm_Content = Some (MemReq \<lparr>mq_SelfInformation = sg_Envelope am, mq_Known = []\<rparr>)\<rparr>, d1))"

section \<open>Learning about peers\<close>

text \<open>The critical sections of \<open>handleAliveMessage\<close>: each runs under the lock.\<close>

definition secret_endpoint :: "denv \<Rightarrow> SignedGossipMessage \<Rightarrow> string option option" where
  "secret_endpoint env m = do {
     e \<leftarrow> sg_Envelope m;
     Some (map_option (InternalEndpoint (de_codec env)) (ev_SecretEnvelope e))
   }"

definition peer_of_member :: "Member \<Rightarrow> string \<Rightarrow> Peer" where
  "peer_of_member mem internalEndpoint =
     empty_peer\<lparr>p_Endpoint := mb_Endpoint mem, p_Metadata := mb_Metadata mem, p_PKIid := mb_PkiId mem,
       p_InternalEndpoint := internalEndpoint\<rparr>"

definition mk_timestamp :: "instant \<Rightarrow> PeerTime \<Rightarrow> timestamp" where
  "mk_timestamp now t = \<lparr>ts_incTime = unix0 (IncNum t), ts_seqNum = SeqNum t, ts_lastSeen = now\<rparr>"

definition resurrectMember :: "denv \<Rightarrow> instant \<Rightarrow> SignedGossipMessage \<Rightarrow> PeerTime \<Rightarrow> disc \<Rightarrow> disc option" where
  "resurrectMember env now m t d = do {
     am \<leftarrow> GetAliveMsg (sg_Msg m);
     peer \<leftarrow> am_Membership am;
     let k = str_of (mb_PkiId peer);
     secret \<leftarrow> secret_endpoint env m;
     let prev = (case map_get (di_id2Member d) k of None \<Rightarrow> [] | Some p \<Rightarrow> p_InternalEndpoint p);
     let internalEndpoint = (case secret of None \<Rightarrow> prev | Some ep \<Rightarrow> ep);
     Some (d\<lparr>di_aliveLastTS := map_put k (mk_timestamp now t) (di_aliveLastTS d),
             di_id2Member := map_put k (peer_of_member peer internalEndpoint) (di_id2Member d),
             di_deadLastTS := map_del k (di_deadLastTS d),
             di_deadMembership := MembershipStore_Remove (mb_PkiId peer) (di_deadMembership d),
             di_aliveMembership := MembershipStore_Put (mb_PkiId peer) m (di_aliveMembership d)\<rparr>)
   }"

fun learnExistingMembers :: "denv \<Rightarrow> instant \<Rightarrow> SignedGossipMessage list \<Rightarrow> disc \<Rightarrow> disc option" where
  "learnExistingMembers env now [] d = Some d"
| "learnExistingMembers env now (m # ms) d =
     (case GetAliveMsg (sg_Msg m) of
        None \<Rightarrow> Some d
      | Some am \<Rightarrow> do {
          mem \<leftarrow> am_Membership am;
          let k = str_of (mb_PkiId mem);
          secret \<leftarrow> secret_endpoint env m;
          let prev = (case map_get (di_id2Member d) k of None \<Rightarrow> [] | Some p \<Rightarrow> p_InternalEndpoint p);
          let internalEndpoint = (case secret of None \<Rightarrow> prev | Some ep \<Rightarrow> ep);
          peer \<leftarrow> map_get (di_id2Member d) k;
          let d1 = d\<lparr>di_id2Member := map_put k (peer\<lparr>p_Endpoint := mb_Endpoint mem, p_Metadata := mb_Metadata mem,
                       p_InternalEndpoint := internalEndpoint\<rparr>) (di_id2Member d)\<rparr>;
          if map_has (di_deadLastTS d1) k then learnExistingMembers env now ms d1
          else (case map_get (di_aliveLastTS d1) k of
                  None \<Rightarrow> learnExistingMembers env now ms d1
                | Some _ \<Rightarrow> do {
                    t \<leftarrow> am_Timestamp am;
                    let d2 = d1\<lparr>di_aliveLastTS := map_put k (mk_timestamp now t) (di_aliveLastTS d1)\<rparr>;
                    _ \<leftarrow> GetMsgByID (di_aliveMembership d2) (mb_PkiId mem);
                    learnExistingMembers env now ms
                      (d2\<lparr>di_aliveMembership := MembershipStore_Put (mb_PkiId mem) m (di_aliveMembership d2)\<rparr>)
                  })
        })"

definition learn_alive :: "instant \<Rightarrow> SignedGossipMessage \<Rightarrow> disc \<Rightarrow> disc option" where
  "learn_alive now m d = do {
     am \<leftarrow> GetAliveMsg (sg_Msg m);
     mem \<leftarrow> am_Membership am;
     if bytes_eq (mb_PkiId mem) (p_PKIid (di_self d)) then Some d
     else do {
       t \<leftarrow> am_Timestamp am;
       Some (d\<lparr>di_aliveLastTS := map_put (str_of (mb_PkiId mem)) (mk_timestamp now t) (di_aliveLastTS d),
               di_aliveMembership := MembershipStore_Put (mb_PkiId mem) m (di_aliveMembership d)\<rparr>)
     }
   }"

definition learn_dead :: "instant \<Rightarrow> SignedGossipMessage \<Rightarrow> disc \<Rightarrow> disc option" where
  "learn_dead now m d = do {
     am \<leftarrow> GetAliveMsg (sg_Msg m);
     mem \<leftarrow> am_Membership am;
     if bytes_eq (mb_PkiId mem) (p_PKIid (di_self d)) then Some d
     else do {
       t \<leftarrow> am_Timestamp am;
       Some (d\<lparr>di_deadLastTS := map_put (str_of (mb_PkiId mem)) (mk_timestamp now t) (di_deadLastTS d),
               di_deadMembership := MembershipStore_Put (mb_PkiId mem) m (di_deadMembership d)\<rparr>)
     }
   }"

fun learn_peers :: "denv \<Rightarrow> SignedGossipMessage list \<Rightarrow> disc \<Rightarrow> disc option" where
  "learn_peers env [] d = Some d"
| "learn_peers env (m # ms) d =
     (case GetAliveMsg (sg_Msg m) of
        None \<Rightarrow> Some d
      | Some am \<Rightarrow> do {
          secret \<leftarrow> secret_endpoint env m;
          mem \<leftarrow> am_Membership am;
          let k = str_of (mb_PkiId mem);
          let internalEndpoint = (case map_get (di_id2Member d) k of
                Some p \<Rightarrow> p_InternalEndpoint p
              | None \<Rightarrow> (case secret of None \<Rightarrow> [] | Some ep \<Rightarrow> ep));
          learn_peers env ms
            (d\<lparr>di_id2Member := map_put k (peer_of_member mem internalEndpoint) (di_id2Member d)\<rparr>)
        })"

definition learnNewMembers ::
  "denv \<Rightarrow> instant \<Rightarrow> SignedGossipMessage list \<Rightarrow> SignedGossipMessage list \<Rightarrow> disc \<Rightarrow> disc option" where
  "learnNewMembers env now aliveMembers deadMembers d = do {
     d1 \<leftarrow> foldM (learn_alive now) aliveMembers d;
     d2 \<leftarrow> foldM (learn_dead now) deadMembers d1;
     learn_peers env (aliveMembers @ deadMembers) d2
   }"

text \<open>
  \<open>handleAliveMessage\<close> without interference: its critical sections one after the other. The
  timestamp is a pointer that is only read where a branch needs it.
\<close>

definition handleAliveMessage :: "denv \<Rightarrow> instant \<Rightarrow> SignedGossipMessage \<Rightarrow> disc \<Rightarrow> disc option" where
  "handleAliveMessage env now m d0 =
     (case ValidateAliveMsg env now m d0 of
        (False, d) \<Rightarrow> Some d
      | (True, d) \<Rightarrow> do {
          am \<leftarrow> GetAliveMsg (sg_Msg m);
          mem \<leftarrow> am_Membership am;
          let pkiID = mb_PkiId mem;
          let k = str_of pkiID;
          if bytes_eq pkiID (p_PKIid (di_self d)) then Some d
          else if \<not> map_has (di_id2Member d) k then learnNewMembers env now [m] [] d
          else (let isAlive = map_has (di_aliveLastTS d) k; isDead = map_has (di_deadLastTS d) k in
            if \<not> isAlive \<and> \<not> isDead then Some d
            else if isAlive \<and> isDead then Some d
            else do {
              ts \<leftarrow> am_Timestamp am;
              d1 \<leftarrow> (case map_get (di_deadLastTS d) k of
                       Some lastDeadTS \<Rightarrow>
                         if \<not> before lastDeadTS ts then Some None
                         else map_option Some (resurrectMember env now m ts d)
                     | None \<Rightarrow> Some (Some d));
              (case d1 of
                 None \<Rightarrow> Some d
               | Some d2 \<Rightarrow>
                   (case map_get (di_aliveLastTS d2) k of
                      Some lastAliveTS \<Rightarrow>
                        if before lastAliveTS ts then learnExistingMembers env now [m] d2 else Some d2
                    | None \<Rightarrow> Some d2))
            })
        })"

section \<open>Handling of received messages\<close>

text \<open>\<open>return\<close> inside the loops over a membership response ends the handler.\<close>

fun handle_mem_alive :: "denv \<Rightarrow> instant \<Rightarrow> Envelope option list \<Rightarrow> disc \<Rightarrow> (bool \<times> disc) option" where
  "handle_mem_alive env now [] d = Some (True, d)"
| "handle_mem_alive env now (eo # es) d = do {
     e \<leftarrow> eo;
     (case ToGossipMessage (de_codec env) e of
        Inl _ \<Rightarrow> Some (False, d)
      | Inr am \<Rightarrow>
          if GetAliveMsg (sg_Msg am) = None then Some (False, d)
          else do {
            valid \<leftarrow> aliveMsgStore_CheckValid am d;
            d1 \<leftarrow> (if valid then handleAliveMessage env now am d else Some d);
            handle_mem_alive env now es d1
          })
   }"

fun handle_mem_dead :: "denv \<Rightarrow> instant \<Rightarrow> Envelope option list \<Rightarrow> disc \<Rightarrow> disc option" where
  "handle_mem_dead env now [] d = Some d"
| "handle_mem_dead env now (eo # es) d = do {
     e \<leftarrow> eo;
     (case ToGossipMessage (de_codec env) e of
        Inl _ \<Rightarrow> Some d
      | Inr dm \<Rightarrow>
          (case ValidateAliveMsg env now dm d of
             (False, d1) \<Rightarrow> handle_mem_dead env now es d1
           | (True, d1) \<Rightarrow> do {
               valid \<leftarrow> aliveMsgStore_CheckValid dm d1;
               if \<not> valid then Some d1
               else do {
                 am \<leftarrow> GetAliveMsg (sg_Msg dm);
                 mem \<leftarrow> am_Membership am;
                 let newDeadMembers = (if map_has (di_id2Member d1) (str_of (mb_PkiId mem)) then [] else [dm]);
                 d2 \<leftarrow> learnNewMembers env now [] newDeadMembers d1;
                 handle_mem_dead env now es d2
               }
             }))
   }"

definition handleMsgFromComm :: "denv \<Rightarrow> instant \<Rightarrow> ReceivedMessage option \<Rightarrow> disc \<Rightarrow> disc option" where
  "handleMsgFromComm env now mo d =
     (case mo of
        None \<Rightarrow> Some d
      | Some msg \<Rightarrow>
         (let m = rm_msg msg; g = sg_Msg m in
          if GetAliveMsg g = None \<and> GetMemRes g = None \<and> GetMemReq g = None then Some d
          else case GetMemReq g of
            Some memReq \<Rightarrow> do {
              e \<leftarrow> mq_SelfInformation memReq;
              (case ToGossipMessage (de_codec env) e of
                 Inl _ \<Rightarrow> Some d
               | Inr selfInfo \<Rightarrow> do {
                   valid \<leftarrow> aliveMsgStore_CheckValid selfInfo d;
                   d1 \<leftarrow> (if valid then handleAliveMessage env now selfInfo d else Some d);
                   secret \<leftarrow> secret_endpoint env m;
                   am \<leftarrow> GetAliveMsg (sg_Msg selfInfo);
                   Some (out (OutSendMemResponse (am_Membership am)
                     (case secret of None \<Rightarrow> [] | Some ep \<Rightarrow> ep) (gm_Nonce g)) d1)
                 })
            }
          | None \<Rightarrow>
             if GetAliveMsg g \<noteq> None then do {
               (added, d1) \<leftarrow> aliveMsgStore_Add now m d;
               if \<not> added then Some d1
               else do {
                 d2 \<leftarrow> handleAliveMessage env now m d1;
                 if di_stopping d2 then Some d2 else Some (out (OutForward msg) d2)
               }
             }
             else (case GetMemRes g of
                None \<Rightarrow> Some d
              | Some memResp \<Rightarrow> do {
                  let d1 = out (OutPublish (fmt_u64 (gm_Nonce g)) (gm_Nonce g)) d;
                  (continue, d2) \<leftarrow> handle_mem_alive env now (mr_Alive memResp) d1;
                  if continue then handle_mem_dead env now (mr_Dead memResp) d2 else Some d2
                })))"

section \<open>Expiration\<close>

definition isAlive :: "bytes \<Rightarrow> disc \<Rightarrow> bool" where
  "isAlive pkiID d \<longleftrightarrow> map_has (di_aliveLastTS d) (str_of pkiID)"

definition getDeadMembers :: "denv \<Rightarrow> instant \<Rightarrow> disc \<Rightarrow> bytes list" where
  "getDeadMembers env now d =
     map (\<lambda>(pid, last). Some pid)
       (filter (\<lambda>(pid, last). time_since now (ts_lastSeen last) > de_aliveExpirationTimeout env) (di_aliveLastTS d))"

text \<open>
  The locked loop of \<open>expireDeadMembers\<close>, with the members to close as the pointers read
  from \<open>id2Member\<close>, and the closing of their connections after it.
\<close>

definition expire_one :: "bytes \<Rightarrow> disc \<times> Peer option list \<Rightarrow> disc \<times> Peer option list" where
  "expire_one pkiID st =
     (let (d, deadMembers2Expire) = st; k = str_of pkiID in
      case map_get (di_aliveLastTS d) k of
        None \<Rightarrow> (d, deadMembers2Expire)
      | Some lastTS \<Rightarrow>
          (let d1 = d\<lparr>di_deadLastTS := map_put k lastTS (di_deadLastTS d),
                      di_aliveLastTS := map_del k (di_aliveLastTS d)\<rparr>;
               d2 = (case GetMsgByID (di_aliveMembership d1) pkiID of
                       None \<Rightarrow> d1
                     | Some am \<Rightarrow> d1\<lparr>di_deadMembership := MembershipStore_Put pkiID am (di_deadMembership d1),
                                     di_aliveMembership := MembershipStore_Remove pkiID (di_aliveMembership d1)\<rparr>)
           in (d2, deadMembers2Expire @ [map_get (di_id2Member d) k])))"

definition close_member :: "Peer option \<Rightarrow> disc \<Rightarrow> disc option" where
  "close_member po d = do {
     peer \<leftarrow> po;
     Some (out (OutCloseConn \<lparr>rp_Endpoint = [], rp_PKIID = p_PKIid peer\<rparr>) d)
   }"

definition expireDeadMembers :: "bytes list \<Rightarrow> disc \<Rightarrow> disc option" where
  "expireDeadMembers dead d =
     (let (d1, deadMembers2Expire) = fold expire_one dead (d, [])
      in foldM close_member deadMembers2Expire d1)"

text \<open>A presumed death reported by the communication layer, and one round of \<open>periodicalCheckAlive\<close>.\<close>

definition handlePresumedDeadPeer :: "bytes \<Rightarrow> disc \<Rightarrow> disc option" where
  "handlePresumedDeadPeer deadPeer d = (if isAlive deadPeer d then expireDeadMembers [deadPeer] d else Some d)"

definition periodicalCheckAlive :: "denv \<Rightarrow> instant \<Rightarrow> disc \<Rightarrow> disc option" where
  "periodicalCheckAlive env now d =
     (let dead = getDeadMembers env now d in if length dead > 0 then expireDeadMembers dead d else Some d)"

text \<open>The callback of the store of alive messages purges a peer whose last message expired.\<close>

definition expire_callback :: "SignedGossipMessage \<Rightarrow> disc \<Rightarrow> disc option" where
  "expire_callback msg d =
     (case GetAliveMsg (sg_Msg msg) of
        None \<Rightarrow> Some d
      | Some am \<Rightarrow> do {
          mem \<leftarrow> am_Membership am;
          let k = str_of (mb_PkiId mem);
          Some (d\<lparr>di_aliveMembership := MembershipStore_Remove (mb_PkiId mem) (di_aliveMembership d),
                  di_deadMembership := MembershipStore_Remove (mb_PkiId mem) (di_deadMembership d),
                  di_id2Member := map_del k (di_id2Member d),
                  di_deadLastTS := map_del k (di_deadLastTS d),
                  di_aliveLastTS := map_del k (di_aliveLastTS d)\<rparr>)
        })"

definition disc_expirationTick :: "instant \<Rightarrow> disc \<Rightarrow> disc option" where
  "disc_expirationTick now d =
     (let (s, calls) = expirationTick now (di_msgStore d)
      in foldM expire_callback calls (d\<lparr>di_msgStore := s\<rparr>))"

section \<open>Queries\<close>

text \<open>\<open>Lookup\<close> returns a pointer: nil when the peer is not known.\<close>

definition Lookup :: "bytes \<Rightarrow> disc \<Rightarrow> Peer option" where
  "Lookup PKIID d =
     (if bytes_eq PKIID (p_PKIid (di_self d)) then Some (di_self d)
      else map_get (di_id2Member d) (str_of PKIID))"

definition member_peer :: "disc \<Rightarrow> SignedGossipMessage \<Rightarrow> Peer option" where
  "member_peer d m = do {
     am \<leftarrow> GetAliveMsg (sg_Msg m);
     mem \<leftarrow> am_Membership am;
     known \<leftarrow> map_get (di_id2Member d) (str_of (mb_PkiId mem));
     Some (empty_peer\<lparr>p_PKIid := mb_PkiId mem, p_Endpoint := mb_Endpoint mem, p_Metadata := mb_Metadata mem,
       p_InternalEndpoint := p_InternalEndpoint known, p_Envelope := sg_Envelope m\<rparr>)
   }"

fun mapM_opt :: "('a \<Rightarrow> 'b option) \<Rightarrow> 'a list \<Rightarrow> 'b list option" where
  "mapM_opt f [] = Some []"
| "mapM_opt f (x # xs) = do { y \<leftarrow> f x; ys \<leftarrow> mapM_opt f xs; Some (y # ys) }"

definition GetMembership :: "disc \<Rightarrow> Peer list option" where
  "GetMembership d =
     (if di_toDieFlag d then Some [] else mapM_opt (member_peer d) (ToSlice (di_aliveMembership d)))"

definition disc_Self :: "denv \<Rightarrow> disc \<Rightarrow> Peer \<times> disc" where
  "disc_Self env d =
     (let (msg, _, d1) = aliveMsgAndInternalEndpoint d;
          (sMsg, err) = NoopSign (de_codec env) msg;
          envp = (if err = None then sg_Envelope sMsg else None);
          mem = \<lparr>mb_Endpoint = p_Endpoint (di_self d), mb_Metadata = p_Metadata (di_self d), mb_PkiId = p_PKIid (di_self d)\<rparr>
      in (empty_peer\<lparr>p_Endpoint := mb_Endpoint mem, p_Metadata := mb_Metadata mem, p_PKIid := mb_PkiId mem,
            p_Envelope := envp\<rparr>, d1))"

definition copyLastSeen :: "(string, timestamp) gomap \<Rightarrow> disc \<Rightarrow> Peer list option" where
  "copyLastSeen lastSeenMap d = mapM_opt (\<lambda>(pkiIDStr, _). map_get (di_id2Member d) pkiIDStr) lastSeenMap"

section \<open>Sending\<close>

text \<open>
  The adapter's \<open>SendToPeer\<close> rewrites a membership request for the peer it goes to: the
  envelope filter may strip the secret envelope, in place, so the caller's message is returned too.
\<close>

definition SendToPeer :: "denv \<Rightarrow> Peer \<Rightarrow> SignedGossipMessage \<Rightarrow> disc \<Rightarrow> (SignedGossipMessage \<times> disc) option" where
  "SendToPeer env peer msg d =
     (let remote = \<lparr>rp_Endpoint = PreferredEndpoint peer, rp_PKIID = p_PKIid peer\<rparr> in
      if di_stopping d then Some (msg, d)
      else case GetMemReq (sg_Msg msg) of
        Some memReq \<Rightarrow>
          if bytes_len (p_PKIid peer) \<noteq> 0 then do {
            e \<leftarrow> mq_SelfInformation memReq;
            selfMsg \<leftarrow> (case ToGossipMessage (de_codec env) e of Inl _ \<Rightarrow> None | Inr s \<Rightarrow> Some s);
            (selfMsg', envp) \<leftarrow> snd (de_disclosurePolicy env peer) selfMsg;
            let msg1 = msg\<lparr>sg_Msg := (sg_Msg msg)\<lparr>gm_Content :=
                  Some (MemReq \<lparr>mq_SelfInformation = envp, mq_Known = mq_Known memReq\<rparr>)\<rparr>\<rparr>;
            (case NoopSign (de_codec env) (sg_Msg msg1) of
               (_, Some _) \<Rightarrow> Some (msg1, d)
             | (sMsg, None) \<Rightarrow> Some (msg1, out (OutSend sMsg remote) d))
          }
          else Some (msg, out (OutSend msg remote) d)
      | None \<Rightarrow> Some (msg, out (OutSend msg remote) d))"

fun send_to_all :: "denv \<Rightarrow> Peer list \<Rightarrow> SignedGossipMessage \<Rightarrow> disc \<Rightarrow> disc option" where
  "send_to_all env [] msg d = Some d"
| "send_to_all env (p # ps) msg d = do {
     (msg1, d1) \<leftarrow> SendToPeer env p msg d;
     send_to_all env ps msg1 d1
   }"

definition sync_peer :: "denv \<Rightarrow> SignedGossipMessage \<Rightarrow> Peer option" where
  "sync_peer env m = do {
     am \<leftarrow> GetAliveMsg (sg_Msg m);
     pulledPeer \<leftarrow> am_Membership am;
     secret \<leftarrow> secret_endpoint env m;
     Some (peer_of_member pulledPeer (case secret of None \<Rightarrow> [] | Some ep \<Rightarrow> ep))
   }"

text \<open>The outer option of \<open>InitiateSync\<close> is also \<open>None\<close> when the draws run out.\<close>

definition InitiateSync :: "denv \<Rightarrow> instant \<Rightarrow> u64 list \<Rightarrow> int \<Rightarrow> disc \<Rightarrow> disc option" where
  "InitiateSync env now draws peerNum d =
     (if di_toDieFlag d then Some d
      else case createMembershipRequest env now True d of
        (Inl _, d1) \<Rightarrow> Some d1
      | (Inr m, d1) \<Rightarrow>
          (case NoopSign (de_codec env) m of
             (_, Some _) \<Rightarrow> Some d1
           | (memReq, None) \<Rightarrow> do {
               let n = MembershipStore_Size (di_aliveMembership d1);
               let k = (if peerNum > n then n else peerNum);
               let aliveMembersAsSlice = ToSlice (di_aliveMembership d1);
               indices \<leftarrow> GetRandomIndices draws k (n - 1);
               peers2SendTo \<leftarrow> mapM_opt (\<lambda>i. sync_peer env (aliveMembersAsSlice ! nat i)) indices;
               send_to_all env peers2SendTo memReq d1
             }))"

text \<open>
  \<open>createMembershipResponse\<close> applies the filter to the stored messages themselves, so it
  returns the state as well; \<open>None\<close> in the result is the nil response.
\<close>

fun disclose ::
  "Sieve \<Rightarrow> EnvelopeFilter \<Rightarrow> MembershipStore \<Rightarrow> (MembershipStore \<times> Envelope option list) option" where
  "disclose sieve omit [] = Some ([], [])"
| "disclose sieve omit ((k, m) # ms) = do {
     shown \<leftarrow> sieve m;
     (if \<not> shown then do { (ms', es) \<leftarrow> disclose sieve omit ms; Some ((k, m) # ms', es) }
      else do {
        (m', e) \<leftarrow> omit m;
        (ms', es) \<leftarrow> disclose sieve omit ms;
        Some ((k, m') # ms', e # es)
      })
   }"

definition createMembershipResponse ::
  "denv \<Rightarrow> SignedGossipMessage \<Rightarrow> Peer \<Rightarrow> disc \<Rightarrow>
     (MembershipResponse option \<times> SignedGossipMessage \<times> disc) option" where
  "createMembershipResponse env aliveMsg targetMember d = do {
     let (shouldBeDisclosed, omitConcealedFields) = de_disclosurePolicy env targetMember;
     disclosed \<leftarrow> shouldBeDisclosed aliveMsg;
     if \<not> disclosed then Some (None, aliveMsg, d)
     else do {
       (dead, deadPeers) \<leftarrow> disclose shouldBeDisclosed omitConcealedFields (di_deadMembership d);
       (alive, aliveSnapshot) \<leftarrow> disclose shouldBeDisclosed omitConcealedFields (di_aliveMembership d);
       (aliveMsg', e) \<leftarrow> omitConcealedFields aliveMsg;
       Some (Some \<lparr>mr_Alive = aliveSnapshot @ [e], mr_Dead = deadPeers\<rparr>, aliveMsg',
             d\<lparr>di_deadMembership := dead, di_aliveMembership := alive\<rparr>)
     }
   }"

definition sendMemResponse ::
  "denv \<Rightarrow> instant \<Rightarrow> Member option \<Rightarrow> string \<Rightarrow> u64 \<Rightarrow> disc \<Rightarrow> disc option" where
  "sendMemResponse env now targetMember internalEndpoint nonce d = do {
     mem \<leftarrow> targetMember;
     let targetPeer = peer_of_member mem internalEndpoint;
     (case di_selfAliveMessage d of
        Some m \<Rightarrow> Some (Some m, d)
      | None \<Rightarrow> (case createSignedAliveMessage env now True d of
                  (Inl _, d1) \<Rightarrow> Some (None, d1)
                | (Inr m, d1) \<Rightarrow> Some (Some m, d1)))
     \<bind> (\<lambda>(aliveMsg, d1).
       case aliveMsg of
         None \<Rightarrow> Some d1
       | Some m \<Rightarrow> do {
           (memResp, m', d2) \<leftarrow> createMembershipResponse env m targetPeer d1;
           let d3 = (if di_selfAliveMessage d2 = None then d2 else d2\<lparr>di_selfAliveMessage := Some m'\<rparr>);
           (case memResp of
              None \<Rightarrow> Some (out (OutCloseConn \<lparr>rp_Endpoint = [], rp_PKIID = p_PKIid targetPeer\<rparr>) d3)
            | Some r \<Rightarrow>
                (case NoopSign (de_codec env)
                        \<lparr>gm_Nonce = nonce, gm_Channel = None, gm_Tag = Tag_EMPTY, gm_Content = Some (MemRes r)\<rparr> of
                   (_, Some _) \<Rightarrow> Some d3
                 | (msg, None) \<Rightarrow> map_option snd (SendToPeer env targetPeer msg d3)))
         })
   }"

text \<open>One round of \<open>periodicalSendAlive\<close>; the flag tells whether the loop goes on.\<close>

definition periodicalSendAlive :: "denv \<Rightarrow> instant \<Rightarrow> disc \<Rightarrow> bool \<times> disc" where
  "periodicalSendAlive env now d =
     (case createSignedAliveMessage env now True d of
        (Inl _, d1) \<Rightarrow> (False, d1)
      | (Inr msg, d1) \<Rightarrow>
          (let d2 = d1\<lparr>di_selfAliveMessage := Some msg\<rparr>
           in (True, if di_stopping d2 then d2 else out (OutGossip msg) d2)))"

text \<open>One round of \<open>periodicalReconnectToDead\<close>; \<open>ping\<close> tells which peers answer the probe.\<close>

definition reconnect_to :: "denv \<Rightarrow> instant \<Rightarrow> (Peer \<Rightarrow> bool) \<Rightarrow> Peer \<Rightarrow> disc \<Rightarrow> disc option" where
  "reconnect_to env now ping peer d =
     (if \<not> ping peer then Some d
      else case createMembershipRequest env now True d of
        (Inl _, d1) \<Rightarrow> Some d1
      | (Inr m, d1) \<Rightarrow>
          (case NoopSign (de_codec env) m of
             (_, Some _) \<Rightarrow> Some d1
           | (req, None) \<Rightarrow> map_option snd (SendToPeer env peer req d1)))"

definition periodicalReconnectToDead :: "denv \<Rightarrow> instant \<Rightarrow> (Peer \<Rightarrow> bool) \<Rightarrow> disc \<Rightarrow> disc option" where
  "periodicalReconnectToDead env now ping d = do {
     peers \<leftarrow> copyLastSeen (di_deadLastTS d) d;
     foldM (reconnect_to env now ping) peers d
   }"

text \<open>
  \<open>sendUntilAcked\<close>: the list says for each attempt whether the acknowledgement arrived before
  the timeout; the loop stops with the first that did and after \<open>MaxConnectionAttempts\<close>.
\<close>

fun sendUntilAcked_loop :: "denv \<Rightarrow> nat \<Rightarrow> bool list \<Rightarrow> Peer \<Rightarrow> SignedGossipMessage \<Rightarrow> disc \<Rightarrow> disc option" where
  "sendUntilAcked_loop env 0 acks peer message d = Some d"
| "sendUntilAcked_loop env (Suc n) [] peer message d = Some d"
| "sendUntilAcked_loop env (Suc n) (acked # acks) peer message d =
     (if di_toDieFlag d then Some d
      else do {
        let d1 = out (OutSubscribe (fmt_u64 (gm_Nonce (sg_Msg message))) (5 * second)) d;
        (message1, d2) \<leftarrow> SendToPeer env peer message d1;
        if acked then Some d2 else sendUntilAcked_loop env n acks peer message1 d2
      })"

definition sendUntilAcked :: "denv \<Rightarrow> bool list \<Rightarrow> Peer \<Rightarrow> SignedGossipMessage \<Rightarrow> disc \<Rightarrow> disc option" where
  "sendUntilAcked env acks peer message d =
     sendUntilAcked_loop env (de_MaxConnectionAttempts env) acks peer message d"

text \<open>
  \<open>Connect\<close>: the endpoints that are this peer itself are refused; the goroutine then asks for
  the peer's identity until it gets one and a request can be made. Each attempt is the
  result of the identifier and the nonce drawn.
\<close>

record PeerId =
  pid_ID :: bytes
  pid_SelfOrg :: bool

definition fmt_int :: "int \<Rightarrow> string" where
  "fmt_int i = (if i < 0 then ''-'' @ fmt_d (nat (- i)) else fmt_d (nat i))"

definition is_own_endpoint :: "disc \<Rightarrow> string \<Rightarrow> bool" where
  "is_own_endpoint d endpoint \<longleftrightarrow>
     endpoint = ''127.0.0.1:'' @ fmt_int (di_port d) \<or> endpoint = ''localhost:'' @ fmt_int (di_port d) \<or>
     endpoint = p_InternalEndpoint (di_self d) \<or> endpoint = p_Endpoint (di_self d)"

fun connect_loop :: "denv \<Rightarrow> instant \<Rightarrow> nat \<Rightarrow> ((error + PeerId) \<times> u64) list \<Rightarrow> Peer \<Rightarrow> disc \<Rightarrow> disc" where
  "connect_loop env now 0 tries peer d = d"
| "connect_loop env now (Suc n) [] peer d = d"
| "connect_loop env now (Suc n) ((r, nonce) # tries) peer d =
     (if di_toDieFlag d then d
      else case r of
        Inl _ \<Rightarrow> connect_loop env now n tries peer d
      | Inr pid \<Rightarrow>
          (case createMembershipRequest env now (pid_SelfOrg pid) d of
             (Inl _, d1) \<Rightarrow> connect_loop env now n tries peer d1
           | (Inr m, d1) \<Rightarrow>
               (case NoopSign (de_codec env) m of
                  (_, Some _) \<Rightarrow> connect_loop env now n tries peer d1
                | (req, None) \<Rightarrow>
                    (case NoopSign (de_codec env) ((sg_Msg req)\<lparr>gm_Nonce := nonce\<rparr>) of
                       (_, Some _) \<Rightarrow> connect_loop env now n tries peer d1
                     | (req', None) \<Rightarrow>
                         out (OutSendUntilAcked
                           (empty_peer\<lparr>p_InternalEndpoint := p_InternalEndpoint peer,
                              p_Endpoint := p_Endpoint peer, p_PKIid := pid_ID pid\<rparr>) req') d1))))"

definition Connect :: "denv \<Rightarrow> instant \<Rightarrow> ((error + PeerId) \<times> u64) list \<Rightarrow> Peer \<Rightarrow> disc \<Rightarrow> disc" where
  "Connect env now tries peer d =
     (if is_own_endpoint d (p_InternalEndpoint peer) \<or> is_own_endpoint d (p_Endpoint peer) then d
      else connect_loop env now (de_MaxConnectionAttempts env) tries peer d)"

definition disc_Stop :: "disc \<Rightarrow> disc" where
  "disc_Stop d = d\<lparr>di_toDieFlag := True, di_msgStore := MessageStore_Stop (di_msgStore d)\<rparr>"

section \<open>The start\<close>

text \<open>
  The port is the part of the internal endpoint after its first colon; without a colon the
  index panics. \<open>strconv.ParseInt\<close> gives 0 on a syntax error and the nearest bound out of range.
\<close>

fun split_colon :: "string \<Rightarrow> string list" where
  "split_colon [] = [[]]"
| "split_colon (c # cs) =
     (if c = CHR '':'' then [] # split_colon cs
      else (case split_colon cs of [] \<Rightarrow> [[c]] | s # ss \<Rightarrow> (c # s) # ss))"

definition parse_int :: "string \<Rightarrow> int" where
  "parse_int s =
     (let (neg, ds) = (case s of
            [] \<Rightarrow> (False, [])
          | c # cs \<Rightarrow> if c = CHR ''-'' then (True, cs) else if c = CHR ''+'' then (False, cs) else (False, s))
      in if ds = [] then 0
         else case parse_digits 0 ds of
           None \<Rightarrow> 0
         | Some n \<Rightarrow> if neg then max (- (2 ^ 63)) (- int n) else min (2 ^ 63 - 1) (int n))"

definition msgExpirationFactor :: int where
  "msgExpirationFactor = 20"

definition NewDiscoveryService :: "denv \<Rightarrow> instant \<Rightarrow> Peer \<Rightarrow> IdMapper \<Rightarrow> disc option" where
  "NewDiscoveryService env now self idMapper =
     (let parts = split_colon (p_InternalEndpoint self) in
      if length parts \<le> 1 then None
      else Some
        \<lparr>di_incTime = unix_nano now, di_seqNum = 0, di_self = self, di_deadLastTS = [], di_aliveLastTS = [],
         di_id2Member = [], di_aliveMembership = NewMembershipStore, di_deadMembership = NewMembershipStore,
         di_selfAliveMessage = None,
         di_msgStore = NewMessageStoreExpirable (de_aliveExpirationTimeout env * msgExpirationFactor),
         di_idMapper = idMapper, di_port = parse_int (parts ! 1), di_toDieFlag = False, di_stopping = False,
         di_out = []\<rparr>)"

definition defaultHelloInterval :: duration where
  "defaultHelloInterval = 5 * second"

definition getAliveTimeInterval :: "(string \<Rightarrow> duration) \<Rightarrow> duration" where
  "getAliveTimeInterval config = GetDurationOrDefault config ''peer.gossip.aliveTimeInterval'' defaultHelloInterval"

definition getAliveExpirationTimeout :: "(string \<Rightarrow> duration) \<Rightarrow> duration" where
  "getAliveExpirationTimeout config =
     GetDurationOrDefault config ''peer.gossip.aliveExpirationTimeout'' (5 * getAliveTimeInterval config)"

definition getAliveExpirationCheckInterval :: "duration \<Rightarrow> (string \<Rightarrow> duration) \<Rightarrow> duration" where
  "getAliveExpirationCheckInterval AliveExpirationCheckInterval config =
     (if AliveExpirationCheckInterval \<noteq> 0 then AliveExpirationCheckInterval
      else (let t = getAliveExpirationTimeout config in sgn t * (\<bar>t\<bar> div 10)))"

definition getReconnectInterval :: "(string \<Rightarrow> duration) \<Rightarrow> duration" where
  "getReconnectInterval config =
     GetDurationOrDefault config ''peer.gossip.reconnectInterval'' (getAliveExpirationTimeout config)"

end
