(* ===== verification/DiscoveryInv.thy ===== *)
theory DiscoveryInv
  imports Discovery
begin

text \<open>
  The invariant of discovery and what its operations keep of it. A known peer is alive or dead,
  never both; each of the two tables of timestamps has the keys of its table of messages, and a
  timestamp is that of the message stored with it; the tables know nothing about this peer itself.
  Under the invariant no operation dereferences a nil pointer as long as the messages it is given
  carry the fields the code reads. The abstract state of the component is the status of each peer.
\<close>

section \<open>Logical time of a timestamp\<close>

definition stamp_of :: "timestamp \<Rightarrow> PeerTime" where
  "stamp_of ts = PeerTime (unix_nano (ts_incTime ts)) (ts_seqNum ts)"

lemma before_iff: "before a b \<longleftrightarrow> stamp_of a < b"
  by (cases b) (auto simp: before_def stamp_of_def less_PeerTime_def)

lemma stamp_mk [simp]: "stamp_of (mk_timestamp now t) = t"
  by (cases t) (simp add: stamp_of_def mk_timestamp_def)

section \<open>The invariant\<close>

definition stored_ok :: "string \<Rightarrow> SignedGossipMessage \<Rightarrow> bool" where
  "stored_ok k m \<longleftrightarrow> alive_ok m \<and> msg_peer m = k \<and> sg_Envelope m \<noteq> None"

definition entry_match :: "string \<Rightarrow> timestamp option \<Rightarrow> SignedGossipMessage option \<Rightarrow> bool" where
  "entry_match k t m \<longleftrightarrow>
     (case (t, m) of
        (None, None) \<Rightarrow> True
      | (Some ts, Some msg) \<Rightarrow> stored_ok k msg \<and> stamp_of ts = msg_stamp msg
      | _ \<Rightarrow> False)"

definition table_ok :: "(string, timestamp) gomap \<Rightarrow> MembershipStore \<Rightarrow> bool" where
  "table_ok lastTS ms \<longleftrightarrow>
     map_wf lastTS \<and> map_wf ms \<and> (\<forall>k. entry_match k (map_get lastTS k) (map_get ms k))"

definition self_key :: "disc \<Rightarrow> string" where
  "self_key d = str_of (p_PKIid (di_self d))"

definition disc_ok :: "disc \<Rightarrow> bool" where
  "disc_ok d \<longleftrightarrow>
     table_ok (di_aliveLastTS d) (di_aliveMembership d) \<and>
     table_ok (di_deadLastTS d) (di_deadMembership d) \<and>
     map_wf (di_id2Member d) \<and>
     (\<forall>k. map_get (di_aliveLastTS d) k = None \<or> map_get (di_deadLastTS d) k = None) \<and>
     (\<forall>k. map_get (di_aliveLastTS d) k \<noteq> None \<or> map_get (di_deadLastTS d) k \<noteq> None \<longrightarrow>
        k \<noteq> self_key d \<and> map_get (di_id2Member d) k \<noteq> None) \<and>
     (\<forall>k p. map_get (di_id2Member d) k = Some p \<longrightarrow> str_of (p_PKIid p) = k \<and>
        (k = self_key d \<or> map_get (di_aliveLastTS d) k \<noteq> None \<or> map_get (di_deadLastTS d) k \<noteq> None)) \<and>
     store_ok alive_comparator alive_ok (di_msgStore d) \<and>
     mapper_ok (di_idMapper d)"

lemma entry_match_simps [simp]:
  "entry_match k None None"
  "entry_match k (Some ts) (Some m) \<longleftrightarrow> stored_ok k m \<and> stamp_of ts = msg_stamp m"
  "\<not> entry_match k (Some ts) None" "\<not> entry_match k None (Some m)"
  by (simp_all add: entry_match_def)

lemma entry_match_None: "entry_match k a b \<Longrightarrow> a = None \<longleftrightarrow> b = None"
  by (auto simp: entry_match_def split: option.splits)

lemma table_put [wf_intros]:
  "table_ok ts ms \<Longrightarrow> stored_ok k m \<Longrightarrow> stamp_of t = msg_stamp m \<Longrightarrow>
     table_ok (map_put k t ts) (map_put k m ms)"
  by (simp add: table_ok_def)

lemma table_del [wf_intros]: "table_ok ts ms \<Longrightarrow> table_ok (map_del k ts) (map_del k ms)"
  by (simp add: table_ok_def)

lemma table_empty [simp]: "table_ok [] []"
  by (simp add: table_ok_def)

lemma table_get:
  "table_ok ts ms \<Longrightarrow> map_get ms k = Some m \<Longrightarrow>
     \<exists>t. map_get ts k = Some t \<and> stored_ok k m \<and> stamp_of t = msg_stamp m"
  unfolding table_ok_def by (cases "map_get ts k") (metis entry_match_simps)+

lemma table_dom: "table_ok ts ms \<Longrightarrow> map_get ts k = None \<longleftrightarrow> map_get ms k = None"
  unfolding table_ok_def by (blast dest: entry_match_None)

lemma table_entry:
  assumes "table_ok ts ms" "map_get ts k = Some t"
  obtains m where "map_get ms k = Some m" "stored_ok k m" "stamp_of t = msg_stamp m"
  using assms table_dom [OF assms(1), of k] table_get [OF assms(1), of k] by fastforce

text \<open>The parts of a state the invariant speaks of.\<close>

lemma disc_ok_frame [simp]:
  "disc_ok (d\<lparr>di_out := x\<rparr>) = disc_ok d"
  "disc_ok (d\<lparr>di_seqNum := n\<rparr>) = disc_ok d"
  "disc_ok (d\<lparr>di_selfAliveMessage := sm\<rparr>) = disc_ok d"
  "disc_ok (d\<lparr>di_toDieFlag := b\<rparr>) = disc_ok d"
  "disc_ok (d\<lparr>di_stopping := b\<rparr>) = disc_ok d"
  by (simp_all add: disc_ok_def self_key_def)

lemma disc_ok_out [simp]: "disc_ok (out a d) = disc_ok d"
  by (simp add: out_def)

lemma out_fields [simp]:
  "di_aliveLastTS (out a d) = di_aliveLastTS d" "di_deadLastTS (out a d) = di_deadLastTS d"
  "di_id2Member (out a d) = di_id2Member d" "di_aliveMembership (out a d) = di_aliveMembership d"
  "di_deadMembership (out a d) = di_deadMembership d" "di_self (out a d) = di_self d"
  "di_msgStore (out a d) = di_msgStore d" "di_idMapper (out a d) = di_idMapper d"
  "di_selfAliveMessage (out a d) = di_selfAliveMessage d" "di_seqNum (out a d) = di_seqNum d"
  "di_incTime (out a d) = di_incTime d" "di_toDieFlag (out a d) = di_toDieFlag d"
  "di_stopping (out a d) = di_stopping d"
  by (simp_all add: out_def)

lemma disc_ok_mapper: "disc_ok d \<Longrightarrow> mapper_ok im \<Longrightarrow> disc_ok (d\<lparr>di_idMapper := im\<rparr>)"
  by (simp add: disc_ok_def self_key_def)

lemma disc_ok_store: "disc_ok d \<Longrightarrow> store_ok alive_comparator alive_ok s \<Longrightarrow> disc_ok (d\<lparr>di_msgStore := s\<rparr>)"
  by (simp add: disc_ok_def self_key_def)

lemma disc_ok_self: "disc_ok d \<Longrightarrow> map_get (di_aliveLastTS d) (self_key d) = None \<and> map_get (di_deadLastTS d) (self_key d) = None"
  unfolding disc_ok_def by blast

lemma disc_ok_known:
  assumes "disc_ok d" "k \<noteq> self_key d"
  shows "map_has (di_id2Member d) k \<longleftrightarrow> map_has (di_aliveLastTS d) k \<or> map_has (di_deadLastTS d) k"
  using assms unfolding disc_ok_def map_has_def by blast

section \<open>The status of a peer\<close>

datatype status = Alive PeerTime | Dead PeerTime

definition status_in :: "(string \<Rightarrow> timestamp option) \<Rightarrow> (string \<Rightarrow> timestamp option) \<Rightarrow> string \<Rightarrow> status option" where
  "status_in alive dead k =
     (case alive k of
        Some ts \<Rightarrow> Some (Alive (stamp_of ts))
      | None \<Rightarrow> (case dead k of Some ts \<Rightarrow> Some (Dead (stamp_of ts)) | None \<Rightarrow> None))"

definition status_of :: "disc \<Rightarrow> string \<Rightarrow> status option" where
  "status_of d = status_in (map_get (di_aliveLastTS d)) (map_get (di_deadLastTS d))"

lemma status_in_alive: "status_in (a(k \<mapsto> ts)) e = (status_in a e)(k \<mapsto> Alive (stamp_of ts))"
  by (auto simp: status_in_def fun_eq_iff split: option.splits)

lemma status_in_move: "status_in (a(k \<mapsto> ts)) (e(k := None)) = (status_in a e)(k \<mapsto> Alive (stamp_of ts))"
  by (auto simp: status_in_def fun_eq_iff split: option.splits)

lemma status_in_dead: "a k = None \<Longrightarrow> status_in a (e(k \<mapsto> ts)) = (status_in a e)(k \<mapsto> Dead (stamp_of ts))"
  by (auto simp: status_in_def fun_eq_iff split: option.splits)

lemma status_in_purge: "status_in (a(k := None)) (e(k := None)) = (status_in a e)(k := None)"
  by (auto simp: status_in_def fun_eq_iff split: option.splits)

text \<open>What an alive message, a dead peer heard of, an expiration and a purge do to it.\<close>

definition abs_alive :: "string \<Rightarrow> PeerTime \<Rightarrow> (string \<Rightarrow> status option) \<Rightarrow> string \<Rightarrow> status option" where
  "abs_alive k t s =
     (case s k of
        None \<Rightarrow> s(k \<mapsto> Alive t)
      | Some (Alive u) \<Rightarrow> if u < t then s(k \<mapsto> Alive t) else s
      | Some (Dead u) \<Rightarrow> if u < t then s(k \<mapsto> Alive t) else s)"

definition abs_dead :: "string \<Rightarrow> PeerTime \<Rightarrow> (string \<Rightarrow> status option) \<Rightarrow> string \<Rightarrow> status option" where
  "abs_dead k t s = (case s k of None \<Rightarrow> s(k \<mapsto> Dead t) | Some _ \<Rightarrow> s)"

definition abs_expire :: "string set \<Rightarrow> (string \<Rightarrow> status option) \<Rightarrow> string \<Rightarrow> status option" where
  "abs_expire ks s k = (case s k of Some (Alive t) \<Rightarrow> if k \<in> ks then Some (Dead t) else s k | _ \<Rightarrow> s k)"

lemma status_frame [simp]:
  "status_of (out a d) = status_of d"
  "status_of (d\<lparr>di_idMapper := im\<rparr>) = status_of d"
  "status_of (d\<lparr>di_msgStore := s\<rparr>) = status_of d"
  by (simp_all add: status_of_def)

lemma status_None: "status_of d k = None \<longleftrightarrow> \<not> map_has (di_aliveLastTS d) k \<and> \<not> map_has (di_deadLastTS d) k"
  by (simp add: status_of_def status_in_def map_has_def split: option.splits)

section \<open>Validation\<close>

lemma ValidateAliveMsg_cases:
  assumes "ValidateAliveMsg env now m d = (b, d')"
  obtains im where "d' = d\<lparr>di_idMapper := im\<rparr>" "mapper_ok (di_idMapper d) \<Longrightarrow> mapper_ok im"
    "b \<Longrightarrow> (\<exists>am mem. GetAliveMsg (sg_Msg m) = Some am \<and> am_Membership am = Some mem \<and> mb_PkiId mem \<noteq> None) \<and>
       sg_Envelope m \<noteq> None"
proof -
  have "\<exists>im. d' = d\<lparr>di_idMapper := im\<rparr> \<and> (mapper_ok (di_idMapper d) \<longrightarrow> mapper_ok im) \<and>
    (b \<longrightarrow> (\<exists>am mem. GetAliveMsg (sg_Msg m) = Some am \<and> am_Membership am = Some mem \<and> mb_PkiId mem \<noteq> None) \<and>
       sg_Envelope m \<noteq> None)"
  proof (cases "\<exists>am mem e. GetAliveMsg (sg_Msg m) = Some am \<and> am_Membership am = Some mem \<and> mb_PkiId mem \<noteq> None \<and>
      sg_Envelope m = Some e \<and> ev_Payload e \<noteq> None \<and> ev_Signature e \<noteq> None")
    case False
    have "d\<lparr>di_idMapper := di_idMapper d\<rparr> = d" by simp
    with False assms show ?thesis
      by (intro exI [of _ "di_idMapper d"])
         (fastforce simp: ValidateAliveMsg_def split: option.splits if_splits)
  next
    case True
    then obtain am mem e where p: "GetAliveMsg (sg_Msg m) = Some am" "am_Membership am = Some mem" "mb_PkiId mem \<noteq> None"
      "sg_Envelope m = Some e" "ev_Payload e \<noteq> None" "ev_Signature e \<noteq> None" by blast
    show ?thesis
    proof (cases "am_Identity am = None")
      case True
      obtain r im where g: "IdMapper_Get now (mb_PkiId mem) (di_idMapper d) = (r, im)" by (rule prod.exhaust)
      then have "mapper_ok (di_idMapper d) \<longrightarrow> mapper_ok im"
        using Get_ok [of "di_idMapper d" now "mb_PkiId mem"] by simp
      moreover have "d' = d\<lparr>di_idMapper := im\<rparr>"
        using assms p True g by (auto simp: ValidateAliveMsg_def split: sum.splits if_splits)
      ultimately show ?thesis using p by blast
    next
      case False
      obtain r im where g: "IdMapper_Put (de_mcs env) (de_ExpirationTimes env) now (mb_PkiId mem) (am_Identity am) (di_idMapper d) = (r, im)"
        by (rule prod.exhaust)
      then have "mapper_ok (di_idMapper d) \<longrightarrow> mapper_ok im"
        using Put_ok [of "di_idMapper d" "de_mcs env" "de_ExpirationTimes env" now "mb_PkiId mem" "am_Identity am"] by simp
      moreover have "d' = d\<lparr>di_idMapper := im\<rparr>"
        using assms p False g by (auto simp: ValidateAliveMsg_def split: option.splits)
      ultimately show ?thesis using p by blast
    qed
  qed
  with that show thesis by blast
qed

text \<open>The code reads the time of an alive message with a membership without a test.\<close>

definition stamped :: "SignedGossipMessage \<Rightarrow> bool" where
  "stamped m \<longleftrightarrow> (\<forall>am. GetAliveMsg (sg_Msg m) = Some am \<longrightarrow> am_Timestamp am \<noteq> None)"

lemma alive_ok_stamped: "alive_ok m \<Longrightarrow> stamped m"
  by (auto simp: stamped_def elim!: alive_okE)

lemma alive_okI':
  assumes "GetAliveMsg (sg_Msg m) = Some am" "am_Membership am = Some mem" "stamped m"
  obtains t where "am_Timestamp am = Some t" "alive_ok m" "msg_peer m = str_of (mb_PkiId mem)" "msg_stamp m = t"
  using assms alive_okI [OF assms(1,2)] by (auto simp: stamped_def)

text \<open>A message as the critical sections get it.\<close>

definition parts :: "SignedGossipMessage \<Rightarrow> AliveMessage \<Rightarrow> Member \<Rightarrow> PeerTime \<Rightarrow> Envelope \<Rightarrow> bool" where
  "parts m am mem t e \<longleftrightarrow>
     GetAliveMsg (sg_Msg m) = Some am \<and> am_Membership am = Some mem \<and> am_Timestamp am = Some t \<and>
     sg_Envelope m = Some e \<and> stored_ok (str_of (mb_PkiId mem)) m \<and> msg_stamp m = t"

lemma partsI: "stored_ok k m \<Longrightarrow> \<exists>am mem t e. parts m am mem t e \<and> str_of (mb_PkiId mem) = k"
proof -
  assume m: "stored_ok k m"
  then have "alive_ok m" by (simp add: stored_ok_def)
  then obtain a mem t where "GetAliveMsg (sg_Msg m) = Some a" "am_Membership a = Some mem" "am_Timestamp a = Some t"
    "msg_peer m = str_of (mb_PkiId mem)" "msg_stamp m = t" by (rule alive_okE)
  with m show ?thesis by (auto simp: parts_def stored_ok_def)
qed

lemma validated_parts:
  assumes "ValidateAliveMsg env now m d = (True, d')" "stamped m"
  shows "\<exists>am mem t e. parts m am mem t e"
  using assms(1)
proof (cases rule: ValidateAliveMsg_cases)
  case (1 im)
  then obtain am mem e where p: "GetAliveMsg (sg_Msg m) = Some am" "am_Membership am = Some mem" "sg_Envelope m = Some e"
    by auto
  with assms(2) obtain t where "am_Timestamp am = Some t" "alive_ok m" "msg_peer m = str_of (mb_PkiId mem)" "msg_stamp m = t"
    by (elim alive_okI') auto
  with p show ?thesis by (auto simp: parts_def stored_ok_def)
qed

section \<open>The critical sections\<close>

lemma secret_endpoint_parts: "parts m am mem t e \<Longrightarrow> \<exists>x. secret_endpoint env m = Some x"
  by (simp add: parts_def secret_endpoint_def)

text \<open>What each section computes on a message with all its parts.\<close>

definition new_peer :: "denv \<Rightarrow> SignedGossipMessage \<Rightarrow> Member \<Rightarrow> disc \<Rightarrow> Peer" where
  "new_peer env m mem d = peer_of_member mem
     (case map_get (di_id2Member d) (str_of (mb_PkiId mem)) of
        Some p \<Rightarrow> p_InternalEndpoint p
      | None \<Rightarrow> (case the (secret_endpoint env m) of None \<Rightarrow> [] | Some ep \<Rightarrow> ep))"

definition latest_endpoint :: "denv \<Rightarrow> SignedGossipMessage \<Rightarrow> Member \<Rightarrow> disc \<Rightarrow> string" where
  "latest_endpoint env m mem d =
     (case the (secret_endpoint env m) of
        Some ep \<Rightarrow> ep
      | None \<Rightarrow> (case map_get (di_id2Member d) (str_of (mb_PkiId mem)) of None \<Rightarrow> [] | Some p \<Rightarrow> p_InternalEndpoint p))"

lemma peer_key [simp]: "p_PKIid (peer_of_member mem ep) = mb_PkiId mem" "p_PKIid (new_peer env m mem d) = mb_PkiId mem"
  by (simp_all add: peer_of_member_def new_peer_def)

lemma learn_new_alive:
  assumes "parts m am mem t e" "str_of (mb_PkiId mem) \<noteq> self_key d"
  shows "learnNewMembers env now [m] [] d = Some (d\<lparr>
      di_aliveLastTS := map_put (str_of (mb_PkiId mem)) (mk_timestamp now t) (di_aliveLastTS d),
      di_aliveMembership := map_put (str_of (mb_PkiId mem)) m (di_aliveMembership d),
      di_id2Member := map_put (str_of (mb_PkiId mem)) (new_peer env m mem d) (di_id2Member d)\<rparr>)"
  using assms secret_endpoint_parts [OF assms(1), of env]
  by (auto simp: learnNewMembers_def learn_alive_def parts_def self_key_def bytes_eq_def new_peer_def
      membership_defs Let_def cong: option.case_cong)

lemma learn_new_dead:
  assumes "parts m am mem t e" "str_of (mb_PkiId mem) \<noteq> self_key d"
  shows "learnNewMembers env now [] [m] d = Some (d\<lparr>
      di_deadLastTS := map_put (str_of (mb_PkiId mem)) (mk_timestamp now t) (di_deadLastTS d),
      di_deadMembership := map_put (str_of (mb_PkiId mem)) m (di_deadMembership d),
      di_id2Member := map_put (str_of (mb_PkiId mem)) (new_peer env m mem d) (di_id2Member d)\<rparr>)"
  using assms secret_endpoint_parts [OF assms(1), of env]
  by (auto simp: learnNewMembers_def learn_dead_def parts_def self_key_def bytes_eq_def new_peer_def
      membership_defs Let_def cong: option.case_cong)

text \<open>A peer that is told that it is dead itself only gets an entry in the table of members.\<close>

lemma learn_new_dead_self:
  assumes "parts m am mem t e" "str_of (mb_PkiId mem) = self_key d"
  shows "learnNewMembers env now [] [m] d =
    Some (d\<lparr>di_id2Member := map_put (self_key d) (new_peer env m mem d) (di_id2Member d)\<rparr>)"
  using assms secret_endpoint_parts [OF assms(1), of env]
  by (auto simp: learnNewMembers_def learn_dead_def parts_def self_key_def bytes_eq_def new_peer_def
      membership_defs Let_def cong: option.case_cong)

lemma learn_new_none [simp]: "learnNewMembers env now [] [] d = Some d"
  by (simp add: learnNewMembers_def)

lemma resurrect_eq:
  assumes "parts m am mem t e"
  shows "resurrectMember env now m t d = Some (d\<lparr>
      di_aliveLastTS := map_put (str_of (mb_PkiId mem)) (mk_timestamp now t) (di_aliveLastTS d),
      di_id2Member := map_put (str_of (mb_PkiId mem)) (peer_of_member mem (latest_endpoint env m mem d)) (di_id2Member d),
      di_deadLastTS := map_del (str_of (mb_PkiId mem)) (di_deadLastTS d),
      di_deadMembership := map_del (str_of (mb_PkiId mem)) (di_deadMembership d),
      di_aliveMembership := map_put (str_of (mb_PkiId mem)) m (di_aliveMembership d)\<rparr>)"
  using assms secret_endpoint_parts [OF assms(1), of env]
  by (auto simp: resurrectMember_def parts_def latest_endpoint_def membership_defs Let_def cong: option.case_cong)

text \<open>
  Learning about an existing member panics exactly when the peer is in no table any more, or is
  listed as alive without a message; it updates the peer, and its message and time if it is alive.
\<close>

lemma learn_existing_eq:
  assumes "parts m am mem t e" and k: "k = str_of (mb_PkiId mem)"
    and old: "map_get (di_id2Member d) k = Some old"
    and alive: "map_get (di_aliveLastTS d) k \<noteq> None" "map_get (di_deadLastTS d) k = None"
      "map_get (di_aliveMembership d) k \<noteq> None"
  shows "learnExistingMembers env now [m] d = Some (d\<lparr>
      di_id2Member := map_put k (old\<lparr>p_Endpoint := mb_Endpoint mem, p_Metadata := mb_Metadata mem,
        p_InternalEndpoint := latest_endpoint env m mem d\<rparr>) (di_id2Member d),
      di_aliveLastTS := map_put k (mk_timestamp now t) (di_aliveLastTS d),
      di_aliveMembership := map_put k m (di_aliveMembership d)\<rparr>)"
  using assms secret_endpoint_parts [OF assms(1), of env]
  by (auto simp: parts_def membership_defs map_has_def latest_endpoint_def Let_def cong: option.case_cong)

lemma learn_existing_gone:
  assumes "parts m am mem t e" "map_get (di_id2Member d) (str_of (mb_PkiId mem)) = None"
  shows "learnExistingMembers env now [m] d = None"
  using assms secret_endpoint_parts [OF assms(1), of env]
  by (auto simp: parts_def Let_def)

text \<open>Every section keeps the invariant.\<close>

lemma disc_okI:
  assumes "table_ok (di_aliveLastTS d) (di_aliveMembership d)"
    and "table_ok (di_deadLastTS d) (di_deadMembership d)"
    and "map_wf (di_id2Member d)"
    and "\<And>k. map_get (di_aliveLastTS d) k = None \<or> map_get (di_deadLastTS d) k = None"
    and "\<And>k. map_get (di_aliveLastTS d) k \<noteq> None \<or> map_get (di_deadLastTS d) k \<noteq> None \<Longrightarrow>
      k \<noteq> self_key d \<and> map_get (di_id2Member d) k \<noteq> None"
    and "\<And>k p. map_get (di_id2Member d) k = Some p \<Longrightarrow> str_of (p_PKIid p) = k \<and>
      (k = self_key d \<or> map_get (di_aliveLastTS d) k \<noteq> None \<or> map_get (di_deadLastTS d) k \<noteq> None)"
    and "store_ok alive_comparator alive_ok (di_msgStore d)"
    and "mapper_ok (di_idMapper d)"
  shows "disc_ok d"
  using assms unfolding disc_ok_def by blast

lemma disc_okD:
  assumes "disc_ok d"
  shows "table_ok (di_aliveLastTS d) (di_aliveMembership d)"
    and "table_ok (di_deadLastTS d) (di_deadMembership d)"
    and "map_wf (di_id2Member d)"
    and "store_ok alive_comparator alive_ok (di_msgStore d)"
    and "mapper_ok (di_idMapper d)"
  using assms by (simp_all only: disc_ok_def)

lemma disc_ok_disjoint:
  assumes "disc_ok d"
  shows "map_get (di_aliveLastTS d) k = None \<or> map_get (di_deadLastTS d) k = None"
  using assms unfolding disc_ok_def by metis

lemma disc_ok_listed:
  assumes "disc_ok d" "map_get (di_aliveLastTS d) k \<noteq> None \<or> map_get (di_deadLastTS d) k \<noteq> None"
  shows "k \<noteq> self_key d \<and> map_get (di_id2Member d) k \<noteq> None"
  using assms unfolding disc_ok_def by metis

lemma disc_ok_member:
  assumes "disc_ok d" "map_get (di_id2Member d) k = Some p"
  shows "str_of (p_PKIid p) = k \<and>
      (k = self_key d \<or> map_get (di_aliveLastTS d) k \<noteq> None \<or> map_get (di_deadLastTS d) k \<noteq> None)"
  using assms unfolding disc_ok_def by metis

text \<open>The tables after a peer \<open>k\<close> was made alive or dead.\<close>

lemma put_alive_ok:
  assumes ok: "disc_ok d" and m: "stored_ok k m" "stamp_of ts = msg_stamp m" "k \<noteq> self_key d" "str_of (p_PKIid p) = k"
    and dead: "table_ok (di_deadLastTS d') (di_deadMembership d')"
      "map_of (di_deadLastTS d') = (map_of (di_deadLastTS d))(k := None)"
    and d': "di_aliveLastTS d' = map_put k ts (di_aliveLastTS d)" "di_id2Member d' = map_put k p (di_id2Member d)"
      "di_aliveMembership d' = map_put k m (di_aliveMembership d)"
      "di_self d' = di_self d" "di_msgStore d' = di_msgStore d" "di_idMapper d' = di_idMapper d"
  shows "disc_ok d'"
proof (rule disc_okI)
  note d = disc_okD [OF ok] and disj = disc_ok_disjoint [OF ok] and listed = disc_ok_listed [OF ok]
    and member = disc_ok_member [OF ok]
  have self: "self_key d' = self_key d" by (simp add: self_key_def d')
  show "table_ok (di_aliveLastTS d') (di_aliveMembership d')" using d(1) m(1,2) by (simp add: table_put d')
  show "map_get (di_aliveLastTS d') k' = None \<or> map_get (di_deadLastTS d') k' = None" for k'
    using disj [of k'] dead(2) by (simp add: d')
  show "k' \<noteq> self_key d' \<and> map_get (di_id2Member d') k' \<noteq> None"
    if "map_get (di_aliveLastTS d') k' \<noteq> None \<or> map_get (di_deadLastTS d') k' \<noteq> None" for k'
    using listed [of k'] that m(3) dead(2) unfolding self by (auto simp: d' split: if_splits)
  show "str_of (p_PKIid q) = k' \<and>
      (k' = self_key d' \<or> map_get (di_aliveLastTS d') k' \<noteq> None \<or> map_get (di_deadLastTS d') k' \<noteq> None)"
    if "map_get (di_id2Member d') k' = Some q" for k' q
    using member [of k' q] that m(4) dead(2) unfolding self by (auto simp: d' split: if_splits)
  show "table_ok (di_deadLastTS d') (di_deadMembership d')" by (rule dead(1))
  show "map_wf (di_id2Member d')" "store_ok alive_comparator alive_ok (di_msgStore d')" "mapper_ok (di_idMapper d')"
    using d by (simp_all add: d')
qed

lemma put_dead_ok:
  assumes ok: "disc_ok d" and m: "stored_ok k m" "stamp_of ts = msg_stamp m" "k \<noteq> self_key d" "str_of (p_PKIid p) = k"
    and alive: "map_get (di_aliveLastTS d) k = None"
    and d': "di_deadLastTS d' = map_put k ts (di_deadLastTS d)" "di_id2Member d' = map_put k p (di_id2Member d)"
      "di_deadMembership d' = map_put k m (di_deadMembership d)"
      "di_aliveLastTS d' = di_aliveLastTS d" "di_aliveMembership d' = di_aliveMembership d"
      "di_self d' = di_self d" "di_msgStore d' = di_msgStore d" "di_idMapper d' = di_idMapper d"
  shows "disc_ok d'"
proof (rule disc_okI)
  note d = disc_okD [OF ok] and disj = disc_ok_disjoint [OF ok] and listed = disc_ok_listed [OF ok]
    and member = disc_ok_member [OF ok]
  have self: "self_key d' = self_key d" by (simp add: self_key_def d')
  show "table_ok (di_deadLastTS d') (di_deadMembership d')" using d(2) m(1,2) by (simp add: table_put d')
  show "map_get (di_aliveLastTS d') k' = None \<or> map_get (di_deadLastTS d') k' = None" for k'
    using disj [of k'] alive by (simp add: d')
  show "k' \<noteq> self_key d' \<and> map_get (di_id2Member d') k' \<noteq> None"
    if "map_get (di_aliveLastTS d') k' \<noteq> None \<or> map_get (di_deadLastTS d') k' \<noteq> None" for k'
    using listed [of k'] that m(3) unfolding self by (auto simp: d' split: if_splits)
  show "str_of (p_PKIid q) = k' \<and>
      (k' = self_key d' \<or> map_get (di_aliveLastTS d') k' \<noteq> None \<or> map_get (di_deadLastTS d') k' \<noteq> None)"
    if "map_get (di_id2Member d') k' = Some q" for k' q
    using member [of k' q] that m(4) unfolding self by (auto simp: d' split: if_splits)
  show "table_ok (di_aliveLastTS d') (di_aliveMembership d')" "map_wf (di_id2Member d')"
    "store_ok alive_comparator alive_ok (di_msgStore d')" "mapper_ok (di_idMapper d')"
    using d by (simp_all add: d')
qed

lemma put_self_ok:
  assumes ok: "disc_ok d" and "str_of (p_PKIid p) = self_key d"
  shows "disc_ok (d\<lparr>di_id2Member := map_put (self_key d) p (di_id2Member d)\<rparr>)"
proof (rule disc_okI)
  note d = disc_okD [OF ok] and disj = disc_ok_disjoint [OF ok] and listed = disc_ok_listed [OF ok]
    and member = disc_ok_member [OF ok]
  let ?d = "d\<lparr>di_id2Member := map_put (self_key d) p (di_id2Member d)\<rparr>"
  have self: "self_key ?d = self_key d" by (simp add: self_key_def)
  show "k' \<noteq> self_key ?d \<and> map_get (di_id2Member ?d) k' \<noteq> None"
    if "map_get (di_aliveLastTS ?d) k' \<noteq> None \<or> map_get (di_deadLastTS ?d) k' \<noteq> None" for k'
    using listed [of k'] that unfolding self by auto
  show "str_of (p_PKIid q) = k' \<and>
      (k' = self_key ?d \<or> map_get (di_aliveLastTS ?d) k' \<noteq> None \<or> map_get (di_deadLastTS ?d) k' \<noteq> None)"
    if "map_get (di_id2Member ?d) k' = Some q" for k' q
    using member [of k' q] that assms(2) unfolding self by (auto split: if_splits)
qed (use disc_okD [OF ok] disc_ok_disjoint [OF ok] in simp_all)

section \<open>Alive messages\<close>

text \<open>What the sections leave alone.\<close>

definition same_rest :: "disc \<Rightarrow> disc \<Rightarrow> bool" where
  "same_rest d d' \<longleftrightarrow> di_self d' = di_self d \<and> di_msgStore d' = di_msgStore d \<and> di_stopping d' = di_stopping d \<and>
     di_out d' = di_out d \<and> di_toDieFlag d' = di_toDieFlag d \<and> di_selfAliveMessage d' = di_selfAliveMessage d"

lemma same_rest_refl [simp]: "same_rest d d"
  by (simp add: same_rest_def)

lemma same_rest_trans: "same_rest a b \<Longrightarrow> same_rest b c \<Longrightarrow> same_rest a c"
  by (simp add: same_rest_def)

text \<open>What a call does: it ends in a good state with the given status of the peers.\<close>

definition ends :: "disc \<Rightarrow> (string \<Rightarrow> status option) \<Rightarrow> disc option \<Rightarrow> bool" where
  "ends d s r \<longleftrightarrow> (\<exists>d'. r = Some d' \<and> disc_ok d' \<and> status_of d' = s \<and> same_rest d d')"

lemma endsI: "disc_ok d' \<Longrightarrow> status_of d' = s \<Longrightarrow> same_rest d d' \<Longrightarrow> ends d s (Some d')"
  by (simp add: ends_def)

lemma status_ofI:
  assumes "map_of (di_aliveLastTS d') = (map_of (di_aliveLastTS d))(k \<mapsto> ts)"
    and "map_of (di_deadLastTS d') = (map_of (di_deadLastTS d))(k := None)"
  shows "status_of d' = (status_of d)(k \<mapsto> Alive (stamp_of ts))"
  unfolding status_of_def assms by (rule status_in_move)

lemma status_of_deadI:
  assumes "map_of (di_aliveLastTS d') = map_of (di_aliveLastTS d)" "map_get (di_aliveLastTS d) k = None"
    and "map_of (di_deadLastTS d') = (map_of (di_deadLastTS d))(k \<mapsto> ts)"
  shows "status_of d' = (status_of d)(k \<mapsto> Dead (stamp_of ts))"
  unfolding status_of_def assms(1,3) by (rule status_in_dead) (rule assms(2))

lemma status_of_purgeI:
  assumes "map_of (di_aliveLastTS d') = (map_of (di_aliveLastTS d))(k := None)"
    and "map_of (di_deadLastTS d') = (map_of (di_deadLastTS d))(k := None)"
  shows "status_of d' = (status_of d)(k := None)"
  unfolding status_of_def assms by (rule status_in_purge)

text \<open>A peer is made alive: the common end of three sections.\<close>

lemma put_alive_ends:
  assumes ok: "disc_ok d" and p: "parts m am mem t e" "k = str_of (mb_PkiId mem)" "k \<noteq> self_key d" "str_of (p_PKIid p) = k"
    and dead: "table_ok (di_deadLastTS d') (di_deadMembership d')"
      "map_of (di_deadLastTS d') = (map_of (di_deadLastTS d))(k := None)"
    and d': "di_aliveLastTS d' = map_put k (mk_timestamp now t) (di_aliveLastTS d)"
      "di_id2Member d' = map_put k p (di_id2Member d)" "di_aliveMembership d' = map_put k m (di_aliveMembership d)"
      "di_idMapper d' = di_idMapper d" "same_rest d d'"
  shows "ends d ((status_of d)(k \<mapsto> Alive t)) (Some d')"
proof (rule endsI)
  have m: "stored_ok k m" "msg_stamp m = t" using p(1,2) by (auto simp: parts_def)
  show "disc_ok d'"
    by (rule put_alive_ok [OF ok m(1) _ p(3,4) dead d'(1-3)]) (use d' m(2) in \<open>simp_all add: same_rest_def\<close>)
  have "status_of d' = (status_of d)(k \<mapsto> Alive (stamp_of (mk_timestamp now t)))"
    by (rule status_ofI) (use d' dead(2) in simp_all)
  then show "status_of d' = (status_of d)(k \<mapsto> Alive t)" by simp
qed (rule d')

lemma learn_new_alive_ends:
  assumes ok: "disc_ok d" and p: "parts m am mem t e" and k: "str_of (mb_PkiId mem) \<noteq> self_key d"
    and dead: "map_get (di_deadLastTS d) (str_of (mb_PkiId mem)) = None"
  shows "ends d ((status_of d)(str_of (mb_PkiId mem) \<mapsto> Alive t)) (learnNewMembers env now [m] [] d)"
  unfolding learn_new_alive [OF p k]
  using disc_okD(2) [OF ok] dead
  by (intro put_alive_ends [OF ok p refl k, where now = now and p = "new_peer env m mem d"])
     (simp_all add: same_rest_def fun_upd_idem)

lemma resurrect_ends:
  assumes ok: "disc_ok d" and p: "parts m am mem t e" and k: "str_of (mb_PkiId mem) \<noteq> self_key d"
  shows "ends d ((status_of d)(str_of (mb_PkiId mem) \<mapsto> Alive t)) (resurrectMember env now m t d)"
  unfolding resurrect_eq [OF p]
  using table_del [OF disc_okD(2) [OF ok]]
  by (intro put_alive_ends [OF ok p refl k, where now = now and p = "peer_of_member mem (latest_endpoint env m mem d)"])
     (simp_all add: same_rest_def)

lemma learn_existing_ends:
  assumes ok: "disc_ok d" and p: "parts m am mem t e"
    and alive: "map_get (di_aliveLastTS d) (str_of (mb_PkiId mem)) \<noteq> None"
  shows "ends d ((status_of d)(str_of (mb_PkiId mem) \<mapsto> Alive t)) (learnExistingMembers env now [m] d)"
proof -
  let ?k = "str_of (mb_PkiId mem)"
  have dead: "map_get (di_deadLastTS d) ?k = None" using alive disc_ok_disjoint [OF ok, of ?k] by auto
  have k: "?k \<noteq> self_key d" and "map_get (di_id2Member d) ?k \<noteq> None" using disc_ok_listed [OF ok, of ?k] alive by auto
  then obtain old where old: "map_get (di_id2Member d) ?k = Some old" by auto
  have mem: "map_get (di_aliveMembership d) ?k \<noteq> None" using table_dom [OF disc_okD(1) [OF ok]] alive by auto
  let ?p = "old\<lparr>p_Endpoint := mb_Endpoint mem, p_Metadata := mb_Metadata mem, p_InternalEndpoint := latest_endpoint env m mem d\<rparr>"
  show ?thesis
    unfolding learn_existing_eq [OF p refl old alive dead mem]
    using disc_okD(2) [OF ok] dead disc_ok_member [OF ok old]
    by (intro put_alive_ends [OF ok p refl k, where now = now and p = ?p])
       (simp_all add: same_rest_def fun_upd_idem)
qed

lemma alive_of_status:
  "map_get (di_aliveLastTS d) k = Some ts \<Longrightarrow> status_of d k = Some (Alive (stamp_of ts))"
  "map_get (di_aliveLastTS d) k = None \<Longrightarrow> map_get (di_deadLastTS d) k = Some ts \<Longrightarrow>
     status_of d k = Some (Dead (stamp_of ts))"
  by (simp_all add: status_of_def status_in_def)

text \<open>The handler on a valid message, over the parts of the message.\<close>

lemma handleAlive_eq:
  assumes p: "parts m am mem t e" and v: "ValidateAliveMsg env now m d0 = (True, d)"
  shows "handleAliveMessage env now m d0 =
     (if str_of (mb_PkiId mem) = self_key d then Some d
      else if \<not> map_has (di_id2Member d) (str_of (mb_PkiId mem)) then learnNewMembers env now [m] [] d
      else (let isAlive = map_has (di_aliveLastTS d) (str_of (mb_PkiId mem)); isDead = map_has (di_deadLastTS d) (str_of (mb_PkiId mem)) in
        if \<not> isAlive \<and> \<not> isDead then Some d
        else if isAlive \<and> isDead then Some d
        else do {
          d1 \<leftarrow> (case map_get (di_deadLastTS d) (str_of (mb_PkiId mem)) of
                   Some lastDeadTS \<Rightarrow>
                     if \<not> before lastDeadTS t then Some None
                     else map_option Some (resurrectMember env now m t d)
                 | None \<Rightarrow> Some (Some d));
          (case d1 of
             None \<Rightarrow> Some d
           | Some d2 \<Rightarrow>
               (case map_get (di_aliveLastTS d2) (str_of (mb_PkiId mem)) of
                  Some lastAliveTS \<Rightarrow>
                    if before lastAliveTS t then learnExistingMembers env now [m] d2 else Some d2
                | None \<Rightarrow> Some d2))
        }))"
proof -
  have "GetAliveMsg (sg_Msg m) = Some am" "am_Membership am = Some mem" "am_Timestamp am = Some t"
    using p by (auto simp: parts_def stored_ok_def)
  then show ?thesis unfolding handleAliveMessage_def v by (simp add: bytes_eq_def self_key_def Let_def)
qed

lemma handleAlive_valid:
  assumes ok: "disc_ok d0" and m: "stamped m" and v: "ValidateAliveMsg env now m d0 = (True, d)"
  shows "ends d (if msg_peer m = self_key d then status_of d
      else abs_alive (msg_peer m) (msg_stamp m) (status_of d)) (handleAliveMessage env now m d0)"
proof -
  obtain am mem t e where p: "parts m am mem t e" using validated_parts [OF v m] by auto
  let ?k = "str_of (mb_PkiId mem)"
  have pm: "msg_peer m = ?k" "msg_stamp m = t" using p by (auto simp: parts_def stored_ok_def)
  have okd: "disc_ok d" using v ok by (cases rule: ValidateAliveMsg_cases) (auto intro: disc_ok_mapper disc_okD(5))
  note step = handleAlive_eq [OF p v]
  have same: "ends d (status_of d) (Some d)" using okd by (intro endsI) auto
  consider (self) "?k = self_key d" | (new) "?k \<noteq> self_key d" "\<not> map_has (di_id2Member d) ?k"
    | (dead) ts where "?k \<noteq> self_key d" "map_get (di_deadLastTS d) ?k = Some ts"
    | (alive) ts where "?k \<noteq> self_key d" "map_get (di_aliveLastTS d) ?k = Some ts"
    using disc_ok_known [OF okd, of ?k] by (auto simp: map_has_def)
  then show ?thesis
  proof cases
    case self
    then show ?thesis using same by (simp add: step pm)
  next
    case new
    then have none: "status_of d ?k = None" using disc_ok_known [OF okd, of ?k] by (simp add: status_None)
    with new have "map_get (di_deadLastTS d) ?k = None" by (simp add: status_None map_has_def)
    from learn_new_alive_ends [OF okd p new(1) this, of env now] new none show ?thesis
      by (simp add: step pm abs_alive_def)
  next
    case (alive ts)
    then have dead: "map_get (di_deadLastTS d) ?k = None" using disc_ok_disjoint [OF okd, of ?k] by auto
    have known: "map_has (di_id2Member d) ?k" using disc_ok_known [OF okd alive(1)] alive(2) by (simp add: map_has_def)
    show ?thesis
      using alive dead known same learn_existing_ends [OF okd p, of env now] alive_of_status(1) [OF alive(2)]
      by (simp add: step pm map_has_def before_iff abs_alive_def Let_def)
  next
    case (dead ts)
    then have alive: "map_get (di_aliveLastTS d) ?k = None" using disc_ok_disjoint [OF okd, of ?k] by auto
    have known: "map_has (di_id2Member d) ?k" using disc_ok_known [OF okd dead(1)] dead(2) by (simp add: map_has_def)
    have st: "status_of d ?k = Some (Dead (stamp_of ts))" using alive_of_status(2) [OF alive dead(2)] .
    show ?thesis
    proof (cases "stamp_of ts < t")
      case False
      then show ?thesis using dead alive known same st by (simp add: step pm map_has_def before_iff abs_alive_def Let_def)
    next
      case True
      have "\<not> before (mk_timestamp now t) t" by (simp add: before_iff)
      with True show ?thesis
        using dead alive known st resurrect_ends [OF okd p dead(1), of env now] resurrect_eq [OF p, of env now d]
        by (simp add: step pm map_has_def before_iff abs_alive_def Let_def)
    qed
  qed
qed

lemma handleAlive_ends:
  assumes ok: "disc_ok d0" and m: "stamped m"
  shows "ends d0 (if fst (ValidateAliveMsg env now m d0) \<and> msg_peer m \<noteq> self_key d0
      then abs_alive (msg_peer m) (msg_stamp m) (status_of d0) else status_of d0) (handleAliveMessage env now m d0)"
proof -
  obtain b d where v: "ValidateAliveMsg env now m d0 = (b, d)" by (rule prod.exhaust)
  then obtain im where im: "d = d0\<lparr>di_idMapper := im\<rparr>" "disc_ok d"
    using ok by (cases rule: ValidateAliveMsg_cases) (auto intro: disc_ok_mapper disc_okD(5))
  then have d: "status_of d = status_of d0" "self_key d = self_key d0" "same_rest d0 d"
    by (simp_all add: self_key_def same_rest_def)
  show ?thesis
  proof (cases b)
    case True
    with handleAlive_valid [OF ok m, of env now d] v d show ?thesis
      by (auto simp: ends_def elim!: same_rest_trans)
  next
    case False
    with v im d show ?thesis by (auto simp: ends_def handleAliveMessage_def)
  qed
qed

section \<open>The abstract machine of peer statuses\<close>

text \<open>What messages do, and what time does.\<close>

inductive abs_learn :: "string \<Rightarrow> (string \<Rightarrow> status option) \<Rightarrow> (string \<Rightarrow> status option) \<Rightarrow> bool" for self where
  abs_hears: "k \<noteq> self \<Longrightarrow> abs_learn self s (abs_alive k t s)"
| abs_told_dead: "k \<noteq> self \<Longrightarrow> abs_learn self s (abs_dead k t s)"

inductive abs_step :: "string \<Rightarrow> (string \<Rightarrow> status option) \<Rightarrow> (string \<Rightarrow> status option) \<Rightarrow> bool" for self where
  abs_learns: "abs_learn self s s' \<Longrightarrow> abs_step self s s'"
| abs_expires: "abs_step self s (abs_expire ks s)"
| abs_purges: "abs_step self s (s(k := None))"

type_synonym abs_rel = "string \<Rightarrow> (string \<Rightarrow> status option) \<Rightarrow> (string \<Rightarrow> status option) \<Rightarrow> bool"

definition trans_ok :: "abs_rel \<Rightarrow> disc \<Rightarrow> disc \<Rightarrow> bool" where
  "trans_ok R d d' \<longleftrightarrow>
     disc_ok d' \<and> (R (self_key d))\<^sup>*\<^sup>* (status_of d) (status_of d') \<and> di_self d' = di_self d"

definition runs :: "abs_rel \<Rightarrow> disc \<Rightarrow> disc option \<Rightarrow> bool" where
  "runs R d r \<longleftrightarrow> (\<exists>d'. r = Some d' \<and> trans_ok R d d')"

lemma trans_ok_trans: "trans_ok R a b \<Longrightarrow> trans_ok R b c \<Longrightarrow> trans_ok R a c"
  by (auto simp: trans_ok_def self_key_def)

lemma trans_ok_same:
  "disc_ok d' \<Longrightarrow> status_of d' = status_of d \<Longrightarrow> di_self d' = di_self d \<Longrightarrow> trans_ok R d d'"
  by (simp add: trans_ok_def)

lemma trans_ok_refl: "disc_ok d \<Longrightarrow> trans_ok R d d"
  by (simp add: trans_ok_same)

lemma trans_ok_learn: "trans_ok abs_learn d d' \<Longrightarrow> trans_ok abs_step d d'"
proof -
  have "(abs_step k)\<^sup>*\<^sup>* s t" if "(abs_learn k)\<^sup>*\<^sup>* s t" for k s t
    using that by (induction rule: rtranclp_induct) (auto intro: abs_learns rtranclp.rtrancl_into_rtrancl)
  then show "trans_ok abs_learn d d' \<Longrightarrow> trans_ok abs_step d d'" by (auto simp: trans_ok_def)
qed

lemma runsI: "trans_ok R d d' \<Longrightarrow> runs R d (Some d')"
  by (simp add: runs_def)

lemma runs_after: "trans_ok R a b \<Longrightarrow> runs R b r \<Longrightarrow> runs R a r"
  by (auto simp: runs_def intro: trans_ok_trans)

lemma runs_bind: "runs R a r \<Longrightarrow> (\<And>b. trans_ok R a b \<Longrightarrow> runs R b (f b)) \<Longrightarrow> runs R a (Option.bind r f)"
  by (auto simp: runs_def) (metis trans_ok_trans)

lemma runsE: "runs R d r \<Longrightarrow> (\<And>d'. r = Some d' \<Longrightarrow> trans_ok R d d' \<Longrightarrow> P) \<Longrightarrow> P"
  by (auto simp: runs_def)

lemma trans_ok_ok: "trans_ok R d d' \<Longrightarrow> disc_ok d'"
  by (simp add: trans_ok_def)

lemma ends_runs:
  "ends d s r \<Longrightarrow> (R (self_key d))\<^sup>*\<^sup>* (status_of d) s \<Longrightarrow> runs R d r"
  by (auto simp: ends_def runs_def trans_ok_def same_rest_def)

lemma handleAlive_runs:
  assumes "disc_ok d" "stamped m"
  shows "runs abs_learn d (handleAliveMessage env now m d)"
  by (rule ends_runs [OF handleAlive_ends [OF assms]]) (auto intro: abs_hears)

lemma foldM_runs:
  assumes "disc_ok d" "\<And>x d. x \<in> set xs \<Longrightarrow> disc_ok d \<Longrightarrow> runs R d (f x d)"
  shows "runs R d (foldM f xs d)"
  using assms
proof (induction xs arbitrary: d)
  case Nil
  then show ?case by (simp add: runsI trans_ok_refl)
next
  case (Cons x xs)
  then show ?case by (auto intro!: runs_bind intro: trans_ok_ok)
qed

section \<open>Messages from the communication layer\<close>

definition decoded_ok :: "codec \<Rightarrow> Envelope option \<Rightarrow> bool" where
  "decoded_ok c eo \<longleftrightarrow>
     (case eo of None \<Rightarrow> False
      | Some e \<Rightarrow> (case ToGossipMessage c e of Inl _ \<Rightarrow> True
                  | Inr s \<Rightarrow> GetAliveMsg (sg_Msg s) \<noteq> None \<longrightarrow> alive_ok s))"

text \<open>
  A received message carries the fields the code reads without a test: the alive messages
  in it have a membership and a time, and no envelope in it is nil.
\<close>

definition recv_ok :: "codec \<Rightarrow> ReceivedMessage option \<Rightarrow> bool" where
  "recv_ok c mo \<longleftrightarrow>
     (case mo of None \<Rightarrow> True
      | Some rm \<Rightarrow>
         (case gm_Content (sg_Msg (rm_msg rm)) of
            Some (AliveMsg _) \<Rightarrow> alive_ok (rm_msg rm)
          | Some (MemReq q) \<Rightarrow> sg_Envelope (rm_msg rm) \<noteq> None \<and>
              (case mq_SelfInformation q of None \<Rightarrow> False
               | Some e \<Rightarrow> (case ToGossipMessage c e of Inl _ \<Rightarrow> True | Inr s \<Rightarrow> alive_ok s))
          | Some (MemRes r) \<Rightarrow> \<forall>eo \<in> set (mr_Alive r) \<union> set (mr_Dead r). decoded_ok c eo
          | _ \<Rightarrow> True))"

lemma comparator_store [simp]: "NewGossipMessageComparator 0 = alive_comparator"
  by (simp add: alive_comparator_def)

lemma CheckValid_runs:
  assumes "disc_ok d" "alive_ok m"
  shows "\<exists>b. aliveMsgStore_CheckValid m d = Some b"
proof -
  have "\<exists>am. GetAliveMsg (sg_Msg m) = Some am" using assms(2) by (auto elim: alive_okE)
  then show ?thesis
    using alive_policy.CheckValid_eq [of 0 "di_msgStore d" m] assms disc_okD(4) [OF assms(1)]
    by (auto simp: aliveMsgStore_CheckValid_def)
qed

lemma Add_runs:
  assumes ok: "disc_ok d" and m: "alive_ok m"
  shows "\<exists>b d'. aliveMsgStore_Add now m d = Some (b, d') \<and> trans_ok abs_learn d d'"
proof -
  have st: "store_ok (NewGossipMessageComparator 0) alive_ok (di_msgStore d)" using disc_okD(4) [OF ok] by simp
  obtain b s trig where add: "MessageStore_Add alive_comparator now m (di_msgStore d) = Some (b, s, trig)"
    using alive_policy.Add_total [OF st m, of now] by auto
  have "store_ok alive_comparator alive_ok s"
    using alive_policy.Add_store_ok [OF st m, of now b s trig] add by simp
  then have "trans_ok abs_learn d (d\<lparr>di_msgStore := s\<rparr>)" using ok by (intro trans_ok_same disc_ok_store) auto
  moreover have "\<exists>am. GetAliveMsg (sg_Msg m) = Some am" using m by (auto elim: alive_okE)
  ultimately show ?thesis using add by (auto simp: aliveMsgStore_Add_def)
qed

lemma Validate_runs:
  assumes "disc_ok d" "ValidateAliveMsg env now m d = (b, d')"
  shows "trans_ok R d d'"
  using assms(2,1)
  by (cases rule: ValidateAliveMsg_cases) (auto intro!: trans_ok_same intro: disc_ok_mapper disc_okD(5))

lemma mem_alive_runs:
  assumes "disc_ok d" "\<forall>eo\<in>set es. decoded_ok (de_codec env) eo"
  shows "\<exists>b d'. handle_mem_alive env now es d = Some (b, d') \<and> trans_ok abs_learn d d'"
  using assms
proof (induction es arbitrary: d)
  case (Cons eo es)
  from Cons.prems(2) obtain e where e: "eo = Some e" by (auto simp: decoded_ok_def split: option.splits)
  show ?case
  proof (cases "ToGossipMessage (de_codec env) e")
    case (Inl err)
    with e Cons.prems(1) show ?thesis by (auto intro: trans_ok_refl)
  next
    case (Inr am)
    show ?thesis
    proof (cases "GetAliveMsg (sg_Msg am) = None")
      case True
      with Inr e Cons.prems(1) show ?thesis by (auto intro: trans_ok_refl)
    next
      case False
      with Inr e Cons.prems(2) have am: "alive_ok am" by (auto simp: decoded_ok_def)
      obtain b where b: "aliveMsgStore_CheckValid am d = Some b" using CheckValid_runs [OF Cons.prems(1) am] by auto
      have "runs abs_learn d (if b then handleAliveMessage env now am d else Some d)"
        using handleAlive_runs [OF Cons.prems(1) alive_ok_stamped [OF am]] Cons.prems(1)
        by (auto intro: runsI trans_ok_refl)
      then obtain d1 where d1: "(if b then handleAliveMessage env now am d else Some d) = Some d1" "trans_ok abs_learn d d1"
        by (auto elim: runsE)
      from Cons.IH [OF trans_ok_ok [OF d1(2)]] Cons.prems(2) obtain b2 d2 where
        "handle_mem_alive env now es d1 = Some (b2, d2)" "trans_ok abs_learn d1 d2" by auto
      with d1 b e Inr False show ?thesis by (auto intro: trans_ok_trans)
    qed
  qed
qed (auto intro: trans_ok_refl)

lemma learn_dead_runs:
  assumes ok: "disc_ok d" and p: "parts m am mem t e" and new: "map_get (di_id2Member d) (str_of (mb_PkiId mem)) = None"
  shows "runs abs_learn d (learnNewMembers env now [] [m] d)"
proof -
  let ?k = "str_of (mb_PkiId mem)"
  have m: "stored_ok ?k m" "msg_stamp m = t" using p by (auto simp: parts_def)
  show ?thesis
  proof (cases "?k = self_key d")
    case True
    have "disc_ok (d\<lparr>di_id2Member := map_put (self_key d) (new_peer env m mem d) (di_id2Member d)\<rparr>)"
      using True by (intro put_self_ok [OF ok]) simp
    then show ?thesis
      unfolding learn_new_dead_self [OF p True] by (intro runsI trans_ok_same) (simp_all add: status_of_def)
  next
    case False
    have none: "map_get (di_aliveLastTS d) ?k = None" "map_get (di_deadLastTS d) ?k = None"
      using disc_ok_known [OF ok False] new by (auto simp: map_has_def)
    let ?d = "d\<lparr>di_deadLastTS := map_put ?k (mk_timestamp now t) (di_deadLastTS d),
      di_deadMembership := map_put ?k m (di_deadMembership d),
      di_id2Member := map_put ?k (new_peer env m mem d) (di_id2Member d)\<rparr>"
    have "disc_ok ?d"
      by (rule put_dead_ok [OF ok m(1) _ False _ none(1), where ts = "mk_timestamp now t" and p = "new_peer env m mem d"])
         (simp_all add: m(2))
    moreover have "status_of ?d = abs_dead ?k t (status_of d)"
    proof -
      have "status_of ?d = (status_of d)(?k \<mapsto> Dead (stamp_of (mk_timestamp now t)))"
        by (rule status_of_deadI) (simp_all add: none)
      moreover have "status_of d ?k = None" using none by (simp add: status_None map_has_def)
      ultimately show ?thesis by (simp add: abs_dead_def)
    qed
    ultimately show ?thesis
      unfolding learn_new_dead [OF p False] using abs_told_dead [OF False]
      by (intro runsI) (auto simp: trans_ok_def)
  qed
qed

lemma mem_dead_runs:
  assumes "disc_ok d" "\<forall>eo\<in>set es. decoded_ok (de_codec env) eo"
  shows "runs abs_learn d (handle_mem_dead env now es d)"
  using assms
proof (induction es arbitrary: d)
  case (Cons eo es)
  from Cons.prems(2) obtain e where e: "eo = Some e" by (auto simp: decoded_ok_def split: option.splits)
  show ?case
  proof (cases "ToGossipMessage (de_codec env) e")
    case (Inl err)
    with e Cons.prems(1) show ?thesis by (auto intro: runsI trans_ok_refl)
  next
    case (Inr dm)
    obtain v d1 where v: "ValidateAliveMsg env now dm d = (v, d1)" by (rule prod.exhaust)
    have d1: "trans_ok abs_learn d d1" by (rule Validate_runs [OF Cons.prems(1) v])
    note ok1 = trans_ok_ok [OF d1]
    show ?thesis
    proof (cases v)
      case False
      with Cons.IH [OF ok1] Cons.prems(2) v e Inr d1 show ?thesis by (auto intro: runs_after)
    next
      case True
      have "GetAliveMsg (sg_Msg dm) \<noteq> None" using v True by (cases rule: ValidateAliveMsg_cases) auto
      with Inr e Cons.prems(2) have dm: "alive_ok dm" by (auto simp: decoded_ok_def)
      obtain am mem t e' where p: "parts dm am mem t e'"
        using validated_parts [OF v [unfolded eqTrueI [OF True]] alive_ok_stamped [OF dm]] by blast
      then have pm: "GetAliveMsg (sg_Msg dm) = Some am" "am_Membership am = Some mem" by (auto simp: parts_def)
      obtain b where b: "aliveMsgStore_CheckValid dm d1 = Some b" using CheckValid_runs [OF ok1 dm] by auto
      let ?new = "if map_has (di_id2Member d1) (str_of (mb_PkiId mem)) then [] else [dm]"
      have "runs abs_learn d1 (learnNewMembers env now [] ?new d1)"
        using learn_dead_runs [OF ok1 p, of env now] ok1 by (auto simp: map_has_def intro: runsI trans_ok_refl)
      then obtain d2 where d2: "learnNewMembers env now [] ?new d1 = Some d2" "trans_ok abs_learn d1 d2" by (auto elim: runsE)
      show ?thesis
      proof (cases b)
        case True
        have "handle_mem_dead env now (eo # es) d = handle_mem_dead env now es d2"
          using e Inr v \<open>v\<close> b True pm d2(1) by simp
        moreover have "runs abs_learn d2 (handle_mem_dead env now es d2)"
          using Cons.IH [OF trans_ok_ok [OF d2(2)]] Cons.prems(2) by auto
        ultimately show ?thesis using runs_after [OF d1 runs_after [OF d2(2)]] by simp
      next
        case False
        with e Inr v \<open>v\<close> b d1 show ?thesis by (auto intro: runsI)
      qed
    qed
  qed
qed (auto intro: runsI trans_ok_refl)

lemma trans_ok_out: "trans_ok R d d' \<Longrightarrow> trans_ok R d (out a d')"
  by (auto simp: trans_ok_def)

lemma trans_ok_out': "disc_ok d \<Longrightarrow> trans_ok R d (out a d)"
  by (intro trans_ok_out trans_ok_refl)

lemma handle_request_runs:
  assumes ok: "disc_ok d" and q: "GetMemReq (sg_Msg (rm_msg rm)) = Some q" and r: "recv_ok (de_codec env) (Some rm)"
  shows "runs abs_learn d (handleMsgFromComm env now (Some rm) d)"
proof -
  have c: "gm_Content (sg_Msg (rm_msg rm)) = Some (MemReq q)" using q by (simp add: getter_Some_iff)
  with r obtain e where e: "mq_SelfInformation q = Some e" "sg_Envelope (rm_msg rm) \<noteq> None"
    "case ToGossipMessage (de_codec env) e of Inl _ \<Rightarrow> True | Inr s \<Rightarrow> alive_ok s"
    by (auto simp: recv_ok_def split: option.splits)
  show ?thesis
  proof (cases "ToGossipMessage (de_codec env) e")
    case (Inl err)
    with ok q e show ?thesis by (auto simp: handleMsgFromComm_def intro: runsI trans_ok_refl)
  next
    case (Inr s)
    with e have s: "alive_ok s" by simp
    then obtain am where am: "GetAliveMsg (sg_Msg s) = Some am" by (auto elim: alive_okE)
    obtain b where b: "aliveMsgStore_CheckValid s d = Some b" using CheckValid_runs [OF ok s] by auto
    have "runs abs_learn d (if b then handleAliveMessage env now s d else Some d)"
      using handleAlive_runs [OF ok alive_ok_stamped [OF s]] ok by (auto intro: runsI trans_ok_refl)
    then obtain d1 where d1: "(if b then handleAliveMessage env now s d else Some d) = Some d1" "trans_ok abs_learn d d1"
      by (auto elim: runsE)
    obtain x where "secret_endpoint env (rm_msg rm) = Some x" using e(2) by (auto simp: secret_endpoint_def)
    with q e Inr b d1 am show ?thesis
      by (auto simp: handleMsgFromComm_def Let_def intro: runsI trans_ok_out)
  qed
qed

lemma handle_alive_runs:
  assumes ok: "disc_ok d" and a: "GetAliveMsg (sg_Msg (rm_msg rm)) = Some a" and r: "recv_ok (de_codec env) (Some rm)"
  shows "runs abs_learn d (handleMsgFromComm env now (Some rm) d)"
proof -
  have c: "gm_Content (sg_Msg (rm_msg rm)) = Some (AliveMsg a)" using a by (simp add: getter_Some_iff)
  then have q: "GetMemReq (sg_Msg (rm_msg rm)) = None" by (simp add: getter_defs)
  from r c have m: "alive_ok (rm_msg rm)" by (simp add: recv_ok_def)
  obtain b d1 where d1: "aliveMsgStore_Add now (rm_msg rm) d = Some (b, d1)" "trans_ok abs_learn d d1"
    using Add_runs [OF ok m] by blast
  have "runs abs_learn d1 (handleAliveMessage env now (rm_msg rm) d1)"
    using handleAlive_runs [OF trans_ok_ok [OF d1(2)] alive_ok_stamped [OF m]] .
  then obtain d2 where d2: "handleAliveMessage env now (rm_msg rm) d1 = Some d2" "trans_ok abs_learn d1 d2" by (auto elim: runsE)
  show ?thesis
    using a q d1(1) d2(1) trans_ok_trans [OF d1(2) d2(2)] d1(2)
    by (auto simp: handleMsgFromComm_def Let_def intro: runsI trans_ok_out)
qed

lemma handle_response_runs:
  assumes ok: "disc_ok d" and a: "GetMemRes (sg_Msg (rm_msg rm)) = Some res" and r: "recv_ok (de_codec env) (Some rm)"
  shows "runs abs_learn d (handleMsgFromComm env now (Some rm) d)"
proof -
  have c: "gm_Content (sg_Msg (rm_msg rm)) = Some (MemRes res)" using a by (simp add: getter_Some_iff)
  then have q: "GetMemReq (sg_Msg (rm_msg rm)) = None" "GetAliveMsg (sg_Msg (rm_msg rm)) = None"
    by (simp_all add: getter_defs)
  from r c have es: "\<forall>eo\<in>set (mr_Alive res). decoded_ok (de_codec env) eo" "\<forall>eo\<in>set (mr_Dead res). decoded_ok (de_codec env) eo"
    by (auto simp: recv_ok_def)
  let ?n = "gm_Nonce (sg_Msg (rm_msg rm))"
  let ?d = "out (OutPublish (fmt_u64 ?n) ?n) d"
  have ok1: "disc_ok ?d" using ok by simp
  from mem_alive_runs [OF ok1 es(1)] obtain b d1 where d1: "handle_mem_alive env now (mr_Alive res) ?d = Some (b, d1)" "trans_ok abs_learn ?d d1"
    by blast
  have d: "trans_ok abs_learn d d1" using trans_ok_trans [OF trans_ok_out' [OF ok] d1(2)] .
  have "handleMsgFromComm env now (Some rm) d = (if b then handle_mem_dead env now (mr_Dead res) d1 else Some d1)"
    using a q d1(1) by (simp add: handleMsgFromComm_def Let_def)
  moreover have "runs abs_learn d1 (handle_mem_dead env now (mr_Dead res) d1)" by (rule mem_dead_runs [OF trans_ok_ok [OF d] es(2)])
  ultimately show ?thesis using d by (auto intro: runsI runs_after)
qed

lemma handleMsg_runs:
  assumes ok: "disc_ok d" and r: "recv_ok (de_codec env) mo"
  shows "runs abs_learn d (handleMsgFromComm env now mo d)"
proof (cases mo)
  case None
  with ok show ?thesis by (simp add: handleMsgFromComm_def runsI trans_ok_refl)
next
  case (Some rm)
  let ?g = "sg_Msg (rm_msg rm)"
  consider a where "GetAliveMsg ?g = Some a" | q where "GetMemReq ?g = Some q" | res where "GetMemRes ?g = Some res"
    | "GetAliveMsg ?g = None" "GetMemReq ?g = None" "GetMemRes ?g = None" by auto
  then show ?thesis
  proof cases
    case 1 with ok r Some handle_alive_runs show ?thesis by blast
  next
    case 2 with ok r Some handle_request_runs show ?thesis by blast
  next
    case 3 with ok r Some handle_response_runs show ?thesis by blast
  next
    case 4
    with ok Some show ?thesis by (simp add: handleMsgFromComm_def Let_def runsI trans_ok_refl)
  qed
qed

section \<open>Expiration\<close>

text \<open>The loop moves each listed alive peer to the dead.\<close>

text \<open>A peer whose entry moves from the tables of the living to those of the dead.\<close>

lemma expire_entry:
  assumes ok: "disc_ok d" and alive: "map_get (di_aliveLastTS d) k = Some ts" and m: "stored_ok k m" "stamp_of ts = msg_stamp m"
  defines "d1 \<equiv> d\<lparr>di_deadLastTS := map_put k ts (di_deadLastTS d), di_aliveLastTS := map_del k (di_aliveLastTS d),
      di_deadMembership := map_put k m (di_deadMembership d), di_aliveMembership := map_del k (di_aliveMembership d)\<rparr>"
  shows "disc_ok d1" and "status_of d1 = abs_expire {k} (status_of d)"
proof -
  have dead: "map_get (di_deadLastTS d) k = None" using disc_ok_disjoint [OF ok, of k] alive by simp
  show "disc_ok d1"
    unfolding d1_def
  proof (rule disc_okI)
    let ?d = "d\<lparr>di_deadLastTS := map_put k ts (di_deadLastTS d), di_aliveLastTS := map_del k (di_aliveLastTS d),
      di_deadMembership := map_put k m (di_deadMembership d), di_aliveMembership := map_del k (di_aliveMembership d)\<rparr>"
    have self: "self_key ?d = self_key d" by (simp add: self_key_def)
    show "table_ok (di_aliveLastTS ?d) (di_aliveMembership ?d)" using table_del [OF disc_okD(1) [OF ok]] by simp
    show "table_ok (di_deadLastTS ?d) (di_deadMembership ?d)" using table_put [OF disc_okD(2) [OF ok] m] by simp
    show "map_get (di_aliveLastTS ?d) k' = None \<or> map_get (di_deadLastTS ?d) k' = None" for k'
      using disc_ok_disjoint [OF ok, of k'] by simp
    show "k' \<noteq> self_key ?d \<and> map_get (di_id2Member ?d) k' \<noteq> None"
      if "map_get (di_aliveLastTS ?d) k' \<noteq> None \<or> map_get (di_deadLastTS ?d) k' \<noteq> None" for k'
      using disc_ok_listed [OF ok, of k'] that alive unfolding self by (auto split: if_splits)
    show "str_of (p_PKIid q) = k' \<and>
        (k' = self_key ?d \<or> map_get (di_aliveLastTS ?d) k' \<noteq> None \<or> map_get (di_deadLastTS ?d) k' \<noteq> None)"
      if "map_get (di_id2Member ?d) k' = Some q" for k' q
      using disc_ok_member [OF ok, of k' q] that unfolding self by (auto split: if_splits)
  qed (use disc_okD [OF ok] in simp_all)
  show "status_of d1 = abs_expire {k} (status_of d)"
    using alive dead
    by (auto simp: d1_def abs_expire_def status_of_def status_in_def fun_eq_iff split: option.splits status.splits)
qed

lemma expire_one_ok:
  assumes ok: "disc_ok d"
  shows "disc_ok (fst (expire_one pkiID (d, cs)))"
    and "status_of (fst (expire_one pkiID (d, cs))) = abs_expire {str_of pkiID} (status_of d)"
    and "di_self (fst (expire_one pkiID (d, cs))) = di_self d"
    and "di_id2Member (fst (expire_one pkiID (d, cs))) = di_id2Member d"
    and "snd (expire_one pkiID (d, cs)) = cs @
      (if map_has (di_aliveLastTS d) (str_of pkiID) then [map_get (di_id2Member d) (str_of pkiID)] else [])"
proof -
  let ?k = "str_of pkiID"
  have "disc_ok (fst (expire_one pkiID (d, cs))) \<and>
    status_of (fst (expire_one pkiID (d, cs))) = abs_expire {?k} (status_of d) \<and>
    di_self (fst (expire_one pkiID (d, cs))) = di_self d \<and>
    di_id2Member (fst (expire_one pkiID (d, cs))) = di_id2Member d \<and>
    snd (expire_one pkiID (d, cs)) = cs @ (if map_has (di_aliveLastTS d) ?k then [map_get (di_id2Member d) ?k] else [])"
  proof (cases "map_get (di_aliveLastTS d) ?k")
    case None
    then have "abs_expire {?k} (status_of d) = status_of d"
      by (auto simp: abs_expire_def status_of_def status_in_def fun_eq_iff split: option.splits status.splits)
    with None ok show ?thesis by (simp add: expire_one_def map_has_def)
  next
    case (Some ts)
    obtain m where m: "map_get (di_aliveMembership d) ?k = Some m" "stored_ok ?k m" "stamp_of ts = msg_stamp m"
      using table_entry [OF disc_okD(1) [OF ok] Some] .
    let ?d = "d\<lparr>di_deadLastTS := map_put ?k ts (di_deadLastTS d), di_aliveLastTS := map_del ?k (di_aliveLastTS d),
      di_deadMembership := map_put ?k m (di_deadMembership d), di_aliveMembership := map_del ?k (di_aliveMembership d)\<rparr>"
    have e: "expire_one pkiID (d, cs) = (?d, cs @ [map_get (di_id2Member d) ?k])"
      using Some m(1) by (simp add: expire_one_def membership_defs Let_def)
    from expire_entry [OF ok Some m(2,3)] show ?thesis using Some by (simp add: e map_has_def)
  qed
  then show "disc_ok (fst (expire_one pkiID (d, cs)))"
    and "status_of (fst (expire_one pkiID (d, cs))) = abs_expire {?k} (status_of d)"
    and "di_self (fst (expire_one pkiID (d, cs))) = di_self d"
    and "di_id2Member (fst (expire_one pkiID (d, cs))) = di_id2Member d"
    and "snd (expire_one pkiID (d, cs)) = cs @
      (if map_has (di_aliveLastTS d) ?k then [map_get (di_id2Member d) ?k] else [])"
    by blast+
qed

lemma abs_expire_comp: "abs_expire B (abs_expire A s) = abs_expire (A \<union> B) s"
  by (auto simp: abs_expire_def fun_eq_iff split: option.splits status.splits)

lemma expire_fold_ok:
  "disc_ok d \<Longrightarrow> \<forall>c\<in>set cs. c \<noteq> None \<Longrightarrow>
   (case fold expire_one dead (d, cs) of (d', cs') \<Rightarrow>
      disc_ok d' \<and> status_of d' = abs_expire (str_of ` set dead) (status_of d) \<and> di_self d' = di_self d \<and>
      (\<forall>c\<in>set cs'. c \<noteq> None))"
proof (induction dead arbitrary: d cs)
  case Nil
  have "abs_expire {} s = s" for s by (auto simp: abs_expire_def fun_eq_iff split: option.splits status.splits)
  with Nil show ?case by simp
next
  case (Cons p dead)
  obtain d1 cs1 where e: "expire_one p (d, cs) = (d1, cs1)" by (rule prod.exhaust)
  note one = expire_one_ok [OF Cons.prems(1), of p cs, unfolded e fst_conv snd_conv]
  have "map_has (di_aliveLastTS d) (str_of p) \<longrightarrow> map_get (di_id2Member d) (str_of p) \<noteq> None"
    using disc_ok_listed [OF Cons.prems(1), of "str_of p"] by (auto simp: map_has_def)
  then have "\<forall>c\<in>set cs1. c \<noteq> None" using Cons.prems(2) by (auto simp: one(5))
  from Cons.IH [OF one(1) this] show ?case
    by (simp add: e one abs_expire_comp split: prod.splits)
qed

lemma close_members_runs:
  "disc_ok d \<Longrightarrow> \<forall>c\<in>set cs. c \<noteq> None \<Longrightarrow>
   \<exists>d'. foldM close_member cs d = Some d' \<and> disc_ok d' \<and> status_of d' = status_of d \<and> di_self d' = di_self d"
proof (induction cs arbitrary: d)
  case (Cons c cs)
  then obtain p where p: "c = Some p" by auto
  from Cons.IH [of "out (OutCloseConn \<lparr>rp_Endpoint = [], rp_PKIID = p_PKIid p\<rparr>) d"] Cons.prems p show ?case
    by (auto simp: close_member_def)
qed simp

lemma expire_result:
  assumes "disc_ok d"
  shows "\<exists>d'. expireDeadMembers dead d = Some d' \<and> disc_ok d' \<and> di_self d' = di_self d \<and>
    status_of d' = abs_expire (str_of ` set dead) (status_of d)"
proof -
  obtain d1 cs where f: "fold expire_one dead (d, []) = (d1, cs)" by (rule prod.exhaust)
  with expire_fold_ok [OF assms, of "[]" dead] have d1: "disc_ok d1" "\<forall>c\<in>set cs. c \<noteq> None" "di_self d1 = di_self d"
    "status_of d1 = abs_expire (str_of ` set dead) (status_of d)" by auto
  from close_members_runs [OF d1(1,2)] d1(3,4) f show ?thesis by (auto simp: expireDeadMembers_def)
qed

lemma expire_runs: "disc_ok d \<Longrightarrow> runs abs_step d (expireDeadMembers dead d)"
  using expire_result [of d dead] abs_expires [of "self_key d"] by (fastforce simp: runs_def trans_ok_def)

section \<open>Purging\<close>

lemma callback_runs:
  assumes ok: "disc_ok d" and m: "alive_ok m"
  shows "runs abs_step d (expire_callback m d)"
proof -
  obtain a mem t where p: "GetAliveMsg (sg_Msg m) = Some a" "am_Membership a = Some mem"
    using m by (auto elim: alive_okE)
  let ?k = "str_of (mb_PkiId mem)"
  let ?d = "d\<lparr>di_aliveMembership := map_del ?k (di_aliveMembership d), di_deadMembership := map_del ?k (di_deadMembership d),
     di_id2Member := map_del ?k (di_id2Member d), di_deadLastTS := map_del ?k (di_deadLastTS d),
     di_aliveLastTS := map_del ?k (di_aliveLastTS d)\<rparr>"
  have e: "expire_callback m d = Some ?d" using p by (simp add: expire_callback_def membership_defs Let_def)
  have "disc_ok ?d"
  proof (rule disc_okI)
    have self: "self_key ?d = self_key d" by (simp add: self_key_def)
    show "table_ok (di_aliveLastTS ?d) (di_aliveMembership ?d)" using table_del [OF disc_okD(1) [OF ok]] by simp
    show "table_ok (di_deadLastTS ?d) (di_deadMembership ?d)" using table_del [OF disc_okD(2) [OF ok]] by simp
    show "map_get (di_aliveLastTS ?d) k' = None \<or> map_get (di_deadLastTS ?d) k' = None" for k'
      using disc_ok_disjoint [OF ok, of k'] by simp
    show "k' \<noteq> self_key ?d \<and> map_get (di_id2Member ?d) k' \<noteq> None"
      if "map_get (di_aliveLastTS ?d) k' \<noteq> None \<or> map_get (di_deadLastTS ?d) k' \<noteq> None" for k'
      using disc_ok_listed [OF ok, of k'] that unfolding self by (auto split: if_splits)
    show "str_of (p_PKIid q) = k' \<and>
        (k' = self_key ?d \<or> map_get (di_aliveLastTS ?d) k' \<noteq> None \<or> map_get (di_deadLastTS ?d) k' \<noteq> None)"
      if "map_get (di_id2Member ?d) k' = Some q" for k' q
      using disc_ok_member [OF ok, of k' q] that unfolding self by (auto split: if_splits)
  qed (use disc_okD [OF ok] in simp_all)
  moreover have "status_of ?d = (status_of d)(?k := None)" by (rule status_of_purgeI) simp_all
  ultimately show ?thesis using abs_purges [of "self_key d" "status_of d" ?k] unfolding e
    by (intro runsI) (auto simp: trans_ok_def)
qed

lemma tick_runs:
  assumes ok: "disc_ok d"
  shows "runs abs_step d (disc_expirationTick now d)"
proof -
  obtain s calls where t: "expirationTick now (di_msgStore d) = (s, calls)" by (rule prod.exhaust)
  have "store_ok alive_comparator alive_ok s" using tick_store_ok [OF disc_okD(4) [OF ok], of now] t by simp
  then have d1: "trans_ok abs_step d (d\<lparr>di_msgStore := s\<rparr>)" using ok by (intro trans_ok_same disc_ok_store) auto
  have "alive_ok m" if "m \<in> set calls" for m
  proof -
    have "m \<in> set (datas (di_msgStore d))"
      using that t by (auto simp: expirationTick_eq expireMessages_eq datas_def Let_def split: if_splits)
    then show ?thesis using disc_okD(4) [OF ok] by (simp add: store_ok_def)
  qed
  then have "runs abs_step (d\<lparr>di_msgStore := s\<rparr>) (foldM expire_callback calls (d\<lparr>di_msgStore := s\<rparr>))"
    by (intro foldM_runs trans_ok_ok [OF d1] callback_runs)
  then show ?thesis using runs_after [OF d1] by (simp add: disc_expirationTick_def t)
qed

end
