(* ===== verification/DiscoveryProps.thy ===== *)
theory DiscoveryProps
  imports DiscoveryInv
begin

text \<open>
  The rest of discovery's operations under the invariant (queries, signing, sending, the answer
  to a membership request), the component as a machine over all its operations, and the
  properties of the component.
\<close>

section \<open>Operations that leave the tables alone\<close>

definition quiet :: "disc \<Rightarrow> disc \<Rightarrow> bool" where
  "quiet d d' \<longleftrightarrow>
     di_self d' = di_self d \<and> di_aliveLastTS d' = di_aliveLastTS d \<and> di_deadLastTS d' = di_deadLastTS d \<and>
     di_id2Member d' = di_id2Member d \<and> di_aliveMembership d' = di_aliveMembership d \<and>
     di_deadMembership d' = di_deadMembership d \<and> di_msgStore d' = di_msgStore d \<and>
     di_idMapper d' = di_idMapper d"

lemma quiet_refl [simp]: "quiet d d"
  by (simp add: quiet_def)

lemma quiet_trans: "quiet a b \<Longrightarrow> quiet b c \<Longrightarrow> quiet a c"
  by (simp add: quiet_def)

lemma quiet_out [simp]: "quiet d (out a d)"
  by (simp add: quiet_def)

lemma quiet_trans_ok: "disc_ok d \<Longrightarrow> quiet d d' \<Longrightarrow> trans_ok R d d'"
  by (intro trans_ok_same) (simp_all add: quiet_def disc_ok_def self_key_def status_of_def)

lemma createSigned_quiet: "quiet d (snd (createSignedAliveMessage env now b d))"
  by (simp add: createSignedAliveMessage_def aliveMsgAndInternalEndpoint_def quiet_def Let_def split: prod.splits option.splits)

lemma createRequest_quiet: "quiet d (snd (createMembershipRequest env now b d))"
  using createSigned_quiet [of d env now b]
  by (auto simp: createMembershipRequest_def split: prod.splits sum.splits)

lemma SendToPeer_quiet:
  assumes "SendToPeer env p m d = Some (m', d')"
  shows "quiet d d'"
proof (cases "di_stopping d \<or> GetMemReq (sg_Msg m) = None \<or> bytes_len (p_PKIid p) = 0")
  case True
  with assms show ?thesis by (auto simp: SendToPeer_def Let_def split: option.split_asm if_split_asm)
next
  case False
  then obtain q where q: "GetMemReq (sg_Msg m) = Some q" by auto
  with assms False obtain e where "mq_SelfInformation q = Some e" by (auto simp: SendToPeer_def bind_eq_Some_conv Let_def)
  with assms False q obtain x where x: "case NoopSign (de_codec env) x of
      (_, Some _) \<Rightarrow> d' = d | (sMsg, None) \<Rightarrow> d' = out (OutSend sMsg \<lparr>rp_Endpoint = PreferredEndpoint p, rp_PKIID = p_PKIid p\<rparr>) d"
    by (fastforce simp: SendToPeer_def bind_eq_Some_conv Let_def split: prod.splits option.splits)
  obtain sM err where "NoopSign (de_codec env) x = (sM, err)" by (rule prod.exhaust)
  with x show ?thesis by (cases err) auto
qed

lemma send_to_all_quiet: "send_to_all env ps m d = Some d' \<Longrightarrow> quiet d d'"
proof (induction ps arbitrary: m d)
  case (Cons p ps)
  then show ?case by (auto simp: bind_eq_Some_conv dest: SendToPeer_quiet intro: quiet_trans)
qed simp

lemma InitiateSync_quiet: "InitiateSync env now draws n d = Some d' \<Longrightarrow> quiet d d'"
  using createRequest_quiet [of d env now True]
  by (auto simp: InitiateSync_def bind_eq_Some_conv Let_def split: if_splits prod.splits sum.splits option.splits
      dest!: send_to_all_quiet intro: quiet_trans)

lemma reconnect_quiet: "reconnect_to env now ping p d = Some d' \<Longrightarrow> quiet d d'"
  using createRequest_quiet [of d env now True]
  by (auto simp: reconnect_to_def split: if_splits prod.splits sum.splits option.splits
      dest!: SendToPeer_quiet intro: quiet_trans)

lemma reconnect_all_quiet: "periodicalReconnectToDead env now ping d = Some d' \<Longrightarrow> quiet d d'"
proof -
  assume "periodicalReconnectToDead env now ping d = Some d'"
  then obtain ps where "foldM (reconnect_to env now ping) ps d = Some d'"
    by (auto simp: periodicalReconnectToDead_def bind_eq_Some_conv)
  then show "quiet d d'" by (rule foldM_inv [where I = "quiet d"]) (auto dest: reconnect_quiet intro: quiet_trans)
qed

lemma sendUntilAcked_quiet: "sendUntilAcked_loop env n acks p m d = Some d' \<Longrightarrow> quiet d d'"
proof (induction env n acks p m d rule: sendUntilAcked_loop.induct)
  case (3 env n acked acks p m d)
  then show ?case
    by (auto simp: bind_eq_Some_conv Let_def split: if_splits)
       (blast intro: quiet_trans quiet_out dest: SendToPeer_quiet)+
qed simp_all

lemma connect_loop_quiet: "quiet d (connect_loop env now n tries p d)"
proof (induction env now n tries p d rule: connect_loop.induct)
  case (3 env now n r nonce tries p d)
  show ?case
  proof (cases r)
    case (Inl e)
    with 3(1) show ?thesis by simp
  next
    case (Inr pid)
    obtain q d1 where c: "createMembershipRequest env now (pid_SelfOrg pid) d = (q, d1)" by (rule prod.exhaust)
    have d1: "quiet d d1" using createRequest_quiet [of d env now "pid_SelfOrg pid"] c by simp
    show ?thesis
    proof (cases "di_toDieFlag d")
      case False
      show ?thesis
        using 3 False Inr c d1
        by (auto split: sum.splits prod.splits option.splits intro: quiet_trans)
    qed simp
  qed
qed simp_all

lemma Connect_quiet: "quiet d (Connect env now tries p d)"
  by (simp add: Connect_def connect_loop_quiet)

lemma sendAlive_quiet: "quiet d (snd (periodicalSendAlive env now d))"
  using createSigned_quiet [of d env now True]
  by (auto simp: periodicalSendAlive_def quiet_def Let_def split: prod.splits sum.splits)

lemma Self_quiet: "quiet d (snd (disc_Self env d))"
  by (simp add: disc_Self_def aliveMsgAndInternalEndpoint_def quiet_def Let_def split: prod.splits)

section \<open>The answer to a membership request\<close>

text \<open>
  What discovery relies on of the disclosure policy: on an alive message with an envelope
  neither function panics, and the filter at most changes the envelope of the message,
  which it returns.
\<close>

definition policy_ok :: "Sieve \<times> EnvelopeFilter \<Rightarrow> bool" where
  "policy_ok p \<longleftrightarrow>
     (\<forall>m. alive_ok m \<longrightarrow> fst p m \<noteq> None) \<and>
     (\<forall>m. sg_Envelope m \<noteq> None \<longrightarrow>
        (\<exists>e. snd p m = Some (m\<lparr>sg_Envelope := Some e\<rparr>, Some e)))"

definition same_messages :: "MembershipStore \<Rightarrow> MembershipStore \<Rightarrow> bool" where
  "same_messages ms ms' \<longleftrightarrow>
     list_all2 (\<lambda>(k, m) (k', m'). k' = k \<and> sg_Msg m' = sg_Msg m \<and> sg_Envelope m' \<noteq> None) ms ms'"

lemma same_messages_get:
  "same_messages ms ms' \<Longrightarrow>
     rel_option (\<lambda>m m'. sg_Msg m' = sg_Msg m \<and> sg_Envelope m' \<noteq> None) (map_get ms k) (map_get ms' k)"
  unfolding same_messages_def by (induction rule: list_all2_induct) auto

lemma same_messages_keys: "same_messages ms ms' \<Longrightarrow> map fst ms' = map fst ms"
  unfolding same_messages_def by (induction rule: list_all2_induct) auto

lemma stored_ok_msg: "stored_ok k m \<Longrightarrow> sg_Msg m' = sg_Msg m \<Longrightarrow> sg_Envelope m' \<noteq> None \<Longrightarrow>
    stored_ok k m' \<and> msg_stamp m' = msg_stamp m"
  by (simp add: stored_ok_def alive_ok_def msg_peer_def msg_stamp_def view_of_def)

lemma same_messages_table:
  assumes t: "table_ok ts ms" and s: "same_messages ms ms'"
  shows "table_ok ts ms'"
proof -
  have "entry_match k (map_get ts k) (map_get ms' k)" for k
    using same_messages_get [OF s, of k] t stored_ok_msg
    by (cases "map_get ms k"; cases "map_get ts k")
       (auto simp: table_ok_def entry_match_def option_rel_Some1 dest!: spec [of _ k] split: option.splits)
  then show ?thesis using t same_messages_keys [OF s] by (simp add: table_ok_def)
qed

lemma disclose_same:
  assumes "policy_ok (sieve, omit)" "\<forall>(k, m)\<in>set ms. stored_ok k m"
  shows "\<exists>ms' es. disclose sieve omit ms = Some (ms', es) \<and> same_messages ms ms' \<and>
    length es = length (filter (\<lambda>(k, m). sieve m = Some True) ms)"
  using assms(2)
proof (induction ms)
  case Nil
  show ?case by (simp add: same_messages_def)
next
  case (Cons km ms)
  obtain k m where km: "km = (k, m)" by (cases km)
  from Cons obtain ms' es where ih: "disclose sieve omit ms = Some (ms', es)" "same_messages ms ms'"
    "length es = length (filter (\<lambda>(k, m). sieve m = Some True) ms)" by auto
  have m: "alive_ok m" "sg_Envelope m \<noteq> None" using Cons.prems km by (auto simp: stored_ok_def)
  then obtain b e where "sieve m = Some b" "omit m = Some (m\<lparr>sg_Envelope := Some e\<rparr>, Some e)"
    using assms(1) by (fastforce simp: policy_ok_def)
  with ih m km show ?case by (cases b) (auto simp: same_messages_def)
qed

lemma table_stored: "table_ok ts ms \<Longrightarrow> \<forall>(k, m)\<in>set ms. stored_ok k m"
proof clarify
  fix k m
  assume t: "table_ok ts ms" and "(k, m) \<in> set ms"
  then have "map_get ms k = Some m" by (simp add: table_ok_def map_of_eq_Some_iff)
  from table_get [OF t this] show "stored_ok k m" by blast
qed

lemma swap_messages_ok:
  assumes ok: "disc_ok d" and "same_messages (di_deadMembership d) dead" "same_messages (di_aliveMembership d) alive"
  shows "trans_ok R d (d\<lparr>di_deadMembership := dead, di_aliveMembership := alive\<rparr>)" (is "trans_ok R d ?d")
proof -
  have "disc_ok ?d"
  proof (rule disc_okI)
    have self: "self_key ?d = self_key d" by (simp add: self_key_def)
    show "table_ok (di_aliveLastTS ?d) (di_aliveMembership ?d)"
      using same_messages_table [OF disc_okD(1) [OF ok] assms(3)] by simp
    show "table_ok (di_deadLastTS ?d) (di_deadMembership ?d)"
      using same_messages_table [OF disc_okD(2) [OF ok] assms(2)] by simp
    show "map_get (di_aliveLastTS ?d) k' = None \<or> map_get (di_deadLastTS ?d) k' = None" for k'
      using disc_ok_disjoint [OF ok, of k'] by simp
    show "k' \<noteq> self_key ?d \<and> map_get (di_id2Member ?d) k' \<noteq> None"
      if "map_get (di_aliveLastTS ?d) k' \<noteq> None \<or> map_get (di_deadLastTS ?d) k' \<noteq> None" for k'
      using disc_ok_listed [OF ok, of k'] that unfolding self by simp
    show "str_of (p_PKIid q) = k' \<and>
        (k' = self_key ?d \<or> map_get (di_aliveLastTS ?d) k' \<noteq> None \<or> map_get (di_deadLastTS ?d) k' \<noteq> None)"
      if "map_get (di_id2Member ?d) k' = Some q" for k' q
      using disc_ok_member [OF ok, of k' q] that unfolding self by simp
  qed (use disc_okD [OF ok] in simp_all)
  then show ?thesis by (intro trans_ok_same) (simp_all add: status_of_def)
qed

lemma disclose_stored:
  assumes "disc_ok d" "policy_ok (sieve, omit)"
  obtains dead es alive fs where
    "disclose sieve omit (di_deadMembership d) = Some (dead, es)" "same_messages (di_deadMembership d) dead"
    "length es = length (filter (\<lambda>(k, m). sieve m = Some True) (di_deadMembership d))"
    "disclose sieve omit (di_aliveMembership d) = Some (alive, fs)" "same_messages (di_aliveMembership d) alive"
    "length fs = length (filter (\<lambda>(k, m). sieve m = Some True) (di_aliveMembership d))"
  using disclose_same [OF assms(2) table_stored [OF disc_okD(2) [OF assms(1)]]]
    disclose_same [OF assms(2) table_stored [OF disc_okD(1) [OF assms(1)]]] by blast

lemma response_trans:
  assumes ok: "disc_ok d" and pol: "policy_ok (de_disclosurePolicy env p)"
    and r: "createMembershipResponse env m p d = Some (r, m', d')"
  shows "trans_ok R d d'"
proof -
  obtain sieve omit where so: "de_disclosurePolicy env p = (sieve, omit)" by (rule prod.exhaust)
  with pol have "policy_ok (sieve, omit)" by simp
  from disclose_stored [OF ok this] obtain dead es alive fs where
    ds: "disclose sieve omit (di_deadMembership d) = Some (dead, es)" "same_messages (di_deadMembership d) dead"
    "disclose sieve omit (di_aliveMembership d) = Some (alive, fs)" "same_messages (di_aliveMembership d) alive" by metis
  from r so ds(1,3) have "d' = d \<or> d' = d\<lparr>di_deadMembership := dead, di_aliveMembership := alive\<rparr>"
    by (auto simp: createMembershipResponse_def bind_eq_Some_conv split: if_split_asm)
  with swap_messages_ok [OF ok ds(2,4)] trans_ok_refl [OF ok] show ?thesis by auto
qed

lemma response_total:
  assumes ok: "disc_ok d" and pol: "policy_ok (de_disclosurePolicy env p)"
    and m: "alive_ok m" "sg_Envelope m \<noteq> None"
  shows "\<exists>r m' d'. createMembershipResponse env m p d = Some (r, m', d') \<and>
    sg_Msg m' = sg_Msg m \<and> sg_Envelope m' \<noteq> None \<and>
    (r = None \<longleftrightarrow> fst (de_disclosurePolicy env p) m = Some False) \<and>
    (\<forall>resp. r = Some resp \<longrightarrow>
       length (mr_Alive resp) = length (filter (\<lambda>(k, m). fst (de_disclosurePolicy env p) m = Some True) (di_aliveMembership d)) + 1 \<and>
       length (mr_Dead resp) = length (filter (\<lambda>(k, m). fst (de_disclosurePolicy env p) m = Some True) (di_deadMembership d)))"
proof -
  obtain sieve omit where so: "de_disclosurePolicy env p = (sieve, omit)" by (rule prod.exhaust)
  have pol: "policy_ok (sieve, omit)" using pol so by simp
  obtain b e where b: "sieve m = Some b" "omit m = Some (m\<lparr>sg_Envelope := Some e\<rparr>, Some e)"
    using pol m by (fastforce simp: policy_ok_def)
  from disclose_stored [OF ok pol] obtain dead es alive fs where
    "disclose sieve omit (di_deadMembership d) = Some (dead, es)"
    "length es = length (filter (\<lambda>(k, m). sieve m = Some True) (di_deadMembership d))"
    "disclose sieve omit (di_aliveMembership d) = Some (alive, fs)"
    "length fs = length (filter (\<lambda>(k, m). sieve m = Some True) (di_aliveMembership d))" by metis
  with b so m(2) show ?thesis by (cases b) (auto simp: createMembershipResponse_def)
qed

lemma sendMemResponse_trans:
  assumes ok: "disc_ok d" and pol: "\<forall>p. policy_ok (de_disclosurePolicy env p)"
    and r: "sendMemResponse env now mem ep nonce d = Some d'"
  shows "trans_ok R d d'"
proof -
  obtain mm where mm: "mem = Some mm" using r by (auto simp: sendMemResponse_def bind_eq_Some_conv)
  define am d1 where "am = (case di_selfAliveMessage d of Some m \<Rightarrow> Some m
      | None \<Rightarrow> (case fst (createSignedAliveMessage env now True d) of Inl _ \<Rightarrow> None | Inr m \<Rightarrow> Some m))"
    and "d1 = (if di_selfAliveMessage d = None then snd (createSignedAliveMessage env now True d) else d)"
  have d1: "trans_ok R d d1" using createSigned_quiet ok by (simp add: d1_def quiet_trans_ok trans_ok_refl)
  note ok1 = trans_ok_ok [OF d1]
  have start: "(case di_selfAliveMessage d of Some m \<Rightarrow> Some (Some m, d)
      | None \<Rightarrow> (case createSignedAliveMessage env now True d of (Inl _, e) \<Rightarrow> Some (None, e) | (Inr m, e) \<Rightarrow> Some (Some m, e)))
      = Some (am, d1)"
    by (simp add: am_def d1_def split: option.splits prod.splits sum.splits)
  show ?thesis
  proof (cases am)
    case None
    with r mm start d1 show ?thesis by (simp add: sendMemResponse_def Let_def)
  next
    case (Some m)
    let ?p = "peer_of_member mm ep"
    obtain resp m' d2 where c: "createMembershipResponse env m ?p d1 = Some (resp, m', d2)"
      using r mm start Some by (auto simp: sendMemResponse_def bind_eq_Some_conv Let_def)
    have d2: "trans_ok R d1 d2" using response_trans [OF ok1 _ c] pol by blast
    define d3 where "d3 = (if di_selfAliveMessage d2 = None then d2 else d2\<lparr>di_selfAliveMessage := Some m'\<rparr>)"
    have q3: "quiet d2 d3" by (simp add: d3_def quiet_def)
    have "quiet d3 d'"
    proof (cases resp)
      case None
      with r mm start Some c have "Some (out (OutCloseConn \<lparr>rp_Endpoint = [], rp_PKIID = p_PKIid ?p\<rparr>) d3) = Some d'"
        by (simp add: sendMemResponse_def Let_def d3_def)
      then have "d' = out (OutCloseConn \<lparr>rp_Endpoint = [], rp_PKIID = p_PKIid ?p\<rparr>) d3" by simp
      then show ?thesis by (simp only: quiet_out)
    next
      case (Some re)
      obtain msg err where n: "NoopSign (de_codec env)
          \<lparr>gm_Nonce = nonce, gm_Channel = None, gm_Tag = Tag_EMPTY, gm_Content = Some (MemRes re)\<rparr> = (msg, err)"
        by (rule prod.exhaust)
      with r mm start \<open>am = Some m\<close> c Some
      have "(case err of Some _ \<Rightarrow> Some d3 | None \<Rightarrow> map_option snd (SendToPeer env ?p msg d3)) = Some d'"
        by (simp add: sendMemResponse_def Let_def d3_def cong: option.case_cong)
      then show ?thesis by (auto split: option.splits dest: SendToPeer_quiet)
    qed
    with q3 have "quiet d2 d'" by (rule quiet_trans)
    then have "trans_ok R d2 d'" by (rule quiet_trans_ok [OF trans_ok_ok [OF d2]])
    with d1 d2 show ?thesis by (blast intro: trans_ok_trans)
  qed
qed

section \<open>Discovery as a machine\<close>

text \<open>
  Every operation of the component in any order, each taken as one step, with anything for what
  comes from outside. The identity mapper is shared, so it may change between the steps.
\<close>

inductive disc_step :: "denv \<Rightarrow> disc \<Rightarrow> disc \<Rightarrow> bool" for env where
  ds_message: "recv_ok (de_codec env) mo \<Longrightarrow> handleMsgFromComm env now mo d = Some d' \<Longrightarrow> disc_step env d d'"
| ds_presumedDead: "handlePresumedDeadPeer pkiID d = Some d' \<Longrightarrow> disc_step env d d'"
| ds_checkAlive: "periodicalCheckAlive env now d = Some d' \<Longrightarrow> disc_step env d d'"
| ds_expiration: "disc_expirationTick now d = Some d' \<Longrightarrow> disc_step env d d'"
| ds_sendAlive: "disc_step env d (snd (periodicalSendAlive env now d))"
| ds_reconnect: "periodicalReconnectToDead env now ping d = Some d' \<Longrightarrow> disc_step env d d'"
| ds_memResponse: "sendMemResponse env now mem ep nonce d = Some d' \<Longrightarrow> disc_step env d d'"
| ds_sync: "InitiateSync env now draws n d = Some d' \<Longrightarrow> disc_step env d d'"
| ds_connect: "disc_step env d (Connect env now tries p d)"
| ds_resend: "sendUntilAcked env acks p m d = Some d' \<Longrightarrow> disc_step env d d'"
| ds_self: "disc_step env d (snd (disc_Self env d))"
| ds_stop: "disc_step env d (disc_Stop d)"
| ds_mapper: "mapper_ok im \<Longrightarrow> disc_step env d (d\<lparr>di_idMapper := im\<rparr>)"
| ds_stopping: "disc_step env d (d\<lparr>di_stopping := True\<rparr>)"

inductive_cases disc_stepE: "disc_step env d d'"

definition policies_ok :: "denv \<Rightarrow> bool" where
  "policies_ok env \<longleftrightarrow> (\<forall>p. policy_ok (de_disclosurePolicy env p))"

lemma presumedDead_runs: "disc_ok d \<Longrightarrow> runs abs_step d (handlePresumedDeadPeer p d)"
  by (simp add: handlePresumedDeadPeer_def expire_runs runsI trans_ok_refl)

lemma checkAlive_runs: "disc_ok d \<Longrightarrow> runs abs_step d (periodicalCheckAlive env now d)"
  by (simp add: periodicalCheckAlive_def Let_def expire_runs runsI trans_ok_refl)

lemma Stop_trans: "disc_ok d \<Longrightarrow> trans_ok R d (disc_Stop d)"
proof -
  assume ok: "disc_ok d"
  have "store_ok alive_comparator alive_ok (MessageStore_Stop (di_msgStore d))"
    using disc_okD(4) [OF ok] by (simp add: store_ok_def MessageStore_Stop_def datas_def)
  then have "disc_ok (d\<lparr>di_toDieFlag := True, di_msgStore := MessageStore_Stop (di_msgStore d)\<rparr>)"
    using ok by (intro disc_ok_store) simp_all
  then show ?thesis by (intro trans_ok_same) (simp_all add: disc_Stop_def status_of_def)
qed

lemma runs_Some: "runs R d r \<Longrightarrow> r = Some d' \<Longrightarrow> trans_ok R d d'"
  by (auto simp: runs_def)

lemma disc_step_trans:
  assumes "disc_step env d d'" "disc_ok d" "policies_ok env"
  shows "trans_ok abs_step d d'"
  using assms
proof (induction rule: disc_step.induct)
  case (ds_message mo now d d')
  then show ?case by (blast intro: trans_ok_learn runs_Some handleMsg_runs)
next
  case (ds_presumedDead pkiID d d')
  then show ?case by (blast intro: runs_Some presumedDead_runs)
next
  case (ds_checkAlive now d d')
  then show ?case by (blast intro: runs_Some checkAlive_runs)
next
  case (ds_expiration now d d')
  then show ?case by (blast intro: runs_Some tick_runs)
next
  case (ds_memResponse now mem ep nonce d d')
  then show ?case by (auto simp: policies_ok_def intro: sendMemResponse_trans)
next
  case (ds_mapper im d)
  then show ?case by (intro trans_ok_same disc_ok_mapper) simp_all
next
  case (ds_stopping d)
  then show ?case by (intro trans_ok_same) (simp_all add: status_of_def)
next
  case (ds_resend acks p m d d')
  then show ?case by (auto simp: sendUntilAcked_def intro: quiet_trans_ok dest: sendUntilAcked_quiet)
qed (auto intro: quiet_trans_ok Stop_trans sendAlive_quiet Connect_quiet Self_quiet
    dest: reconnect_all_quiet InitiateSync_quiet)

lemma New_disc_ok:
  assumes "NewDiscoveryService env now self im = Some d" "mapper_ok im"
  shows "disc_ok d \<and> status_of d = Map.empty \<and> di_self d = self"
  using assms
  by (auto simp: NewDiscoveryService_def membership_defs disc_ok_def status_of_def status_in_def store_ok_def Let_def
      split: if_split_asm)

lemma disc_steps_trans:
  "(disc_step env)\<^sup>*\<^sup>* d d' \<Longrightarrow> disc_ok d \<Longrightarrow> policies_ok env \<Longrightarrow> trans_ok abs_step d d'"
proof (induction rule: rtranclp_induct)
  case (step y z)
  then show ?case by (blast intro: trans_ok_trans disc_step_trans trans_ok_ok)
qed (simp add: trans_ok_refl)

interpretation discovery: inv_machine
  "\<lambda>d. policies_ok env \<and> (\<exists>env' now self im. mapper_ok im \<and> NewDiscoveryService env' now self im = Some d)"
  "\<lambda>d d'. policies_ok env \<and> disc_step env d d'" disc_ok for env
  by unfold_locales (blast dest: New_disc_ok, blast intro: trans_ok_ok disc_step_trans)

section \<open>Queries\<close>

lemma mapM_opt_all: "\<forall>x\<in>set xs. f x \<noteq> None \<Longrightarrow> mapM_opt f xs = Some (map (the \<circ> f) xs)"
  by (induction xs) auto

lemma member_peer_ok:
  assumes ok: "disc_ok d" and m: "(k, m) \<in> set (di_aliveMembership d)"
  shows "\<exists>p. member_peer d m = Some p \<and> str_of (p_PKIid p) = k \<and> p_Envelope p = sg_Envelope m"
proof -
  have "map_get (di_aliveMembership d) k = Some m"
    using m disc_okD(1) [OF ok] by (simp add: table_ok_def map_of_eq_Some_iff)
  from table_get [OF disc_okD(1) [OF ok] this] obtain t where t: "map_get (di_aliveLastTS d) k = Some t" "stored_ok k m" by auto
  then obtain a mem tt e where p: "parts m a mem tt e" "str_of (mb_PkiId mem) = k" using partsI by blast
  moreover obtain q where "map_get (di_id2Member d) k = Some q" using disc_ok_listed [OF ok, of k] t(1) by auto
  ultimately show ?thesis by (auto simp: member_peer_def parts_def empty_peer_def)
qed

lemma GetMembership_ok:
  assumes "disc_ok d" "\<not> di_toDieFlag d"
  shows "\<exists>ps. GetMembership d = Some ps \<and> map (str_of \<circ> p_PKIid) ps = map fst (di_aliveMembership d)"
proof -
  have *: "\<forall>m\<in>set (ToSlice (di_aliveMembership d)). member_peer d m \<noteq> None"
    using member_peer_ok [OF assms(1)] by (fastforce simp: membership_defs)
  have "map (str_of \<circ> p_PKIid) (map (the \<circ> member_peer d) (ToSlice (di_aliveMembership d))) = map fst (di_aliveMembership d)"
    using member_peer_ok [OF assms(1)] by (fastforce simp: membership_defs)
  with mapM_opt_all [OF *] assms(2) show ?thesis by (auto simp: GetMembership_def)
qed

lemma copyLastSeen_ok:
  assumes "disc_ok d"
  shows "\<exists>ps. copyLastSeen (di_deadLastTS d) d = Some ps \<and> map (str_of \<circ> p_PKIid) ps = map fst (di_deadLastTS d)"
proof -
  have *: "\<exists>p. map_get (di_id2Member d) k = Some p \<and> str_of (p_PKIid p) = k" if "(k, ts) \<in> set (di_deadLastTS d)" for k ts
  proof -
    have "map_get (di_deadLastTS d) k = Some ts"
      using that disc_okD(2) [OF assms] by (simp add: table_ok_def map_of_eq_Some_iff)
    with disc_ok_listed [OF assms, of k] disc_ok_member [OF assms, of k] show ?thesis by auto
  qed
  then have "\<forall>x\<in>set (di_deadLastTS d). (\<lambda>(k, _). map_get (di_id2Member d) k) x \<noteq> None" by fastforce
  moreover have "map (str_of \<circ> p_PKIid) (map (the \<circ> (\<lambda>(k, _). map_get (di_id2Member d) k)) (di_deadLastTS d)) = map fst (di_deadLastTS d)"
    using * by fastforce
  ultimately show ?thesis by (auto simp: copyLastSeen_def mapM_opt_all)
qed

section \<open>Facts about the abstract machine\<close>

fun status_time :: "status \<Rightarrow> PeerTime" where
  "status_time (Alive t) = t"
| "status_time (Dead t) = t"

definition status_le :: "(string \<Rightarrow> status option) \<Rightarrow> (string \<Rightarrow> status option) \<Rightarrow> bool" where
  "status_le s s' \<longleftrightarrow> (\<forall>k x. s k = Some x \<longrightarrow> (\<exists>y. s' k = Some y \<and> status_time x \<le> status_time y))"

lemma status_le_refl [simp]: "status_le s s"
  by (simp add: status_le_def)

lemma status_le_trans: "status_le a b \<Longrightarrow> status_le b c \<Longrightarrow> status_le a c"
  unfolding status_le_def by (meson order_trans)

lemma learn_le: "abs_learn k s s' \<Longrightarrow> status_le s s'"
  by (induction rule: abs_learn.induct)
     (auto simp: status_le_def abs_alive_def abs_dead_def split: option.splits status.splits)

lemma learns_le: "(abs_learn k)\<^sup>*\<^sup>* s s' \<Longrightarrow> status_le s s'"
  by (induction rule: rtranclp_induct) (auto intro: learn_le status_le_trans)

lemma abs_self_unlisted: "(abs_step k)\<^sup>*\<^sup>* s s' \<Longrightarrow> s k = None \<Longrightarrow> s' k = None"
proof (induction rule: rtranclp_induct)
  case (step y z)
  from step.hyps(2) step.IH [OF step.prems] show ?case
    by (induction rule: abs_step.induct)
       (auto simp: abs_expire_def elim!: abs_learn.cases simp: abs_alive_def abs_dead_def split: option.splits status.splits)
qed

section \<open>Purging, exactly\<close>

lemma callback_status:
  assumes "disc_ok d" "alive_ok m" "expire_callback m d = Some d'"
  shows "disc_ok d' \<and> status_of d' = (status_of d)(msg_peer m := None)"
proof -
  from assms(2) obtain a mem t where p: "GetAliveMsg (sg_Msg m) = Some a" "am_Membership a = Some mem"
    "msg_peer m = str_of (mb_PkiId mem)" by (elim alive_okE) auto
  have "disc_ok d'" using callback_runs [OF assms(1,2)] assms(3) by (auto simp: runs_def trans_ok_def)
  moreover have "status_of d' = (status_of d)(msg_peer m := None)"
    using assms(3) p by (intro status_of_purgeI) (auto simp: expire_callback_def membership_defs Let_def)
  ultimately show ?thesis by simp
qed

lemma callbacks_status:
  "disc_ok d \<Longrightarrow> \<forall>m\<in>set ms. alive_ok m \<Longrightarrow> foldM expire_callback ms d = Some d' \<Longrightarrow>
     disc_ok d' \<and> status_of d' = (\<lambda>k. if k \<in> msg_peer ` set ms then None else status_of d k)"
proof (induction ms arbitrary: d)
  case (Cons m ms)
  then obtain d1 where d1: "expire_callback m d = Some d1" "foldM expire_callback ms d1 = Some d'"
    by (auto simp: bind_eq_Some_conv)
  note c = callback_status [OF Cons.prems(1) _ d1(1)]
  from Cons.IH [OF _ _ d1(2)] c Cons.prems(2) show ?case by (auto simp: fun_eq_iff)
qed auto

section \<open>Examples\<close>

definition example_peer :: Peer where
  "example_peer = empty_peer\<lparr>p_Endpoint := ''h:1'', p_InternalEndpoint := ''h:1'', p_PKIid := Some ''s''\<rparr>"

definition example_env :: denv where
  "example_env = \<lparr>de_codec = example_codec, de_mcs = \<lparr>AllowedPkiIDS = None, RevokedPkiIDS = None\<rparr>,
     de_ExpirationTimes = [], de_Id = Some ''s'', de_IncludeIdPeriod = 0, de_aliveExpirationTimeout = 100,
     de_MaxConnectionAttempts = 3,
     de_disclosurePolicy = (\<lambda>_. (\<lambda>_. Some True, \<lambda>m. map_option (\<lambda>e. (m\<lparr>sg_Envelope := Some e\<rparr>, Some e)) (sg_Envelope m)))\<rparr>"

definition example_mapper :: IdMapper where
  "example_mapper = \<lparr>im_pkiID2Cert = [], im_selfPKIID = ''s''\<rparr>"

definition example_disc :: disc where
  "example_disc = the (NewDiscoveryService example_env 5 example_peer example_mapper)"

text \<open>An alive message of a peer that carries its identity.\<close>

definition hello_from :: "string \<Rightarrow> u64 \<Rightarrow> SignedGossipMessage" where
  "hello_from k sq =
     \<lparr>sg_Envelope = Some \<lparr>ev_Payload = Some ''p'', ev_Signature = Some ''p'', ev_SecretEnvelope = None\<rparr>,
      sg_Msg = \<lparr>gm_Nonce = 0, gm_Channel = None, gm_Tag = Tag_EMPTY,
        gm_Content = Some (AliveMsg \<lparr>am_Membership = Some \<lparr>mb_Endpoint = k, mb_Metadata = None, mb_PkiId = Some k\<rparr>,
          am_Timestamp = Some (PeerTime 1 sq), am_Identity = Some k\<rparr>)\<rparr>\<rparr>"

lemma example_New: "NewDiscoveryService example_env 5 example_peer example_mapper = Some example_disc"
  by (simp add: example_disc_def NewDiscoveryService_def example_peer_def)

lemma example_mapper_ok [simp]: "mapper_ok example_mapper"
  by (simp add: mapper_ok_def example_mapper_def)

lemma example_policies [simp]: "policies_ok example_env"
  by (auto simp: policies_ok_def policy_ok_def example_env_def)

lemma example_disc_ok [simp]: "disc_ok example_disc" "status_of example_disc = Map.empty" "self_key example_disc = ''s''"
  using New_disc_ok [OF example_New] by (simp_all add: self_key_def example_peer_def)

lemma hello_ok [simp]: "alive_ok (hello_from k n)" "msg_peer (hello_from k n) = k" "msg_stamp (hello_from k n) = PeerTime 1 n"
  by (simp_all add: newest_defs view_of_def hello_from_def)

lemma mcs_Verify_self: "mcs_Verify p s s = None"
  by simp

lemma hello_valid: "fst (ValidateAliveMsg example_env 7 (hello_from ''b'' n) example_disc)"
  by (simp add: ValidateAliveMsg_def hello_from_def getter_defs example_env_def example_disc_def NewDiscoveryService_def
      example_peer_def example_mapper_def IdMapper_Put_def Expiration_def ValidateIdType_def GetPKIidOfCert_def
      map_has_def second_def SignedGossipMessage_Verify_def mcs_Verify_self bytes_len_def Let_def split: prod.splits)

section \<open>Properties\<close>



text \<open>C17. Discovery refines the abstract machine of peer statuses: starting with no peer known, every
  reachable state's statuses come from hearing of a peer (a newer alive message makes it alive, an
  older one changes nothing), being told of a dead one (which only matters for unknown peers), expiring
  alive peers and purging; about this peer itself nothing is ever recorded.\<close>

theorem discovery_refines:
  assumes "policies_ok env" "mapper_ok im" "NewDiscoveryService env now self im = Some d0"
    and "(disc_step env)\<^sup>*\<^sup>* d0 d"
  shows "(abs_step (str_of (p_PKIid self)))\<^sup>*\<^sup>* Map.empty (status_of d) \<and>
    status_of d (str_of (p_PKIid self)) = None"
proof -
  have new: "disc_ok d0" "di_self d0 = self" "status_of d0 = Map.empty" using New_disc_ok [OF assms(3,2)] by auto
  have "(abs_step (str_of (p_PKIid self)))\<^sup>*\<^sup>* Map.empty (status_of d)"
    using disc_steps_trans [OF assms(4) new(1) assms(1)] new by (simp add: trans_ok_def self_key_def)
  with abs_self_unlisted [OF this] show ?thesis by simp
qed

theorem discovery_refines_witness:
  "status_of (snd (periodicalSendAlive example_env 9 example_disc)) ''s'' = None"
proof -
  have "(disc_step example_env)\<^sup>*\<^sup>* example_disc (snd (periodicalSendAlive example_env 9 example_disc))"
    by (intro r_into_rtranclp ds_sendAlive)
  from discovery_refines [OF example_policies example_mapper_ok example_New this] show ?thesis
    by (simp add: example_peer_def)
qed





text \<open>\<open>GetMembership\<close> and the copy of the dead peers for reconnecting never dereference nil and list
  each alive peer, respectively each dead peer, exactly once.\<close>

theorem membership_queries_correct:
  assumes "disc_ok d" "\<not> di_toDieFlag d"
  shows "\<exists>ps qs. GetMembership d = Some ps \<and> copyLastSeen (di_deadLastTS d) d = Some qs \<and>
    distinct (map (str_of \<circ> p_PKIid) ps) \<and> distinct (map (str_of \<circ> p_PKIid) qs) \<and>
    (\<forall>k. k \<in> str_of ` p_PKIid ` set ps \<longleftrightarrow> (\<exists>t. status_of d k = Some (Alive t))) \<and>
    (\<forall>k. k \<in> str_of ` p_PKIid ` set qs \<longleftrightarrow> (\<exists>t. status_of d k = Some (Dead t)))"
proof -
  obtain ps where ps: "GetMembership d = Some ps" "map (str_of \<circ> p_PKIid) ps = map fst (di_aliveMembership d)"
    using GetMembership_ok [OF assms] by blast
  obtain qs where qs: "copyLastSeen (di_deadLastTS d) d = Some qs" "map (str_of \<circ> p_PKIid) qs = map fst (di_deadLastTS d)"
    using copyLastSeen_ok [OF assms(1)] by blast
  have sets: "str_of ` p_PKIid ` set ps = dom (map_of (di_aliveMembership d))"
    "str_of ` p_PKIid ` set qs = dom (map_of (di_deadLastTS d))"
    using arg_cong [OF ps(2), of set] arg_cong [OF qs(2), of set] by (auto simp: map_keys image_comp)
  have "map_wf (di_aliveMembership d)" "map_wf (di_deadLastTS d)"
    using disc_okD(1,2) [OF assms(1)] by (auto simp: table_ok_def)
  moreover have "k \<in> dom (map_of (di_aliveMembership d)) \<longleftrightarrow> (\<exists>t. status_of d k = Some (Alive t))" for k
    using table_dom [OF disc_okD(1) [OF assms(1)], of k]
    by (auto simp: status_of_def status_in_def split: option.splits)
  moreover have "k \<in> dom (map_of (di_deadLastTS d)) \<longleftrightarrow> (\<exists>t. status_of d k = Some (Dead t))" for k
    using disc_ok_disjoint [OF assms(1), of k] by (auto simp: status_of_def status_in_def split: option.splits)
  ultimately show ?thesis using ps qs sets by auto
qed

theorem membership_queries_correct_witness: "\<exists>ps. GetMembership example_disc = Some ps \<and> set ps = {}"
proof -
  have "\<not> di_toDieFlag example_disc" by (simp add: example_disc_def NewDiscoveryService_def example_peer_def)
  from membership_queries_correct [OF example_disc_ok(1) this] show ?thesis by auto
qed

text \<open>One round of the liveness check moves exactly the alive peers last seen longer ago than the
  expiration timeout to the dead, with their recorded time, changes nothing else and never panics.\<close>

theorem periodicalCheckAlive_correct:
  assumes "disc_ok d"
  shows "\<exists>d'. periodicalCheckAlive env now d = Some d' \<and> disc_ok d' \<and>
    (\<forall>k. status_of d' k =
       (case map_get (di_aliveLastTS d) k of
          Some ts \<Rightarrow> Some (if time_since now (ts_lastSeen ts) > de_aliveExpirationTimeout env
                            then Dead (stamp_of ts) else Alive (stamp_of ts))
        | None \<Rightarrow> status_of d k))"
proof -
  let ?dead = "getDeadMembers env now d"
  have wf: "map_wf (di_aliveLastTS d)" using disc_okD(1) [OF assms] by (simp add: table_ok_def)
  have "str_of ` set ?dead =
      fst ` {x \<in> set (di_aliveLastTS d). time_since now (ts_lastSeen (snd x)) > de_aliveExpirationTimeout env}"
    by (simp add: getDeadMembers_def image_image case_prod_beta')
  moreover have "k \<in> fst ` {x \<in> set (di_aliveLastTS d). time_since now (ts_lastSeen (snd x)) > de_aliveExpirationTimeout env} \<longleftrightarrow>
      (\<exists>ts. (k, ts) \<in> set (di_aliveLastTS d) \<and> time_since now (ts_lastSeen ts) > de_aliveExpirationTimeout env)" for k
    by force
  ultimately have dead: "k \<in> str_of ` set ?dead \<longleftrightarrow>
      (\<exists>ts. map_get (di_aliveLastTS d) k = Some ts \<and> time_since now (ts_lastSeen ts) > de_aliveExpirationTimeout env)" for k
    by (simp only: map_entry_iff [OF wf])
  have exp: "abs_expire (str_of ` set ?dead) (status_of d) k =
       (case map_get (di_aliveLastTS d) k of
          Some ts \<Rightarrow> Some (if time_since now (ts_lastSeen ts) > de_aliveExpirationTimeout env
                            then Dead (stamp_of ts) else Alive (stamp_of ts))
        | None \<Rightarrow> status_of d k)" for k
    using dead [of k] by (auto simp: abs_expire_def status_of_def status_in_def split: option.splits)
  show ?thesis
  proof (cases "?dead = []")
    case True
    then have "abs_expire (str_of ` set ?dead) (status_of d) = status_of d"
      by (auto simp: abs_expire_def fun_eq_iff split: option.splits status.splits)
    with True exp assms show ?thesis by (auto simp: periodicalCheckAlive_def fun_eq_iff)
  next
    case False
    with expire_result [OF assms, of ?dead] exp show ?thesis by (auto simp: periodicalCheckAlive_def)
  qed
qed

theorem periodicalCheckAlive_correct_witness:
  "\<exists>d'. periodicalCheckAlive example_env 500 example_disc = Some d' \<and> status_of d' ''b'' = None"
proof -
  have "map_get (di_aliveLastTS example_disc) ''b'' = None"
    by (simp add: example_disc_def NewDiscoveryService_def example_peer_def)
  with periodicalCheckAlive_correct [OF example_disc_ok(1), of example_env 500] show ?thesis by auto
qed

text \<open>One round of the expiration of alive messages forgets exactly the peers whose newest alive message
  in the store is overdue, alive or dead, and keeps every other peer's status; it never panics.\<close>

theorem expiration_purges:
  assumes "disc_ok d"
  shows "\<exists>d'. disc_expirationTick now d = Some d' \<and> disc_ok d' \<and>
    (\<forall>k. status_of d' k =
       (if \<exists>m\<in>set (ms_messages (di_msgStore d)). msg_peer (sd_data m) = k \<and> \<not> sd_expired m \<and>
             time_since now (sd_created m) > ms_msgTTL (di_msgStore d) \<and> \<not> ms_done (di_msgStore d)
        then None else status_of d k))"
proof -
  obtain s calls where t: "expirationTick now (di_msgStore d) = (s, calls)" by (rule prod.exhaust)
  have c: "set calls = {sd_data m | m. m \<in> set (ms_messages (di_msgStore d)) \<and> \<not> sd_expired m \<and>
      time_since now (sd_created m) > ms_msgTTL (di_msgStore d) \<and> \<not> ms_done (di_msgStore d)}"
    using t by (auto simp: expirationTick_eq expireMessages_eq overdue_def Let_def split: if_splits)
  have good: "\<forall>m\<in>set calls. alive_ok m"
    using disc_okD(4) [OF assms] by (auto simp: c store_ok_def datas_def)
  from tick_runs [OF assms, of now] obtain d' where d': "disc_expirationTick now d = Some d'" by (auto simp: runs_def)
  have "store_ok alive_comparator alive_ok s" using tick_store_ok [OF disc_okD(4) [OF assms], of now] t by simp
  then have "disc_ok (d\<lparr>di_msgStore := s\<rparr>)" using assms by (intro disc_ok_store)
  from callbacks_status [OF this good] d' t
  have "disc_ok d'" "status_of d' = (\<lambda>k. if k \<in> msg_peer ` set calls then None else status_of d k)"
    by (auto simp: disc_expirationTick_def)
  with d' show ?thesis by (auto simp: c)
qed

theorem expiration_purges_witness:
  "\<exists>d'. disc_expirationTick 9000 example_disc = Some d' \<and> status_of d' ''b'' = None"
  using expiration_purges [OF example_disc_ok(1), of 9000] by auto

text \<open>Two consecutive alive messages of this peer about itself carry different, increasing times: every
  store replaces the first by the second, until the sequence number wraps around.\<close>

theorem own_alive_messages_increase:
  assumes "createSignedAliveMessage env now b d = (Inr m1, d1)"
    and "createSignedAliveMessage env now' b' d1 = (Inr m2, d2)" "di_seqNum d1 \<noteq> -1"
  shows "NewGossipMessageComparator n m2 m1 = Some MessageInvalidates \<and>
    msg_peer m1 = str_of (p_PKIid (di_self d)) \<and> sg_Envelope m1 \<noteq> None"
proof -
  have view: "view_of m = Some (VAlive (str_of (p_PKIid (di_self d))) (PeerTime (di_incTime d) (di_seqNum d + 1))) \<and>
      di_self e = di_self d \<and> di_incTime e = di_incTime d \<and> di_seqNum e = di_seqNum d + 1 \<and> sg_Envelope m \<noteq> None"
    if "createSignedAliveMessage env now b d = (Inr m, e)" for now b d m e
    using that
    by (auto simp: createSignedAliveMessage_def aliveMsgAndInternalEndpoint_def SignMessage_def set_identity_def view_of_def
        getter_defs Let_def split: option.splits sum.splits prod.splits if_splits)
  note v = view [OF assms(1)] view [OF assms(2)]
  have "1 + di_seqNum d1 \<noteq> 0" using assms(3) by (simp add: eq_neg_iff_add_eq_0 add.commute)
  then have "di_seqNum d1 < di_seqNum d1 + 1" by (simp add: word_less_nat_alt unatSuc add.commute)
  with v have "newer_wins (str_of (p_PKIid (di_self d))) (PeerTime (di_incTime d) (di_seqNum d1 + 1))
      (str_of (p_PKIid (di_self d))) (PeerTime (di_incTime d) (di_seqNum d1)) = MessageInvalidates"
    by (simp add: newer_wins_def less_PeerTime_def)
  moreover have "NewGossipMessageComparator n m2 m1 =
      Some (view_policy n (VAlive (str_of (p_PKIid (di_self d1))) (PeerTime (di_incTime d1) (di_seqNum d1 + 1)))
        (VAlive (str_of (p_PKIid (di_self d))) (PeerTime (di_incTime d) (di_seqNum d + 1))))"
    unfolding NewGossipMessageComparator_def by (rule invalidationPolicy_view) (use v in auto)
  ultimately show ?thesis using v by (simp add: msg_peer_def)
qed

definition own_msg :: "u64 \<Rightarrow> GossipMessage" where
  "own_msg n = \<lparr>gm_Nonce = 0, gm_Channel = None, gm_Tag = Tag_EMPTY,
     gm_Content = Some (AliveMsg \<lparr>am_Membership = Some \<lparr>mb_Endpoint = ''h:1'', mb_Metadata = None, mb_PkiId = Some ''s''\<rparr>,
       am_Timestamp = Some (PeerTime 5 n), am_Identity = None\<rparr>)\<rparr>"

definition own_env :: denv where
  "own_env = example_env\<lparr>de_codec := table_codec [own_msg 1, own_msg 2] [example_secret]\<rparr>"

lemma own_create:
  assumes "n = 1 \<or> n = 2"
  shows "\<exists>m. createSignedAliveMessage own_env 7 True (example_disc\<lparr>di_seqNum := n - 1\<rparr>) = (Inr m, example_disc\<lparr>di_seqNum := n\<rparr>)"
  using assms
  by (auto simp: createSignedAliveMessage_def aliveMsgAndInternalEndpoint_def SignMessage_def own_env_def example_env_def
      own_msg_def example_disc_def NewDiscoveryService_def example_peer_def empty_peer_def unix_nano_def Sign_def
      table_codec_def table_enc_def mcs_Sign_def Let_def)

theorem own_alive_messages_increase_witness:
  "\<exists>m1 m2 d1 d2. createSignedAliveMessage own_env 7 True example_disc = (Inr m1, d1) \<and>
     createSignedAliveMessage own_env 7 True d1 = (Inr m2, d2) \<and>
     NewGossipMessageComparator 0 m2 m1 = Some MessageInvalidates"
proof -
  have "example_disc\<lparr>di_seqNum := 0\<rparr> = example_disc"
    by (simp add: example_disc_def NewDiscoveryService_def example_peer_def)
  with own_create [of 1] obtain m1 where m1: "createSignedAliveMessage own_env 7 True example_disc = (Inr m1, example_disc\<lparr>di_seqNum := 1\<rparr>)"
    by auto
  from own_create [of 2] obtain m2 where
    m2: "createSignedAliveMessage own_env 7 True (example_disc\<lparr>di_seqNum := 1\<rparr>) = (Inr m2, example_disc\<lparr>di_seqNum := 2\<rparr>)"
    by auto
  have "NewGossipMessageComparator 0 m2 m1 = Some MessageInvalidates"
    using own_alive_messages_increase [OF m1 m2, of 0] by simp
  with m1 m2 show ?thesis by blast
qed

text \<open>The answer to a membership request: when the policy discloses this peer's own alive message to the
  requester, the response lists one envelope for each alive peer the policy discloses, in order, and this
  peer's own last, and one for each disclosed dead peer; otherwise there is no response. It never panics.\<close>

theorem createMembershipResponse_correct:
  assumes "disc_ok d" "policy_ok (de_disclosurePolicy env p)" "alive_ok m" "sg_Envelope m \<noteq> None"
  shows "\<exists>r m' d'. createMembershipResponse env m p d = Some (r, m', d') \<and> disc_ok d' \<and> status_of d' = status_of d \<and>
    (r = None \<longleftrightarrow> fst (de_disclosurePolicy env p) m = Some False) \<and>
    (\<forall>resp. r = Some resp \<longrightarrow>
       length (mr_Alive resp) = length (filter (\<lambda>(k, m). fst (de_disclosurePolicy env p) m = Some True) (di_aliveMembership d)) + 1 \<and>
       length (mr_Dead resp) = length (filter (\<lambda>(k, m). fst (de_disclosurePolicy env p) m = Some True) (di_deadMembership d)))"
proof -
  from response_total [OF assms] obtain r m' d' where
    r: "createMembershipResponse env m p d = Some (r, m', d')"
    "r = None \<longleftrightarrow> fst (de_disclosurePolicy env p) m = Some False"
    "\<forall>resp. r = Some resp \<longrightarrow>
       length (mr_Alive resp) = length (filter (\<lambda>(k, m). fst (de_disclosurePolicy env p) m = Some True) (di_aliveMembership d)) + 1 \<and>
       length (mr_Dead resp) = length (filter (\<lambda>(k, m). fst (de_disclosurePolicy env p) m = Some True) (di_deadMembership d))"
    by blast
  have "trans_ok (\<lambda>_. (=)) d d'" by (rule response_trans [OF assms(1,2) r(1)])
  moreover have "(=)\<^sup>*\<^sup>* x y \<Longrightarrow> y = x" for x y :: "string \<Rightarrow> status option"
    by (induction rule: rtranclp_induct) auto
  ultimately show ?thesis using r by (auto simp: trans_ok_def)
qed

theorem createMembershipResponse_correct_witness:
  "\<exists>resp m' d'. createMembershipResponse example_env (hello_from ''s'' 1) example_peer example_disc = Some (Some resp, m', d') \<and>
     length (mr_Alive resp) = 1"
proof -
  have pol: "policy_ok (de_disclosurePolicy example_env example_peer)"
    using example_policies by (simp add: policies_ok_def)
  have e: "sg_Envelope (hello_from ''s'' 1) \<noteq> None" by (simp add: hello_from_def)
  have "di_aliveMembership example_disc = []"
    by (simp add: example_disc_def NewDiscoveryService_def example_peer_def membership_defs)
  moreover have "fst (de_disclosurePolicy example_env example_peer) (hello_from ''s'' 1) = Some True"
    by (simp add: example_env_def)
  ultimately show ?thesis
    using createMembershipResponse_correct [OF example_disc_ok(1) pol hello_ok(1) e] by fastforce
qed

text \<open>A membership request whose self information is absent makes the handler dereference nil,
  whatever the state: one such message from the network stops the process.\<close>

theorem nil_self_information_panics:
  assumes "GetMemReq (sg_Msg (rm_msg rm)) = Some q" "mq_SelfInformation q = None"
  shows "handleMsgFromComm env now (Some rm) d = None"
  using assms by (simp add: handleMsgFromComm_def Let_def)

theorem nil_self_information_panics_witness:
  "handleMsgFromComm example_env 7 (Some \<lparr>rm_msg = \<lparr>sg_Envelope = None, sg_Msg = empty_msg\<lparr>gm_Content :=
     Some (MemReq \<lparr>mq_SelfInformation = None, mq_Known = []\<rparr>)\<rparr>\<rparr>, rm_ConnInfo = None\<rparr>) example_disc = None"
  by (rule nil_self_information_panics [where q = "\<lparr>mq_SelfInformation = None, mq_Known = []\<rparr>"])
     (simp_all add: getter_defs)

text \<open>An alive message without a time passes validation when its sender signed it, and handling it
  dereferences nil when its sender is not known yet.\<close>

theorem nil_time_panics:
  assumes "ValidateAliveMsg env now m d = (True, d1)"
    and "GetAliveMsg (sg_Msg m) = Some am" "am_Membership am = Some mem" "am_Timestamp am = None"
    and "str_of (mb_PkiId mem) \<noteq> str_of (p_PKIid (di_self d))" "\<not> map_has (di_id2Member d) (str_of (mb_PkiId mem))"
  shows "handleAliveMessage env now m d = None"
proof -
  from assms(1) obtain im where "d1 = d\<lparr>di_idMapper := im\<rparr>" by (rule ValidateAliveMsg_cases)
  then show ?thesis
    using assms by (simp add: handleAliveMessage_def learnNewMembers_def learn_alive_def bytes_eq_def Let_def)
qed

definition timeless :: SignedGossipMessage where
  "timeless = \<lparr>sg_Envelope = Some \<lparr>ev_Payload = Some ''p'', ev_Signature = Some ''p'', ev_SecretEnvelope = None\<rparr>,
      sg_Msg = \<lparr>gm_Nonce = 0, gm_Channel = None, gm_Tag = Tag_EMPTY,
        gm_Content = Some (AliveMsg \<lparr>am_Membership = Some \<lparr>mb_Endpoint = ''b'', mb_Metadata = None, mb_PkiId = Some ''b''\<rparr>,
          am_Timestamp = None, am_Identity = Some ''b''\<rparr>)\<rparr>\<rparr>"

theorem nil_time_panics_witness: "handleAliveMessage example_env 7 timeless example_disc = None"
proof -
  obtain b d1 where v: "ValidateAliveMsg example_env 7 timeless example_disc = (b, d1)" by (rule prod.exhaust)
  have "fst (ValidateAliveMsg example_env 7 timeless example_disc)"
    by (simp add: ValidateAliveMsg_def timeless_def getter_defs example_env_def example_disc_def NewDiscoveryService_def
        example_peer_def example_mapper_def IdMapper_Put_def Expiration_def ValidateIdType_def GetPKIidOfCert_def
        map_has_def second_def SignedGossipMessage_Verify_def mcs_Verify_self bytes_len_def Let_def split: prod.splits)
  with v have v: "ValidateAliveMsg example_env 7 timeless example_disc = (True, d1)" by simp
  show ?thesis
    by (rule nil_time_panics [OF v, where am = "\<lparr>am_Membership = Some \<lparr>mb_Endpoint = ''b'', mb_Metadata = None, mb_PkiId = Some ''b''\<rparr>,
          am_Timestamp = None, am_Identity = Some ''b''\<rparr>"
          and mem = "\<lparr>mb_Endpoint = ''b'', mb_Metadata = None, mb_PkiId = Some ''b''\<rparr>"])
       (simp_all add: timeless_def getter_defs example_disc_def NewDiscoveryService_def example_peer_def map_has_def)
qed

definition subscriptions :: "disc \<Rightarrow> nat" where
  "subscriptions d = length (filter (\<lambda>a. case a of OutSubscribe _ _ \<Rightarrow> True | _ \<Rightarrow> False) (di_out d))"

definition attempts :: "bool list \<Rightarrow> nat" where
  "attempts acks = length (takeWhile Not acks) + (if True \<in> set acks then 1 else 0)"

lemma SendToPeer_subs:
  assumes "SendToPeer env p m d = Some (m', d')"
  shows "subscriptions d' = subscriptions d \<and> di_toDieFlag d' = di_toDieFlag d"
proof (cases "di_stopping d \<or> GetMemReq (sg_Msg m) = None \<or> bytes_len (p_PKIid p) = 0")
  case True
  with assms show ?thesis
    by (auto simp: SendToPeer_def subscriptions_def out_def Let_def split: option.split_asm if_split_asm)
next
  case False
  then obtain q where q: "GetMemReq (sg_Msg m) = Some q" by auto
  with assms False obtain e where "mq_SelfInformation q = Some e" by (auto simp: SendToPeer_def bind_eq_Some_conv Let_def)
  with assms False q obtain x where x: "case NoopSign (de_codec env) x of
      (_, Some _) \<Rightarrow> d' = d | (sMsg, None) \<Rightarrow> d' = out (OutSend sMsg \<lparr>rp_Endpoint = PreferredEndpoint p, rp_PKIID = p_PKIid p\<rparr>) d"
    by (fastforce simp: SendToPeer_def bind_eq_Some_conv Let_def split: prod.splits option.splits)
  obtain sM err where "NoopSign (de_codec env) x = (sM, err)" by (rule prod.exhaust)
  with x show ?thesis by (cases err) (auto simp: subscriptions_def out_def)
qed

lemma resend_loop_subs:
  "sendUntilAcked_loop env n acks p m d = Some d' \<Longrightarrow> \<not> di_toDieFlag d \<Longrightarrow>
     subscriptions d' = subscriptions d + min n (attempts acks)"
proof (induction env n acks p m d arbitrary: d' rule: sendUntilAcked_loop.induct)
  case (3 env n acked acks p m d)
  let ?d1 = "out (OutSubscribe (fmt_u64 (gm_Nonce (sg_Msg m))) (5 * second)) d"
  from 3(2,3) obtain m1 d2 where s: "SendToPeer env p m ?d1 = Some (m1, d2)"
    and r: "(if acked then Some d2 else sendUntilAcked_loop env n acks p m1 d2) = Some d'"
    by (auto simp: bind_eq_Some_conv Let_def)
  have d1: "subscriptions ?d1 = Suc (subscriptions d)" "\<not> di_toDieFlag ?d1"
    using 3(3) by (simp_all add: subscriptions_def out_def)
  note d2 = SendToPeer_subs [OF s]
  show ?case
  proof (cases acked)
    case True
    with r d1 d2 show ?thesis by (simp add: attempts_def)
  next
    case False
    with 3(1) [OF 3(3) refl s refl False] r d1 d2 show ?thesis by (simp add: attempts_def)
  qed
qed (simp_all add: attempts_def)

text \<open>A request is resent until the first acknowledgement and at most \<open>MaxConnectionAttempts\<close> times: the
  number of subscriptions made is the number of attempts up to and including the first that is
  acknowledged, cut at that bound.\<close>

theorem sendUntilAcked_bounded:
  assumes "sendUntilAcked env acks p m d = Some d'" "\<not> di_toDieFlag d"
  shows "subscriptions d' = subscriptions d + min (de_MaxConnectionAttempts env) (attempts acks)"
  using resend_loop_subs assms by (simp add: sendUntilAcked_def)

theorem sendUntilAcked_bounded_witness:
  "\<exists>d'. sendUntilAcked example_env [False, True, True] example_peer (hello_from ''s'' 1) example_disc = Some d' \<and>
     subscriptions d' = 2"
proof -
  have f: "\<not> di_toDieFlag example_disc" "subscriptions example_disc = 0" "\<not> di_stopping example_disc"
    by (simp_all add: example_disc_def NewDiscoveryService_def example_peer_def subscriptions_def)
  have "\<exists>d'. sendUntilAcked example_env [False, True, True] example_peer (hello_from ''s'' 1) example_disc = Some d'"
    using f by (simp add: sendUntilAcked_def example_env_def numeral_3_eq_3 SendToPeer_def hello_from_def getter_defs out_def)
  then obtain d' where d': "sendUntilAcked example_env [False, True, True] example_peer (hello_from ''s'' 1) example_disc = Some d'" by blast
  from sendUntilAcked_bounded [OF d' f(1)] f(2) d' show ?thesis
    by (auto simp: attempts_def example_env_def)
qed

end
