(* ===== verification/Sets.thy ===== *)
theory Sets
  imports Util
begin

text \<open>
  The type \<open>Set\<close> of common.go: a map from items to the empty struct behind a lock. Its
  contract is a locale over the set of its elements, which the pull engine's nonces and
  items and the subscriptions of the publisher rely on.
\<close>

section \<open>Operations\<close>

definition NewSet :: "'a goset" where
  "NewSet = []"

definition Set_Add :: "'a \<Rightarrow> 'a goset \<Rightarrow> 'a goset" where
  "Set_Add item s = map_put item () s"

definition Set_Exists :: "'a goset \<Rightarrow> 'a \<Rightarrow> bool" where
  "Set_Exists s item = map_has s item"

definition Set_Size :: "'a goset \<Rightarrow> nat" where
  "Set_Size s = length s"

text \<open>\<open>ToArray\<close> lists the keys in the order of the range.\<close>

definition Set_ToArray :: "'a goset \<Rightarrow> 'a list" where
  "Set_ToArray s = map fst s"

definition Set_Clear :: "'a goset \<Rightarrow> 'a goset" where
  "Set_Clear s = []"

definition Set_Remove :: "'a \<Rightarrow> 'a goset \<Rightarrow> 'a goset" where
  "Set_Remove item s = map_del item s"

lemmas set_defs = NewSet_def Set_Add_def Set_Exists_def Set_Size_def Set_ToArray_def Set_Clear_def Set_Remove_def

section \<open>The contract\<close>

locale set_contract =
  fixes empty :: 's
    and add :: "'a \<Rightarrow> 's \<Rightarrow> 's"
    and rem :: "'a \<Rightarrow> 's \<Rightarrow> 's"
    and member :: "'s \<Rightarrow> 'a \<Rightarrow> bool"
    and items :: "'s \<Rightarrow> 'a list"
    and wf :: "'s \<Rightarrow> bool"
  assumes empty_wf: "wf empty"
    and add_wf: "wf s \<Longrightarrow> wf (add x s)"
    and rem_wf: "wf s \<Longrightarrow> wf (rem x s)"
    and member_empty: "\<not> member empty x"
    and member_add: "wf s \<Longrightarrow> member (add x s) y \<longleftrightarrow> y = x \<or> member s y"
    and member_rem: "wf s \<Longrightarrow> member (rem x s) y \<longleftrightarrow> y \<noteq> x \<and> member s y"
    and items_member: "wf s \<Longrightarrow> set (items s) = Collect (member s)"
    and items_distinct: "wf s \<Longrightarrow> distinct (items s)"
begin

lemma wf_adds: "wf s \<Longrightarrow> wf (fold add xs s)"
  by (induction xs arbitrary: s) (auto simp: add_wf)

lemma member_adds: "wf s \<Longrightarrow> member (fold add xs s) y \<longleftrightarrow> y \<in> set xs \<or> member s y"
  by (induction xs arbitrary: s) (auto simp: add_wf member_add)

lemma items_adds: "wf s \<Longrightarrow> set (items (fold add xs s)) = set xs \<union> set (items s)"
  by (auto simp: wf_adds items_member member_adds)

lemma rem_absent: "wf s \<Longrightarrow> \<not> member s x \<Longrightarrow> member (rem x s) = member s"
  by (auto simp: fun_eq_iff member_rem)

end

interpretation goset: set_contract NewSet Set_Add Set_Remove Set_Exists Set_ToArray map_wf
proof unfold_locales
  fix s :: "'a goset" and x y :: 'a
  assume "map_wf s"
  then show "Set_Exists (Set_Add x s) y \<longleftrightarrow> y = x \<or> Set_Exists s y"
    "Set_Exists (Set_Remove x s) y \<longleftrightarrow> y \<noteq> x \<and> Set_Exists s y"
    by (auto simp: set_defs map_has_def)
qed (auto simp: set_defs map_has_iff map_keys)

lemma Set_Exists_simps [simp]:
  "Set_Exists (Set_Add x s) y \<longleftrightarrow> y = x \<or> Set_Exists s y"
  "Set_Exists (Set_Remove x s) y \<longleftrightarrow> y \<noteq> x \<and> Set_Exists s y"
  "\<not> Set_Exists (Set_Clear s) y" "\<not> Set_Exists NewSet y"
  by (auto simp: set_defs map_has_def)

lemma Set_wf [simp]:
  "map_wf s \<Longrightarrow> map_wf (Set_Add x s)" "map_wf s \<Longrightarrow> map_wf (Set_Remove x s)" "map_wf (Set_Clear s)" "map_wf NewSet"
  by (auto simp: set_defs)

lemma Set_ToArray_set [simp]: "set (Set_ToArray s) = {x. Set_Exists s x}"
  by (auto simp: set_defs map_has_iff map_keys)

lemma Set_Size_card: "map_wf s \<Longrightarrow> Set_Size s = card {x. Set_Exists s x}"
  by (simp add: set_defs map_size_card map_has_iff Collect_mem_eq)

lemma Set_Size_0: "Set_Size s = 0 \<longleftrightarrow> (\<forall>x. \<not> Set_Exists s x)"
  by (cases s) (auto simp: set_defs map_has_def)

end
