(* ===== verification/Pull.thy ===== *)
theory Pull
  imports Crypto Sets
begin

text \<open>
  The pull protocol (PullMediator and pullEngine of channel.go): a round sends a hello with a
  fresh nonce to random peers, collects the digests they answer with, asks one owner of every
  item it lacks for it, and stores what arrives. The state of a mediator and of its engine is
  one record; what the code sends, responds, consumes and starts (goroutines, timers) is a list
  of outputs in order. Membership, random draws and the adapter's functions are arguments.
\<close>

section \<open>The state\<close>

datatype MsgType = HelloMsgType | DigestMsgType | RequestMsgType | ResponseMsgType

record PullMediatorConfig =
  pc_ID :: string
  pc_PullInterval :: duration
  pc_Channel :: bytes
  pc_PeerCountToSelect :: int
  pc_Tag :: Tag
  pc_MsgType :: PullMsgType

text \<open>The functions of an adapter; a nil one is \<open>None\<close>.\<close>

record PullAdapter =
  pa_IdExtractor :: "SignedGossipMessage \<Rightarrow> string"
  pa_EgressDigFilter :: "(ReceivedMessage \<Rightarrow> string \<Rightarrow> bool) option"
  pa_IngressDigFilter :: "(DataDigest \<Rightarrow> DataDigest) option"

text \<open>The engine's set holds values of any type: the code adds strings and removes runes.\<close>

datatype set_item = IStr string | IRune nat

text \<open>A hook is known by its number.\<close>

record pull =
  pu_config :: PullMediatorConfig
  pu_msgType2Hook :: "(MsgType, nat list) gomap"
  pu_itemID2Msg :: "(string, SignedGossipMessage) gomap"
  en_stopFlag :: bool
  en_state :: "set_item goset"
  en_item2owners :: "(string, string list) gomap"
  en_peers2nonces :: "(string, u64) gomap"
  en_nonces2peers :: "(u64, string) gomap"
  en_acceptingDigests :: bool
  en_acceptingResponses :: bool
  en_outgoingNONCES :: "u64 goset"
  en_incomingNONCES :: "u64 goset"
  en_digestFilter :: "ReceivedMessage \<Rightarrow> string \<Rightarrow> bool"

text \<open>
  What the mediator does to the outside: a send to peers, a response on the connection of a
  received message, a message for the consumer, a hook's call, a goroutine that will send a
  response, and the three timers.
\<close>

datatype pull_out =
    Pull_Send SignedGossipMessage "RemotePeer list"
  | Pull_Respond ReceivedMessage GossipMessage
  | Pull_Consume SignedGossipMessage
  | Pull_Hook nat "string list" "SignedGossipMessage list"
  | Pull_GoSendRes "string list" ReceivedMessage u64
  | Pull_AfterRequestWait u64
  | Pull_AfterDigestWait
  | Pull_AfterResponseWait

definition NewPullMediator :: "PullMediatorConfig \<Rightarrow> PullAdapter \<Rightarrow> PullAdapter \<times> pull" where
  "NewPullMediator config adapter =
     (let egressDigFilter =
        (case pa_EgressDigFilter adapter of None \<Rightarrow> (\<lambda>_ _. True) | Some f \<Rightarrow> f)
      in (adapter\<lparr>pa_IngressDigFilter :=
            Some (case pa_IngressDigFilter adapter of None \<Rightarrow> (\<lambda>d. d) | Some f \<Rightarrow> f)\<rparr>,
          \<lparr>pu_config = config, pu_msgType2Hook = [], pu_itemID2Msg = [], en_stopFlag = False,
           en_state = NewSet, en_item2owners = [], en_peers2nonces = [], en_nonces2peers = [],
           en_acceptingDigests = False, en_acceptingResponses = False,
           en_outgoingNONCES = NewSet, en_incomingNONCES = NewSet,
           en_digestFilter = egressDigFilter\<rparr>))"

section \<open>Operations of the mediator\<close>

definition RegisterMsgHook :: "MsgType \<Rightarrow> nat \<Rightarrow> pull \<Rightarrow> pull" where
  "RegisterMsgHook t h p =
     (let hs = (case map_get (pu_msgType2Hook p) t of None \<Rightarrow> [] | Some hs \<Rightarrow> hs)
      in p\<lparr>pu_msgType2Hook := map_put t (hs @ [h]) (pu_msgType2Hook p)\<rparr>)"

definition hooksByMsgType :: "pull \<Rightarrow> MsgType \<Rightarrow> nat list" where
  "hooksByMsgType p t = (case map_get (pu_msgType2Hook p) t of None \<Rightarrow> [] | Some hs \<Rightarrow> hs)"

definition PullMediator_Add :: "PullAdapter \<Rightarrow> SignedGossipMessage \<Rightarrow> pull \<Rightarrow> pull" where
  "PullMediator_Add ad msg p =
     (let itemID = pa_IdExtractor ad msg
      in p\<lparr>pu_itemID2Msg := map_put itemID msg (pu_itemID2Msg p),
           en_state := Set_Add (IStr itemID) (en_state p)\<rparr>)"

text \<open>
  Ranging over a Go string gives its runes: the bytes are decoded as UTF-8, and a byte that
  starts no valid encoding gives the replacement character.
\<close>

definition cont_byte :: "nat \<Rightarrow> bool" where
  "cont_byte b \<longleftrightarrow> 0x80 \<le> b \<and> b \<le> 0xBF"

definition decode_rune :: "nat list \<Rightarrow> nat \<times> nat" where
  "decode_rune bs =
     (case bs of
        b0 # rest \<Rightarrow>
          if b0 < 0x80 then (b0, 1)
          else (case rest of
            b1 # rest1 \<Rightarrow>
              if 0xC2 \<le> b0 \<and> b0 \<le> 0xDF \<and> cont_byte b1
              then ((b0 - 0xC0) * 64 + (b1 - 0x80), 2)
              else (case rest1 of
                b2 # rest2 \<Rightarrow>
                  if 0xE0 \<le> b0 \<and> b0 \<le> 0xEF \<and> cont_byte b1 \<and> cont_byte b2 \<and>
                     (b0 = 0xE0 \<longrightarrow> 0xA0 \<le> b1) \<and> (b0 = 0xED \<longrightarrow> b1 \<le> 0x9F)
                  then ((b0 - 0xE0) * 4096 + (b1 - 0x80) * 64 + (b2 - 0x80), 3)
                  else (case rest2 of
                    b3 # _ \<Rightarrow>
                      if 0xF0 \<le> b0 \<and> b0 \<le> 0xF4 \<and> cont_byte b1 \<and> cont_byte b2 \<and> cont_byte b3 \<and>
                         (b0 = 0xF0 \<longrightarrow> 0x90 \<le> b1) \<and> (b0 = 0xF4 \<longrightarrow> b1 \<le> 0x8F)
                      then ((b0 - 0xF0) * 262144 + (b1 - 0x80) * 4096 + (b2 - 0x80) * 64 + (b3 - 0x80), 4)
                      else (0xFFFD, 1)
                  | [] \<Rightarrow> (0xFFFD, 1))
              | [] \<Rightarrow> (0xFFFD, 1))
          | [] \<Rightarrow> (0xFFFD, 1))
      | [] \<Rightarrow> (0xFFFD, 1))"

function runes_of :: "nat list \<Rightarrow> nat list" where
  "runes_of bs = (if bs = [] then [] else fst (decode_rune bs) # runes_of (drop (snd (decode_rune bs)) bs))"
  by pat_completeness auto
termination
  by (relation "measure length")
    (auto simp: decode_rune_def split: list.splits)

declare runes_of.simps [simp del]

definition runes :: "string \<Rightarrow> nat list" where
  "runes s = runes_of (map of_char s)"

definition PullMediator_Remove :: "string \<Rightarrow> pull \<Rightarrow> pull" where
  "PullMediator_Remove digest p =
     p\<lparr>pu_itemID2Msg := map_del digest (pu_itemID2Msg p),
       en_state := fold (\<lambda>seq. Set_Remove (IRune seq)) (runes digest) (en_state p)\<rparr>"

text \<open>The peers of a round; \<open>None\<close> when the draws run out.\<close>

definition PullMediator_SelectPeers :: "u64 list \<Rightarrow> Peer list \<Rightarrow> pull \<Rightarrow> string list option" where
  "PullMediator_SelectPeers draws peerPool p =
     (let k = pc_PeerCountToSelect (pu_config p);
          k = (if int (length peerPool) < k then int (length peerPool) else k)
      in map_option (map (\<lambda>j. PreferredEndpoint (peerPool ! nat j)))
           (GetRandomIndices draws k (int (length peerPool) - 1)))"

definition peersWithEndpoints :: "Peer list \<Rightarrow> string list \<Rightarrow> RemotePeer list" where
  "peersWithEndpoints membership endpoints =
     concat (map (\<lambda>peer. map (\<lambda>_. remote_of peer)
       (filter (\<lambda>endpoint. PreferredEndpoint peer = endpoint) endpoints)) membership)"

definition hello_msg :: "PullMediatorConfig \<Rightarrow> u64 \<Rightarrow> GossipMessage" where
  "hello_msg cf nonce = \<lparr>gm_Nonce = 0, gm_Channel = pc_Channel cf, gm_Tag = pc_Tag cf,
     gm_Content = Some (HelloMsg \<lparr>gh_Nonce = nonce, gh_Metadata = None, gh_MsgType = pc_MsgType cf\<rparr>)\<rparr>"

definition digest_msg :: "PullMediatorConfig \<Rightarrow> string list \<Rightarrow> u64 \<Rightarrow> GossipMessage" where
  "digest_msg cf digest nonce = \<lparr>gm_Nonce = 0, gm_Channel = pc_Channel cf, gm_Tag = pc_Tag cf,
     gm_Content = Some (DataDig \<lparr>dd_Nonce = nonce, dd_Digests = StringsToBytes digest, dd_MsgType = pc_MsgType cf\<rparr>)\<rparr>"

definition request_msg :: "PullMediatorConfig \<Rightarrow> string list \<Rightarrow> u64 \<Rightarrow> GossipMessage" where
  "request_msg cf items nonce = \<lparr>gm_Nonce = 0, gm_Channel = pc_Channel cf, gm_Tag = pc_Tag cf,
     gm_Content = Some (DataReq \<lparr>dr_Nonce = nonce, dr_Digests = StringsToBytes items, dr_MsgType = pc_MsgType cf\<rparr>)\<rparr>"

definition update_msg :: "PullMediatorConfig \<Rightarrow> Envelope option list \<Rightarrow> u64 \<Rightarrow> GossipMessage" where
  "update_msg cf items nonce = \<lparr>gm_Nonce = 0, gm_Channel = pc_Channel cf, gm_Tag = pc_Tag cf,
     gm_Content = Some (DataUpdateMsg \<lparr>du_Nonce = nonce, du_Data = items, du_MsgType = pc_MsgType cf\<rparr>)\<rparr>"

text \<open>A message that does not marshal is dropped.\<close>

definition PullMediator_Hello :: "codec \<Rightarrow> Peer list \<Rightarrow> string \<Rightarrow> u64 \<Rightarrow> pull \<Rightarrow> pull_out list" where
  "PullMediator_Hello c membership dest nonce p =
     (case NoopSign c (hello_msg (pu_config p) nonce) of
        (_, Some err) \<Rightarrow> []
      | (sMsg, None) \<Rightarrow> [Pull_Send sMsg (peersWithEndpoints membership [dest])])"

definition SendDigest :: "string list \<Rightarrow> u64 \<Rightarrow> ReceivedMessage \<Rightarrow> pull \<Rightarrow> pull_out list" where
  "SendDigest digest nonce ctx p = [Pull_Respond ctx (digest_msg (pu_config p) digest nonce)]"

definition SendReq :: "codec \<Rightarrow> Peer list \<Rightarrow> string \<Rightarrow> string list \<Rightarrow> u64 \<Rightarrow> pull \<Rightarrow> pull_out list" where
  "SendReq c membership dest items nonce p =
     (case NoopSign c (request_msg (pu_config p) items nonce) of
        (_, Some err) \<Rightarrow> []
      | (sMsg, None) \<Rightarrow> [Pull_Send sMsg (peersWithEndpoints membership [dest])])"

definition SendRes :: "string list \<Rightarrow> ReceivedMessage \<Rightarrow> u64 \<Rightarrow> pull \<Rightarrow> pull_out list" where
  "SendRes items ctx nonce p =
     [Pull_Respond ctx (update_msg (pu_config p)
        (map sg_Envelope (List.map_filter (map_get (pu_itemID2Msg p)) items)) nonce)]"

section \<open>Operations of the engine\<close>

definition pull_Stop :: "pull \<Rightarrow> pull" where
  "pull_Stop p = p\<lparr>en_stopFlag := True\<rparr>"

text \<open>
  \<open>onDigest\<close> tests its guards before it takes the engine's lock, so the two parts are separate:
  a round may end between them. A nonce the map lacks gives the empty string.
\<close>

definition nonce_peer :: "pull \<Rightarrow> u64 \<Rightarrow> string" where
  "nonce_peer p nonce = (case map_get (en_nonces2peers p) nonce of None \<Rightarrow> [] | Some peer \<Rightarrow> peer)"

definition onDigest_guard :: "u64 \<Rightarrow> pull \<Rightarrow> bool" where
  "onDigest_guard nonce p \<longleftrightarrow> \<not> (\<not> en_acceptingDigests p \<or> \<not> Set_Exists (en_outgoingNONCES p) nonce)"

definition digest_item :: "u64 \<Rightarrow> string \<Rightarrow> pull \<Rightarrow> pull" where
  "digest_item nonce n p =
     (if Set_Exists (en_state p) (IStr n) then p
      else (let owners = (case map_get (en_item2owners p) n of None \<Rightarrow> [] | Some os \<Rightarrow> os)
            in p\<lparr>en_item2owners := map_put n (owners @ [nonce_peer p nonce]) (en_item2owners p)\<rparr>))"

definition onDigest_locked :: "string list \<Rightarrow> u64 \<Rightarrow> pull \<Rightarrow> pull" where
  "onDigest_locked digest nonce p = fold (digest_item nonce) digest p"

definition onDigest :: "string list \<Rightarrow> u64 \<Rightarrow> pull \<Rightarrow> pull" where
  "onDigest digest nonce p = (if onDigest_guard nonce p then onDigest_locked digest nonce p else p)"

text \<open>\<open>item.(string)\<close> panics on an item that is no string.\<close>

fun digest_loop :: "(string \<Rightarrow> bool) \<Rightarrow> set_item list \<Rightarrow> string list option" where
  "digest_loop f [] = Some []"
| "digest_loop f (IRune r # xs) = None"
| "digest_loop f (IStr dig # xs) =
     map_option (\<lambda>ds. if \<not> f dig then ds else dig # ds) (digest_loop f xs)"

definition onHello :: "u64 \<Rightarrow> ReceivedMessage \<Rightarrow> pull \<Rightarrow> (pull \<times> pull_out list) option" where
  "onHello nonce ctx p =
     (let p1 = p\<lparr>en_incomingNONCES := Set_Add nonce (en_incomingNONCES p)\<rparr>
      in case digest_loop (en_digestFilter p1 ctx) (Set_ToArray (en_state p1)) of
           None \<Rightarrow> None
         | Some digest \<Rightarrow>
             Some (p1, Pull_AfterRequestWait nonce #
               (if length digest = 0 then [] else SendDigest digest nonce ctx p1)))"

text \<open>The timer \<open>onHello\<close> starts.\<close>

definition requestWait_fires :: "u64 \<Rightarrow> pull \<Rightarrow> pull" where
  "requestWait_fires nonce p = p\<lparr>en_incomingNONCES := Set_Remove nonce (en_incomingNONCES p)\<rparr>"

definition onReq :: "string list \<Rightarrow> u64 \<Rightarrow> ReceivedMessage \<Rightarrow> pull \<Rightarrow> pull_out list" where
  "onReq items nonce ctx p =
     (if \<not> Set_Exists (en_incomingNONCES p) nonce then []
      else (let items2Send = filter (\<lambda>item. Set_Exists (en_state p) (IStr item) \<and> en_digestFilter p ctx item) items
            in if length items2Send = 0 then [] else [Pull_GoSendRes items2Send ctx nonce]))"

definition onRes :: "string list \<Rightarrow> u64 \<Rightarrow> pull \<Rightarrow> pull" where
  "onRes items nonce p =
     (if \<not> Set_Exists (en_outgoingNONCES p) nonce \<or> \<not> en_acceptingResponses p then p
      else p\<lparr>en_state := fold (\<lambda>seq. Set_Add (IStr seq)) items (en_state p)\<rparr>)"

text \<open>The loop of \<open>newNONCE\<close> on a list of draws: the nonce and what is left of the draws.\<close>

fun newNONCE :: "u64 goset \<Rightarrow> u64 list \<Rightarrow> (u64 \<times> u64 list) option" where
  "newNONCE used [] = None"
| "newNONCE used (n # ns) = (if \<not> Set_Exists used n then Some (n, ns) else newNONCE used ns)"

text \<open>
  One peer of the loop of \<open>initiatePull\<close>. What \<open>GetMembership\<close> gives when the hello with a nonce is
  sent is a function of the nonce.
\<close>

definition hello_peer ::
  "codec \<Rightarrow> (u64 \<Rightarrow> Peer list) \<Rightarrow> string \<Rightarrow> pull \<times> u64 list \<times> pull_out list \<Rightarrow> (pull \<times> u64 list \<times> pull_out list) option" where
  "hello_peer c mem peer = (\<lambda>(p, draws, outs).
     (case newNONCE (en_outgoingNONCES p) draws of
        None \<Rightarrow> None
      | Some (nonce, draws') \<Rightarrow>
          (let p' = p\<lparr>en_outgoingNONCES := Set_Add nonce (en_outgoingNONCES p),
                      en_nonces2peers := map_put nonce peer (en_nonces2peers p),
                      en_peers2nonces := map_put peer nonce (en_peers2nonces p)\<rparr>
           in Some (p', draws', outs @ PullMediator_Hello c (mem nonce) peer nonce p'))))"

definition initiatePull ::
  "codec \<Rightarrow> u64 list \<Rightarrow> Peer list \<Rightarrow> (u64 \<Rightarrow> Peer list) \<Rightarrow> u64 list \<Rightarrow> pull \<Rightarrow> (pull \<times> pull_out list) option" where
  "initiatePull c idraws peerPool mem draws p =
     do {
       peers \<leftarrow> PullMediator_SelectPeers idraws peerPool p;
       (p', _, outs) \<leftarrow> foldM (hello_peer c mem) peers (p\<lparr>en_acceptingDigests := True\<rparr>, draws, []);
       Some (p', outs @ [Pull_AfterDigestWait])
     }"

text \<open>
  The timer of \<open>initiatePull\<close>: one source for every item (\<open>pick\<close> draws for an item), the items
  grouped by source, and a request to every source. \<open>None\<close> is the panic of \<open>RandomInt(0)\<close>.
\<close>

definition choose_source :: "(string \<Rightarrow> u64) \<Rightarrow> string \<Rightarrow> string list \<Rightarrow> string option" where
  "choose_source pick n sources =
     map_option (\<lambda>i. sources ! nat i) (RandomInt (pick n) (int (length sources)))"

definition request_item ::
  "(string \<Rightarrow> u64) \<Rightarrow> string \<times> string list \<Rightarrow> (string, string list) gomap \<Rightarrow> (string, string list) gomap option" where
  "request_item pick = (\<lambda>(n, sources) mapping.
     map_option (\<lambda>source.
        map_put source ((case map_get mapping source of None \<Rightarrow> [] | Some ns \<Rightarrow> ns) @ [n]) mapping)
       (choose_source pick n sources))"

definition requestMapping :: "(string \<Rightarrow> u64) \<Rightarrow> pull \<Rightarrow> (string, string list) gomap option" where
  "requestMapping pick p = foldM (request_item pick) (en_item2owners p) []"

definition peer_nonce :: "pull \<Rightarrow> string \<Rightarrow> u64" where
  "peer_nonce p dest = (case map_get (en_peers2nonces p) dest of None \<Rightarrow> 0 | Some n \<Rightarrow> n)"

definition digestWait_fires ::
  "codec \<Rightarrow> (string \<Rightarrow> Peer list) \<Rightarrow> (string \<Rightarrow> u64) \<Rightarrow> pull \<Rightarrow> (pull \<times> pull_out list) option" where
  "digestWait_fires c mem pick p =
     (let p1 = p\<lparr>en_acceptingDigests := False\<rparr>
      in case requestMapping pick p1 of
           None \<Rightarrow> None
         | Some mapping \<Rightarrow>
             (let p2 = p1\<lparr>en_acceptingResponses := True\<rparr>
              in Some (p2, concat (map (\<lambda>(dest, seqsToReq).
                     SendReq c (mem dest) dest seqsToReq (peer_nonce p2 dest) p2) mapping) @ [Pull_AfterResponseWait])))"

definition endPull :: "pull \<Rightarrow> pull" where
  "endPull p = p\<lparr>en_acceptingResponses := False, en_outgoingNONCES := Set_Clear (en_outgoingNONCES p),
     en_item2owners := [], en_peers2nonces := [], en_nonces2peers := []\<rparr>"

section \<open>Messages of remote peers\<close>

text \<open>
  The loop over the data of an update: the consumer and the extractor see every message in turn.
  A nil envelope panics (\<open>None\<close>); one that does not unmarshal returns from the handler, after what
  the earlier ones have done (the flag is then \<open>False\<close>).
\<close>

fun update_loop ::
  "codec \<Rightarrow> PullAdapter \<Rightarrow> Envelope option list \<Rightarrow> pull \<times> (string \<times> SignedGossipMessage) list \<Rightarrow>
   (bool \<times> pull \<times> (string \<times> SignedGossipMessage) list) option" where
  "update_loop c ad [] (p, done) = Some (True, p, done)"
| "update_loop c ad (e # es) (p, done) =
     (case e of
        None \<Rightarrow> None
      | Some ev \<Rightarrow>
          (case ToGossipMessage c ev of
             Inl _ \<Rightarrow> Some (False, p, done)
           | Inr msg \<Rightarrow>
               (let itemID = pa_IdExtractor ad msg
                in update_loop c ad es
                     (p\<lparr>pu_itemID2Msg := map_put itemID msg (pu_itemID2Msg p)\<rparr>, done @ [(itemID, msg)]))))"

definition run_hooks :: "MsgType \<Rightarrow> string list \<Rightarrow> SignedGossipMessage list \<Rightarrow> pull \<Rightarrow> pull_out list" where
  "run_hooks t itemIDs items p = map (\<lambda>h. Pull_Hook h itemIDs items) (hooksByMsgType p t)"

text \<open>
  \<open>HandleMessage\<close>. The content of a message is of one kind, so one branch runs. The hooks get no
  items unless the message is an update. An update's messages are consumed and stored before
  its nonce is looked at.
\<close>

definition PullMediator_HandleMessage ::
  "codec \<Rightarrow> PullAdapter \<Rightarrow> ReceivedMessage \<Rightarrow> pull \<Rightarrow> (pull \<times> pull_out list) option" where
  "PullMediator_HandleMessage c ad m p =
     (let msg = sg_Msg (rm_msg m) in
      if \<not> IsPullMsg msg then Some (p, [])
      else if GetPullMsgType msg \<noteq> pc_MsgType (pu_config p) then Some (p, [])
      else (case gm_Content msg of
        Some (HelloMsg h) \<Rightarrow> do {
          (p', outs) \<leftarrow> onHello (gh_Nonce h) m p;
          Some (p', outs @ run_hooks HelloMsgType [] [] p')
        }
      | Some (DataDig digest) \<Rightarrow> do {
          f \<leftarrow> pa_IngressDigFilter ad;
          (let d = f digest;
               itemIDs = BytesToStrings (dd_Digests d);
               p' = onDigest itemIDs (dd_Nonce d) p
           in Some (p', run_hooks DigestMsgType itemIDs [] p'))
        }
      | Some (DataReq req) \<Rightarrow>
          (let itemIDs = BytesToStrings (dr_Digests req)
           in Some (p, onReq itemIDs (dr_Nonce req) m p @ run_hooks RequestMsgType itemIDs [] p))
      | Some (DataUpdateMsg res) \<Rightarrow> do {
          (ok, p1, done) \<leftarrow> update_loop c ad (du_Data res) (p, []);
          (let consumed = map (\<lambda>(_, msg). Pull_Consume msg) done in
           if \<not> ok then Some (p1, consumed)
           else (let itemIDs = map fst done;
                     p2 = onRes itemIDs (du_Nonce res) p1
                 in Some (p2, consumed @ run_hooks ResponseMsgType itemIDs (map snd done) p2)))
        }
      | _ \<Rightarrow> Some (p, [])))"

section \<open>The pullers of the program\<close>

text \<open>
  The puller of blocks (\<open>createBlockPuller\<close>): an item is a sequence number in decimal, and of a
  digest only the numbers from the ledger's height on count.
\<close>

definition seqNumFromMsg :: "SignedGossipMessage \<Rightarrow> string" where
  "seqNumFromMsg msg =
     (case GetDataMsg (sg_Msg msg) of
        None \<Rightarrow> []
      | Some dataMsg \<Rightarrow> (case dm_Payload dataMsg of None \<Rightarrow> [] | Some pl \<Rightarrow> fmt_u64 (pl_SeqNum pl)))"

definition block_IngressDigFilter :: "u64 \<Rightarrow> DataDigest \<Rightarrow> DataDigest" where
  "block_IngressDigFilter height digestMsg =
     digestMsg\<lparr>dd_Digests := filter (\<lambda>d.
        (case parse_uint (str_of d) of Inl _ \<Rightarrow> False | Inr seqNum \<Rightarrow> height \<le> seqNum)) (dd_Digests digestMsg)\<rparr>"

definition block_adapter :: "u64 \<Rightarrow> PullAdapter" where
  "block_adapter height = \<lparr>pa_IdExtractor = seqNumFromMsg, pa_EgressDigFilter = None,
     pa_IngressDigFilter = Some (block_IngressDigFilter height)\<rparr>"

definition block_puller_config :: "string \<Rightarrow> string \<Rightarrow> int \<Rightarrow> duration \<Rightarrow> PullMediatorConfig" where
  "block_puller_config chainID confID pullPeerNum interval = \<lparr>pc_ID = confID, pc_PullInterval = interval, pc_Channel = Some chainID,
     pc_PeerCountToSelect = pullPeerNum, pc_Tag = Tag_CHAN_AND_ORG, pc_MsgType = PullMsgType_BLOCK_MSG\<rparr>"

definition createBlockPuller :: "string \<Rightarrow> string \<Rightarrow> int \<Rightarrow> duration \<Rightarrow> u64 \<Rightarrow> PullAdapter \<times> pull" where
  "createBlockPuller chainID confID pullPeerNum interval height =
     NewPullMediator (block_puller_config chainID confID pullPeerNum interval) (block_adapter height)"

text \<open>
  The puller of identities (\<open>createCertStorePuller\<close>): an item is a PKI id. What its filter asks of
  the gossip service, the organisation of a peer by its identity and by its PKI id and whether it
  has an external endpoint, are arguments; \<open>msg.ConnInfo\<close> is dereferenced.
\<close>

definition pkiIDFromMsg :: "SignedGossipMessage \<Rightarrow> string" where
  "pkiIDFromMsg msg =
     (case GetPeerIdentity (sg_Msg msg) of
        None \<Rightarrow> []
      | Some idMsg \<Rightarrow> (case pi_PkiId idMsg of None \<Rightarrow> [] | Some s \<Rightarrow> s))"

definition sameOrgOrOurOrgPullFilter ::
  "(bytes \<Rightarrow> bytes) \<Rightarrow> bytes \<Rightarrow> (bytes \<Rightarrow> bytes) \<Rightarrow> (bytes \<Rightarrow> bool) \<Rightarrow> ConnectionInfo \<Rightarrow> string \<Rightarrow> bool" where
  "sameOrgOrOurOrgPullFilter orgByPeerId selfOrg getOrgOfPeer hasExternalEndpoint ci item =
     (let peersOrg = orgByPeerId (ci_Id ci) in
      if bytes_len peersOrg = 0 then False
      else if bytes_eq selfOrg peersOrg then True
      else (let pkiID = Some item; msgsOrg = getOrgOfPeer pkiID in
            if bytes_len msgsOrg = 0 then False
            else if \<not> hasExternalEndpoint pkiID then False
            else bytes_eq msgsOrg selfOrg \<or> bytes_eq msgsOrg peersOrg))"

definition cert_puller_config :: "string \<Rightarrow> int \<Rightarrow> duration \<Rightarrow> PullMediatorConfig" where
  "cert_puller_config confID pullPeerNum interval = \<lparr>pc_ID = confID, pc_PullInterval = interval, pc_Channel = Some [], pc_PeerCountToSelect = pullPeerNum,
     pc_Tag = Tag_EMPTY, pc_MsgType = PullMsgType_IDENTITY_MSG\<rparr>"

end
