(* ===== verification/PullProps.thy ===== *)
theory PullProps
  imports Pull
begin

text \<open>
  The pull protocol's correctness: the invariant of a mediator and its engine over every
  interleaving of its handlers, timers and rounds (with \<open>onDigest\<close> split at its lock), the
  functional behaviour of each phase of a round, and a whole exchange between two engines.
\<close>

section \<open>The phases of a round\<close>

lemma map_get_fold_digest:
  "map_get (en_item2owners (fold (digest_item nonce) ns p)) n =
     (if Set_Exists (en_state p) (IStr n) \<or> n \<notin> set ns then map_get (en_item2owners p) n
      else Some ((case map_get (en_item2owners p) n of None \<Rightarrow> [] | Some os \<Rightarrow> os) @
             replicate (count_list ns n) (nonce_peer p nonce)))"
proof (induction ns arbitrary: p)
  case (Cons k ns)
  have fields: "en_state (digest_item nonce k p) = en_state p"
    "nonce_peer (digest_item nonce k p) nonce = nonce_peer p nonce"
    by (simp_all add: digest_item_def nonce_peer_def Let_def)
  show ?case
    unfolding fold_simps(2) Cons.IH fields
    by (auto simp: digest_item_def Let_def count_list_0_iff replicate_append_same [symmetric] split: option.splits)
qed simp

lemma digest_item_fields [simp]:
  "en_state (digest_item nonce k p) = en_state p"
  "en_nonces2peers (digest_item nonce k p) = en_nonces2peers p"
  "en_peers2nonces (digest_item nonce k p) = en_peers2nonces p"
  "en_outgoingNONCES (digest_item nonce k p) = en_outgoingNONCES p"
  "en_incomingNONCES (digest_item nonce k p) = en_incomingNONCES p"
  "en_acceptingDigests (digest_item nonce k p) = en_acceptingDigests p"
  "en_acceptingResponses (digest_item nonce k p) = en_acceptingResponses p"
  "en_digestFilter (digest_item nonce k p) = en_digestFilter p"
  "pu_itemID2Msg (digest_item nonce k p) = pu_itemID2Msg p"
  "pu_config (digest_item nonce k p) = pu_config p"
  "pu_msgType2Hook (digest_item nonce k p) = pu_msgType2Hook p"
  "map_wf (en_item2owners p) \<Longrightarrow> map_wf (en_item2owners (digest_item nonce k p))"
  by (simp_all add: digest_item_def Let_def)

lemma onDigest_locked_fields [simp]:
  "en_state (onDigest_locked ns nonce p) = en_state p"
  "en_nonces2peers (onDigest_locked ns nonce p) = en_nonces2peers p"
  "en_peers2nonces (onDigest_locked ns nonce p) = en_peers2nonces p"
  "en_outgoingNONCES (onDigest_locked ns nonce p) = en_outgoingNONCES p"
  "en_incomingNONCES (onDigest_locked ns nonce p) = en_incomingNONCES p"
  "en_acceptingDigests (onDigest_locked ns nonce p) = en_acceptingDigests p"
  "en_acceptingResponses (onDigest_locked ns nonce p) = en_acceptingResponses p"
  "en_digestFilter (onDigest_locked ns nonce p) = en_digestFilter p"
  "pu_itemID2Msg (onDigest_locked ns nonce p) = pu_itemID2Msg p"
  "pu_config (onDigest_locked ns nonce p) = pu_config p"
  "pu_msgType2Hook (onDigest_locked ns nonce p) = pu_msgType2Hook p"
  "map_wf (en_item2owners p) \<Longrightarrow> map_wf (en_item2owners (onDigest_locked ns nonce p))"
  unfolding onDigest_locked_def by (induction ns arbitrary: p) simp_all

lemma choose_source_in:
  "sources \<noteq> [] \<Longrightarrow> \<exists>s. choose_source pick n sources = Some s \<and> s \<in> set sources"
proof -
  assume "sources \<noteq> []"
  then have pos: "0 < int (length sources)" by simp
  then have "nat (sint (pick n) mod int (length sources)) < length sources"
    using pos_mod_bound [OF pos, of "sint (pick n)"] pos_mod_sign [OF pos, of "sint (pick n)"] by linarith
  then show ?thesis by (simp add: choose_source_def RandomInt_eq [OF pos])
qed

text \<open>The requests of a mapping: its items with the destination each is under.\<close>

definition requests :: "(string, string list) gomap \<Rightarrow> (string \<times> string) multiset" where
  "requests mapping = (\<Sum>(dest, ns) \<leftarrow> mapping. image_mset (\<lambda>n. (n, dest)) (mset ns))"

lemma requests_put:
  assumes "map_wf m"
  shows "requests (map_put s ((case map_get m s of None \<Rightarrow> [] | Some ns \<Rightarrow> ns) @ [n]) m) =
    add_mset (n, s) (requests m)"
  using assms
proof (induction m)
  case (Cons x m)
  obtain k v where x: "x = (k, v)" by (cases x)
  show ?case
  proof (cases "k = s")
    case False
    with Cons show ?thesis by (simp add: x requests_def)
  qed (simp add: x requests_def)
qed (simp add: requests_def)

lemma request_loop:
  assumes "\<And>n os. (n, os) \<in> set xs \<Longrightarrow> os \<noteq> []" "map_wf m" "[] \<notin> snd ` set m"
  shows "\<exists>m'. foldM (request_item pick) xs m = Some m' \<and> map_wf m' \<and> [] \<notin> snd ` set m' \<and>
    requests m' = requests m + mset (map (\<lambda>(n, os). (n, the (choose_source pick n os))) xs)"
  using assms
proof (induction xs arbitrary: m)
  case (Cons x xs)
  obtain n os where x: "x = (n, os)" by (cases x)
  with Cons.prems(1) [of n os] choose_source_in [of os pick n] obtain s
    where s: "choose_source pick n os = Some s" by auto
  define m1 where "m1 = map_put s ((case map_get m s of None \<Rightarrow> [] | Some ns \<Rightarrow> ns) @ [n]) m"
  have m1: "map_wf m1" "requests m1 = add_mset (n, s) (requests m)"
    unfolding m1_def using Cons.prems(2) by (simp_all add: requests_put)
  have "[] \<notin> snd ` set m1"
  proof
    assume "[] \<in> snd ` set m1"
    then obtain k where "(k, []) \<in> set m1" by auto
    with m1(1) have "map_get m1 k = Some []" by (rule map_of_is_SomeI)
    then have "map_get m k = Some []" unfolding m1_def map_put_get by (auto split: if_splits)
    then have "(k, []) \<in> set m" by (rule map_of_SomeD)
    then show False using Cons.prems(3) by force
  qed
  moreover have "foldM (request_item pick) (x # xs) m = foldM (request_item pick) xs m1"
    by (simp add: x request_item_def s m1_def)
  ultimately show ?case
    using Cons.IH [of m1] Cons.prems(1) m1 by (auto simp: x s)
qed simp

section \<open>The invariant\<close>

text \<open>
  The tables are maps, the engine's set holds strings only, every item with an owner list has an
  owner, an owner is a peer of the round or the empty string a late digest leaves, the
  outgoing nonces are the ones with a peer, and the nonce a request to a peer uses is one the
  peer got in its hello.
\<close>

definition pull_ok :: "pull \<Rightarrow> bool" where
  "pull_ok p \<longleftrightarrow>
     map_wf (pu_msgType2Hook p) \<and> map_wf (pu_itemID2Msg p) \<and> map_wf (en_state p) \<and>
     map_wf (en_item2owners p) \<and> map_wf (en_peers2nonces p) \<and> map_wf (en_nonces2peers p) \<and>
     map_wf (en_outgoingNONCES p) \<and> map_wf (en_incomingNONCES p) \<and>
     (\<forall>r. \<not> Set_Exists (en_state p) (IRune r)) \<and>
     (\<forall>n os. map_get (en_item2owners p) n = Some os \<longrightarrow>
        os \<noteq> [] \<and> set os \<subseteq> insert [] (ran (map_get (en_nonces2peers p)))) \<and>
     (\<forall>n. Set_Exists (en_outgoingNONCES p) n \<longleftrightarrow> map_get (en_nonces2peers p) n \<noteq> None) \<and>
     (\<forall>peer n. map_get (en_peers2nonces p) peer = Some n \<longrightarrow> map_get (en_nonces2peers p) n = Some peer) \<and>
     (\<forall>n peer. map_get (en_nonces2peers p) n = Some peer \<longrightarrow> map_get (en_peers2nonces p) peer \<noteq> None)"

lemma pull_ok_items: "pull_ok p \<Longrightarrow> set (Set_ToArray (en_state p)) \<subseteq> range IStr"
  by (auto simp: pull_ok_def) (metis rangeI set_item.exhaust)

lemma NewPullMediator_ok: "pull_ok (snd (NewPullMediator cf ad))"
  by (simp add: NewPullMediator_def pull_ok_def Let_def)

lemma RegisterMsgHook_ok: "pull_ok p \<Longrightarrow> pull_ok (RegisterMsgHook t h p)"
  by (simp add: RegisterMsgHook_def pull_ok_def Let_def)

lemma PullMediator_Add_ok: "pull_ok p \<Longrightarrow> pull_ok (PullMediator_Add ad msg p)"
  by (simp add: PullMediator_Add_def pull_ok_def Let_def)

lemma fold_remove_runes:
  "map_wf s \<Longrightarrow> map_wf (fold (\<lambda>r. Set_Remove (IRune r)) rs s)"
  "Set_Exists (fold (\<lambda>r. Set_Remove (IRune r)) rs s) x \<longleftrightarrow> x \<notin> IRune ` set rs \<and> Set_Exists s x"
  by (induction rs arbitrary: s) auto

lemma PullMediator_Remove_ok: "pull_ok p \<Longrightarrow> pull_ok (PullMediator_Remove digest p)"
  by (simp add: PullMediator_Remove_def pull_ok_def fold_remove_runes)

lemma fold_add_items:
  "map_wf s \<Longrightarrow> map_wf (fold (\<lambda>n. Set_Add (IStr n)) ns s)"
  "Set_Exists (fold (\<lambda>n. Set_Add (IStr n)) ns s) x \<longleftrightarrow> x \<in> IStr ` set ns \<or> Set_Exists s x"
  by (induction ns arbitrary: s) auto

lemma onRes_ok: "pull_ok p \<Longrightarrow> pull_ok (onRes items nonce p)"
  by (auto simp: onRes_def pull_ok_def fold_add_items)

lemma requestWait_ok: "pull_ok p \<Longrightarrow> pull_ok (requestWait_fires nonce p)"
  by (simp add: requestWait_fires_def pull_ok_def)

lemma endPull_ok: "pull_ok p \<Longrightarrow> pull_ok (endPull p)"
  by (simp add: endPull_def pull_ok_def)

lemma pull_Stop_ok: "pull_ok p \<Longrightarrow> pull_ok (pull_Stop p)"
  by (simp add: pull_Stop_def pull_ok_def)

lemma nonce_peer_in: "nonce_peer p nonce \<in> insert [] (ran (map_get (en_nonces2peers p)))"
  by (auto simp: nonce_peer_def ranI split: option.splits)

lemma digest_item_ok:
  assumes "pull_ok p"
  shows "pull_ok (digest_item nonce n p)"
proof -
  have "map_get (en_item2owners (digest_item nonce n p)) k = Some os \<Longrightarrow>
      os \<noteq> [] \<and> set os \<subseteq> insert [] (ran (map_get (en_nonces2peers p)))" for k os
  proof -
    assume a: "map_get (en_item2owners (digest_item nonce n p)) k = Some os"
    have old: "map_get (en_item2owners p) k' = Some os' \<Longrightarrow>
        os' \<noteq> [] \<and> set os' \<subseteq> insert [] (ran (map_get (en_nonces2peers p)))" for k' os'
      using assms unfolding pull_ok_def by blast
    show ?thesis
    proof (cases "map_get (en_item2owners p) k = Some os")
      case False
      with a have "os = (case map_get (en_item2owners p) n of None \<Rightarrow> [] | Some os \<Rightarrow> os) @ [nonce_peer p nonce]"
        by (simp add: digest_item_def Let_def split: if_splits)
      then show ?thesis
        using nonce_peer_in [of p nonce] old [of n] by (auto split: option.splits)
    qed (rule old)
  qed
  then show ?thesis using assms by (simp add: pull_ok_def)
qed

lemma onDigest_locked_ok: "pull_ok p \<Longrightarrow> pull_ok (onDigest_locked ns nonce p)"
  unfolding onDigest_locked_def by (induction ns arbitrary: p) (simp_all add: digest_item_ok)

lemma digest_loop_strings:
  "set xs \<subseteq> range IStr \<Longrightarrow> digest_loop f xs = Some (filter f (map (inv IStr) xs))"
  by (induction xs) (auto simp: inj_def)

lemma onHello_eq:
  assumes "pull_ok p"
  obtains digest where
    "onHello nonce ctx p = Some (p\<lparr>en_incomingNONCES := Set_Add nonce (en_incomingNONCES p)\<rparr>,
       Pull_AfterRequestWait nonce #
         (if digest = [] then [] else [Pull_Respond ctx (digest_msg (pu_config p) digest nonce)]))"
    and "set digest = {n. Set_Exists (en_state p) (IStr n) \<and> en_digestFilter p ctx n}"
    and "distinct digest"
proof -
  let ?xs = "Set_ToArray (en_state p)"
  let ?d = "filter (en_digestFilter p ctx) (map (inv IStr) ?xs)"
  have sub: "set ?xs \<subseteq> range IStr" by (rule pull_ok_items [OF assms])
  have inj: "inj IStr" by (simp add: inj_def)
  have "onHello nonce ctx p = Some (p\<lparr>en_incomingNONCES := Set_Add nonce (en_incomingNONCES p)\<rparr>,
       Pull_AfterRequestWait nonce #
         (if ?d = [] then [] else [Pull_Respond ctx (digest_msg (pu_config p) ?d nonce)]))"
    by (simp add: onHello_def Let_def digest_loop_strings [OF sub] SendDigest_def filter_map)
  moreover have "set (map (inv IStr) ?xs) = {n. Set_Exists (en_state p) (IStr n)}"
  proof -
    have "n \<in> inv IStr ` set ?xs \<longleftrightarrow> IStr n \<in> set ?xs" for n
    proof
      assume "n \<in> inv IStr ` set ?xs"
      then obtain x where x: "x \<in> set ?xs" "n = inv IStr x" by blast
      with sub show "IStr n \<in> set ?xs" by (auto simp: f_inv_into_f)
    next
      assume "IStr n \<in> set ?xs"
      then have "inv IStr (IStr n) \<in> inv IStr ` set ?xs" by (rule imageI)
      then show "n \<in> inv IStr ` set ?xs" by (simp add: inv_f_f [OF inj])
    qed
    then show ?thesis by auto
  qed
  moreover have "distinct (map (inv IStr) ?xs)"
    using assms sub by (auto simp: distinct_map pull_ok_def goset.items_distinct intro: inj_on_inv_into)
  ultimately show ?thesis using that [of ?d] by auto
qed

lemma onHello_ok: "pull_ok p \<Longrightarrow> onHello nonce ctx p = Some (p', outs) \<Longrightarrow> pull_ok p'"
proof -
  assume p: "pull_ok p" and h: "onHello nonce ctx p = Some (p', outs)"
  then have "p' = p\<lparr>en_incomingNONCES := Set_Add nonce (en_incomingNONCES p)\<rparr>"
    by (auto elim!: onHello_eq [of p nonce ctx])
  then show "pull_ok p'" using p by (simp add: pull_ok_def)
qed

lemma newNONCE_fresh: "newNONCE used draws = Some (n, rest) \<Longrightarrow> \<not> Set_Exists used n"
  by (induction used draws rule: newNONCE.induct) (auto split: if_splits)

lemma hello_peer_ok:
  assumes "hello_peer c mem peer (p, draws, outs) = Some (p', draws', outs')" "pull_ok p"
  shows "pull_ok p'"
proof -
  obtain nonce where n: "newNONCE (en_outgoingNONCES p) draws = Some (nonce, draws')"
    and p': "p' = p\<lparr>en_outgoingNONCES := Set_Add nonce (en_outgoingNONCES p),
                 en_nonces2peers := map_put nonce peer (en_nonces2peers p),
                 en_peers2nonces := map_put peer nonce (en_peers2nonces p)\<rparr>"
    using assms(1) by (auto simp: hello_peer_def Let_def split: option.splits)
  have new: "map_get (en_nonces2peers p) nonce = None"
    using newNONCE_fresh [OF n] assms(2) unfolding pull_ok_def by blast
  then have "ran ((map_get (en_nonces2peers p))(nonce \<mapsto> peer)) = insert peer (ran (map_get (en_nonces2peers p)))"
    by (rule ran_map_upd)
  moreover have "map_get (en_peers2nonces p) q \<noteq> Some nonce" for q
    using new assms(2) unfolding pull_ok_def by auto
  ultimately show ?thesis
    using assms(2) unfolding p' pull_ok_def by simp blast
qed

lemma initiatePull_ok:
  assumes "initiatePull c idraws pool mem draws p = Some (p', outs)" "pull_ok p"
  shows "pull_ok p'"
proof -
  obtain peers r where r: "foldM (hello_peer c mem) peers (p\<lparr>en_acceptingDigests := True\<rparr>, draws, []) = Some r"
    "p' = fst r"
    using assms(1) by (auto simp: initiatePull_def bind_eq_Some_conv)
  have "pull_ok (fst r)"
  proof (rule foldM_inv [OF r(1), where I = "\<lambda>s. pull_ok (fst s)"])
    show "pull_ok (fst (p\<lparr>en_acceptingDigests := True\<rparr>, draws, []))"
      using assms(2) by (simp add: pull_ok_def)
  next
    fix x s t
    assume "pull_ok (fst s)" "hello_peer c mem x s = Some t"
    then show "pull_ok (fst t)" by (cases s, cases t) (auto dest: hello_peer_ok)
  qed
  then show ?thesis by (simp add: r(2))
qed

lemma update_loop_fields:
  "update_loop c ad es (p, done) = Some (ok, p', done') \<Longrightarrow>
     (\<exists>m. p' = p\<lparr>pu_itemID2Msg := m\<rparr>) \<and> (map_wf (pu_itemID2Msg p) \<longrightarrow> map_wf (pu_itemID2Msg p'))"
proof (induction es arbitrary: p "done")
  case Nil
  then show ?case by (auto intro: exI [of _ "pu_itemID2Msg p"])
next
  case (Cons e es)
  then show ?case
    by (auto simp: Let_def split: option.splits sum.splits dest!: Cons.IH intro: exI [of _ "pu_itemID2Msg p"])
qed

lemma update_loop_ok: "update_loop c ad es (p, done) = Some (ok, p', done') \<Longrightarrow> pull_ok p \<Longrightarrow> pull_ok p'"
proof -
  assume u: "update_loop c ad es (p, done) = Some (ok, p', done')" and p: "pull_ok p"
  from update_loop_fields [OF u] obtain m where "p' = p\<lparr>pu_itemID2Msg := m\<rparr>"
    "map_wf (pu_itemID2Msg p) \<longrightarrow> map_wf (pu_itemID2Msg p')" by blast
  with p show "pull_ok p'" by (simp add: pull_ok_def)
qed

lemma HandleMessage_ok:
  assumes "PullMediator_HandleMessage c ad m p = Some (p', outs)" "pull_ok p"
  shows "pull_ok p'"
  using assms
  by (auto simp: PullMediator_HandleMessage_def Let_def bind_eq_Some_conv onDigest_def
      split: if_splits option.splits Content.splits
      intro: onHello_ok onDigest_locked_ok onRes_ok update_loop_ok)

lemma digestWait_fields:
  assumes "digestWait_fires c mem pick p = Some (p', outs)"
  shows "p' = p\<lparr>en_acceptingDigests := False, en_acceptingResponses := True\<rparr>"
  using assms by (auto simp: digestWait_fires_def Let_def split: option.splits)

lemma digestWait_ok: "digestWait_fires c mem pick p = Some (p', outs) \<Longrightarrow> pull_ok p \<Longrightarrow> pull_ok p'"
  by (drule digestWait_fields) (simp add: pull_ok_def)

section \<open>The mediator as a machine\<close>

text \<open>
  Its state carries the digests whose handlers have passed the guards and wait for the engine's
  lock. Every operation, handler and timer is a step, and so is a handler's second half.
\<close>

type_synonym pull_sys = "pull \<times> (string list \<times> u64) list"

inductive pull_step :: "codec \<Rightarrow> PullAdapter \<Rightarrow> pull_sys \<Rightarrow> pull_sys \<Rightarrow> bool" for c ad where
  hook: "pull_step c ad (p, ds) (RegisterMsgHook t h p, ds)"
| add: "pull_step c ad (p, ds) (PullMediator_Add ad msg p, ds)"
| remove: "pull_step c ad (p, ds) (PullMediator_Remove digest p, ds)"
| stop: "pull_step c ad (p, ds) (pull_Stop p, ds)"
| handle: "PullMediator_HandleMessage c ad m p = Some (p', outs) \<Longrightarrow> pull_step c ad (p, ds) (p', ds)"
| digest_passes: "onDigest_guard nonce p \<Longrightarrow> pull_step c ad (p, ds) (p, (ns, nonce) # ds)"
| digest_locked: "(ns, nonce) \<in> set ds \<Longrightarrow>
    pull_step c ad (p, ds) (onDigest_locked ns nonce p, remove1 (ns, nonce) ds)"
| request_wait: "pull_step c ad (p, ds) (requestWait_fires nonce p, ds)"
| round: "initiatePull c idraws pool mem draws p = Some (p', outs) \<Longrightarrow> pull_step c ad (p, ds) (p', ds)"
| digest_wait: "digestWait_fires c smem pick p = Some (p', outs) \<Longrightarrow> pull_step c ad (p, ds) (p', ds)"
| response_wait: "pull_step c ad (p, ds) (endPull p, ds)"

inductive_cases pull_stepE: "pull_step c ad s t"

interpretation puller: inv_machine
  "\<lambda>s. \<exists>cf ad. s = (snd (NewPullMediator cf ad), [])" "pull_step c ad" "\<lambda>s. pull_ok (fst s)" for c ad
proof unfold_locales
  fix s :: pull_sys
  assume "\<exists>cf ad. s = (snd (NewPullMediator cf ad), [])"
  then show "pull_ok (fst s)" using NewPullMediator_ok by auto
next
  fix s t :: pull_sys
  assume "pull_step c ad s t" "pull_ok (fst s)"
  then show "pull_ok (fst t)"
    by cases (auto intro: RegisterMsgHook_ok PullMediator_Add_ok PullMediator_Remove_ok pull_Stop_ok
        onDigest_locked_ok requestWait_ok endPull_ok elim: HandleMessage_ok initiatePull_ok digestWait_ok)
qed

section \<open>The request phase\<close>

text \<open>What the timer of a round sends: one request for every destination of the mapping.\<close>

lemma digestWait_eq:
  assumes "pull_ok p"
  obtains mapping where
    "digestWait_fires c mem pick p = Some (p\<lparr>en_acceptingDigests := False, en_acceptingResponses := True\<rparr>,
       concat (map (\<lambda>(dest, ns). SendReq c (mem dest) dest ns (peer_nonce p dest) p) mapping) @ [Pull_AfterResponseWait])"
    and "requestMapping pick p = Some mapping" and "map_wf mapping" and "[] \<notin> snd ` set mapping"
    and "requests mapping = mset (map (\<lambda>(n, os). (n, the (choose_source pick n os))) (en_item2owners p))"
proof -
  have ne: "os \<noteq> []" if "(n, os) \<in> set (en_item2owners p)" for n os
    using that assms map_of_is_SomeI [of "en_item2owners p" n os] unfolding pull_ok_def by blast
  have "\<exists>m'. foldM (request_item pick) (en_item2owners p) [] = Some m' \<and> map_wf m' \<and> [] \<notin> snd ` set m' \<and>
    requests m' = requests [] + mset (map (\<lambda>(n, os). (n, the (choose_source pick n os))) (en_item2owners p))"
    by (rule request_loop) (simp_all add: ne)
  then obtain mapping where
    m: "requestMapping pick p = Some mapping" "map_wf mapping" "[] \<notin> snd ` set mapping"
    "requests mapping = mset (map (\<lambda>(n, os). (n, the (choose_source pick n os))) (en_item2owners p))"
    by (auto simp: requestMapping_def requests_def)
  have r: "requestMapping pick (p\<lparr>en_acceptingDigests := False\<rparr>) = requestMapping pick p"
    by (simp add: requestMapping_def)
  have "digestWait_fires c mem pick p = Some (p\<lparr>en_acceptingDigests := False, en_acceptingResponses := True\<rparr>,
       concat (map (\<lambda>(dest, ns). SendReq c (mem dest) dest ns (peer_nonce p dest) p) mapping) @ [Pull_AfterResponseWait])"
    by (simp add: digestWait_fires_def Let_def r m(1) SendReq_def peer_nonce_def)
  with m that show ?thesis by blast
qed

lemma requests_in: "(n, dest) \<in># requests mapping \<longleftrightarrow> (\<exists>ns. (dest, ns) \<in> set mapping \<and> n \<in> set ns)"
  by (induction mapping) (auto simp: requests_def)

section \<open>A whole exchange\<close>

lemma pull_msgs [simp]:
  "IsPullMsg (hello_msg cf n)" "GetPullMsgType (hello_msg cf n) = pc_MsgType cf"
  "IsPullMsg (digest_msg cf ds n)" "GetPullMsgType (digest_msg cf ds n) = pc_MsgType cf"
  "IsPullMsg (request_msg cf ds n)" "GetPullMsgType (request_msg cf ds n) = pc_MsgType cf"
  "IsPullMsg (update_msg cf es n)" "GetPullMsgType (update_msg cf es n) = pc_MsgType cf"
  by (simp_all add: IsPullMsg_def GetPullMsgType_def hello_msg_def digest_msg_def request_msg_def
      update_msg_def getter_defs)

lemma handle_hello:
  assumes "sg_Msg (rm_msg m) = hello_msg cf n" "pc_MsgType cf = pc_MsgType (pu_config p)"
  shows "PullMediator_HandleMessage c ad m p =
    Option.bind (onHello n m p) (\<lambda>(p', outs). Some (p', outs @ run_hooks HelloMsgType [] [] p'))"
  using assms by (simp add: PullMediator_HandleMessage_def) (simp add: hello_msg_def)

lemma handle_digest:
  assumes "sg_Msg (rm_msg m) = digest_msg cf ds n" "pc_MsgType cf = pc_MsgType (pu_config p)"
    and "pa_IngressDigFilter ad = Some f"
    and "f \<lparr>dd_Nonce = n, dd_Digests = StringsToBytes ds, dd_MsgType = pc_MsgType cf\<rparr> = d"
  shows "PullMediator_HandleMessage c ad m p =
    (let p' = onDigest (BytesToStrings (dd_Digests d)) (dd_Nonce d) p
     in Some (p', run_hooks DigestMsgType (BytesToStrings (dd_Digests d)) [] p'))"
  using assms by (simp add: PullMediator_HandleMessage_def) (simp add: digest_msg_def Let_def)

lemma handle_request:
  assumes "sg_Msg (rm_msg m) = request_msg cf ds n" "pc_MsgType cf = pc_MsgType (pu_config p)"
  shows "PullMediator_HandleMessage c ad m p = Some (p, onReq ds n m p @ run_hooks RequestMsgType ds [] p)"
  using assms by (simp add: PullMediator_HandleMessage_def) (simp add: request_msg_def)

lemma handle_update:
  assumes "sg_Msg (rm_msg m) = update_msg cf es n" "pc_MsgType cf = pc_MsgType (pu_config p)"
    and "update_loop c ad es (p, []) = Some (True, p1, done)"
  shows "PullMediator_HandleMessage c ad m p =
    Some (onRes (map fst done) n p1, map (\<lambda>(_, msg). Pull_Consume msg) done @
       run_hooks ResponseMsgType (map fst done) (map snd done) (onRes (map fst done) n p1))"
  using assms by (simp add: PullMediator_HandleMessage_def) (simp add: update_msg_def Let_def)

text \<open>An update all of whose messages unmarshal: they are stored under their ids, in order.\<close>

lemma update_loop_all:
  assumes "list_all2 (\<lambda>e msg. e \<noteq> None \<and> ToGossipMessage c (the e) = Inr msg) es msgs"
  shows "update_loop c ad es (p, done) =
    Some (True, p\<lparr>pu_itemID2Msg := fold (\<lambda>msg. map_put (pa_IdExtractor ad msg) msg) msgs (pu_itemID2Msg p)\<rparr>,
      done @ map (\<lambda>msg. (pa_IdExtractor ad msg, msg)) msgs)"
  using assms by (induction arbitrary: p "done" rule: list_all2_induct) (auto simp: Let_def)

text \<open>
  The network of an exchange delivers what one side sends, marshalled without a signature, to the
  other side, and what a side answers to the side that asked.
\<close>

definition sent :: "pull_out list \<Rightarrow> SignedGossipMessage list" where
  "sent outs = concat (map (\<lambda>x. case x of Pull_Send s _ \<Rightarrow> [s] | _ \<Rightarrow> []) outs)"

definition responded :: "codec \<Rightarrow> pull_out list \<Rightarrow> SignedGossipMessage list" where
  "responded c outs = concat (map (\<lambda>x. case x of Pull_Respond _ g \<Rightarrow> [fst (NoopSign c g)] | _ \<Rightarrow> []) outs)"

definition answers :: "pull \<Rightarrow> pull_out list \<Rightarrow> pull_out list" where
  "answers p outs = concat (map (\<lambda>x. case x of Pull_GoSendRes items ctx n \<Rightarrow> SendRes items ctx n p | _ \<Rightarrow> []) outs)"

definition handle_all ::
  "codec \<Rightarrow> PullAdapter \<Rightarrow> ConnectionInfo option \<Rightarrow> SignedGossipMessage list \<Rightarrow> pull \<Rightarrow> (pull \<times> pull_out list) option" where
  "handle_all c ad ci ms p = foldM (\<lambda>s (p, outs). do {
       (p', o1) \<leftarrow> PullMediator_HandleMessage c ad \<lparr>rm_msg = s, rm_ConnInfo = ci\<rparr> p;
       Some (p', outs @ o1)
     }) ms (p, [])"

text \<open>
  A round of the first side with the second as its only member: the hello, the digest and the
  end of the wait for digests; then the request, the update and the end of the round.
\<close>

definition pull_ask ::
  "codec \<Rightarrow> PullAdapter \<Rightarrow> PullAdapter \<Rightarrow> ConnectionInfo option \<Rightarrow> ConnectionInfo option \<Rightarrow> Peer \<Rightarrow> u64 \<Rightarrow>
   (string \<Rightarrow> u64) \<Rightarrow> pull \<Rightarrow> pull \<Rightarrow> (pull \<times> pull \<times> SignedGossipMessage list) option" where
  "pull_ask c ada adb cia cib b n pick pa pb =
     do {
       (pa1, o1) \<leftarrow> initiatePull c [] [b] (\<lambda>_. [b]) [n] pa;
       (pb1, o2) \<leftarrow> handle_all c adb cia (sent o1) pb;
       (pa2, _) \<leftarrow> handle_all c ada cib (responded c o2) pa1;
       (pa3, o3) \<leftarrow> digestWait_fires c (\<lambda>_. [b]) pick pa2;
       Some (pa3, pb1, sent o3)
     }"

definition pull_round ::
  "codec \<Rightarrow> PullAdapter \<Rightarrow> PullAdapter \<Rightarrow> ConnectionInfo option \<Rightarrow> ConnectionInfo option \<Rightarrow> Peer \<Rightarrow> u64 \<Rightarrow>
   (string \<Rightarrow> u64) \<Rightarrow> pull \<Rightarrow> pull \<Rightarrow> (pull \<times> pull) option" where
  "pull_round c ada adb cia cib b n pick pa pb =
     do {
       (pa3, pb1, reqs) \<leftarrow> pull_ask c ada adb cia cib b n pick pa pb;
       (pb2, o4) \<leftarrow> handle_all c adb cia reqs pb1;
       (pa4, _) \<leftarrow> handle_all c ada cib (responded c (answers pb2 o4)) pa3;
       Some (endPull pa4, pb2)
     }"

lemma sent_simps [simp]:
  "sent [] = []" "sent (x # xs) = (case x of Pull_Send s _ \<Rightarrow> [s] | _ \<Rightarrow> []) @ sent xs"
  "sent (xs @ ys) = sent xs @ sent ys"
  by (simp_all add: sent_def)

lemma responded_simps [simp]:
  "responded c [] = []"
  "responded c (x # xs) = (case x of Pull_Respond _ g \<Rightarrow> [fst (NoopSign c g)] | _ \<Rightarrow> []) @ responded c xs"
  "responded c (xs @ ys) = responded c xs @ responded c ys"
  by (simp_all add: responded_def)

lemma answers_simps [simp]:
  "answers p [] = []"
  "answers p (x # xs) = (case x of Pull_GoSendRes items ctx n \<Rightarrow> SendRes items ctx n p | _ \<Rightarrow> []) @ answers p xs"
  "answers p (xs @ ys) = answers p xs @ answers p ys"
  by (simp_all add: answers_def)

lemma run_hooks_silent [simp]:
  "sent (run_hooks t ids items p) = []" "responded c (run_hooks t ids items p) = []"
  "answers q (run_hooks t ids items p) = []"
  by (simp_all add: sent_def responded_def answers_def run_hooks_def comp_def)

lemma handle_all_simps:
  "handle_all c ad ci [] p = Some (p, [])"
  "handle_all c ad ci [s] p = PullMediator_HandleMessage c ad \<lparr>rm_msg = s, rm_ConnInfo = ci\<rparr> p"
  by (auto simp: handle_all_def intro: option.expand split: Option.bind_split)

lemma NoopSign_total:
  assumes "\<forall>g. \<exists>pl. marshal c g = Inr pl"
  shows "snd (NoopSign c g) = None" "sg_Msg (fst (NoopSign c g)) = g"
  using assms [rule_format, of g] by (auto simp: NoopSign_eq)

lemma Hello_total:
  assumes "\<forall>g. \<exists>pl. marshal c g = Inr pl"
  shows "PullMediator_Hello c mem dest n p = [Pull_Send (fst (NoopSign c (hello_msg (pu_config p) n))) (peersWithEndpoints mem [dest])]"
    and "SendReq c mem dest items n p = [Pull_Send (fst (NoopSign c (request_msg (pu_config p) items n))) (peersWithEndpoints mem [dest])]"
  using NoopSign_total(1) [OF assms, of "hello_msg (pu_config p) n"]
    NoopSign_total(1) [OF assms, of "request_msg (pu_config p) items n"]
  by (auto simp: PullMediator_Hello_def SendReq_def split: prod.splits option.splits)

lemma select_single:
  "1 \<le> pc_PeerCountToSelect (pu_config p) \<Longrightarrow> PullMediator_SelectPeers draws [b] p = Some [PreferredEndpoint b]"
  by (auto simp: PullMediator_SelectPeers_def GetRandomIndices_def Let_def)

definition hello_sent :: "string \<Rightarrow> u64 \<Rightarrow> pull \<Rightarrow> pull" where
  "hello_sent e n p = p\<lparr>en_acceptingDigests := True, en_outgoingNONCES := Set_Add n (en_outgoingNONCES p),
     en_nonces2peers := map_put n e (en_nonces2peers p), en_peers2nonces := map_put e n (en_peers2nonces p)\<rparr>"

lemma initiate_single:
  assumes "\<forall>g. \<exists>pl. marshal c g = Inr pl" "1 \<le> pc_PeerCountToSelect (pu_config p)"
    and "\<not> Set_Exists (en_outgoingNONCES p) n"
  shows "\<exists>o1. initiatePull c [] [b] (\<lambda>_. [b]) [n] p = Some (hello_sent (PreferredEndpoint b) n p, o1) \<and>
    sent o1 = [fst (NoopSign c (hello_msg (pu_config p) n))]"
  using assms(3) by (simp add: initiatePull_def select_single [OF assms(2)] hello_peer_def Let_def
      Hello_total [OF assms(1)] hello_sent_def)

lemma single_mapping:
  assumes "map_wf mapping" "[] \<notin> snd ` set mapping" "\<forall>(n, dest)\<in>#requests mapping. dest = e"
  shows "mapping = [] \<or> (\<exists>ns. mapping = [(e, ns)])"
proof -
  have e: "dest = e" if "(dest, ns) \<in> set mapping" for dest ns
  proof -
    from that assms(2) obtain x where "x \<in> set ns" by (cases ns) force+
    with that assms(3) show ?thesis using requests_in [of x dest mapping] by fastforce
  qed
  show ?thesis
  proof (cases mapping)
    case (Cons kv rest)
    obtain k v where kv: "kv = (k, v)" by (cases kv)
    have "rest = []"
    proof (cases rest)
      case (Cons kv' rest')
      with \<open>mapping = kv # rest\<close> kv e [of k v] e [of "fst kv'" "snd kv'"] assms(1) show ?thesis by simp
    qed simp
    with Cons kv e [of k v] show ?thesis by simp
  qed simp
qed

lemma count_list_distinct: "distinct xs \<Longrightarrow> count_list xs x = (if x \<in> set xs then 1 else 0)"
  by (induction xs) auto

text \<open>After the digests of a single peer, the request phase asks it for what is missing.\<close>

lemma request_single:
  assumes "\<forall>g. \<exists>pl. marshal c g = Inr pl" "pull_ok p"
    and "\<And>x. map_get (en_item2owners p) x = (if x \<in> W then Some [e] else None)"
  obtains ns o3 where
    "digestWait_fires c mem pick p = Some (p\<lparr>en_acceptingDigests := False, en_acceptingResponses := True\<rparr>, o3)"
    and "set ns = W"
    and "sent o3 = (if ns = [] then [] else [fst (NoopSign c (request_msg (pu_config p) ns (peer_nonce p e)))])"
proof -
  obtain mapping where m:
    "digestWait_fires c mem pick p = Some (p\<lparr>en_acceptingDigests := False, en_acceptingResponses := True\<rparr>,
       concat (map (\<lambda>(dest, ns). SendReq c (mem dest) dest ns (peer_nonce p dest) p) mapping) @ [Pull_AfterResponseWait])"
    "map_wf mapping" "[] \<notin> snd ` set mapping"
    "requests mapping = mset (map (\<lambda>(n, os). (n, the (choose_source pick n os))) (en_item2owners p))"
    by (rule digestWait_eq [OF assms(2)], rule that; assumption)
  have wf: "map_wf (en_item2owners p)" using assms(2) by (simp add: pull_ok_def)
  have entry: "(x, os) \<in> set (en_item2owners p) \<longleftrightarrow> x \<in> W \<and> os = [e]" for x os
  proof
    assume "(x, os) \<in> set (en_item2owners p)"
    with wf have "map_get (en_item2owners p) x = Some os" by (rule map_of_is_SomeI)
    then show "x \<in> W \<and> os = [e]" unfolding assms(3) by (auto split: if_splits)
  next
    assume "x \<in> W \<and> os = [e]"
    then have "map_get (en_item2owners p) x = Some os" unfolding assms(3) by simp
    then show "(x, os) \<in> set (en_item2owners p)" by (rule map_of_SomeD)
  qed
  have src: "choose_source pick x [e] = Some e" for x
    using choose_source_in [of "[e]" pick x] by auto
  have req: "(x, dest) \<in># requests mapping \<longleftrightarrow> x \<in> W \<and> dest = e" for x dest
    unfolding m(4) by (auto simp: entry src image_iff Bex_def)
  then have "\<forall>(n, dest)\<in>#requests mapping. dest = e" by auto
  from single_mapping [OF m(2,3) this] consider "mapping = []" | ns where "mapping = [(e, ns)]" by blast
  then show ?thesis
  proof cases
    case 1
    with req have "W = {}" by (auto simp: requests_def)
    with 1 m(1) show ?thesis by (intro that [OF m(1), of "[]"]) simp_all
  next
    case 2
    then have "set ns = W" using req requests_in [of _ e mapping] by auto
    moreover have "ns \<noteq> []" using 2 m(3) by auto
    ultimately show ?thesis using 2 by (intro that [OF m(1), of ns]) (simp_all add: Hello_total [OF assms(1)])
  qed
qed

lemma digest_single:
  assumes "en_item2owners p = []" "onDigest_guard n p" "nonce_peer p n = e" "distinct ds"
  shows "map_get (en_item2owners (onDigest ds n p)) x =
    (if x \<in> set ds \<and> \<not> Set_Exists (en_state p) (IStr x) then Some [e] else None)"
  using assms by (auto simp: onDigest_def onDigest_locked_def map_get_fold_digest count_list_distinct)

text \<open>
  What an answering side needs to be able to answer: every item of its set is stored with an
  envelope that unmarshals at the other side to a message of the item's id.
\<close>

definition serves :: "codec \<Rightarrow> PullAdapter \<Rightarrow> pull \<Rightarrow> bool" where
  "serves c ad p \<longleftrightarrow> (\<forall>x. Set_Exists (en_state p) (IStr x) \<longrightarrow>
     (\<exists>msg e msg'. map_get (pu_itemID2Msg p) x = Some msg \<and> sg_Envelope msg = Some e \<and>
        ToGossipMessage c e = Inr msg' \<and> pa_IdExtractor ad msg' = x))"

lemma serve_items:
  assumes "serves c ad p" "\<forall>x\<in>set items. Set_Exists (en_state p) (IStr x)"
  shows "\<exists>es msgs. SendRes items ctx n p = [Pull_Respond ctx (update_msg (pu_config p) es n)] \<and>
    list_all2 (\<lambda>e msg. e \<noteq> None \<and> ToGossipMessage c (the e) = Inr msg) es msgs \<and>
    map (pa_IdExtractor ad) msgs = items"
proof -
  let ?es = "map sg_Envelope (List.map_filter (map_get (pu_itemID2Msg p)) items)"
  have "\<exists>msgs. list_all2 (\<lambda>e msg. e \<noteq> None \<and> ToGossipMessage c (the e) = Inr msg) ?es msgs \<and>
    map (pa_IdExtractor ad) msgs = items"
    using assms(2)
  proof (induction items)
    case (Cons x xs)
    from Cons.prems assms(1) obtain msg e msg' where
      x: "map_get (pu_itemID2Msg p) x = Some msg" "sg_Envelope msg = Some e"
      "ToGossipMessage c e = Inr msg'" "pa_IdExtractor ad msg' = x"
      unfolding serves_def by force
    from Cons obtain msgs where "list_all2 (\<lambda>e msg. e \<noteq> None \<and> ToGossipMessage c (the e) = Inr msg)
        (map sg_Envelope (List.map_filter (map_get (pu_itemID2Msg p)) xs)) msgs"
      "map (pa_IdExtractor ad) msgs = xs" by auto
    with x show ?case by (intro exI [of _ "msg' # msgs"]) (simp add: List.map_filter_simps)
  qed (simp add: List.map_filter_simps)
  then show ?thesis by (auto simp: SendRes_def)
qed

text \<open>The three messages of the exchange at the side that answers and at the side that asks.\<close>

definition pull_conn :: "SignedGossipMessage \<Rightarrow> ConnectionInfo option \<Rightarrow> ReceivedMessage" where
  "pull_conn s ci = \<lparr>rm_msg = s, rm_ConnInfo = ci\<rparr>"

lemma answer_hello:
  assumes "\<forall>g. \<exists>pl. marshal c g = Inr pl" "pull_ok p" "pc_MsgType cf = pc_MsgType (pu_config p)"
  obtains o2 digest where
    "handle_all c ad ci [fst (NoopSign c (hello_msg cf n))] p =
       Some (p\<lparr>en_incomingNONCES := Set_Add n (en_incomingNONCES p)\<rparr>, o2)"
    and "responded c o2 = (if digest = [] then [] else [fst (NoopSign c (digest_msg (pu_config p) digest n))])"
    and "set digest = {x. Set_Exists (en_state p) (IStr x) \<and>
           en_digestFilter p (pull_conn (fst (NoopSign c (hello_msg cf n))) ci) x}"
    and "distinct digest"
proof -
  let ?m = "pull_conn (fst (NoopSign c (hello_msg cf n))) ci"
  let ?p = "p\<lparr>en_incomingNONCES := Set_Add n (en_incomingNONCES p)\<rparr>"
  obtain digest where d: "onHello n ?m p = Some (?p, Pull_AfterRequestWait n #
         (if digest = [] then [] else [Pull_Respond ?m (digest_msg (pu_config p) digest n)]))"
    "set digest = {x. Set_Exists (en_state p) (IStr x) \<and> en_digestFilter p ?m x}" "distinct digest"
    by (rule onHello_eq [OF assms(2)])
  let ?outs = "(Pull_AfterRequestWait n #
         (if digest = [] then [] else [Pull_Respond ?m (digest_msg (pu_config p) digest n)])) @
         run_hooks HelloMsgType [] [] ?p"
  have "PullMediator_HandleMessage c ad ?m p = Some (?p, ?outs)"
    using handle_hello [of ?m cf n p c ad] assms(3) d(1) by (simp add: pull_conn_def NoopSign_total(2) [OF assms(1)])
  then have "handle_all c ad ci [fst (NoopSign c (hello_msg cf n))] p = Some (?p, ?outs)"
    by (simp add: handle_all_simps pull_conn_def)
  moreover have "responded c ?outs = (if digest = [] then [] else [fst (NoopSign c (digest_msg (pu_config p) digest n))])"
    by simp
  ultimately show ?thesis using d(2,3) that by blast
qed

lemma take_digest:
  assumes "\<forall>g. \<exists>pl. marshal c g = Inr pl" "pc_MsgType cf = pc_MsgType (pu_config p)"
    and "pa_IngressDigFilter ad = Some f"
    and "\<And>d. dd_Nonce (f d) = dd_Nonce d" "\<And>d. BytesToStrings (dd_Digests (f d)) = filter admits (BytesToStrings (dd_Digests d))"
  shows "\<exists>o3. handle_all c ad ci (if digest = [] then [] else [fst (NoopSign c (digest_msg cf digest n))]) p =
    Some (onDigest (filter admits digest) n p, o3)"
proof (cases "digest = []")
  case True
  then show ?thesis by (auto simp: handle_all_simps onDigest_def onDigest_locked_def)
next
  case False
  let ?m = "\<lparr>rm_msg = fst (NoopSign c (digest_msg cf digest n)), rm_ConnInfo = ci\<rparr>"
  have "sg_Msg (rm_msg ?m) = digest_msg cf digest n" by (simp add: NoopSign_total(2) [OF assms(1)])
  from handle_digest [OF this assms(2,3) refl] False show ?thesis
    by (simp add: handle_all_simps assms(4,5) Let_def)
qed

lemma answer_request:
  assumes "\<forall>g. \<exists>pl. marshal c g = Inr pl" "pc_MsgType cf = pc_MsgType (pu_config p)"
    and "Set_Exists (en_incomingNONCES p) n" "serves c ad' p"
  obtains o4 es msgs where
    "handle_all c ad ci (if ns = [] then [] else [fst (NoopSign c (request_msg cf ns n))]) p = Some (p, o4)"
    and "responded c (answers p o4) = (if msgs = [] then [] else [fst (NoopSign c (update_msg (pu_config p) es n))])"
    and "list_all2 (\<lambda>e msg. e \<noteq> None \<and> ToGossipMessage c (the e) = Inr msg) es msgs"
    and "map (pa_IdExtractor ad') msgs = filter (\<lambda>x. Set_Exists (en_state p) (IStr x) \<and>
           en_digestFilter p (pull_conn (fst (NoopSign c (request_msg cf ns n))) ci) x) ns"
proof -
  let ?m = "pull_conn (fst (NoopSign c (request_msg cf ns n))) ci"
  let ?items = "filter (\<lambda>x. Set_Exists (en_state p) (IStr x) \<and> en_digestFilter p ?m x) ns"
  obtain es msgs where s: "SendRes ?items ?m n p = [Pull_Respond ?m (update_msg (pu_config p) es n)]"
    "list_all2 (\<lambda>e msg. e \<noteq> None \<and> ToGossipMessage c (the e) = Inr msg) es msgs"
    "map (pa_IdExtractor ad') msgs = ?items"
    using serve_items [OF assms(4), of ?items ?m n] by auto
  have empty: "msgs = [] \<longleftrightarrow> ?items = []" using s(3) by (metis map_is_Nil_conv)
  have "handle_all c ad ci (if ns = [] then [] else [fst (NoopSign c (request_msg cf ns n))]) p =
      Some (p, if ns = [] then [] else onReq ns n ?m p @ run_hooks RequestMsgType ns [] p)"
    using handle_request [of ?m cf ns n p c ad] assms(2)
    by (simp add: handle_all_simps pull_conn_def NoopSign_total(2) [OF assms(1)])
  moreover have "responded c (answers p (if ns = [] then [] else onReq ns n ?m p @ run_hooks RequestMsgType ns [] p)) =
      (if msgs = [] then [] else [fst (NoopSign c (update_msg (pu_config p) es n))])"
    unfolding empty using assms(3) s(1) by (auto simp: onReq_def Let_def)
  ultimately show ?thesis using s(2,3) that by blast
qed

lemma take_update:
  assumes "\<forall>g. \<exists>pl. marshal c g = Inr pl" "pc_MsgType cf = pc_MsgType (pu_config p)"
    and "Set_Exists (en_outgoingNONCES p) n" "en_acceptingResponses p"
    and "list_all2 (\<lambda>e msg. e \<noteq> None \<and> ToGossipMessage c (the e) = Inr msg) es msgs"
  shows "\<exists>p' o5. handle_all c ad ci (if msgs = [] then [] else [fst (NoopSign c (update_msg cf es n))]) p = Some (p', o5) \<and>
    (\<forall>x. Set_Exists (en_state p') x \<longleftrightarrow> x \<in> IStr ` pa_IdExtractor ad ` set msgs \<or> Set_Exists (en_state p) x) \<and>
    en_acceptingDigests p' = en_acceptingDigests p"
proof (cases "msgs = []")
  case False
  let ?m = "\<lparr>rm_msg = fst (NoopSign c (update_msg cf es n)), rm_ConnInfo = ci\<rparr>"
  have "sg_Msg (rm_msg ?m) = update_msg cf es n" by (simp add: NoopSign_total(2) [OF assms(1)])
  from handle_update [OF this assms(2) update_loop_all [OF assms(5)], of ad] False assms(3,4) show ?thesis
    by (auto simp: handle_all_simps onRes_def fold_add_items)
qed (simp add: handle_all_simps)

text \<open>The first part of a round ends with a request for what is missing, if anything is.\<close>

lemma pull_ask_correct:
  assumes "pull_ok pa" "pull_ok pb" "en_item2owners pa = []" "en_outgoingNONCES pa = []"
    and "pc_MsgType (pu_config pa) = pc_MsgType (pu_config pb)" "1 \<le> pc_PeerCountToSelect (pu_config pa)"
    and "\<forall>g. \<exists>pl. marshal c g = Inr pl"
    and "pa_IngressDigFilter ada = Some f" "\<And>d. dd_Nonce (f d) = dd_Nonce d"
    and "\<And>d. BytesToStrings (dd_Digests (f d)) = filter admits (BytesToStrings (dd_Digests d))"
  obtains pa3 ns where
    "pull_ask c ada adb cia cib b n pick pa pb =
       Some (pa3, pb\<lparr>en_incomingNONCES := Set_Add n (en_incomingNONCES pb)\<rparr>,
         if ns = [] then [] else [fst (NoopSign c (request_msg (pu_config pa) ns n))])"
    and "set ns = {x. (Set_Exists (en_state pb) (IStr x) \<and>
           en_digestFilter pb (pull_conn (fst (NoopSign c (hello_msg (pu_config pa) n))) cia) x \<and> admits x) \<and>
           \<not> Set_Exists (en_state pa) (IStr x)}"
    and "en_state pa3 = en_state pa" "pu_config pa3 = pu_config pa" "Set_Exists (en_outgoingNONCES pa3) n"
    and "en_acceptingResponses pa3" "\<not> en_acceptingDigests pa3"
proof -
  let ?e = "PreferredEndpoint b" and ?cf = "pu_config pa"
  let ?pa1 = "hello_sent ?e n pa"
  let ?pb1 = "pb\<lparr>en_incomingNONCES := Set_Add n (en_incomingNONCES pb)\<rparr>"
  let ?m1 = "pull_conn (fst (NoopSign c (hello_msg ?cf n))) cia"
  have cf: "pu_config ?pa1 = ?cf" by (simp add: hello_sent_def)
  have fresh: "\<not> Set_Exists (en_outgoingNONCES pa) n" by (simp add: assms(4) Set_Exists_def map_has_def)
  obtain o1 where r1: "initiatePull c [] [b] (\<lambda>_. [b]) [n] pa = Some (?pa1, o1)"
    and s1: "sent o1 = [fst (NoopSign c (hello_msg ?cf n))]"
    using initiate_single [OF assms(7,6) fresh] by blast
  obtain o2 digest where r2: "handle_all c adb cia [fst (NoopSign c (hello_msg ?cf n))] pb = Some (?pb1, o2)"
    and s2: "responded c o2 = (if digest = [] then [] else [fst (NoopSign c (digest_msg (pu_config pb) digest n))])"
    and digest: "set digest = {x. Set_Exists (en_state pb) (IStr x) \<and> en_digestFilter pb ?m1 x}" "distinct digest"
    by (rule answer_hello [OF assms(7,2,5)])
  let ?ds = "filter admits digest"
  let ?pa2 = "onDigest ?ds n ?pa1"
  obtain o3 where r3: "handle_all c ada cib (responded c o2) ?pa1 = Some (?pa2, o3)"
    using take_digest [OF assms(7) _ assms(8) assms(9,10), of "pu_config pb" ?pa1 cib digest n] assms(5)
    unfolding s2 cf by auto
  have guard: "onDigest_guard n ?pa1" by (simp add: onDigest_guard_def hello_sent_def)
  then have pa2: "?pa2 = onDigest_locked ?ds n ?pa1" by (simp add: onDigest_def)
  have ok2: "pull_ok ?pa2" unfolding pa2 using initiatePull_ok [OF r1] assms(1) by (simp add: onDigest_locked_ok)
  let ?W = "{x. x \<in> set ?ds \<and> \<not> Set_Exists (en_state pa) (IStr x)}"
  have owners: "map_get (en_item2owners ?pa2) x = (if x \<in> ?W then Some [?e] else None)" for x
    using digest_single [OF _ guard, of ?e ?ds x] digest(2) assms(3)
    by (simp add: hello_sent_def nonce_peer_def)
  have n: "peer_nonce ?pa2 ?e = n" "pu_config ?pa2 = ?cf"
    unfolding pa2 by (simp_all add: peer_nonce_def hello_sent_def)
  let ?pa3 = "?pa2\<lparr>en_acceptingDigests := False, en_acceptingResponses := True\<rparr>"
  obtain ns o3' where r4: "digestWait_fires c (\<lambda>_. [b]) pick ?pa2 = Some (?pa3, o3')"
    and ns: "set ns = ?W"
    and s4: "sent o3' = (if ns = [] then [] else [fst (NoopSign c (request_msg (pu_config ?pa2) ns (peer_nonce ?pa2 ?e)))])"
    by (rule request_single [OF assms(7) ok2 owners])
  show ?thesis
  proof (rule that [of ?pa3 ns])
    show "pull_ask c ada adb cia cib b n pick pa pb = Some (?pa3, ?pb1,
        if ns = [] then [] else [fst (NoopSign c (request_msg ?cf ns n))])"
      by (simp add: pull_ask_def r1 s1 r2 r3 r4 s4 n)
    show "set ns = {x. (Set_Exists (en_state pb) (IStr x) \<and> en_digestFilter pb ?m1 x \<and> admits x) \<and>
        \<not> Set_Exists (en_state pa) (IStr x)}"
      unfolding ns using digest(1) by auto
  qed (unfold pa2, simp_all add: hello_sent_def)
qed

section \<open>Properties\<close>


text \<open>A block of one peer and the pullers of two peers of a channel.\<close>

definition block_msg :: "u64 \<Rightarrow> SignedGossipMessage" where
  "block_msg seq = \<lparr>sg_Envelope = Some \<lparr>ev_Payload = Some ''b'', ev_Signature = None, ev_SecretEnvelope = None\<rparr>,
     sg_Msg = \<lparr>gm_Nonce = 0, gm_Channel = Some ''ch'', gm_Tag = Tag_CHAN_AND_ORG,
       gm_Content = Some (DataMsg \<lparr>dm_Payload = Some \<lparr>pl_SeqNum = seq, pl_Data = None, pl_PrivateData = []\<rparr>\<rparr>)\<rparr>\<rparr>"

definition block_codec :: codec where
  "block_codec = \<lparr>marshal = (\<lambda>_. Inr None), unmarshal = (\<lambda>_. Inr (sg_Msg (block_msg 5))),
     marshal_secret = (\<lambda>_. Inl (Error [])), unmarshal_secret = (\<lambda>_. Inl (Error []))\<rparr>"

definition block_side :: pull where
  "block_side = snd (createBlockPuller ''ch'' ''id'' 3 4 0)"

definition full_side :: pull where
  "full_side = PullMediator_Add (block_adapter 0) (block_msg 5) block_side"

lemma block_side_simps [simp]:
  "en_nonces2peers block_side = []" "pu_msgType2Hook block_side = []"
  "en_item2owners block_side = []" "en_outgoingNONCES block_side = []" "\<not> Set_Exists (en_state block_side) x"
  "pu_config block_side = block_puller_config ''ch'' ''id'' 3 4" "pu_config full_side = block_puller_config ''ch'' ''id'' 3 4"
  "Set_Exists (en_state full_side) x \<longleftrightarrow> x = IStr (fmt_u64 5)" "en_digestFilter full_side m y"
  "map_get (pu_itemID2Msg full_side) (fmt_u64 5) = Some (block_msg 5)" "pull_ok block_side" "pull_ok full_side"
  by (auto simp: block_side_def full_side_def createBlockPuller_def NewPullMediator_def Let_def set_defs map_has_def
      PullMediator_Add_def block_adapter_def seqNumFromMsg_def block_msg_def getter_defs pull_ok_def)

lemma seqNum_block_msg [simp]: "seqNumFromMsg (block_msg seq) = fmt_u64 seq"
  by (simp add: seqNumFromMsg_def block_msg_def getter_defs)

text \<open>What the digest filter of the blocks lets through.\<close>

definition above :: "u64 \<Rightarrow> string \<Rightarrow> bool" where
  "above height s \<longleftrightarrow> (case parse_uint s of Inl _ \<Rightarrow> False | Inr seqNum \<Rightarrow> height \<le> seqNum)"

lemma block_filter_digests:
  "dd_Nonce (block_IngressDigFilter height d) = dd_Nonce d"
  "BytesToStrings (dd_Digests (block_IngressDigFilter height d)) = filter (above height) (BytesToStrings (dd_Digests d))"
  by (simp_all add: block_IngressDigFilter_def BytesToStrings_def filter_map comp_def above_def)


text \<open>C20. In every interleaving of the operations of a mediator, its handlers of remote messages, its rounds and
  its timers, with a digest's handler in two parts, the tables stay maps, every listed item has an
  owner, the outgoing nonces are exactly those with a peer, and the nonce a peer's request uses
  is one of that peer's. So neither a hello nor the request phase ever panics.\<close>

theorem pull_invariant:
  assumes "(pull_step c ad)\<^sup>*\<^sup>* (snd (NewPullMediator cf ad0), []) (p, ds)"
  shows "pull_ok p \<and> onHello nonce m p \<noteq> None \<and> digestWait_fires c mem pick p \<noteq> None"
proof -
  have ok: "pull_ok p" using puller.reach_inv [OF _ assms] by force
  then have "onHello nonce m p \<noteq> None" by (rule onHello_eq [of p nonce m]) simp
  moreover have "digestWait_fires c mem pick p \<noteq> None" by (rule digestWait_eq [OF ok, of c mem pick]) simp
  ultimately show ?thesis using ok by blast
qed

theorem pull_invariant_witness:
  "pull_ok (PullMediator_Remove ''x'' (snd (NewPullMediator (block_puller_config ''ch'' ''id'' 3 4) (block_adapter 0))))"
proof -
  let ?p = "snd (NewPullMediator (block_puller_config ''ch'' ''id'' 3 4) (block_adapter 0))"
  have "(pull_step block_codec (block_adapter 0))\<^sup>*\<^sup>* (?p, []) (PullMediator_Remove ''x'' ?p, [])"
    by (rule r_into_rtranclp) (rule pull_step.remove)
  from pull_invariant [OF this] show ?thesis by blast
qed

text \<open>The request phase asks for every item with an owner exactly once, each at one of the
  owners the digests named; a destination that is a peer of the round gets the nonce of its own
  hello, which is still outgoing.\<close>

theorem request_phase_correct:
  assumes "pull_ok p"
  shows "\<exists>mapping. requestMapping pick p = Some mapping \<and>
    digestWait_fires c mem pick p = Some (p\<lparr>en_acceptingDigests := False, en_acceptingResponses := True\<rparr>,
       concat (map (\<lambda>(dest, ns). SendReq c (mem dest) dest ns (peer_nonce p dest) p) mapping) @ [Pull_AfterResponseWait]) \<and>
    image_mset fst (requests mapping) = mset_set (dom (map_get (en_item2owners p))) \<and>
    (\<forall>(n, dest)\<in>#requests mapping. \<exists>os. map_get (en_item2owners p) n = Some os \<and> dest \<in> set os \<and>
       (dest \<noteq> [] \<longrightarrow> map_get (en_nonces2peers p) (peer_nonce p dest) = Some dest \<and>
          Set_Exists (en_outgoingNONCES p) (peer_nonce p dest)))"
proof -
  obtain mapping where m: "digestWait_fires c mem pick p = Some (p\<lparr>en_acceptingDigests := False, en_acceptingResponses := True\<rparr>,
       concat (map (\<lambda>(dest, ns). SendReq c (mem dest) dest ns (peer_nonce p dest) p) mapping) @ [Pull_AfterResponseWait])"
    "requestMapping pick p = Some mapping"
    "requests mapping = mset (map (\<lambda>(n, os). (n, the (choose_source pick n os))) (en_item2owners p))"
    by (rule digestWait_eq [OF assms], rule that; assumption)
  have wf: "map_wf (en_item2owners p)" using assms by (simp add: pull_ok_def)
  have "image_mset fst (requests mapping) = mset (map fst (en_item2owners p))"
    unfolding m(3) by (simp add: multiset.map_comp comp_def case_prod_beta)
  then have once: "image_mset fst (requests mapping) = mset_set (dom (map_get (en_item2owners p)))"
    using wf by (metis map_keys mset_set_set list.set_map)
  have "\<exists>os. map_get (en_item2owners p) n = Some os \<and> dest \<in> set os \<and>
       (dest \<noteq> [] \<longrightarrow> map_get (en_nonces2peers p) (peer_nonce p dest) = Some dest \<and>
          Set_Exists (en_outgoingNONCES p) (peer_nonce p dest))" if "(n, dest) \<in># requests mapping" for n dest
  proof -
    from that obtain os where "(n, os) \<in> set (en_item2owners p)" and dest: "dest = the (choose_source pick n os)"
      unfolding m(3) by auto
    with wf have os: "map_get (en_item2owners p) n = Some os" by (simp add: map_of_is_SomeI)
    with assms have "os \<noteq> []" "set os \<subseteq> insert [] (ran (map_get (en_nonces2peers p)))" unfolding pull_ok_def by blast+
    with choose_source_in [of os pick n] dest have d: "dest \<in> set os" "dest \<noteq> [] \<longrightarrow> dest \<in> ran (map_get (en_nonces2peers p))"
      by auto
    show ?thesis
    proof (intro exI [of _ os] conjI impI os d(1))
      assume "dest \<noteq> []"
      then obtain k where "map_get (en_nonces2peers p) k = Some dest" using d(2) by (auto simp: ran_def)
      then obtain j where "map_get (en_peers2nonces p) dest = Some j" using assms unfolding pull_ok_def by blast
      then have j: "peer_nonce p dest = j" "map_get (en_nonces2peers p) j = Some dest"
        using assms unfolding pull_ok_def by (auto simp: peer_nonce_def)
      then show "map_get (en_nonces2peers p) (peer_nonce p dest) = Some dest" by simp
      show "Set_Exists (en_outgoingNONCES p) (peer_nonce p dest)" using j assms unfolding pull_ok_def by simp
    qed
  qed
  with m(1,2) once show ?thesis by blast
qed

theorem request_phase_correct_witness:
  "\<exists>mapping. requestMapping (\<lambda>_. 0) (onDigest [''1''] 7 (hello_sent ''a'' 7 block_side)) = Some mapping"
proof -
  have "pull_ok (hello_sent ''a'' 7 block_side)"
    by (auto simp: pull_ok_def hello_sent_def block_side_def createBlockPuller_def NewPullMediator_def Let_def set_defs map_has_def)
  then have "pull_ok (onDigest [''1''] 7 (hello_sent ''a'' 7 block_side))"
    by (simp add: onDigest_def onDigest_locked_ok)
  from request_phase_correct [OF this] show ?thesis by blast
qed

text \<open>A digest counts only while digests are accepted and for an outgoing nonce; it then adds the
  nonce's peer as an owner of each item the engine lacks, once per mention, and changes nothing
  else. Through the filter of the block puller no item below the ledger's height gets an owner.\<close>

theorem onDigest_correct:
  assumes "sg_Msg (rm_msg m) = digest_msg (pu_config p) ns nonce"
  shows "\<exists>p'. PullMediator_HandleMessage c (block_adapter height) m p =
      Some (p', run_hooks DigestMsgType (filter (above height) ns) [] p) \<and>
    (\<exists>owners. p' = p\<lparr>en_item2owners := owners\<rparr>) \<and>
    map_get (en_item2owners p') x =
      (if en_acceptingDigests p \<and> Set_Exists (en_outgoingNONCES p) nonce \<and> x \<in> set ns \<and> above height x \<and>
          \<not> Set_Exists (en_state p) (IStr x)
       then Some ((case map_get (en_item2owners p) x of None \<Rightarrow> [] | Some os \<Rightarrow> os) @
              replicate (count_list ns x) (nonce_peer p nonce))
       else map_get (en_item2owners p) x)"
proof -
  let ?ns = "filter (above height) ns"
  let ?p' = "onDigest ?ns nonce p"
  have f: "pa_IngressDigFilter (block_adapter height) = Some (block_IngressDigFilter height)"
    by (simp add: block_adapter_def)
  have hooks: "run_hooks t a b ?p' = run_hooks t a b p" for t a b
    by (simp add: run_hooks_def hooksByMsgType_def onDigest_def)
  have "PullMediator_HandleMessage c (block_adapter height) m p = Some (?p', run_hooks DigestMsgType ?ns [] p)"
    using handle_digest [OF assms refl f refl, of c] by (simp add: block_filter_digests hooks Let_def)
  moreover have "\<exists>owners. onDigest_locked ns' nonce q = q\<lparr>en_item2owners := owners\<rparr>" for ns' q
    unfolding onDigest_locked_def
  proof (induction ns' arbitrary: q)
    case Nil
    show ?case by (intro exI [of _ "en_item2owners q"]) simp
  next
    case (Cons k ns')
    have "digest_item nonce k q = q\<lparr>en_item2owners := en_item2owners (digest_item nonce k q)\<rparr>"
      by (simp add: digest_item_def Let_def)
    then obtain o1 where o1: "digest_item nonce k q = q\<lparr>en_item2owners := o1\<rparr>" by blast
    from Cons.IH [of "digest_item nonce k q"] show ?case by (auto simp: o1)
  qed
  then have "\<exists>owners. ?p' = p\<lparr>en_item2owners := owners\<rparr>"
    by (cases "onDigest_guard nonce p") (auto simp: onDigest_def intro: exI [of _ "en_item2owners p"])
  moreover have "count_list ?ns x = count_list ns x" if "above height x"
    using that by (induction ns) auto
  ultimately show ?thesis
    by (auto simp: onDigest_def onDigest_guard_def onDigest_locked_def map_get_fold_digest)
qed

theorem onDigest_correct_witness:
  "\<exists>p'. PullMediator_HandleMessage block_codec (block_adapter 0)
     \<lparr>rm_msg = \<lparr>sg_Envelope = None, sg_Msg = digest_msg (block_puller_config ''ch'' ''id'' 3 4) [fmt_u64 5] 7\<rparr>, rm_ConnInfo = None\<rparr>
     (hello_sent ''a'' 7 block_side) = Some (p', []) \<and> map_get (en_item2owners p') (fmt_u64 5) = Some [''a'']"
proof -
  let ?m = "\<lparr>rm_msg = \<lparr>sg_Envelope = None, sg_Msg = digest_msg (block_puller_config ''ch'' ''id'' 3 4) [fmt_u64 5] 7\<rparr>, rm_ConnInfo = None\<rparr>"
  have "sg_Msg (rm_msg ?m) = digest_msg (pu_config (hello_sent ''a'' 7 block_side)) [fmt_u64 5] 7"
    by (simp add: hello_sent_def)
  from onDigest_correct [OF this, of block_codec 0 "fmt_u64 5"] show ?thesis
    by (auto simp: hello_sent_def above_def run_hooks_def hooksByMsgType_def nonce_peer_def)
qed

text \<open>A request is answered only for a nonce a hello has announced and whose wait is not over; the
  answer is then sent by a goroutine of its own, and it carries the envelopes of the requested
  items that are in the engine's set, that the digest filter lets out to the asking peer and that
  are still stored. Whatever the request, the hooks on requests get no messages and the state is
  unchanged.\<close>

theorem request_answer_correct:
  assumes "sg_Msg (rm_msg m) = request_msg (pu_config p) ns nonce"
  shows "\<exists>outs. PullMediator_HandleMessage c ad m p = Some (p, outs) \<and>
    (\<forall>h ids msgs. Pull_Hook h ids msgs \<in> set outs \<longrightarrow> msgs = []) \<and>
    answers q outs =
      (let items = filter (\<lambda>x. Set_Exists (en_state p) (IStr x) \<and> en_digestFilter p m x) ns in
       if Set_Exists (en_incomingNONCES p) nonce \<and> items \<noteq> []
       then [Pull_Respond m (update_msg (pu_config q)
              (map sg_Envelope (List.map_filter (map_get (pu_itemID2Msg q)) items)) nonce)]
       else []) \<and>
    PullMediator_HandleMessage c ad m (requestWait_fires nonce p) =
      Some (requestWait_fires nonce p, run_hooks RequestMsgType ns [] p)"
proof -
  have "Pull_Hook h ids msgs \<in> set (onReq ns nonce m p @ run_hooks RequestMsgType ns [] p) \<longrightarrow> msgs = []" for h ids msgs
    by (auto simp: onReq_def run_hooks_def Let_def split: if_splits)
  moreover have "PullMediator_HandleMessage c ad m (requestWait_fires nonce p) =
      Some (requestWait_fires nonce p, run_hooks RequestMsgType ns [] p)"
    using handle_request [of m "pu_config p" ns nonce "requestWait_fires nonce p" c ad] assms
    by (simp add: requestWait_fires_def onReq_def run_hooks_def hooksByMsgType_def)
  ultimately show ?thesis
    using handle_request [OF assms refl, of c ad]
    by (intro exI [of _ "onReq ns nonce m p @ run_hooks RequestMsgType ns [] p"])
      (auto simp: onReq_def SendRes_def Let_def)
qed

theorem request_answer_correct_witness:
  "\<exists>outs. PullMediator_HandleMessage block_codec (block_adapter 0)
     \<lparr>rm_msg = \<lparr>sg_Envelope = None, sg_Msg = request_msg (block_puller_config ''ch'' ''id'' 3 4) [fmt_u64 5] 7\<rparr>, rm_ConnInfo = None\<rparr>
     (full_side\<lparr>en_incomingNONCES := Set_Add 7 NewSet\<rparr>) = Some (full_side\<lparr>en_incomingNONCES := Set_Add 7 NewSet\<rparr>, outs) \<and>
   (\<exists>m g. answers full_side outs = [Pull_Respond m g])"
proof -
  let ?m = "\<lparr>rm_msg = \<lparr>sg_Envelope = None, sg_Msg = request_msg (block_puller_config ''ch'' ''id'' 3 4) [fmt_u64 5] 7\<rparr>, rm_ConnInfo = None\<rparr>"
  let ?p = "full_side\<lparr>en_incomingNONCES := Set_Add 7 NewSet\<rparr>"
  have "sg_Msg (rm_msg ?m) = request_msg (pu_config ?p) [fmt_u64 5] 7" by simp
  from request_answer_correct [OF this, of block_codec "block_adapter 0" full_side] show ?thesis
    by auto
qed



text \<open>\<open>Remove\<close> deletes an item's message but removes the runes of its name from the engine's set, so
  the set keeps the item: it is still advertised to every hello the filter admits it for, while
  the answer to a request for it carries no data.\<close>

theorem Remove_keeps_advertising:
  assumes "pull_ok p" "Set_Exists (en_state p) (IStr x)" "en_digestFilter p ctx x"
  shows "\<exists>p' digest outs. onHello nonce ctx (PullMediator_Remove x p) =
      Some (p', Pull_AfterRequestWait nonce # [Pull_Respond ctx (digest_msg (pu_config p) digest nonce)]) \<and>
    x \<in> set digest \<and>
    SendRes [x] ctx nonce (PullMediator_Remove x p) = [Pull_Respond ctx (update_msg (pu_config p) [] nonce)] \<and>
    (\<forall>i. Set_Exists (en_state (PullMediator_Remove x p)) i \<longleftrightarrow> Set_Exists (en_state p) i)"
proof -
  let ?q = "PullMediator_Remove x p"
  have same: "Set_Exists (en_state ?q) i \<longleftrightarrow> Set_Exists (en_state p) i" for i
    using assms(1) by (auto simp: PullMediator_Remove_def fold_remove_runes pull_ok_def)
  obtain digest where d: "onHello nonce ctx ?q = Some (?q\<lparr>en_incomingNONCES := Set_Add nonce (en_incomingNONCES ?q)\<rparr>,
       Pull_AfterRequestWait nonce #
         (if digest = [] then [] else [Pull_Respond ctx (digest_msg (pu_config ?q) digest nonce)]))"
    "set digest = {n. Set_Exists (en_state ?q) (IStr n) \<and> en_digestFilter ?q ctx n}"
    by (rule onHello_eq [OF PullMediator_Remove_ok [OF assms(1)]])
  have x: "x \<in> set digest" unfolding d(2) same using assms(2,3) by (simp add: PullMediator_Remove_def)
  then have "digest \<noteq> []" by auto
  moreover have "SendRes [x] ctx nonce ?q = [Pull_Respond ctx (update_msg (pu_config p) [] nonce)]"
    by (simp add: SendRes_def PullMediator_Remove_def List.map_filter_simps)
  ultimately show ?thesis using d(1) x same by (auto simp: PullMediator_Remove_def)
qed

theorem Remove_keeps_advertising_witness:
  "Set_Exists (en_state (PullMediator_Remove (fmt_u64 5) full_side)) (IStr (fmt_u64 5))"
  using Remove_keeps_advertising [of full_side "fmt_u64 5"] by auto

text \<open>An update nobody asked for, one whose nonce is not outgoing, leaves the engine's set alone, but its messages
  are consumed and replace the stored messages of their ids all the same.\<close>

theorem unsolicited_update:
  assumes "sg_Msg (rm_msg m) = update_msg (pu_config p) es nonce" "\<not> Set_Exists (en_outgoingNONCES p) nonce"
    and "list_all2 (\<lambda>e msg. e \<noteq> None \<and> ToGossipMessage c (the e) = Inr msg) es msgs"
  shows "\<exists>p' outs. PullMediator_HandleMessage c ad m p = Some (p', outs) \<and> en_state p' = en_state p \<and>
    (\<forall>msg\<in>set msgs. Pull_Consume msg \<in> set outs \<and> map_get (pu_itemID2Msg p') (pa_IdExtractor ad msg) \<noteq> None) \<and>
    (\<forall>msg. msgs = [msg] \<longrightarrow> map_get (pu_itemID2Msg p') (pa_IdExtractor ad msg) = Some msg)"
proof -
  let ?st = "\<lambda>ms mp. fold (\<lambda>msg. map_put (pa_IdExtractor ad msg) msg) ms mp"
  have keep: "map_get mp k \<noteq> None \<Longrightarrow> map_get (?st ms mp) k \<noteq> None" for ms mp k
    by (induction ms arbitrary: mp) auto
  have stored: "msg \<in> set ms \<Longrightarrow> map_get (?st ms mp) (pa_IdExtractor ad msg) \<noteq> None" for ms mp msg
  proof (induction ms arbitrary: mp)
    case (Cons y ms)
    then show ?case using keep [of "map_put (pa_IdExtractor ad y) y mp" "pa_IdExtractor ad msg" ms]
      by (cases "msg = y") auto
  qed simp
  from handle_update [OF assms(1) refl update_loop_all [OF assms(3)], of ad] show ?thesis
    using assms(2) stored by (auto simp: onRes_def image_iff)
qed

theorem unsolicited_update_witness:
  "\<exists>p' outs. PullMediator_HandleMessage block_codec (block_adapter 0)
     \<lparr>rm_msg = \<lparr>sg_Envelope = None, sg_Msg = update_msg (block_puller_config ''ch'' ''id'' 3 4) [sg_Envelope (block_msg 5)] 9\<rparr>,
      rm_ConnInfo = None\<rparr> block_side = Some (p', outs) \<and>
     map_get (pu_itemID2Msg p') (fmt_u64 5) = Some (block_msg 5)"
proof -
  let ?m = "\<lparr>rm_msg = \<lparr>sg_Envelope = None, sg_Msg = update_msg (block_puller_config ''ch'' ''id'' 3 4) [sg_Envelope (block_msg 5)] 9\<rparr>,
      rm_ConnInfo = None\<rparr>"
  have "sg_Msg (rm_msg ?m) = update_msg (pu_config block_side) [sg_Envelope (block_msg 5)] 9" by simp
  moreover have "\<not> Set_Exists (en_outgoingNONCES block_side) 9" by (simp add: Set_Exists_def map_has_def)
  moreover have "list_all2 (\<lambda>e msg. e \<noteq> None \<and> ToGossipMessage block_codec (the e) = Inr msg) [sg_Envelope (block_msg 5)] [block_msg 5]"
    by (simp add: ToGossipMessage_def block_codec_def block_msg_def)
  ultimately obtain p' outs where
    "PullMediator_HandleMessage block_codec (block_adapter 0) ?m block_side = Some (p', outs)"
    "map_get (pu_itemID2Msg p') (pa_IdExtractor (block_adapter 0) (block_msg 5)) = Some (block_msg 5)"
    using unsolicited_update [of ?m block_side "[sg_Envelope (block_msg 5)]" 9 block_codec "[block_msg 5]" "block_adapter 0"]
    by blast
  moreover have "pa_IdExtractor (block_adapter 0) (block_msg 5) = fmt_u64 5" by (simp add: block_adapter_def)
  ultimately show ?thesis by metis
qed

end
