(* ===== verification/PubSub.thy ===== *)
theory PubSub
  imports Sets
begin

text \<open>
  The publisher of common.go (PubSub, Subscription) and the demultiplexer of channel.go. The
  publisher maps a topic to a set behind a pointer, so the model has a heap of sets: a
  subscriber that has looked its set up keeps the pointer while the topic may be deleted.
  Subscriptions are numbered and their buffered channels are lists.
\<close>

section \<open>The publisher\<close>

definition subscriptionBuffSize :: nat where
  "subscriptionBuffSize = 50"

record 'm Subscription =
  sub_top :: string
  sub_ttl :: duration
  sub_c :: "'m list"

record 'm PubSub =
  ps_subscriptions :: "(string, nat) gomap"
  ps_sets :: "(nat, nat goset) gomap"
  ps_subs :: "(nat, 'm Subscription) gomap"
  ps_next :: nat

definition NewPubSub :: "'m PubSub" where
  "NewPubSub = \<lparr>ps_subscriptions = [], ps_sets = [], ps_subs = [], ps_next = 0\<rparr>"

definition set_at :: "'m PubSub \<Rightarrow> nat \<Rightarrow> nat goset" where
  "set_at ps a = (case map_get (ps_sets ps) a of None \<Rightarrow> NewSet | Some s \<Rightarrow> s)"

text \<open>
  \<open>Subscribe\<close> looks its topic's set up under the lock, creating it if need be, and adds itself
  to the set after it has released the lock: two steps. The subscription and a new set are
  allocated at the next address.
\<close>

definition Subscribe_lookup :: "string \<Rightarrow> duration \<Rightarrow> 'm PubSub \<Rightarrow> nat \<times> nat \<times> 'm PubSub" where
  "Subscribe_lookup topic ttl ps =
     (let sub = ps_next ps;
          ps1 = ps\<lparr>ps_subs := map_put sub \<lparr>sub_top = topic, sub_ttl = ttl, sub_c = []\<rparr> (ps_subs ps),
                   ps_next := Suc sub\<rparr>
      in case map_get (ps_subscriptions ps) topic of
           Some s \<Rightarrow> (sub, s, ps1)
         | None \<Rightarrow> (sub, sub, ps1\<lparr>ps_sets := map_put sub NewSet (ps_sets ps1),
                                 ps_subscriptions := map_put topic sub (ps_subscriptions ps1)\<rparr>))"

definition Subscribe_add :: "nat \<Rightarrow> nat \<Rightarrow> 'm PubSub \<Rightarrow> 'm PubSub" where
  "Subscribe_add sub s ps = ps\<lparr>ps_sets := map_put s (Set_Add sub (set_at ps s)) (ps_sets ps)\<rparr>"

definition Subscribe :: "string \<Rightarrow> duration \<Rightarrow> 'm PubSub \<Rightarrow> nat \<times> 'm PubSub" where
  "Subscribe topic ttl ps =
     (let (sub, s, ps1) = Subscribe_lookup topic ttl ps in (sub, Subscribe_add sub s ps1))"

text \<open>The timer of a subscription. A topic the map lacks gives a nil set, whose use panics.\<close>

definition Subscribe_expires :: "nat \<Rightarrow> 'm PubSub \<Rightarrow> 'm PubSub option" where
  "Subscribe_expires sub ps =
     do {
       x \<leftarrow> map_get (ps_subs ps) sub;
       s \<leftarrow> map_get (ps_subscriptions ps) (sub_top x);
       (let ps1 = ps\<lparr>ps_sets := map_put s (Set_Remove sub (set_at ps s)) (ps_sets ps)\<rparr>
        in if Set_Size (set_at ps1 s) \<noteq> 0 then Some ps1
           else Some (ps1\<lparr>ps_subscriptions := map_del (sub_top x) (ps_subscriptions ps1)\<rparr>))
     }"

definition publish_to :: "'m \<Rightarrow> nat \<Rightarrow> 'm PubSub \<Rightarrow> 'm PubSub" where
  "publish_to item sub ps =
     (case map_get (ps_subs ps) sub of
        None \<Rightarrow> ps
      | Some x \<Rightarrow>
          if length (sub_c x) = subscriptionBuffSize then ps
          else ps\<lparr>ps_subs := map_put sub (x\<lparr>sub_c := sub_c x @ [item]\<rparr>) (ps_subs ps)\<rparr>)"

definition Publish :: "string \<Rightarrow> 'm \<Rightarrow> 'm PubSub \<Rightarrow> error option \<times> 'm PubSub" where
  "Publish topic item ps =
     (case map_get (ps_subscriptions ps) topic of
        None \<Rightarrow> (Some (Error ''no subscribers''), ps)
      | Some s \<Rightarrow> (None, fold (publish_to item) (Set_ToArray (set_at ps s)) ps))"

text \<open>
  \<open>Listen\<close> takes the first item, or times out after the subscription's time; with an item there
  and the time over, either may happen. \<open>None\<close>: it waits.
\<close>

definition Listen :: "bool \<Rightarrow> nat \<Rightarrow> 'm PubSub \<Rightarrow> ((error + 'm) \<times> 'm PubSub) option" where
  "Listen timeout sub ps =
     (if timeout then Some (Inl (Error ''timed out''), ps)
      else (case map_get (ps_subs ps) sub of
              None \<Rightarrow> None
            | Some x \<Rightarrow>
                (case sub_c x of
                   [] \<Rightarrow> None
                 | item # rest \<Rightarrow> Some (Inr item, ps\<lparr>ps_subs := map_put sub (x\<lparr>sub_c := rest\<rparr>) (ps_subs ps)\<rparr>))))"

section \<open>The demultiplexer\<close>

text \<open>A channel's buffer holds ten messages; a send to a full one waits.\<close>

record 'm demux_channel =
  ch_pred :: "'m \<Rightarrow> bool"
  ch_ch :: "'m list"

record 'm ChannelDeMultiplexer =
  dm_channels :: "'m demux_channel list"
  dm_closed :: bool

definition demuxBuffSize :: nat where
  "demuxBuffSize = 10"

definition NewChannelDemultiplexer :: "'m ChannelDeMultiplexer" where
  "NewChannelDemultiplexer = \<lparr>dm_channels = [], dm_closed = False\<rparr>"

definition demux_Close :: "'m ChannelDeMultiplexer \<Rightarrow> 'm ChannelDeMultiplexer" where
  "demux_Close m = m\<lparr>dm_closed := True, dm_channels := []\<rparr>"

definition AddChannel :: "('m \<Rightarrow> bool) \<Rightarrow> 'm ChannelDeMultiplexer \<Rightarrow> 'm ChannelDeMultiplexer" where
  "AddChannel predicate m = m\<lparr>dm_channels := dm_channels m @ [\<lparr>ch_pred = predicate, ch_ch = []\<rparr>]\<rparr>"

text \<open>
  The loop of \<open>DeMultiplex\<close>: the channels after it and whether it got through; if not, it waits
  at the first full channel that accepts the message, having served the ones before.
\<close>

fun demux_loop :: "'m \<Rightarrow> 'm demux_channel list \<Rightarrow> 'm demux_channel list \<times> bool" where
  "demux_loop msg [] = ([], True)"
| "demux_loop msg (ch # chs) =
     (if ch_pred ch msg
      then (if length (ch_ch ch) < demuxBuffSize
            then (let (chs', ok) = demux_loop msg chs in (ch\<lparr>ch_ch := ch_ch ch @ [msg]\<rparr> # chs', ok))
            else (ch # chs, False))
      else (let (chs', ok) = demux_loop msg chs in (ch # chs', ok)))"

definition DeMultiplex :: "'m \<Rightarrow> 'm ChannelDeMultiplexer \<Rightarrow> 'm ChannelDeMultiplexer \<times> bool" where
  "DeMultiplex msg m =
     (if dm_closed m then (m, True)
      else (let (chs, ok) = demux_loop msg (dm_channels m) in (m\<lparr>dm_channels := chs\<rparr>, ok)))"

section \<open>Publishing\<close>

lemma publish_to_fields [simp]:
  "ps_subscriptions (publish_to item sub ps) = ps_subscriptions ps"
  "ps_sets (publish_to item sub ps) = ps_sets ps" "ps_next (publish_to item sub ps) = ps_next ps"
  "map_wf (ps_subs ps) \<Longrightarrow> map_wf (ps_subs (publish_to item sub ps))"
  "set_at (publish_to item sub ps) a = set_at ps a"
  by (simp_all add: publish_to_def set_at_def split: option.splits)

text \<open>What an item does to a subscription: it is dropped when the buffer is full.\<close>

definition deliver :: "'m \<Rightarrow> 'm Subscription \<Rightarrow> 'm Subscription" where
  "deliver item x = (if length (sub_c x) = subscriptionBuffSize then x else x\<lparr>sub_c := sub_c x @ [item]\<rparr>)"

lemma publish_to_get:
  "map_get (ps_subs (publish_to item sub ps)) k =
     (if k = sub then map_option (deliver item) (map_get (ps_subs ps) k) else map_get (ps_subs ps) k)"
  by (auto simp: publish_to_def deliver_def split: option.splits)

lemma publish_all:
  assumes "distinct subs"
  shows "ps_subscriptions (fold (publish_to item) subs ps) = ps_subscriptions ps \<and>
    ps_sets (fold (publish_to item) subs ps) = ps_sets ps \<and> ps_next (fold (publish_to item) subs ps) = ps_next ps \<and>
    (map_wf (ps_subs ps) \<longrightarrow> map_wf (ps_subs (fold (publish_to item) subs ps))) \<and>
    map_get (ps_subs (fold (publish_to item) subs ps)) k =
      (if k \<in> set subs then map_option (deliver item) (map_get (ps_subs ps) k) else map_get (ps_subs ps) k)"
  using assms by (induction subs arbitrary: ps) (auto simp: publish_to_get)

section \<open>The invariant\<close>

definition live :: "'m PubSub \<Rightarrow> string \<Rightarrow> nat \<Rightarrow> bool" where
  "live ps topic sub \<longleftrightarrow> (\<exists>s. map_get (ps_subscriptions ps) topic = Some s \<and> Set_Exists (set_at ps s) sub)"

definition topic_of :: "'m PubSub \<Rightarrow> nat \<Rightarrow> string option" where
  "topic_of ps sub = map_option sub_top (map_get (ps_subs ps) sub)"

text \<open>
  With the subscriptions whose timer runs: the tables are maps, sets and subscriptions are
  allocated below the next address, topics do not share a set, no topic has an empty set, and a
  subscription is in its topic's set exactly while its timer runs.
\<close>

definition pubsub_ok :: "'m PubSub \<times> nat list \<Rightarrow> bool" where
  "pubsub_ok = (\<lambda>(ps, timers).
     map_wf (ps_subscriptions ps) \<and> map_wf (ps_sets ps) \<and> map_wf (ps_subs ps) \<and> distinct timers \<and>
     (\<forall>a. map_wf (set_at ps a)) \<and>
     (\<forall>sub x. map_get (ps_subs ps) sub = Some x \<longrightarrow> sub < ps_next ps) \<and>
     (\<forall>t s. map_get (ps_subscriptions ps) t = Some s \<longrightarrow> s < ps_next ps \<and> (\<exists>sub. Set_Exists (set_at ps s) sub)) \<and>
     (\<forall>t t' s. map_get (ps_subscriptions ps) t = Some s \<longrightarrow> map_get (ps_subscriptions ps) t' = Some s \<longrightarrow> t = t') \<and>
     (\<forall>t sub. live ps t sub \<longleftrightarrow> sub \<in> set timers \<and> topic_of ps sub = Some t) \<and>
     (\<forall>sub\<in>set timers. map_get (ps_subs ps) sub \<noteq> None))"

lemma pubsub_okD:
  assumes "pubsub_ok (ps, timers)"
  shows "map_wf (ps_subscriptions ps)" "map_wf (ps_sets ps)" "map_wf (ps_subs ps)" "distinct timers"
    "map_wf (set_at ps a)"
    "map_get (ps_subs ps) sub = Some x \<Longrightarrow> sub < ps_next ps"
    "map_get (ps_subscriptions ps) t = Some s \<Longrightarrow> s < ps_next ps"
    "map_get (ps_subscriptions ps) t = Some s \<Longrightarrow> \<exists>sub. Set_Exists (set_at ps s) sub"
    "map_get (ps_subscriptions ps) t = Some s \<Longrightarrow> map_get (ps_subscriptions ps) t' = Some s \<Longrightarrow> t = t'"
    "live ps t sub \<longleftrightarrow> sub \<in> set timers \<and> topic_of ps sub = Some t"
    "sub \<in> set timers \<Longrightarrow> map_get (ps_subs ps) sub \<noteq> None"
  using assms unfolding pubsub_ok_def by blast+

lemma set_at_put: "set_at (ps\<lparr>ps_sets := map_put s v (ps_sets ps)\<rparr>) a = (if a = s then v else set_at ps a)"
  by (simp add: set_at_def)

lemma NewPubSub_ok: "pubsub_ok (NewPubSub, [])"
  by (simp add: pubsub_ok_def NewPubSub_def live_def set_at_def)

lemma Subscribe_fields:
  assumes "Subscribe topic ttl ps = (sub, ps')" and "pubsub_ok (ps, timers)"
  defines "s \<equiv> (case map_get (ps_subscriptions ps) topic of None \<Rightarrow> sub | Some s \<Rightarrow> s)"
    and "old \<equiv> (case map_get (ps_subscriptions ps) topic of None \<Rightarrow> NewSet | Some s \<Rightarrow> set_at ps s)"
  shows "sub = ps_next ps" "ps_next ps' = Suc (ps_next ps)"
    "map_get (ps_subscriptions ps') = (map_get (ps_subscriptions ps))(topic \<mapsto> s)"
    "set_at ps' a = (if a = s then Set_Add sub old else set_at ps a)"
    "map_get (ps_subs ps') = (map_get (ps_subs ps))(sub \<mapsto> \<lparr>sub_top = topic, sub_ttl = ttl, sub_c = []\<rparr>)"
    "map_wf (ps_subscriptions ps')" "map_wf (ps_sets ps')" "map_wf (ps_subs ps')"
  using assms(1) pubsub_okD(1-3) [OF assms(2)]
  by (auto simp: Subscribe_def Subscribe_lookup_def Subscribe_add_def Let_def s_def old_def set_at_def
      split: option.splits)

lemma Subscribe_live:
  assumes sub: "Subscribe topic ttl ps = (sub, ps')" and ok: "pubsub_ok (ps, timers)"
  shows "live ps' t k \<longleftrightarrow> t = topic \<and> k = sub \<or> live ps t k"
proof (cases "map_get (ps_subscriptions ps) topic")
  case None
  have f: "map_get (ps_subscriptions ps') t = (if t = topic then Some sub else map_get (ps_subscriptions ps) t)"
    "set_at ps' a = (if a = sub then Set_Add sub NewSet else set_at ps a)" "sub = ps_next ps" for t a
    using Subscribe_fields [OF sub ok] None by simp_all
  have old: "map_get (ps_subscriptions ps) t = Some s \<Longrightarrow> s \<noteq> sub" for t s
    using pubsub_okD(7) [OF ok, of t s] f(3) by auto
  show ?thesis unfolding live_def f(1,2) using old None by (cases "t = topic") auto
next
  case (Some s)
  have f: "map_get (ps_subscriptions ps') t = map_get (ps_subscriptions ps) t"
    "set_at ps' a = (if a = s then Set_Add sub (set_at ps s) else set_at ps a)" for t a
    using Subscribe_fields [OF sub ok] Some by simp_all
  have other: "t \<noteq> topic \<Longrightarrow> map_get (ps_subscriptions ps) t = Some s' \<Longrightarrow> s' \<noteq> s" for s'
    using Some pubsub_okD(9) [OF ok, of t s topic] by auto
  show ?thesis
  proof (cases "map_get (ps_subscriptions ps) t")
    case None
    with Some show ?thesis unfolding live_def f by auto
  next
    case (Some s')
    with other [of s'] \<open>map_get (ps_subscriptions ps) topic = Some s\<close> show ?thesis
      unfolding live_def f by (cases "t = topic") auto
  qed
qed

lemma Subscribe_ok:
  assumes sub: "Subscribe topic ttl ps = (sub, ps')" and ok: "pubsub_ok (ps, timers)"
  shows "pubsub_ok (ps', sub # timers)"
proof -
  note f = Subscribe_fields [OF sub ok]
  have new: "sub \<notin> set timers" "map_get (ps_subs ps) sub = None"
    using pubsub_okD(6) [OF ok, of sub] pubsub_okD(11) [OF ok, of sub] f(1) by (cases "map_get (ps_subs ps) sub"; auto)+
  have topic: "topic_of ps' k = (if k = sub then Some topic else topic_of ps k)" for k
    by (simp add: topic_of_def f(5))
  have "topic_of ps sub = None" using new(2) by (simp add: topic_of_def)
  then have live: "live ps' t k \<longleftrightarrow> k \<in> set (sub # timers) \<and> topic_of ps' k = Some t" for t k
    unfolding Subscribe_live [OF sub ok] pubsub_okD(10) [OF ok] topic using new(1) by auto
  have sets: "map_get (ps_subscriptions ps') t = Some a \<Longrightarrow>
      a < ps_next ps' \<and> (\<exists>k. Set_Exists (set_at ps' a) k)" for t a
    unfolding f(1-4) using pubsub_okD(7,8) [OF ok, of _ a]
    by (auto split: if_splits option.splits) (meson less_SucI)+
  have inj: "map_get (ps_subscriptions ps') t = Some a \<Longrightarrow> map_get (ps_subscriptions ps') t' = Some a \<Longrightarrow> t = t'" for t t' a
    unfolding f(3) using pubsub_okD(9) [OF ok, of t a t'] pubsub_okD(7) [OF ok, of _ a] pubsub_okD(9) [OF ok] f(1)
    by (auto split: if_splits option.splits)
  have "map_wf (set_at ps' a)" for a
    unfolding f(4) using pubsub_okD(5) [OF ok] by (auto split: option.splits)
  moreover have "k < ps_next ps'" if "map_get (ps_subs ps') k = Some x" for k x
    using that pubsub_okD(6) [OF ok, of k x] unfolding f(5,2) f(1) by (auto split: if_splits)
  ultimately show ?thesis
    unfolding pubsub_ok_def prod.case
    using f(6-8) pubsub_okD(4,11) [OF ok] new(1) sets inj live by (auto simp: f(5))
qed

text \<open>Steps that only touch the buffers.\<close>

lemma pubsub_ok_buffers:
  assumes "pubsub_ok (ps, timers)" "ps_subscriptions ps' = ps_subscriptions ps" "ps_sets ps' = ps_sets ps"
    and "ps_next ps' = ps_next ps" "map_wf (ps_subs ps')" "topic_of ps' = topic_of ps"
  shows "pubsub_ok (ps', timers)"
proof -
  have at: "set_at ps' = set_at ps" using assms(3) by (simp add: set_at_def fun_eq_iff)
  have live: "live ps' = live ps" by (simp add: live_def fun_eq_iff assms(2) at)
  have dom: "map_get (ps_subs ps') k = None \<longleftrightarrow> map_get (ps_subs ps) k = None" for k
    using fun_cong [OF assms(6), of k] by (cases "map_get (ps_subs ps) k"; cases "map_get (ps_subs ps') k") (auto simp: topic_of_def)
  have "k < ps_next ps'" if "map_get (ps_subs ps') k = Some x" for k x
    using that dom [of k] pubsub_okD(6) [OF assms(1), of k] assms(4) by auto
  then show ?thesis
    using assms pubsub_okD(11) [OF assms(1)] dom unfolding pubsub_ok_def prod.case at live by auto
qed

lemma Publish_fields:
  assumes "pubsub_ok (ps, timers)" "Publish topic item ps = (e, ps')"
  shows "ps_subscriptions ps' = ps_subscriptions ps" "ps_sets ps' = ps_sets ps" "ps_next ps' = ps_next ps"
    "map_wf (ps_subs ps')"
    "map_get (ps_subs ps') k = (if live ps topic k then map_option (deliver item) (map_get (ps_subs ps) k) else map_get (ps_subs ps) k)"
    "e = None \<longleftrightarrow> map_get (ps_subscriptions ps) topic \<noteq> None"
proof -
  have d: "distinct (Set_ToArray (set_at ps a))" for a
    using pubsub_okD(5) [OF assms(1)] by (simp add: goset.items_distinct)
  note pa = publish_all [OF d, where item = item and ps = ps]
  show "ps_subscriptions ps' = ps_subscriptions ps" "ps_sets ps' = ps_sets ps" "ps_next ps' = ps_next ps" "map_wf (ps_subs ps')"
    "map_get (ps_subs ps') k = (if live ps topic k then map_option (deliver item) (map_get (ps_subs ps) k) else map_get (ps_subs ps) k)"
    "e = None \<longleftrightarrow> map_get (ps_subscriptions ps) topic \<noteq> None"
    using assms(2) pubsub_okD(3) [OF assms(1)] pa
    by (auto simp: Publish_def live_def split: option.splits)
qed

lemma Publish_ok:
  assumes "pubsub_ok (ps, timers)" "Publish topic item ps = (e, ps')"
  shows "pubsub_ok (ps', timers)"
proof (rule pubsub_ok_buffers [OF assms(1) Publish_fields(1-4) [OF assms]])
  show "topic_of ps' = topic_of ps"
    by (simp add: topic_of_def fun_eq_iff Publish_fields(5) [OF assms] option.map_comp comp_def deliver_def if_distrib cong: if_cong)
qed

lemma Listen_ok:
  assumes "pubsub_ok (ps, timers)" "Listen timeout sub ps = Some (r, ps')"
  shows "pubsub_ok (ps', timers)"
  using assms(2) pubsub_okD(3) [OF assms(1)]
  by (intro pubsub_ok_buffers [OF assms(1)])
    (auto simp: Listen_def topic_of_def fun_eq_iff split: if_splits option.splits list.splits)

lemma expire_eq:
  assumes ok: "pubsub_ok (ps, timers)" and "sub \<in> set timers"
  obtains x s where "map_get (ps_subs ps) sub = Some x" "map_get (ps_subscriptions ps) (sub_top x) = Some s"
    "Set_Exists (set_at ps s) sub"
proof -
  obtain x where x: "map_get (ps_subs ps) sub = Some x" using pubsub_okD(11) [OF ok assms(2)] by blast
  then have "live ps (sub_top x) sub" using pubsub_okD(10) [OF ok] assms(2) by (simp add: topic_of_def)
  then show ?thesis using that x by (auto simp: live_def)
qed

lemma expire_fields:
  assumes ok: "pubsub_ok (ps, timers)" and x: "map_get (ps_subs ps) sub = Some x"
    and s: "map_get (ps_subscriptions ps) (sub_top x) = Some s"
  obtains ps' gone where "Subscribe_expires sub ps = Some ps'"
    "gone \<longleftrightarrow> (\<forall>k. Set_Exists (set_at ps s) k \<longrightarrow> k = sub)"
    "\<And>a. set_at ps' a = (if a = s then Set_Remove sub (set_at ps s) else set_at ps a)"
    "\<And>t. map_get (ps_subscriptions ps') t = (if gone \<and> t = sub_top x then None else map_get (ps_subscriptions ps) t)"
    "ps_subs ps' = ps_subs ps" "ps_next ps' = ps_next ps" "map_wf (ps_subscriptions ps')" "map_wf (ps_sets ps')"
proof -
  define ps1 where "ps1 = ps\<lparr>ps_sets := map_put s (Set_Remove sub (set_at ps s)) (ps_sets ps)\<rparr>"
  define gone where "gone \<longleftrightarrow> Set_Size (set_at ps1 s) = 0"
  define ps' where "ps' = (if gone then ps1\<lparr>ps_subscriptions := map_del (sub_top x) (ps_subscriptions ps1)\<rparr> else ps1)"
  have at: "set_at ps1 a = (if a = s then Set_Remove sub (set_at ps s) else set_at ps a)" for a
    by (simp add: ps1_def set_at_put)
  show ?thesis
  proof (rule that [of ps' gone])
    show "Subscribe_expires sub ps = Some ps'"
      by (simp add: Subscribe_expires_def x s ps1_def ps'_def gone_def Let_def)
    show "gone \<longleftrightarrow> (\<forall>k. Set_Exists (set_at ps s) k \<longrightarrow> k = sub)"
      using pubsub_okD(5) [OF ok] by (auto simp: gone_def Set_Size_0 at)
    show "set_at ps' a = (if a = s then Set_Remove sub (set_at ps s) else set_at ps a)" for a
      using at by (simp add: ps'_def set_at_def)
  qed (use pubsub_okD(1,2) [OF ok] in \<open>simp_all add: ps'_def ps1_def\<close>)
qed

lemma expire_live:
  assumes ok: "pubsub_ok (ps, timers)" and x: "map_get (ps_subs ps) sub = Some x"
    and s: "map_get (ps_subscriptions ps) (sub_top x) = Some s"
    and gone: "gone \<longleftrightarrow> (\<forall>k. Set_Exists (set_at ps s) k \<longrightarrow> k = sub)"
    and at: "\<And>a. set_at ps' a = (if a = s then Set_Remove sub (set_at ps s) else set_at ps a)"
    and top: "\<And>t. map_get (ps_subscriptions ps') t = (if gone \<and> t = sub_top x then None else map_get (ps_subscriptions ps) t)"
  shows "live ps' t k \<longleftrightarrow> live ps t k \<and> k \<noteq> sub"
proof (cases "t = sub_top x")
  case True
  have "live ps' t k \<longleftrightarrow> \<not> gone \<and> k \<noteq> sub \<and> Set_Exists (set_at ps s) k"
    using pubsub_okD(5) [OF ok] by (simp add: live_def top at s True)
  moreover have "live ps t k \<longleftrightarrow> Set_Exists (set_at ps s) k" by (simp add: live_def s True)
  ultimately show ?thesis using gone by metis
next
  case False
  then have "\<not> live ps t sub" using pubsub_okD(10) [OF ok, of t sub] x by (simp add: topic_of_def)
  moreover have "a \<noteq> s" if "map_get (ps_subscriptions ps) t = Some a" for a
    using that False pubsub_okD(9) [OF ok, of t s "sub_top x"] s by auto
  then have "live ps' t k \<longleftrightarrow> live ps t k" using False by (auto simp: live_def at top)
  ultimately show ?thesis by auto
qed

lemma expire_ok:
  assumes ok: "pubsub_ok (ps, timers)" and "sub \<in> set timers"
  shows "\<exists>ps'. Subscribe_expires sub ps = Some ps' \<and> pubsub_ok (ps', remove1 sub timers)"
proof -
  obtain x s where x: "map_get (ps_subs ps) sub = Some x" and s: "map_get (ps_subscriptions ps) (sub_top x) = Some s"
    "Set_Exists (set_at ps s) sub" by (rule expire_eq [OF assms])
  obtain ps' gone where e: "Subscribe_expires sub ps = Some ps'"
    and gone: "gone \<longleftrightarrow> (\<forall>k. Set_Exists (set_at ps s) k \<longrightarrow> k = sub)"
    and at: "\<And>a. set_at ps' a = (if a = s then Set_Remove sub (set_at ps s) else set_at ps a)"
    and top: "\<And>t. map_get (ps_subscriptions ps') t = (if gone \<and> t = sub_top x then None else map_get (ps_subscriptions ps) t)"
    and rest: "ps_subs ps' = ps_subs ps" "ps_next ps' = ps_next ps" and wf: "map_wf (ps_subscriptions ps')" "map_wf (ps_sets ps')"
    by (rule expire_fields [OF ok x s(1)]) (rule that; assumption)
  have d: "distinct timers" by (rule pubsub_okD(4) [OF ok])
  have l: "live ps' t k \<longleftrightarrow> k \<in> set (remove1 sub timers) \<and> topic_of ps' k = Some t" for t k
    unfolding expire_live [OF ok x s(1) gone at top] pubsub_okD(10) [OF ok] using d by (auto simp: topic_of_def rest)
  have sets: "a < ps_next ps' \<and> (\<exists>k. Set_Exists (set_at ps' a) k)" if a: "map_get (ps_subscriptions ps') t = Some a" for t a
  proof -
    have old: "map_get (ps_subscriptions ps) t = Some a" "\<not> (gone \<and> t = sub_top x)" using a unfolding top by (auto split: if_splits)
    then obtain k where k: "Set_Exists (set_at ps a) k" using pubsub_okD(8) [OF ok] by blast
    have "\<exists>k. Set_Exists (set_at ps s) k \<and> k \<noteq> sub" if "a = s"
      using that old gone pubsub_okD(9) [OF ok, of t s "sub_top x"] s(1) by auto
    with k show ?thesis using pubsub_okD(5) [OF ok] pubsub_okD(7) [OF ok old(1)] by (cases "a = s") (auto simp: at rest)
  qed
  have "map_get (ps_subscriptions ps') t = Some a \<Longrightarrow> map_get (ps_subscriptions ps') t' = Some a \<Longrightarrow> t = t'" for t t' a
    unfolding top using pubsub_okD(9) [OF ok, of t a t'] by (auto split: if_splits)
  moreover have "map_wf (set_at ps' a)" for a using pubsub_okD(5) [OF ok] by (simp add: at)
  ultimately have "pubsub_ok (ps', remove1 sub timers)"
    unfolding pubsub_ok_def prod.case
    using pubsub_okD(3,6,11) [OF ok] d sets l wf set_remove1_subset [of sub timers] by (auto simp: rest)
  with e show ?thesis by blast
qed

section \<open>The publisher as a machine\<close>

text \<open>With \<open>Subscribe\<close> as one step: each operation, and the timers of the subscriptions.\<close>

inductive pubsub_step :: "'m PubSub \<times> nat list \<Rightarrow> 'm PubSub \<times> nat list \<Rightarrow> bool" where
  subscribe: "Subscribe topic ttl ps = (sub, ps') \<Longrightarrow> pubsub_step (ps, ts) (ps', sub # ts)"
| publish: "Publish topic item ps = (e, ps') \<Longrightarrow> pubsub_step (ps, ts) (ps', ts)"
| listen: "Listen timeout sub ps = Some (r, ps') \<Longrightarrow> pubsub_step (ps, ts) (ps', ts)"
| expire: "sub \<in> set ts \<Longrightarrow> Subscribe_expires sub ps = Some ps' \<Longrightarrow> pubsub_step (ps, ts) (ps', remove1 sub ts)"

interpretation publisher: inv_machine "\<lambda>s. s = (NewPubSub, [])" pubsub_step pubsub_ok
proof unfold_locales
  fix s t :: "'a PubSub \<times> nat list"
  assume "pubsub_step s t" "pubsub_ok s"
  then show "pubsub_ok t"
    by cases (auto dest: Subscribe_ok Publish_ok Listen_ok expire_ok)
qed (simp add: NewPubSub_ok)

section \<open>The demultiplexer's deliveries\<close>

definition accepts_full :: "'m \<Rightarrow> 'm demux_channel \<Rightarrow> bool" where
  "accepts_full msg ch \<longleftrightarrow> ch_pred ch msg \<and> demuxBuffSize \<le> length (ch_ch ch)"

definition give :: "'m \<Rightarrow> 'm demux_channel \<Rightarrow> 'm demux_channel" where
  "give msg ch = (if ch_pred ch msg then ch\<lparr>ch_ch := ch_ch ch @ [msg]\<rparr> else ch)"

lemma demux_loop_eq:
  "demux_loop msg chs =
     (map (give msg) (takeWhile (\<lambda>ch. \<not> accepts_full msg ch) chs) @ dropWhile (\<lambda>ch. \<not> accepts_full msg ch) chs,
      \<forall>ch\<in>set chs. \<not> accepts_full msg ch)"
  by (induction chs) (auto simp: accepts_full_def give_def split: prod.splits)

section \<open>Properties\<close>

text \<open>C36. In every run of the publisher, with \<open>Subscribe\<close> as one step, a subscription is in its topic's set
  exactly while its timer runs, no topic keeps an empty set, and no timer panics.\<close>

theorem pubsub_invariant:
  assumes "pubsub_step\<^sup>*\<^sup>* (NewPubSub, []) (ps, timers)"
  shows "pubsub_ok (ps, timers) \<and> (\<forall>sub\<in>set timers. Subscribe_expires sub ps \<noteq> None) \<and>
    (\<forall>topic. map_get (ps_subscriptions ps) topic \<noteq> None \<longleftrightarrow> (\<exists>sub\<in>set timers. topic_of ps sub = Some topic))"
proof -
  have ok: "pubsub_ok (ps, timers)" using publisher.reach_inv [OF _ assms] by simp
  have "map_get (ps_subscriptions ps) topic \<noteq> None \<longleftrightarrow> (\<exists>sub\<in>set timers. topic_of ps sub = Some topic)" for topic
  proof -
    have "map_get (ps_subscriptions ps) topic \<noteq> None \<longleftrightarrow> (\<exists>sub. live ps topic sub)"
      using pubsub_okD(8) [OF ok, of topic] by (auto simp: live_def)
    then show ?thesis using pubsub_okD(10) [OF ok] by auto
  qed
  moreover have "\<forall>sub\<in>set timers. Subscribe_expires sub ps \<noteq> None" using expire_ok [OF ok] by fastforce
  ultimately show ?thesis using ok by blast
qed

theorem pubsub_invariant_witness:
  "Subscribe_expires 0 (snd (Subscribe ''t'' 5 (NewPubSub :: nat PubSub))) \<noteq> None"
proof -
  have "Subscribe ''t'' 5 (NewPubSub :: nat PubSub) = (0, snd (Subscribe ''t'' 5 NewPubSub))"
    by (simp add: Subscribe_def Subscribe_lookup_def NewPubSub_def Let_def)
  then have "pubsub_step\<^sup>*\<^sup>* (NewPubSub, []) (snd (Subscribe ''t'' 5 (NewPubSub :: nat PubSub)), [0])"
    by (intro r_into_rtranclp pubsub_step.subscribe)
  from pubsub_invariant [OF this] show ?thesis by simp
qed

text \<open>\<open>Publish\<close> reports an error exactly when no live subscription has the topic. Otherwise every live
  subscription of the topic gets the item at the end of its buffer unless the buffer holds 50 items,
  and no other subscription changes; a listener whose buffer was empty then receives that item.\<close>

theorem publish_delivers:
  assumes "pubsub_ok (ps, timers)" "Publish topic item ps = (e, ps')"
  shows "(e \<noteq> None \<longleftrightarrow> \<not> (\<exists>sub\<in>set timers. topic_of ps sub = Some topic)) \<and>
    map_get (ps_subs ps') k =
      (if k \<in> set timers \<and> topic_of ps k = Some topic
       then map_option (deliver item) (map_get (ps_subs ps) k) else map_get (ps_subs ps) k) \<and>
    (\<forall>x. k \<in> set timers \<longrightarrow> map_get (ps_subs ps) k = Some x \<longrightarrow> sub_top x = topic \<longrightarrow> sub_c x = [] \<longrightarrow>
       map_option fst (Listen False k ps') = Some (Inr item))"
proof -
  note f = Publish_fields [OF assms]
  have get: "map_get (ps_subs ps') k =
      (if k \<in> set timers \<and> topic_of ps k = Some topic
       then map_option (deliver item) (map_get (ps_subs ps) k) else map_get (ps_subs ps) k)"
    by (simp add: f(5) pubsub_okD(10) [OF assms(1)])
  have "map_get (ps_subscriptions ps) topic \<noteq> None \<longleftrightarrow> (\<exists>sub. live ps topic sub)"
    using pubsub_okD(8) [OF assms(1), of topic] by (auto simp: live_def)
  then have "e \<noteq> None \<longleftrightarrow> \<not> (\<exists>sub\<in>set timers. topic_of ps sub = Some topic)"
    using f(6) pubsub_okD(10) [OF assms(1)] by auto
  moreover have "map_option fst (Listen False k ps') = Some (Inr item)"
    if "k \<in> set timers" "map_get (ps_subs ps) k = Some x" "sub_top x = topic" "sub_c x = []" for x
  proof -
    have "map_get (ps_subs ps') k = Some (x\<lparr>sub_c := [item]\<rparr>)"
      unfolding get using that by (simp add: topic_of_def deliver_def subscriptionBuffSize_def)
    then show ?thesis by (simp add: Listen_def)
  qed
  ultimately show ?thesis using get by blast
qed

theorem publish_delivers_witness:
  "map_option fst (Listen False 0 (snd (Publish ''t'' (7::nat) (snd (Subscribe ''t'' 5 NewPubSub))))) = Some (Inr 7)"
proof -
  let ?ps = "snd (Subscribe ''t'' 5 (NewPubSub :: nat PubSub))"
  have s: "Subscribe ''t'' 5 (NewPubSub :: nat PubSub) = (0, ?ps)"
    by (simp add: Subscribe_def Subscribe_lookup_def NewPubSub_def Let_def)
  have "pubsub_ok (?ps, [0])" by (rule Subscribe_ok [OF s NewPubSub_ok])
  moreover have "map_get (ps_subs ?ps) 0 = Some \<lparr>sub_top = ''t'', sub_ttl = 5, sub_c = []\<rparr>"
    using Subscribe_fields(5) [OF s NewPubSub_ok] by simp
  ultimately show ?thesis
    using publish_delivers [of ?ps "[0]" "''t''" 7 "fst (Publish ''t'' 7 ?ps)" "snd (Publish ''t'' 7 ?ps)" 0] by simp
qed

text \<open>\<open>Subscribe\<close> releases the publisher's lock before it adds itself to its topic's set. If the topic's last
  other subscription expires in between, the new one lands in a set no topic points to: an item published for it is
  refused with ``no subscribers'', and its own timer dereferences nil and panics.\<close>

theorem Subscribe_race:
  assumes "pubsub_ok (ps, [a])" "topic_of ps a = Some topic"
  shows "\<exists>sub s ps1 ps2. Subscribe_lookup topic ttl ps = (sub, s, ps1) \<and> Subscribe_expires a ps1 = Some ps2 \<and>
    (let ps3 = Subscribe_add sub s ps2 in
     Set_Exists (set_at ps3 s) sub \<and> Publish topic item ps3 = (Some (Error ''no subscribers''), ps3) \<and>
     Subscribe_expires sub ps3 = None)"
proof -
  obtain x s where x: "map_get (ps_subs ps) a = Some x" and s: "map_get (ps_subscriptions ps) (sub_top x) = Some s"
    "Set_Exists (set_at ps s) a" by (rule expire_eq [OF assms(1)]) simp
  have t: "sub_top x = topic" using assms(2) x by (simp add: topic_of_def)
  let ?sub = "ps_next ps"
  have new: "?sub \<noteq> a" using pubsub_okD(6) [OF assms(1) x] by simp
  define ps1 where "ps1 = ps\<lparr>ps_subs := map_put ?sub \<lparr>sub_top = topic, sub_ttl = ttl, sub_c = []\<rparr> (ps_subs ps), ps_next := Suc ?sub\<rparr>"
  have lookup: "Subscribe_lookup topic ttl ps = (?sub, s, ps1)"
    using s(1) by (simp add: Subscribe_lookup_def ps1_def t Let_def)
  have only: "Set_Exists (set_at ps s) k \<longleftrightarrow> k = a" for k
    using pubsub_okD(10) [OF assms(1), of topic k] s t assms(2) by (auto simp: live_def)
  define ps2 where "ps2 = ps1\<lparr>ps_sets := map_put s (Set_Remove a (set_at ps s)) (ps_sets ps),
      ps_subscriptions := map_del topic (ps_subscriptions ps)\<rparr>"
  have at1: "set_at ps1 = set_at ps" by (simp add: ps1_def set_at_def fun_eq_iff)
  have x1: "map_get (ps_subs ps1) a = Some x" using x new by (simp add: ps1_def)
  have "Set_Size (Set_Remove a (set_at ps s)) = 0" by (simp add: Set_Size_0 only)
  moreover have "set_at (ps1\<lparr>ps_sets := map_put s (Set_Remove a (set_at ps s)) (ps_sets ps1)\<rparr>) s = Set_Remove a (set_at ps s)"
    by (simp add: set_at_put)
  ultimately have expires: "Subscribe_expires a ps1 = Some ps2"
    using s(1) t by (simp add: Subscribe_expires_def x1 at1 ps2_def Let_def) (simp add: ps1_def)
  define ps3 where "ps3 = Subscribe_add ?sub s ps2"
  have gone: "map_get (ps_subscriptions ps3) topic = None" "Set_Exists (set_at ps3 s) ?sub"
    "map_get (ps_subs ps3) ?sub = Some \<lparr>sub_top = topic, sub_ttl = ttl, sub_c = []\<rparr>"
    by (simp_all add: ps3_def Subscribe_add_def ps2_def ps1_def set_at_def)
  then have "Publish topic item ps3 = (Some (Error ''no subscribers''), ps3)" "Subscribe_expires ?sub ps3 = None"
    by (simp_all add: Publish_def Subscribe_expires_def)
  with lookup expires gone(2) show ?thesis by (auto simp: ps3_def Let_def)
qed

theorem Subscribe_race_witness:
  "\<exists>sub s ps1 ps2. Subscribe_lookup ''t'' 5 (snd (Subscribe ''t'' 5 (NewPubSub :: nat PubSub))) = (sub, s, ps1) \<and>
     Subscribe_expires 0 ps1 = Some ps2 \<and> Subscribe_expires sub (Subscribe_add sub s ps2) = None"
proof -
  let ?ps = "snd (Subscribe ''t'' 5 (NewPubSub :: nat PubSub))"
  have s: "Subscribe ''t'' 5 (NewPubSub :: nat PubSub) = (0, ?ps)"
    by (simp add: Subscribe_def Subscribe_lookup_def NewPubSub_def Let_def)
  have "pubsub_ok (?ps, [0])" by (rule Subscribe_ok [OF s NewPubSub_ok])
  moreover have "topic_of ?ps 0 = Some ''t''" using Subscribe_fields(5) [OF s NewPubSub_ok] by (simp add: topic_of_def)
  ultimately show ?thesis using Subscribe_race [of ?ps 0 "''t''" 5 7] by (auto simp: Let_def)
qed

text \<open>An open demultiplexer gives a message, at the end of the buffer, to every channel whose predicate accepts it, in the order
  of the channels, up to the first accepting channel that holds ten messages. It then waits there, and
  the channels from there on have nothing; it gets through exactly when no accepting channel is full.\<close>

theorem DeMultiplex_correct:
  assumes "\<not> dm_closed m" "DeMultiplex msg m = (m', ok)"
  shows "(ok \<longleftrightarrow> (\<forall>ch\<in>set (dm_channels m). \<not> accepts_full msg ch)) \<and>
    (ok \<longrightarrow> dm_channels m' = map (give msg) (dm_channels m)) \<and>
    (\<not> ok \<longrightarrow> (\<exists>i<length (dm_channels m). accepts_full msg (dm_channels m ! i) \<and>
       (\<forall>j<i. \<not> accepts_full msg (dm_channels m ! j)) \<and>
       dm_channels m' = map (give msg) (take i (dm_channels m)) @ drop i (dm_channels m)))"
proof -
  let ?P = "\<lambda>ch. \<not> accepts_full msg ch" and ?chs = "dm_channels m"
  have m': "dm_channels m' = map (give msg) (takeWhile ?P ?chs) @ dropWhile ?P ?chs"
    and ok: "ok \<longleftrightarrow> (\<forall>ch\<in>set ?chs. ?P ch)"
    using assms by (auto simp: DeMultiplex_def demux_loop_eq)
  show ?thesis
  proof (cases ok)
    case True
    with ok have "takeWhile ?P ?chs = ?chs" "dropWhile ?P ?chs = []"
      by (auto simp: takeWhile_eq_all_conv dropWhile_eq_Nil_conv)
    with m' ok True show ?thesis by simp
  next
    case False
    let ?i = "length (takeWhile ?P ?chs)"
    have "takeWhile ?P ?chs \<noteq> ?chs" using False ok by (auto simp: takeWhile_eq_all_conv)
    then have i: "?i < length ?chs"
      by (metis length_takeWhile_le le_neq_implies_less takeWhile_eq_take take_all order_refl)
    then have "accepts_full msg (?chs ! ?i)" using nth_length_takeWhile [of ?P ?chs] by simp
    moreover have "?P (?chs ! j)" if "j < ?i" for j
      using nth_mem [OF that] takeWhile_nth [OF that] by (auto dest: set_takeWhileD)
    moreover have "takeWhile ?P ?chs = take ?i ?chs" "dropWhile ?P ?chs = drop ?i ?chs"
      by (rule takeWhile_eq_take, rule dropWhile_eq_drop)
    ultimately have "\<exists>i<length ?chs. accepts_full msg (?chs ! i) \<and> (\<forall>j<i. ?P (?chs ! j)) \<and>
        dm_channels m' = map (give msg) (take i ?chs) @ drop i ?chs"
      using i m' by (intro exI [of _ ?i]) presburger
    with False ok show ?thesis by blast
  qed
qed

theorem DeMultiplex_correct_witness:
  "dm_channels (fst (DeMultiplex (3::nat) (AddChannel (\<lambda>x. x = 3) NewChannelDemultiplexer))) =
     [\<lparr>ch_pred = (\<lambda>x. x = 3), ch_ch = [3]\<rparr>]"
proof -
  let ?m = "AddChannel (\<lambda>x. x = (3::nat)) NewChannelDemultiplexer"
  have "\<not> dm_closed ?m" by (simp add: AddChannel_def NewChannelDemultiplexer_def)
  from DeMultiplex_correct [OF this, of 3 "fst (DeMultiplex 3 ?m)" "snd (DeMultiplex 3 ?m)"] show ?thesis
    by (simp add: AddChannel_def NewChannelDemultiplexer_def accepts_full_def give_def demuxBuffSize_def)
qed

end
