(* ===== verification/Comm.thy ===== *)
theory Comm
  imports PubSub IdMapper "HOL-Library.List_Lexorder" "HOL-Library.Char_ord"
begin

text \<open>
  The communication layer (communicate.go): connections with their bounded send buffers, the
  store of connections with one lock per destination, the authentication of a remote peer, the
  dialing of a peer, sending with and without acknowledgements. What gRPC does is an argument:
  the results of a dial, of a ping, of opening a stream and of receiving the first envelope.
  A wait for ever is a value of its own.
\<close>

declare map_of_eq_Some_iff [simp del] Some_eq_map_of_iff [simp del]

section \<open>Connections\<close>

definition defSendBuffSize :: int where
  "defSendBuffSize = 20"

definition defRecvBuffSize :: int where
  "defRecvBuffSize = 20"

text \<open>
  A message to send and what its error does: disconnect from a peer (\<open>sendToEndpoint\<close>) or nothing
  (\<open>Respond\<close>).
\<close>

record msgSending =
  ms_envelope :: "Envelope option"
  ms_onErr :: "bytes option"

record Connection =
  cn_pkiID :: bytes
  cn_outBuff :: "msgSending list"
  cn_cap :: nat
  cn_stopFlag :: bool

definition newConnection :: "(string \<Rightarrow> int) \<Rightarrow> bytes \<Rightarrow> Connection" where
  "newConnection config pkiID = \<lparr>cn_pkiID = pkiID, cn_outBuff = [],
     cn_cap = nat (GetIntOrDefault config ''peer.gossip.sendBuffSize'' defSendBuffSize), cn_stopFlag = False\<rparr>"

definition conn_toDie :: "Connection \<Rightarrow> bool" where
  "conn_toDie conn = cn_stopFlag conn"

text \<open>\<open>Send\<close>: \<open>None\<close> when it waits for room in the buffer.\<close>

definition conn_Send :: "SignedGossipMessage \<Rightarrow> bytes option \<Rightarrow> bool \<Rightarrow> Connection \<Rightarrow> Connection option" where
  "conn_Send msg onErr shouldBlock conn =
     (if conn_toDie conn then Some conn
      else (let m = \<lparr>ms_envelope = sg_Envelope msg, ms_onErr = onErr\<rparr> in
            if length (cn_outBuff conn) = cn_cap conn \<and> \<not> shouldBlock then Some conn
            else if length (cn_outBuff conn) < cn_cap conn then Some (conn\<lparr>cn_outBuff := cn_outBuff conn @ [m]\<rparr>)
            else None))"

text \<open>\<open>close\<close>: the first caller stops the connection and empties its buffer.\<close>

definition conn_close :: "Connection \<Rightarrow> Connection" where
  "conn_close conn = (if conn_toDie conn then conn else conn\<lparr>cn_stopFlag := True, cn_outBuff := []\<rparr>)"

text \<open>
  One message of \<open>writeToStream\<close>: the envelope written, and the peer to disconnect from when the
  stream reports an error (the loop then ends). \<open>None\<close>: nothing to write.
\<close>

definition write_step :: "(Envelope option \<Rightarrow> bool) \<Rightarrow> Connection \<Rightarrow> (Connection \<times> Envelope option \<times> bytes option \<times> bool) option" where
  "write_step fails conn =
     (if conn_toDie conn then None
      else (case cn_outBuff conn of
              [] \<Rightarrow> None
            | m # ms \<Rightarrow>
                (let conn' = conn\<lparr>cn_outBuff := ms\<rparr> in
                 if fails (ms_envelope m) then Some (conn', ms_envelope m, ms_onErr m, False)
                 else Some (conn', ms_envelope m, None, True))))"

text \<open>
  One round of \<open>readFromStream\<close>: what it puts on the error channel and on the message channel
  (\<open>None\<close> is the nil message), and whether it goes on. After an envelope that does not unmarshal
  it reports the error and goes on to put the nil message on the message channel.
\<close>

definition read_step ::
  "codec \<Rightarrow> (error + Envelope) \<Rightarrow> error list \<times> SignedGossipMessage option list \<times> bool" where
  "read_step c r =
     (case r of
        Inl err \<Rightarrow> ([err], [], False)
      | Inr envelope \<Rightarrow>
          (case ToGossipMessage c envelope of
             Inl err \<Rightarrow> ([err], [None], True)
           | Inr msg \<Rightarrow> ([], [Some msg], True)))"

section \<open>The store of connections\<close>

text \<open>Connections and locks are behind pointers; a lock is held or free.\<close>

record connectionStore =
  cs_isClosing :: bool
  cs_pki2Conn :: "(string, nat) gomap"
  cs_destinationLocks :: "(string, nat) gomap"
  cs_conns :: "(nat, Connection) gomap"
  cs_locks :: "(nat, bool) gomap"
  cs_next :: nat

definition new_connStore :: connectionStore where
  "new_connStore = \<lparr>cs_isClosing = False, cs_pki2Conn = [], cs_destinationLocks = [], cs_conns = [],
     cs_locks = [], cs_next = 0\<rparr>"

definition close_at :: "nat \<Rightarrow> connectionStore \<Rightarrow> connectionStore" where
  "close_at a cs =
     (case map_get (cs_conns cs) a of
        None \<Rightarrow> cs
      | Some conn \<Rightarrow> cs\<lparr>cs_conns := map_put a (conn_close conn) (cs_conns cs)\<rparr>)"

text \<open>
  \<open>getConnection\<close> in the parts other goroutines may run between: it finds or makes the lock of its
  destination; it takes the lock (\<open>None\<close>: it waits) and either finds a connection, releases the
  lock and is done, or dials with the lock held; with the result of the dial it finishes.
\<close>

definition getConnection_lock :: "bytes \<Rightarrow> connectionStore \<Rightarrow> (error + nat) \<times> connectionStore" where
  "getConnection_lock pkiID cs =
     (if cs_isClosing cs then (Inl (Error ''shutting down''), cs)
      else (case map_get (cs_destinationLocks cs) (str_of pkiID) of
              Some l \<Rightarrow> (Inr l, cs)
            | None \<Rightarrow>
                (let l = cs_next cs
                 in (Inr l, cs\<lparr>cs_locks := map_put l False (cs_locks cs), cs_next := Suc l,
                              cs_destinationLocks := map_put (str_of pkiID) l (cs_destinationLocks cs)\<rparr>))))"

definition getConnection_enter :: "bytes \<Rightarrow> nat \<Rightarrow> connectionStore \<Rightarrow> (nat option \<times> connectionStore) option" where
  "getConnection_enter pkiID l cs =
     (if map_get (cs_locks cs) l = Some True then None
      else (case map_get (cs_pki2Conn cs) (str_of pkiID) of
              Some conn \<Rightarrow> Some (Some conn, cs)
            | None \<Rightarrow> Some (None, cs\<lparr>cs_locks := map_put l True (cs_locks cs)\<rparr>)))"

definition getConnection_finish ::
  "bytes \<Rightarrow> nat \<Rightarrow> (error + Connection) \<Rightarrow> connectionStore \<Rightarrow> (error + nat) \<times> connectionStore" where
  "getConnection_finish pkiID l created cs =
     (case created of
        Inl err \<Rightarrow> (Inl err, cs)
      | Inr createdConnection \<Rightarrow>
          (let cs1 = cs\<lparr>cs_locks := map_put l False (cs_locks cs)\<rparr> in
           if cs_isClosing cs1 then (Inl (Error ''ConnStore is closing''), cs1)
           else (let cs2 = cs1\<lparr>cs_destinationLocks := map_del (str_of pkiID) (cs_destinationLocks cs1)\<rparr> in
                 case map_get (cs_pki2Conn cs2) (str_of pkiID) of
                   Some conn \<Rightarrow> (Inr conn, cs2)
                 | None \<Rightarrow>
                     (let a = cs_next cs2
                      in (Inr a, cs2\<lparr>cs_conns := map_put a createdConnection (cs_conns cs2), cs_next := Suc a,
                            cs_pki2Conn := map_put (str_of (cn_pkiID createdConnection)) a (cs_pki2Conn cs2)\<rparr>)))))"

definition onConnected :: "(string \<Rightarrow> int) \<Rightarrow> ConnectionInfo \<Rightarrow> connectionStore \<Rightarrow> nat \<times> connectionStore" where
  "onConnected config connInfo cs =
     (let cs1 = (case map_get (cs_pki2Conn cs) (str_of (ci_ID connInfo)) of None \<Rightarrow> cs | Some c \<Rightarrow> close_at c cs);
          a = cs_next cs1
      in (a, cs1\<lparr>cs_conns := map_put a (newConnection config (ci_ID connInfo)) (cs_conns cs1), cs_next := Suc a,
               cs_pki2Conn := map_put (str_of (ci_ID connInfo)) a (cs_pki2Conn cs1)\<rparr>))"

definition closeByPKIid :: "bytes \<Rightarrow> connectionStore \<Rightarrow> connectionStore" where
  "closeByPKIid pkiID cs =
     (case map_get (cs_pki2Conn cs) (str_of pkiID) of
        None \<Rightarrow> cs
      | Some a \<Rightarrow> (close_at a cs)\<lparr>cs_pki2Conn := map_del (str_of pkiID) (cs_pki2Conn (close_at a cs))\<rparr>)"

text \<open>\<open>CloseConn\<close> deletes under the key the connection carries.\<close>

definition CloseConn :: "bytes \<Rightarrow> connectionStore \<Rightarrow> connectionStore" where
  "CloseConn pkiID cs =
     (case map_get (cs_pki2Conn cs) (str_of pkiID) of
        None \<Rightarrow> cs
      | Some a \<Rightarrow>
          (let key = (case map_get (cs_conns cs) a of None \<Rightarrow> str_of pkiID | Some conn \<Rightarrow> str_of (cn_pkiID conn))
           in (close_at a cs)\<lparr>cs_pki2Conn := map_del key (cs_pki2Conn (close_at a cs))\<rparr>))"

text \<open>What the handler of an incoming stream does when it returns: it closes by identity, then its own connection.\<close>

definition GossipStream_exit :: "ConnectionInfo \<Rightarrow> nat \<Rightarrow> connectionStore \<Rightarrow> connectionStore" where
  "GossipStream_exit connInfo conn cs = close_at conn (closeByPKIid (ci_ID connInfo) cs)"

text \<open>The part of \<open>Stop\<close> on the store: no new connections, and every connection is closed by its identity.\<close>

definition connStore_Stop :: "connectionStore \<Rightarrow> connectionStore" where
  "connStore_Stop cs =
     (let conns = map snd (cs_pki2Conn cs);
          ids = List.map_filter (\<lambda>a. map_option cn_pkiID (map_get (cs_conns cs) a)) conns
      in fold closeByPKIid ids (cs\<lparr>cs_isClosing := True\<rparr>))"

section \<open>Authentication\<close>

text \<open>A connection message of a peer, signed.\<close>

definition createConnectionMsg ::
  "codec \<Rightarrow> Signer \<Rightarrow> bytes \<Rightarrow> bytes \<Rightarrow> bytes \<Rightarrow> SignedGossipMessage \<times> error option" where
  "createConnectionMsg c signer pkiID certHash cert =
     (let m = \<lparr>gm_Nonce = 0, gm_Channel = None, gm_Tag = Tag_EMPTY,
               gm_Content = Some (ConnMsg \<lparr>ce_PkiId = pkiID, ce_Identity = cert, ce_TlsCertHash = certHash\<rparr>)\<rparr>
      in case Sign c signer \<lparr>sg_Envelope = None, sg_Msg = m\<rparr> of
           (Inl err, s) \<Rightarrow> (s, Some err)
         | (Inr _, s) \<Rightarrow> (s, None))"

text \<open>
  \<open>readWithTimeout\<close>: what the stream gives before the timer, if anything. A receive error puts
  nothing on either channel, so it is a timeout too.
\<close>

definition readWithTimeout ::
  "codec \<Rightarrow> string \<Rightarrow> (error + Envelope) option \<Rightarrow> error + SignedGossipMessage" where
  "readWithTimeout c address recv =
     (case recv of
        Some (Inr e) \<Rightarrow> ToGossipMessage c e
      | _ \<Rightarrow> Inl (Error (''Timed out waiting for connection message from '' @ address)))"

text \<open>
  The remote's identity is stored before the signature of its message is verified. The result also
  carries the envelope sent to the remote. A verification that gets to the verifier reads the
  identity from the mapper.
\<close>

definition consults :: "SignedGossipMessage \<Rightarrow> bool" where
  "consults m \<longleftrightarrow>
     (case sg_Envelope m of None \<Rightarrow> False | Some e \<Rightarrow> bytes_len (ev_Payload e) \<noteq> 0 \<and> bytes_len (ev_Signature e) \<noteq> 0)"

definition conn_verifier :: "instant \<Rightarrow> IdMapper \<Rightarrow> verifier" where
  "conn_verifier now im = (\<lambda>peerId signature message. fst (IdMapper_Verify now (GetPKIidOfCert peerId) signature message im))"

definition authenticateRemotePeer ::
  "codec \<Rightarrow> NaiveMessageCryptoService \<Rightarrow> expiration_table \<Rightarrow> instant \<Rightarrow> bytes \<Rightarrow> bytes \<Rightarrow> bytes \<Rightarrow> string \<Rightarrow>
   (error + Envelope) option \<Rightarrow> IdMapper \<Rightarrow> (error + ConnectionInfo) \<times> IdMapper \<times> Envelope option list" where
  "authenticateRemotePeer c mcs tab now selfPKIID selfId selfCertHash address recv im =
     (case createConnectionMsg c IdMapper_Sign selfPKIID selfCertHash selfId of
        (_, Some err) \<Rightarrow> (Inl err, im, [])
      | (cMsg, None) \<Rightarrow>
          (let outs = [sg_Envelope cMsg] in
           case readWithTimeout c address recv of
             Inl err \<Rightarrow> (Inl err, im, outs)
           | Inr m \<Rightarrow>
               (case GetConn (sg_Msg m) of
                  None \<Rightarrow> (Inl (Error ''wrong type, receivedMsg is nil''), im, outs)
                | Some receivedMsg \<Rightarrow>
                    if ce_PkiId receivedMsg = None then (Inl (Error ''no PKI-ID''), im, outs)
                    else (case IdMapper_Put mcs tab now (ce_PkiId receivedMsg) (ce_Identity receivedMsg) im of
                            (Some err, im1) \<Rightarrow> (Inl err, im1, outs)
                          | (None, im1) \<Rightarrow>
                              (let connInfo = \<lparr>ci_ID = ce_PkiId receivedMsg, ci_Id = ce_Identity receivedMsg\<rparr>;
                                   im2 = (if consults m then snd (IdMapper_Get now (GetPKIidOfCert (ce_Identity receivedMsg)) im1) else im1)
                               in case SignedGossipMessage_Verify (ce_Identity receivedMsg) (conn_verifier now im1) m of
                                    Some err \<Rightarrow> (Inl err, im2, outs)
                                  | None \<Rightarrow> (Inr connInfo, im2, outs))))))"

section \<open>Dialing\<close>

text \<open>\<open>OrgCryptoService\<close> gives every identity the organisation of a variable.\<close>

definition DefaultOrgInChannelA :: bytes where
  "DefaultOrgInChannelA = Some ''ORG1''"

definition OrgCryptoService_OrgByPeerId :: "bytes \<Rightarrow> bytes" where
  "OrgCryptoService_OrgByPeerId i = DefaultOrgInChannelA"

text \<open>What the network does in a dial: an error of the connection, of the ping, of the stream, and what the stream receives.\<close>

record dial =
  dl_conn :: "error option"
  dl_ping :: "error option"
  dl_stream :: "error option"
  dl_recv :: "(error + Envelope) option"

text \<open>The parameters of a node's communication.\<close>

record cenv =
  ce_codec :: codec
  ce_mcs :: NaiveMessageCryptoService
  ce_ExpirationTimes :: expiration_table
  ce_orgByPeerId :: "bytes \<Rightarrow> bytes"
  ce_config :: "string \<Rightarrow> int"
  ce_PKIID :: bytes
  ce_peerId :: bytes
  ce_certHash :: bytes

definition authenticate :: "cenv \<Rightarrow> instant \<Rightarrow> string \<Rightarrow> (error + Envelope) option \<Rightarrow> IdMapper \<Rightarrow>
    (error + ConnectionInfo) \<times> IdMapper \<times> Envelope option list" where
  "authenticate env now address recv im =
     authenticateRemotePeer (ce_codec env) (ce_mcs env) (ce_ExpirationTimes env) now (ce_PKIID env) (ce_peerId env)
       (ce_certHash env) address recv im"

text \<open>The organisation of an expected identity the mapper lacks is the organisation of nil.\<close>

definition createConnection ::
  "cenv \<Rightarrow> instant \<Rightarrow> bool \<Rightarrow> dial \<Rightarrow> string \<Rightarrow> bytes \<Rightarrow> IdMapper \<Rightarrow> (error + Connection) \<times> IdMapper" where
  "createConnection env now stopping dl endpoint expectedPKIID im =
     (if stopping then (Inl (Error ''Stopping''), im)
      else case dl_conn dl of Some err \<Rightarrow> (Inl err, im) | None \<Rightarrow>
     (case dl_ping dl of Some err \<Rightarrow> (Inl err, im) | None \<Rightarrow>
     (case dl_stream dl of Some err \<Rightarrow> (Inl err, im) | None \<Rightarrow>
     (case authenticate env now endpoint (dl_recv dl) im of
        (Inl err, im1, _) \<Rightarrow> (Inl err, im1)
      | (Inr connInfo, im1, _) \<Rightarrow>
          (let pkiID = ci_ID connInfo; conn = newConnection (ce_config env) pkiID in
           if expectedPKIID \<noteq> None \<and> \<not> bytes_eq pkiID expectedPKIID
           then (let actualOrg = ce_orgByPeerId env (ci_Id connInfo);
                     (r, im2) = IdMapper_Get now expectedPKIID im1;
                     oldOrg = ce_orgByPeerId env (case r of Inl _ \<Rightarrow> None | Inr ids \<Rightarrow> ids)
                 in if \<not> bytes_eq actualOrg oldOrg then (Inl (Error ''authentication failure''), im2)
                    else (Inr conn, im2))
           else (Inr conn, im1))))))"

definition Handshake ::
  "cenv \<Rightarrow> instant \<Rightarrow> dial \<Rightarrow> RemotePeer \<Rightarrow> IdMapper \<Rightarrow> (error + bytes) \<times> IdMapper" where
  "Handshake env now dl remotePeer im =
     (case dl_conn dl of Some err \<Rightarrow> (Inl err, im) | None \<Rightarrow>
     (case dl_ping dl of Some err \<Rightarrow> (Inl err, im) | None \<Rightarrow>
     (case dl_stream dl of Some err \<Rightarrow> (Inl err, im) | None \<Rightarrow>
     (case authenticate env now (rp_Endpoint remotePeer) (dl_recv dl) im of
        (Inl err, im1, _) \<Rightarrow> (Inl err, im1)
      | (Inr connInfo, im1, _) \<Rightarrow>
          if 0 < bytes_len (rp_PKIID remotePeer) \<and> \<not> bytes_eq (ci_ID connInfo) (rp_PKIID remotePeer)
          then (Inl (Error (''PKI-ID of remote peer doesn'' @ [CHR 0x27] @ ''t match expected PKI-ID'')), im1)
          else (Inr (ci_Id connInfo), im1)))))"

definition Probe :: "bool \<Rightarrow> dial \<Rightarrow> error option" where
  "Probe stopping dl =
     (if stopping then Some (Error ''stopping'')
      else case dl_conn dl of Some err \<Rightarrow> Some err | None \<Rightarrow> dl_ping dl)"

section \<open>The service\<close>

text \<open>Its own channel of presumed dead peers holds 100.\<close>

record Communicate =
  cm_stopping :: bool
  cm_connStore :: connectionStore
  cm_deadEndpoints :: "bytes list"
  cm_msgPublisher :: "ReceivedMessage ChannelDeMultiplexer"
  cm_pubSub :: "Acknowledgement PubSub"

definition NewCommInstance :: Communicate where
  "NewCommInstance = \<lparr>cm_stopping = False, cm_connStore = new_connStore, cm_deadEndpoints = [],
     cm_msgPublisher = NewChannelDemultiplexer, cm_pubSub = NewPubSub\<rparr>"

definition deadEndpointsSize :: nat where
  "deadEndpointsSize = 100"

text \<open>\<open>None\<close>: it waits for the reader of the dead endpoints.\<close>

definition disconnect :: "bytes \<Rightarrow> Communicate \<Rightarrow> Communicate option" where
  "disconnect pkiID c =
     (if cm_stopping c then Some c
      else if length (cm_deadEndpoints c) < deadEndpointsSize
      then Some (c\<lparr>cm_deadEndpoints := cm_deadEndpoints c @ [pkiID],
                   cm_connStore := closeByPKIid pkiID (cm_connStore c)\<rparr>)
      else None)"

text \<open>The goroutines \<open>Send\<close> starts.\<close>

definition Communicate_Send :: "SignedGossipMessage \<Rightarrow> RemotePeer list \<Rightarrow> Communicate \<Rightarrow> (RemotePeer \<times> SignedGossipMessage) list" where
  "Communicate_Send msg peers c = (if cm_stopping c \<or> length peers = 0 then [] else map (\<lambda>p. (p, msg)) peers)"

text \<open>\<open>sendToEndpoint\<close> once \<open>getConnection\<close> has returned.\<close>

definition sendToEndpoint ::
  "RemotePeer \<Rightarrow> SignedGossipMessage \<Rightarrow> bool \<Rightarrow> (error + nat) \<Rightarrow> Communicate \<Rightarrow> Communicate option" where
  "sendToEndpoint peer msg shouldBlock r c =
     (case r of
        Inr a \<Rightarrow>
          (case map_get (cs_conns (cm_connStore c)) a of
             None \<Rightarrow> None
           | Some conn \<Rightarrow>
               map_option (\<lambda>conn'. c\<lparr>cm_connStore := (cm_connStore c)\<lparr>cs_conns := map_put a conn' (cs_conns (cm_connStore c))\<rparr>\<rparr>)
                 (conn_Send msg (Some (rp_PKIID peer)) shouldBlock conn))
      | Inl _ \<Rightarrow> disconnect (rp_PKIID peer) c)"

text \<open>
  The handler of a connection: an acknowledgement is published on the topic of its nonce and its
  sender, anything else goes to the subscribers of messages (whether the demultiplexer got through is
  the flag). A nil message panics.
\<close>

definition interceptAcks ::
  "ConnectionInfo \<Rightarrow> SignedGossipMessage option \<Rightarrow> Communicate \<Rightarrow> (Communicate \<times> bool) option" where
  "interceptAcks connInfo mo c =
     (case mo of
        None \<Rightarrow> None
      | Some m \<Rightarrow>
          (case GetAck (sg_Msg m) of
             Some ack \<Rightarrow>
               Some (c\<lparr>cm_pubSub := snd (Publish (ack_topic (gm_Nonce (sg_Msg m)) (ci_ID connInfo)) ack (cm_pubSub c))\<rparr>, True)
           | None \<Rightarrow>
               (let (d, ok) = DeMultiplex \<lparr>rm_msg = m, rm_ConnInfo = Some connInfo\<rparr> (cm_msgPublisher c)
                in Some (c\<lparr>cm_msgPublisher := d\<rparr>, ok))))"

definition comm_Stop :: "Communicate \<Rightarrow> Communicate" where
  "comm_Stop c =
     (if cm_stopping c then c
      else c\<lparr>cm_stopping := True, cm_connStore := connStore_Stop (cm_connStore c),
             cm_msgPublisher := demux_Close (cm_msgPublisher c)\<rparr>)"

section \<open>Acknowledged sends\<close>

type_synonym sendResult = "error option \<times> RemotePeer"

text \<open>
  The collecting loop of \<open>ackSendOperation.send\<close> on the results in the order they arrive. \<open>None\<close>: it
  waits for one that does not come.
\<close>

fun ack_loop :: "int \<Rightarrow> nat \<Rightarrow> sendResult list \<Rightarrow> int \<Rightarrow> sendResult list \<Rightarrow> sendResult list option" where
  "ack_loop minAckNum npeers [] successAcks results = None"
| "ack_loop minAckNum npeers (ack # acks) successAcks results =
     (let results' = results @ [ack];
          successAcks' = (if fst ack = None then successAcks + 1 else successAcks)
      in if successAcks' = minAckNum \<or> length results' = npeers then Some results'
         else ack_loop minAckNum npeers acks successAcks' results')"

definition ack_send :: "int \<Rightarrow> RemotePeer list \<Rightarrow> sendResult list \<Rightarrow> sendResult list option" where
  "ack_send minAckNum peers acks = ack_loop minAckNum (length peers) acks 0 []"

fun AckCount :: "sendResult list \<Rightarrow> int" where
  "AckCount [] = 0"
| "AckCount (ack # ar) = (if fst ack = None then 1 else 0) + AckCount ar"

definition sendResult_Error :: "sendResult \<Rightarrow> string" where
  "sendResult_Error sr = (case fst sr of None \<Rightarrow> [] | Some (Error e) \<Rightarrow> e)"

text \<open>
  The text of the results: a JSON object with the number of successes, if there are any, and how
  often each error came, if there are errors, keys in order. How JSON quotes a string is an argument.
\<close>

definition err_count :: "string \<Rightarrow> (string, nat) gomap \<Rightarrow> (string, nat) gomap" where
  "err_count e m = map_put e (case map_get m e of None \<Rightarrow> 1 | Some n \<Rightarrow> Suc n) m"

fun join_comma :: "string list \<Rightarrow> string" where
  "join_comma [] = []"
| "join_comma [x] = x"
| "join_comma (x # xs) = x @ '','' @ join_comma xs"

definition AggregatedSendResults_String :: "(string \<Rightarrow> string) \<Rightarrow> sendResult list \<Rightarrow> string" where
  "AggregatedSendResults_String quote ar =
     (let errMap = fold err_count (map sendResult_Error (filter (\<lambda>ack. fst ack \<noteq> None) ar)) [];
          ackCount = AckCount ar;
          failures = ''{'' @ join_comma (map (\<lambda>e. quote e @ '':'' @ fmt_d (the (map_get errMap e))) (sort (map fst errMap))) @ ''}'';
          fields = (if ackCount < int (length ar) then [quote ''failures'' @ '':'' @ failures] else []) @
                   (if 0 < ackCount then [quote ''successes'' @ '':'' @ fmt_d (nat ackCount)] else [])
      in ''{'' @ join_comma fields @ ''}'')"

text \<open>What a waiter makes of what its subscription gives it.\<close>

definition ack_result :: "error + Acknowledgement \<Rightarrow> error option" where
  "ack_result r =
     (case r of Inl err \<Rightarrow> Some err | Inr ack \<Rightarrow> if ak_Error ack \<noteq> [] then Some (Error (ak_Error ack)) else None)"

text \<open>
  The subscriptions of \<open>SendWithAck\<close>: one for every peer, the last one under each identity kept in
  the map.
\<close>

fun subscribe_all ::
  "u64 \<Rightarrow> duration \<Rightarrow> RemotePeer list \<Rightarrow> (string, nat) gomap \<times> Acknowledgement PubSub \<Rightarrow>
   (string, nat) gomap \<times> Acknowledgement PubSub" where
  "subscribe_all nonce timeout [] st = st"
| "subscribe_all nonce timeout (p # ps) (subscriptions, pubSub) =
     (let (sub, pubSub') = Subscribe (ack_topic nonce (rp_PKIID p)) timeout pubSub
      in subscribe_all nonce timeout ps (map_put (str_of (rp_PKIID p)) sub subscriptions, pubSub'))"

datatype ack_start =
    AckDone "sendResult list"
  | AckWaiting SignedGossipMessage "(string, nat) gomap"

text \<open>
  \<open>SendWithAck\<close> up to the sending: it gives its message the nonce, and either returns (no peers, a
  message that does not marshal, or a service that stops) or has its subscriptions and waits.
\<close>

definition SendWithAck_start ::
  "codec \<Rightarrow> u64 \<Rightarrow> duration \<Rightarrow> SignedGossipMessage \<Rightarrow> RemotePeer list \<Rightarrow> Communicate \<Rightarrow> ack_start \<times> Communicate" where
  "SendWithAck_start cd nonce timeout msg peers c =
     (if length peers = 0 then (AckDone [], c)
      else (case NoopSign cd ((sg_Msg msg)\<lparr>gm_Nonce := nonce\<rparr>) of
              (msg', err) \<Rightarrow>
                if cm_stopping c \<or> err \<noteq> None
                then (let e = (case err of None \<Rightarrow> Error ''comm is stopping'' | Some e \<Rightarrow> e)
                      in (AckDone (map (\<lambda>p. (Some e, p)) peers), c))
                else (let (subscriptions, pubSub) = subscribe_all nonce timeout peers ([], cm_pubSub c)
                      in (AckWaiting msg' subscriptions, c\<lparr>cm_pubSub := pubSub\<rparr>))))"

text \<open>The wait for one peer's acknowledgement.\<close>

definition waitForAck ::
  "(string, nat) gomap \<Rightarrow> bool \<Rightarrow> RemotePeer \<Rightarrow> Communicate \<Rightarrow> (sendResult \<times> Communicate) option" where
  "waitForAck subscriptions timedOut p c =
     do {
       sub \<leftarrow> map_get subscriptions (str_of (rp_PKIID p));
       (r, pubSub) \<leftarrow> Listen timedOut sub (cm_pubSub c);
       Some ((ack_result r, p), c\<lparr>cm_pubSub := pubSub\<rparr>)
     }"

text \<open>\<open>Ack\<close> and \<open>Respond\<close> of a received message: the acknowledgement carries the nonce it answers.\<close>

definition ReceivedMessage_Ack :: "error option \<Rightarrow> ReceivedMessage \<Rightarrow> GossipMessage" where
  "ReceivedMessage_Ack err m =
     \<lparr>gm_Nonce = gm_Nonce (sg_Msg (rm_msg m)), gm_Channel = None, gm_Tag = Tag_UNDEFINED,
      gm_Content = Some (AckMsg \<lparr>ak_Error = (case err of None \<Rightarrow> [] | Some (Error e) \<Rightarrow> e)\<rparr>)\<rparr>"

definition Respond :: "codec \<Rightarrow> GossipMessage \<Rightarrow> Connection \<Rightarrow> Connection option" where
  "Respond cd msg conn =
     (case NoopSign cd msg of
        (_, Some err) \<Rightarrow> Some conn
      | (sMsg, None) \<Rightarrow> conn_Send sMsg None True conn)"

end
