(* ===== verification/CommProps.thy ===== *)
theory CommProps
  imports Comm
begin

text \<open>
  The communication layer's correctness: the collection of acknowledgements and their routing to
  the waiters, the invariant of the connection store over interleaved calls of \<open>getConnection\<close>,
  what an authenticated peer has proved, and the bounds of a connection's buffer.
\<close>

section \<open>Collecting acknowledgements\<close>

lemma AckCount_append: "AckCount (xs @ ys) = AckCount xs + AckCount ys"
  by (induction xs) auto

lemma AckCount_nonneg [simp]: "0 \<le> AckCount xs"
  by (induction xs) auto

lemma ack_loop_all:
  assumes "length results + length acks = n" "acks \<noteq> []"
  shows "\<exists>k. 0 < k \<and> k \<le> length acks \<and> ack_loop minAck n acks (AckCount results) results = Some (results @ take k acks) \<and>
    (\<forall>j. 0 < j \<and> j < k \<longrightarrow> AckCount (results @ take j acks) \<noteq> minAck) \<and>
    (AckCount (results @ take k acks) = minAck \<or> k = length acks)"
  using assms
proof (induction acks arbitrary: results)
  case (Cons a acks)
  let ?r = "results @ [a]"
  have cnt: "AckCount ?r = (if fst a = None then AckCount results + 1 else AckCount results)"
    by (simp add: AckCount_append)
  show ?case
  proof (cases "AckCount ?r = minAck \<or> length ?r = n")
    case True
    then have "ack_loop minAck n (a # acks) (AckCount results) results = Some ?r" by (simp add: cnt [symmetric] Let_def)
    then show ?thesis using True Cons.prems by (intro exI [of _ 1]) auto
  next
    case False
    then have step: "ack_loop minAck n (a # acks) (AckCount results) results = ack_loop minAck n acks (AckCount ?r) ?r"
      by (simp add: cnt [symmetric] Let_def)
    have "acks \<noteq> []" "length ?r + length acks = n" using False Cons.prems by auto
    from Cons.IH [OF this(2,1)] obtain k where k: "0 < k" "k \<le> length acks"
      "ack_loop minAck n acks (AckCount ?r) ?r = Some (?r @ take k acks)"
      "\<forall>j. 0 < j \<and> j < k \<longrightarrow> AckCount (?r @ take j acks) \<noteq> minAck"
      "AckCount (?r @ take k acks) = minAck \<or> k = length acks" by blast
    have "AckCount (results @ take j (a # acks)) \<noteq> minAck" if "0 < j" "j < Suc k" for j
      using that k(4) False by (cases j; cases "j - 1") auto
    then show ?thesis using k step by (intro exI [of _ "Suc k"]) auto
  qed
qed simp

lemma AckCount_step: "AckCount (take (Suc j) xs) \<le> AckCount (take j xs) + 1"
  by (induction xs arbitrary: j) (auto simp: take_Cons add.commute split: nat.splits)

lemma AckCount_take_mono: "i \<le> j \<Longrightarrow> AckCount (take i xs) \<le> AckCount (take j xs)"
proof (induction j)
  case (Suc j)
  have "AckCount (take j xs) \<le> AckCount (take (Suc j) xs)"
    by (induction xs arbitrary: j) (auto simp: take_Cons split: nat.splits)
  with Suc show ?case by (cases "i = Suc j") auto
qed simp

text \<open>When every peer's result arrives, in any order, \<open>send\<close> returns a non-empty prefix of the results: as
  soon as the demanded number of acknowledgements is there, and otherwise after the last result, so it reports
  exactly the smaller of the demanded and the given acknowledgements. Asked for none, it stops at a first
  failure but waits for every peer when the first result is a success.\<close>

theorem ack_send_returns:
  assumes "length acks = length peers" "peers \<noteq> []"
  shows "\<exists>k. 0 < k \<and> k \<le> length acks \<and> ack_send minAck peers acks = Some (take k acks) \<and>
    (1 \<le> minAck \<longrightarrow> AckCount (take k acks) = min minAck (AckCount acks) \<and>
       (\<forall>j<k. AckCount (take j acks) < minAck) \<and> (AckCount (take k acks) < minAck \<longrightarrow> k = length acks)) \<and>
    (minAck = 0 \<longrightarrow> (if fst (hd acks) = None then k = length acks else k = 1))"
proof -
  have "acks \<noteq> []" using assms by auto
  from ack_loop_all [of "[]" acks "length peers" minAck] this assms(1) obtain k where k: "0 < k" "k \<le> length acks"
    "ack_send minAck peers acks = Some (take k acks)"
    "\<And>j. 0 < j \<Longrightarrow> j < k \<Longrightarrow> AckCount (take j acks) \<noteq> minAck"
    "AckCount (take k acks) = minAck \<or> k = length acks"
    by (auto simp: ack_send_def)
  have below: "AckCount (take j acks) < minAck" if "1 \<le> minAck" "j < k" for j
    using that(2)
  proof (induction j)
    case 0
    then show ?case using that(1) by simp
  next
    case (Suc j)
    then have "AckCount (take j acks) < minAck" by simp
    with AckCount_step [of j acks] k(4) [of "Suc j"] Suc.prems show ?case by linarith
  qed
  have "AckCount (take k acks) \<le> minAck" if "1 \<le> minAck"
    using below [OF that, of "k - 1"] AckCount_step [of "k - 1" acks] k(1) by simp
  moreover have "AckCount (take k acks) \<le> AckCount acks" using AckCount_take_mono [of k "length acks" acks] k(2) by simp
  ultimately have "1 \<le> minAck \<longrightarrow> AckCount (take k acks) = min minAck (AckCount acks) \<and>
       (\<forall>j<k. AckCount (take j acks) < minAck) \<and> (AckCount (take k acks) < minAck \<longrightarrow> k = length acks)"
    using below k(5) by auto
  moreover have "minAck = 0 \<longrightarrow> (if fst (hd acks) = None then k = length acks else k = 1)"
  proof (intro impI)
    assume m: "minAck = 0"
    have one: "AckCount (take 1 acks) = (if fst (hd acks) = None then 1 else 0)" using \<open>acks \<noteq> []\<close> by (cases acks) auto
    show "if fst (hd acks) = None then k = length acks else k = 1"
    proof (cases "fst (hd acks) = None")
      case True
      then have "1 \<le> AckCount (take k acks)" using one AckCount_take_mono [of 1 k acks] k(1) by simp
      then show ?thesis using k(5) m True by auto
    next
      case False
      then show ?thesis using one k(4) [of 1] k(1) m by (cases "k = 1") auto
    qed
  qed
  ultimately show ?thesis using k(1-3) by blast
qed

theorem ack_send_returns_witness:
  "ack_send 1 [\<lparr>rp_Endpoint = ''a'', rp_PKIID = None\<rparr>, \<lparr>rp_Endpoint = ''b'', rp_PKIID = None\<rparr>]
     [(None, \<lparr>rp_Endpoint = ''b'', rp_PKIID = None\<rparr>), (Some (Error ''timed out''), \<lparr>rp_Endpoint = ''a'', rp_PKIID = None\<rparr>)] =
   Some [(None, \<lparr>rp_Endpoint = ''b'', rp_PKIID = None\<rparr>)]"
proof -
  let ?acks = "[(None, \<lparr>rp_Endpoint = ''b'', rp_PKIID = None\<rparr>), (Some (Error ''timed out''), \<lparr>rp_Endpoint = ''a'', rp_PKIID = None\<rparr>)]"
  obtain k where k: "0 < k" "k \<le> 2" "ack_send 1 [\<lparr>rp_Endpoint = ''a'', rp_PKIID = None\<rparr>, \<lparr>rp_Endpoint = ''b'', rp_PKIID = None\<rparr>] ?acks = Some (take k ?acks)"
    "\<forall>j<k. AckCount (take j ?acks) < 1"
    using ack_send_returns [of ?acks "[\<lparr>rp_Endpoint = ''a'', rp_PKIID = None\<rparr>, \<lparr>rp_Endpoint = ''b'', rp_PKIID = None\<rparr>]" 1]
    by auto
  from k(4) k(1) have "\<not> 1 < k" by auto
  with k show ?thesis by (cases k) auto
qed

section \<open>The routing of acknowledgements\<close>

lemma subscribe_all_spec:
  assumes "pubsub_ok (ps, timers)" "distinct (map (str_of \<circ> rp_PKIID) peers)"
    and "subscribe_all nonce timeout peers (subs, ps) = (subs', ps')"
  shows "\<exists>timers'. pubsub_ok (ps', timers') \<and> set timers \<subseteq> set timers' \<and>
    (\<forall>k. k \<notin> str_of ` rp_PKIID ` set peers \<longrightarrow> map_get subs' k = map_get subs k) \<and>
    (\<forall>sub x. map_get (ps_subs ps) sub = Some x \<longrightarrow> map_get (ps_subs ps') sub = Some x) \<and>
    (\<forall>p\<in>set peers. \<exists>sub\<in>set timers'. map_get subs' (str_of (rp_PKIID p)) = Some sub \<and>
       map_get (ps_subs ps') sub = Some \<lparr>sub_top = ack_topic nonce (rp_PKIID p), sub_ttl = timeout, sub_c = []\<rparr>)"
  using assms
proof (induction peers arbitrary: subs ps timers)
  case Nil
  then show ?case by auto
next
  case (Cons p peers)
  obtain sub ps1 where s: "Subscribe (ack_topic nonce (rp_PKIID p)) timeout ps = (sub, ps1)" by (rule prod.exhaust)
  let ?x = "\<lparr>sub_top = ack_topic nonce (rp_PKIID p), sub_ttl = timeout, sub_c = []\<rparr> :: Acknowledgement Subscription"
  note f = Subscribe_fields [OF s Cons.prems(1)]
  have new: "map_get (ps_subs ps) sub = None" using pubsub_okD(6) [OF Cons.prems(1), of sub] f(1) by (cases "map_get (ps_subs ps) sub") auto
  have "pubsub_ok (ps1, sub # timers)" by (rule Subscribe_ok [OF s Cons.prems(1)])
  moreover have "distinct (map (str_of \<circ> rp_PKIID) peers)" using Cons.prems(2) unfolding list.map distinct.simps by blast
  moreover have "subscribe_all nonce timeout peers (map_put (str_of (rp_PKIID p)) sub subs, ps1) = (subs', ps')"
    using Cons.prems(3) by (simp add: s)
  ultimately have IH: "\<exists>timers'. pubsub_ok (ps', timers') \<and> set (sub # timers) \<subseteq> set timers' \<and>
    (\<forall>k. k \<notin> str_of ` rp_PKIID ` set peers \<longrightarrow> map_get subs' k = map_get (map_put (str_of (rp_PKIID p)) sub subs) k) \<and>
    (\<forall>i x. map_get (ps_subs ps1) i = Some x \<longrightarrow> map_get (ps_subs ps') i = Some x) \<and>
    (\<forall>q\<in>set peers. \<exists>i\<in>set timers'. map_get subs' (str_of (rp_PKIID q)) = Some i \<and>
       map_get (ps_subs ps') i = Some \<lparr>sub_top = ack_topic nonce (rp_PKIID q), sub_ttl = timeout, sub_c = []\<rparr>)"
    by (rule Cons.IH)
  obtain timers' where t: "pubsub_ok (ps', timers')" "set (sub # timers) \<subseteq> set timers'"
    "\<And>k. k \<notin> str_of ` rp_PKIID ` set peers \<Longrightarrow> map_get subs' k = map_get (map_put (str_of (rp_PKIID p)) sub subs) k"
    "\<And>i x. map_get (ps_subs ps1) i = Some x \<Longrightarrow> map_get (ps_subs ps') i = Some x"
    "\<And>q. q \<in> set peers \<Longrightarrow> \<exists>sub\<in>set timers'. map_get subs' (str_of (rp_PKIID q)) = Some sub \<and>
       map_get (ps_subs ps') sub = Some \<lparr>sub_top = ack_topic nonce (rp_PKIID q), sub_ttl = timeout, sub_c = []\<rparr>"
    using IH by (elim exE conjE, goal_cases) blast
  have keep: "map_get (ps_subs ps) i = Some x \<Longrightarrow> map_get (ps_subs ps') i = Some x" for i x
  proof -
    assume i: "map_get (ps_subs ps) i = Some x"
    with new have "i \<noteq> sub" by auto
    with i show "map_get (ps_subs ps') i = Some x" by (intro t(4)) (simp add: f(5))
  qed
  have own: "map_get (ps_subs ps') sub = Some ?x" by (rule t(4)) (simp add: f(5))
  have "str_of (rp_PKIID p) \<notin> str_of ` rp_PKIID ` set peers" using Cons.prems(2) by (auto simp: image_image)
  then have "map_get subs' (str_of (rp_PKIID p)) = Some sub" using t(3) by simp
  with own t keep show ?case by (intro exI [of _ timers']) auto
qed

text \<open>The error a waiter reports for what the remote peer acknowledged with.\<close>

definition acked :: "error option \<Rightarrow> error option" where
  "acked err = (case err of None \<Rightarrow> None | Some (Error e) \<Rightarrow> if e = [] then None else Some (Error e))"



section \<open>The store of connections as a machine\<close>

text \<open>A call of \<open>getConnection\<close> in progress: it has its lock and waits to enter, or dials.\<close>

datatype gc_call = GC_waiting bytes nat | GC_dialing bytes nat

fun gc_dest :: "gc_call \<Rightarrow> string" where
  "gc_dest (GC_waiting k l) = str_of k"
| "gc_dest (GC_dialing k l) = str_of k"

fun gc_lock :: "gc_call \<Rightarrow> nat" where
  "gc_lock (GC_waiting k l) = l"
| "gc_lock (GC_dialing k l) = l"

type_synonym store_sys = "connectionStore \<times> gc_call list"

inductive connstore_step :: "(string \<Rightarrow> int) \<Rightarrow> store_sys \<Rightarrow> store_sys \<Rightarrow> bool" for config where
  lock: "getConnection_lock k cs = (Inr l, cs') \<Longrightarrow> connstore_step config (cs, calls) (cs', GC_waiting k l # calls)"
| found: "GC_waiting k l \<in> set calls \<Longrightarrow> getConnection_enter k l cs = Some (Some a, cs') \<Longrightarrow>
    connstore_step config (cs, calls) (cs', remove1 (GC_waiting k l) calls)"
| dial: "GC_waiting k l \<in> set calls \<Longrightarrow> getConnection_enter k l cs = Some (None, cs') \<Longrightarrow>
    connstore_step config (cs, calls) (cs', GC_dialing k l # remove1 (GC_waiting k l) calls)"
| finish: "GC_dialing k l \<in> set calls \<Longrightarrow> getConnection_finish k l (Inr (newConnection config k')) cs = (r, cs') \<Longrightarrow>
    connstore_step config (cs, calls) (cs', remove1 (GC_dialing k l) calls)"
| fail: "GC_dialing k l \<in> set calls \<Longrightarrow> getConnection_finish k l (Inl err) cs = (r, cs') \<Longrightarrow>
    connstore_step config (cs, calls) (cs', remove1 (GC_dialing k l) calls)"
| connected: "onConnected config ci cs = (a, cs') \<Longrightarrow> connstore_step config (cs, calls) (cs', calls)"
| close: "connstore_step config (cs, calls) (closeByPKIid k cs, calls)"
| close_conn: "connstore_step config (cs, calls) (CloseConn k cs, calls)"
| exit: "map_get (cs_conns cs) a = Some conn \<Longrightarrow> bytes_eq (cn_pkiID conn) (ci_ID ci) \<Longrightarrow>
    connstore_step config (cs, calls) (GossipStream_exit ci a cs, calls)"
| send: "map_get (cs_conns cs) a = Some conn \<Longrightarrow> conn_Send msg onErr block conn = Some conn' \<Longrightarrow>
    connstore_step config (cs, calls) (cs\<lparr>cs_conns := map_put a conn' (cs_conns cs)\<rparr>, calls)"
| stop: "connstore_step config (cs, calls) (connStore_Stop cs, calls)"

text \<open>
  A connection of the table is under its own identity and open, no buffer is over its bound, and
  what the tables and the calls point to is allocated.
\<close>

definition conns_ok :: "connectionStore \<Rightarrow> bool" where
  "conns_ok cs \<longleftrightarrow>
     map_wf (cs_pki2Conn cs) \<and>
     (\<forall>k a. map_get (cs_pki2Conn cs) k = Some a \<longrightarrow>
        (\<exists>conn. map_get (cs_conns cs) a = Some conn \<and> str_of (cn_pkiID conn) = k \<and> \<not> cn_stopFlag conn)) \<and>
     (\<forall>a conn. map_get (cs_conns cs) a = Some conn \<longrightarrow> a < cs_next cs \<and> length (cn_outBuff conn) \<le> cn_cap conn)"

text \<open>A lock serves one destination, and a call that dials holds its lock.\<close>

definition locks_ok :: "store_sys \<Rightarrow> bool" where
  "locks_ok = (\<lambda>(cs, calls).
     (\<forall>k l. map_get (cs_destinationLocks cs) k = Some l \<longrightarrow> l < cs_next cs) \<and>
     (\<forall>k k' l. map_get (cs_destinationLocks cs) k = Some l \<longrightarrow> map_get (cs_destinationLocks cs) k' = Some l \<longrightarrow> k = k') \<and>
     (\<forall>call\<in>set calls. gc_lock call < cs_next cs) \<and>
     (\<forall>call\<in>set calls. \<forall>k. map_get (cs_destinationLocks cs) k = Some (gc_lock call) \<longrightarrow> k = gc_dest call) \<and>
     (\<forall>c1\<in>set calls. \<forall>c2\<in>set calls. gc_lock c1 = gc_lock c2 \<longrightarrow> gc_dest c1 = gc_dest c2))"

definition store_inv :: "store_sys \<Rightarrow> bool" where
  "store_inv s \<longleftrightarrow> conns_ok (fst s) \<and> locks_ok s"

lemma conns_okD:
  assumes "conns_ok cs"
  shows "map_wf (cs_pki2Conn cs)"
    "map_get (cs_pki2Conn cs) k = Some a \<Longrightarrow>
       \<exists>conn. map_get (cs_conns cs) a = Some conn \<and> str_of (cn_pkiID conn) = k \<and> \<not> cn_stopFlag conn"
    "map_get (cs_conns cs) a = Some conn \<Longrightarrow> a < cs_next cs"
    "map_get (cs_conns cs) a = Some conn \<Longrightarrow> length (cn_outBuff conn) \<le> cn_cap conn"
  using assms unfolding conns_ok_def by blast+

lemma close_fields [simp]:
  "cn_pkiID (conn_close conn) = cn_pkiID conn" "cn_cap (conn_close conn) = cn_cap conn"
  "cn_stopFlag (conn_close conn)" "length (cn_outBuff conn) \<le> cn_cap conn \<Longrightarrow> length (cn_outBuff (conn_close conn)) \<le> cn_cap conn"
  by (auto simp: conn_close_def conn_toDie_def)

lemma close_at_fields [simp]:
  "cs_pki2Conn (close_at a cs) = cs_pki2Conn cs" "cs_destinationLocks (close_at a cs) = cs_destinationLocks cs"
  "cs_locks (close_at a cs) = cs_locks cs" "cs_next (close_at a cs) = cs_next cs" "cs_isClosing (close_at a cs) = cs_isClosing cs"
  by (simp_all add: close_at_def split: option.splits)

lemma close_at_get: "map_get (cs_conns (close_at a cs)) b =
    (if b = a then map_option conn_close (map_get (cs_conns cs) b) else map_get (cs_conns cs) b)"
  by (auto simp: close_at_def split: option.splits)

text \<open>Closing a connection that the table does not have, or no longer has, keeps the store well-formed.\<close>

lemma close_at_ok:
  assumes "conns_ok cs" "a \<notin> ran (map_get (cs_pki2Conn cs))"
  shows "conns_ok (close_at a cs)"
  using assms unfolding conns_ok_def close_at_fields close_at_get
  by (auto simp: ran_def)

lemma remove_close_ok:
  assumes "conns_ok cs" "map_get (cs_pki2Conn cs) k = Some a"
  shows "conns_ok ((close_at a cs)\<lparr>cs_pki2Conn := map_del k (cs_pki2Conn cs)\<rparr>)"
proof -
  let ?cs = "cs\<lparr>cs_pki2Conn := map_del k (cs_pki2Conn cs)\<rparr>"
  have "k' = k" if "map_get (cs_pki2Conn cs) k' = Some a" for k'
    using conns_okD(2) [OF assms(1) that] conns_okD(2) [OF assms] by auto
  then have "a \<notin> ran (map_get (cs_pki2Conn ?cs))" by (auto simp: ran_def)
  moreover have "conns_ok ?cs" using assms(1) by (auto simp: conns_ok_def)
  ultimately have "conns_ok (close_at a ?cs)" by (rule close_at_ok [rotated])
  moreover have "close_at a ?cs = (close_at a cs)\<lparr>cs_pki2Conn := map_del k (cs_pki2Conn cs)\<rparr>"
    by (simp add: close_at_def split: option.splits)
  ultimately show ?thesis by simp
qed

lemma closeByPKIid_ok: "conns_ok cs \<Longrightarrow> conns_ok (closeByPKIid k cs)"
  by (auto simp: closeByPKIid_def remove_close_ok split: option.splits)

lemma closeByPKIid_fields [simp]:
  "cs_destinationLocks (closeByPKIid k cs) = cs_destinationLocks cs" "cs_locks (closeByPKIid k cs) = cs_locks cs"
  "cs_next (closeByPKIid k cs) = cs_next cs" "cs_isClosing (closeByPKIid k cs) = cs_isClosing cs"
  by (simp_all add: closeByPKIid_def split: option.splits)

lemma CloseConn_eq: "conns_ok cs \<Longrightarrow> CloseConn k cs = closeByPKIid k cs"
  using conns_okD(2) [of cs "str_of k"]
  by (fastforce simp: CloseConn_def closeByPKIid_def Let_def split: option.splits)

lemma exit_ok:
  assumes "conns_ok cs" "map_get (cs_conns cs) a = Some conn" "bytes_eq (cn_pkiID conn) (ci_ID ci)"
  shows "conns_ok (GossipStream_exit ci a cs)"
proof -
  let ?cs = "closeByPKIid (ci_ID ci) cs"
  have "map_get (cs_pki2Conn cs) k = Some a \<Longrightarrow> k = str_of (ci_ID ci)" for k
    using conns_okD(2) [OF assms(1), of k a] assms(2,3) by (auto simp: bytes_eq_def)
  then have "a \<notin> ran (map_get (cs_pki2Conn ?cs))"
    by (auto simp: closeByPKIid_def ran_def split: option.splits if_splits)
  then show ?thesis unfolding GossipStream_exit_def by (intro close_at_ok closeByPKIid_ok assms(1))
qed

lemma Stop_fields: "conns_ok cs \<Longrightarrow> conns_ok (connStore_Stop cs) \<and>
    cs_destinationLocks (connStore_Stop cs) = cs_destinationLocks cs \<and> cs_locks (connStore_Stop cs) = cs_locks cs \<and>
    cs_next (connStore_Stop cs) = cs_next cs \<and> cs_isClosing (connStore_Stop cs)"
proof -
  have "conns_ok x \<Longrightarrow> conns_ok (fold closeByPKIid ids x) \<and>
    cs_destinationLocks (fold closeByPKIid ids x) = cs_destinationLocks x \<and> cs_locks (fold closeByPKIid ids x) = cs_locks x \<and>
    cs_next (fold closeByPKIid ids x) = cs_next x \<and> cs_isClosing (fold closeByPKIid ids x) = cs_isClosing x" for ids x
    by (induction ids arbitrary: x) (auto simp: closeByPKIid_ok)
  moreover have "conns_ok cs \<Longrightarrow> conns_ok (cs\<lparr>cs_isClosing := True\<rparr>)" by (simp add: conns_ok_def)
  ultimately show "conns_ok cs \<Longrightarrow> ?thesis" by (simp add: connStore_Stop_def Let_def)
qed

lemma newConnection_fields [simp]:
  "cn_pkiID (newConnection config k) = k" "\<not> cn_stopFlag (newConnection config k)" "cn_outBuff (newConnection config k) = []"
  by (simp_all add: newConnection_def)

text \<open>A new connection in the table, under its identity.\<close>

lemma put_conn_ok:
  assumes "conns_ok cs" "\<not> cn_stopFlag conn" "length (cn_outBuff conn) \<le> cn_cap conn" "k = str_of (cn_pkiID conn)"
    and "cs_pki2Conn cs' = map_put k (cs_next cs) (cs_pki2Conn cs)" "cs_next cs' = Suc (cs_next cs)"
    and "cs_conns cs' = map_put (cs_next cs) conn (cs_conns cs)"
  shows "conns_ok cs'"
proof -
  have "\<exists>c. map_get (cs_conns cs') a = Some c \<and> str_of (cn_pkiID c) = k' \<and> \<not> cn_stopFlag c"
    if a: "map_get (cs_pki2Conn cs') k' = Some a" for k' a
  proof (cases "k' = k")
    case False
    then have "map_get (cs_pki2Conn cs) k' = Some a" using a by (simp add: assms(5))
    from conns_okD(2) [OF assms(1) this] obtain c where c: "map_get (cs_conns cs) a = Some c"
      "str_of (cn_pkiID c) = k'" "\<not> cn_stopFlag c" by blast
    with conns_okD(3) [OF assms(1) c(1)] show ?thesis by (auto simp: assms(7))
  qed (use a assms(2,4,5,7) in auto)
  moreover have "a < cs_next cs' \<and> length (cn_outBuff c) \<le> cn_cap c" if "map_get (cs_conns cs') a = Some c" for a c
    using that conns_okD(3,4) [OF assms(1), of a c] assms(3) by (auto simp: assms(6,7) split: if_splits)
  ultimately show ?thesis using conns_okD(1) [OF assms(1)] unfolding conns_ok_def by (auto simp: assms(5))
qed

lemma onConnected_ok:
  assumes "onConnected config ci cs = (a, cs')" "conns_ok cs"
  shows "conns_ok cs' \<and> cs_destinationLocks cs' = cs_destinationLocks cs \<and> cs_locks cs' = cs_locks cs \<and> cs_next cs' = Suc (cs_next cs)"
proof -
  let ?k = "str_of (ci_ID ci)"
  define cs1 where "cs1 = (case map_get (cs_pki2Conn cs) ?k of None \<Rightarrow> cs | Some c \<Rightarrow> (close_at c cs)\<lparr>cs_pki2Conn := map_del ?k (cs_pki2Conn cs)\<rparr>)"
  have ok1: "conns_ok cs1" using assms(2) remove_close_ok [OF assms(2)] by (auto simp: cs1_def split: option.splits)
  have put: "map_put k v (map_del k m) = map_put k v m" if "map_get m k = None" for k v and m :: "('x, 'y) gomap"
    using that by (simp add: delete_notin_dom dom_map_of_conv_image_fst map_of_eq_None_iff delete_conv')
  have "cs_pki2Conn cs' = map_put ?k (cs_next cs) (cs_pki2Conn cs)" "cs_next cs' = Suc (cs_next cs1)"
    "cs_conns cs' = map_put (cs_next cs1) (newConnection config (ci_ID ci)) (cs_conns cs1)"
    "cs_next cs1 = cs_next cs" "cs_destinationLocks cs' = cs_destinationLocks cs" "cs_locks cs' = cs_locks cs"
    using assms(1) by (auto simp: onConnected_def Let_def cs1_def split: option.splits)
  note f = this
  have "\<exists>c. map_get (cs_conns cs') b = Some c \<and> str_of (cn_pkiID c) = k' \<and> \<not> cn_stopFlag c"
    if b: "map_get (cs_pki2Conn cs') k' = Some b" for k' b
  proof (cases "k' = ?k")
    case False
    then have "map_get (cs_pki2Conn cs1) k' = Some b" using b by (auto simp: f cs1_def split: option.splits)
    from conns_okD(2) [OF ok1 this] obtain c where c: "map_get (cs_conns cs1) b = Some c"
      "str_of (cn_pkiID c) = k'" "\<not> cn_stopFlag c" by blast
    with conns_okD(3) [OF ok1 c(1)] show ?thesis by (auto simp: f)
  qed (use b f in auto)
  moreover have "b < cs_next cs' \<and> length (cn_outBuff c) \<le> cn_cap c" if "map_get (cs_conns cs') b = Some c" for b c
    using that conns_okD(3,4) [OF ok1, of b c] by (auto simp: f split: if_splits)
  ultimately have "conns_ok cs'" using conns_okD(1) [OF assms(2)] unfolding conns_ok_def by (auto simp: f(1))
  with f show ?thesis by simp
qed

lemma finish_ok:
  assumes "getConnection_finish k l (Inr (newConnection config k')) cs = (r, cs')" "conns_ok cs"
  shows "conns_ok cs'"
proof (cases "cs_isClosing cs \<or> map_get (cs_pki2Conn cs) (str_of k) \<noteq> None")
  case True
  then show ?thesis using assms
    by (auto simp: getConnection_finish_def Let_def conns_ok_def split: if_splits option.splits)
next
  case False
  show ?thesis
    by (rule put_conn_ok [OF assms(2), of "newConnection config k'" "str_of k'"])
      (use False assms(1) in \<open>auto simp: getConnection_finish_def Let_def\<close>)
qed

lemma finish_locks:
  assumes "getConnection_finish k l created cs = (r, cs')"
  shows "cs_next cs \<le> cs_next cs'"
    "map_get (cs_destinationLocks cs') k' = Some l' \<Longrightarrow> map_get (cs_destinationLocks cs) k' = Some l'"
    "k' \<noteq> str_of k \<Longrightarrow> map_get (cs_destinationLocks cs') k' = map_get (cs_destinationLocks cs) k'"
    "l' \<noteq> l \<Longrightarrow> map_get (cs_locks cs') l' = map_get (cs_locks cs) l'"
  using assms by (auto simp: getConnection_finish_def Let_def split: sum.splits if_splits option.splits)

lemma send_ok:
  assumes "map_get (cs_conns cs) a = Some conn" "conn_Send msg onErr block conn = Some conn'" "conns_ok cs"
  shows "conns_ok (cs\<lparr>cs_conns := map_put a conn' (cs_conns cs)\<rparr>)"
proof -
  have c: "cn_pkiID conn' = cn_pkiID conn" "cn_stopFlag conn' = cn_stopFlag conn" "length (cn_outBuff conn') \<le> cn_cap conn'"
    using assms(2) conns_okD(4) [OF assms(3,1)] by (auto simp: conn_Send_def Let_def conn_toDie_def split: if_splits)
  let ?cs = "cs\<lparr>cs_conns := map_put a conn' (cs_conns cs)\<rparr>"
  have "\<exists>x. map_get (cs_conns ?cs) b = Some x \<and> str_of (cn_pkiID x) = k \<and> \<not> cn_stopFlag x"
    if "map_get (cs_pki2Conn cs) k = Some b" for k b
    using conns_okD(2) [OF assms(3) that] c(1,2) assms(1) by (cases "b = a") auto
  moreover have "b < cs_next cs \<and> length (cn_outBuff x) \<le> cn_cap x" if "map_get (cs_conns ?cs) b = Some x" for b x
    using that conns_okD(3,4) [OF assms(3), of b] c(3) assms(1) by (cases "b = a") auto
  ultimately show ?thesis using conns_okD(1) [OF assms(3)] unfolding conns_ok_def by auto
qed

text \<open>Steps that keep the locks, or the addresses, as they are.\<close>

lemma locks_ok_mono:
  assumes "locks_ok (cs, calls)" "cs_next cs \<le> cs_next cs'"
    and "\<And>call. call \<in> set calls' \<Longrightarrow> \<exists>c\<in>set calls. gc_lock c = gc_lock call \<and> gc_dest c = gc_dest call"
    and "\<And>k l. map_get (cs_destinationLocks cs') k = Some l \<Longrightarrow> map_get (cs_destinationLocks cs) k = Some l"
  shows "locks_ok (cs', calls')"
proof -
  note o = assms(1) [unfolded locks_ok_def prod.case]
  have "\<forall>k l. map_get (cs_destinationLocks cs') k = Some l \<longrightarrow> l < cs_next cs'"
    using o assms(2,4) order_less_le_trans by metis
  moreover have "\<forall>k k' l. map_get (cs_destinationLocks cs') k = Some l \<longrightarrow> map_get (cs_destinationLocks cs') k' = Some l \<longrightarrow> k = k'"
    using o assms(4) by metis
  moreover have "\<forall>call\<in>set calls'. gc_lock call < cs_next cs'" using o assms(2,3) order_less_le_trans by metis
  moreover have "\<forall>call\<in>set calls'. \<forall>k. map_get (cs_destinationLocks cs') k = Some (gc_lock call) \<longrightarrow> k = gc_dest call"
    using o assms(3,4) by metis
  moreover have "\<forall>c1\<in>set calls'. \<forall>c2\<in>set calls'. gc_lock c1 = gc_lock c2 \<longrightarrow> gc_dest c1 = gc_dest c2"
    using o assms(3) by metis
  ultimately show ?thesis unfolding locks_ok_def prod.case by blast
qed

lemma locks_okD:
  assumes "locks_ok (cs, calls)"
  shows "map_get (cs_destinationLocks cs) k = Some l \<Longrightarrow> l < cs_next cs"
    "map_get (cs_destinationLocks cs) k = Some l \<Longrightarrow> map_get (cs_destinationLocks cs) k' = Some l \<Longrightarrow> k = k'"
    "call \<in> set calls \<Longrightarrow> gc_lock call < cs_next cs"
    "call \<in> set calls \<Longrightarrow> map_get (cs_destinationLocks cs) k = Some (gc_lock call) \<Longrightarrow> gc_dest call = k"
    "c1 \<in> set calls \<Longrightarrow> c2 \<in> set calls \<Longrightarrow> gc_lock c1 = gc_lock c2 \<Longrightarrow> gc_dest c1 = gc_dest c2"
  using assms unfolding locks_ok_def prod.case by ((elim conjE)?, metis)+

text \<open>A new call of a destination takes the lock of that destination.\<close>

lemma locks_ok_add:
  assumes "locks_ok (cs, calls)" "map_get (cs_destinationLocks cs) (str_of k) = Some l"
  shows "locks_ok (cs, GC_waiting k l # calls)"
proof -
  note o = assms(1) [unfolded locks_ok_def prod.case]
  have lk: "call \<in> set calls \<Longrightarrow> gc_lock call = l \<Longrightarrow> gc_dest call = str_of k" for call
    using locks_okD(4) [OF assms(1)] assms(2) by blast
  have W: "call = GC_waiting k l \<or> call \<in> set calls" if "call \<in> set (GC_waiting k l # calls)" for call
    using that by (simp only: list.set insert_iff)
  have d: "gc_dest call = str_of k" if "call \<in> set (GC_waiting k l # calls)" "gc_lock call = l" for call
    using W [OF that(1)] lk that(2) by (elim disjE) simp_all
  have "gc_dest c1 = gc_dest c2"
    if c: "c1 \<in> set (GC_waiting k l # calls)" "c2 \<in> set (GC_waiting k l # calls)" "gc_lock c1 = gc_lock c2" for c1 c2
  proof (cases "gc_lock c1 = l")
    case True
    then have "gc_lock c2 = l" using c(3) by (simp only:)
    then show ?thesis using d [OF c(1) True] d [OF c(2)] by (simp only:)
  next
    case False
    then have "c1 \<in> set calls" "c2 \<in> set calls" using W c by fastforce+
    then show ?thesis using c(3) by (rule locks_okD(5) [OF assms(1)])
  qed
  moreover have "gc_lock call < cs_next cs" if "call \<in> set (GC_waiting k l # calls)" for call
    using W [OF that] locks_okD(1) [OF assms] locks_okD(3) [OF assms(1)] by (elim disjE) simp_all
  moreover have "k' = gc_dest call"
    if "call \<in> set (GC_waiting k l # calls)" "map_get (cs_destinationLocks cs) k' = Some (gc_lock call)" for call k'
    using W [OF that(1)]
  proof
    assume "call = GC_waiting k l"
    then show ?thesis using that(2) locks_okD(2) [OF assms(1) _ assms(2), of k'] by simp
  next
    assume "call \<in> set calls"
    then show ?thesis using locks_okD(4) [OF assms(1) _ that(2)] by simp
  qed
  ultimately show ?thesis using o unfolding locks_ok_def prod.case by blast
qed

lemma lock_step:
  assumes "getConnection_lock k cs = (Inr l, cs')" "store_inv (cs, calls)"
  shows "store_inv (cs', GC_waiting k l # calls)"
proof -
  have c: "conns_ok cs" and o: "locks_ok (cs, calls)" using assms(2) by (auto simp: store_inv_def)
  show ?thesis
  proof (cases "map_get (cs_destinationLocks cs) (str_of k)")
    case None
    then have f: "l = cs_next cs" "cs_next cs' = Suc l" "cs_destinationLocks cs' = map_put (str_of k) l (cs_destinationLocks cs)"
      "cs_conns cs' = cs_conns cs" "cs_pki2Conn cs' = cs_pki2Conn cs"
      using assms(1) by (auto simp: getConnection_lock_def Let_def split: if_splits)
    have "conns_ok cs'" using c unfolding conns_ok_def f(1,2,4,5) by (auto intro: less_SucI)
    moreover have "locks_ok (cs', calls)"
      unfolding locks_ok_def prod.case f(2,3)
    proof (intro conjI allI ballI impI)
      fix k1 k2 m
      note D = locks_okD [OF o]
      let ?m = "map_get (map_put (str_of k) l (cs_destinationLocks cs))"
      show "?m k1 = Some m \<Longrightarrow> m < Suc l" using D(1) [of k1 m] f(1) by (simp split: if_splits)
      assume "?m k1 = Some m" "?m k2 = Some m"
      then show "k1 = k2" using D(1) [of _ m] D(2) [of k1 m k2] f(1)
        by (cases "k1 = str_of k"; cases "k2 = str_of k") fastforce+
    next
      fix call
      note D = locks_okD [OF o]
      let ?m = "map_get (map_put (str_of k) l (cs_destinationLocks cs))"
      assume call: "call \<in> set calls"
      then show "gc_lock call < Suc l" using D(3) f(1) by (simp add: less_SucI)
      fix k' assume "?m k' = Some (gc_lock call)"
      then show "k' = gc_dest call" using D(3) [OF call] D(4) [OF call, of k'] f(1) by (simp split: if_splits)
    next
      fix c1 c2 assume "c1 \<in> set calls" "c2 \<in> set calls" "gc_lock c1 = gc_lock c2"
      then show "gc_dest c1 = gc_dest c2" by (rule locks_okD(5) [OF o])
    qed
    ultimately show ?thesis using f(3) by (simp add: store_inv_def locks_ok_add)
  next
    case (Some l')
    then have "cs' = cs" "map_get (cs_destinationLocks cs) (str_of k) = Some l"
      using assms(1) by (auto simp: getConnection_lock_def split: if_splits)
    with c o show ?thesis by (simp add: store_inv_def locks_ok_add)
  qed
qed

lemma remove_call: "call \<in> set (remove1 x calls) \<Longrightarrow> call \<in> set calls"
  using set_remove1_subset by fast

lemma dial_step:
  assumes "GC_waiting k l \<in> set calls" "getConnection_enter k l cs = Some (None, cs')" "store_inv (cs, calls)"
  shows "store_inv (cs', GC_dialing k l # remove1 (GC_waiting k l) calls)"
proof -
  have f: "cs' = cs\<lparr>cs_locks := map_put l True (cs_locks cs)\<rparr>"
    using assms(2) by (auto simp: getConnection_enter_def split: if_splits option.splits)
  have c: "conns_ok cs" and o: "locks_ok (cs, calls)" using assms(3) by (auto simp: store_inv_def)
  from c have "conns_ok cs'" unfolding f conns_ok_def by simp
  have calls: "\<exists>c\<in>set calls. gc_lock c = gc_lock call \<and> gc_dest c = gc_dest call"
    if "call \<in> set (GC_dialing k l # remove1 (GC_waiting k l) calls)" for call
  proof (cases "call = GC_dialing k l")
    case True
    with assms(1) show ?thesis by (intro bexI [of _ "GC_waiting k l"]) simp_all
  next
    case False
    then have "call \<in> set (remove1 (GC_waiting k l) calls)" using that by (simp only: list.set insert_iff simp_thms)
    then have "call \<in> set calls" by (rule remove_call)
    then show ?thesis by (intro bexI [of _ call]) (simp_all only:)
  qed
  have "locks_ok (cs', GC_dialing k l # remove1 (GC_waiting k l) calls)"
    by (rule locks_ok_mono [OF o _ calls]) (simp_all add: f)
  with \<open>conns_ok cs'\<close> show ?thesis by (simp add: store_inv_def)
qed

lemma found_fields: "getConnection_enter k l cs = Some (Some a, cs') \<Longrightarrow>
    cs' = cs \<and> map_get (cs_pki2Conn cs) (str_of k) = Some a \<and> map_get (cs_locks cs) l \<noteq> Some True"
  by (auto simp: getConnection_enter_def split: if_splits option.splits)

text \<open>Steps that leave the destination locks and the calls, or drop a call.\<close>

lemma store_inv_mono:
  assumes "store_inv (cs, calls)" "conns_ok cs'" "cs_next cs \<le> cs_next cs'"
    and "\<And>call. call \<in> set calls' \<Longrightarrow> call \<in> set calls"
    and "\<And>k l. map_get (cs_destinationLocks cs') k = Some l \<Longrightarrow> map_get (cs_destinationLocks cs) k = Some l"
  shows "store_inv (cs', calls')"
  using locks_ok_mono [OF _ assms(3), of calls calls'] assms(1,2,4,5) by (auto simp: store_inv_def)

lemma connstore_step_inv: "connstore_step config s t \<Longrightarrow> store_inv s \<Longrightarrow> store_inv t"
proof (induction rule: connstore_step.induct)
  case (lock k cs l cs' calls)
  then show ?case by (rule lock_step)
next
  case (found k l calls cs a cs')
  from found.prems show ?case
    by (rule store_inv_mono) (use found found_fields [OF found(2)] remove_call in \<open>auto simp: store_inv_def\<close>)
next
  case (dial k l calls cs cs')
  then show ?case by (rule dial_step)
next
  case (finish k l calls k' cs r cs')
  have "conns_ok cs" using finish.prems by (simp add: store_inv_def)
  from finish.prems show ?case
    by (rule store_inv_mono)
      (use finish_ok [OF finish(2) \<open>conns_ok cs\<close>] finish_locks [OF finish(2)] remove_call in auto)
next
  case (fail k l calls err cs r cs')
  then have "cs' = cs" by (simp add: getConnection_finish_def)
  from fail.prems show ?case
    by (rule store_inv_mono) (use fail.prems \<open>cs' = cs\<close> remove_call in \<open>auto simp: store_inv_def\<close>)
next
  case (connected ci cs a cs' calls)
  have "conns_ok cs" using connected.prems by (simp add: store_inv_def)
  from connected.prems show ?case
    by (rule store_inv_mono) (use onConnected_ok [OF connected(1) \<open>conns_ok cs\<close>] in auto)
next
  case (exit cs a conn ci calls)
  have "conns_ok cs" using exit.prems by (simp add: store_inv_def)
  from exit.prems show ?case
    by (rule store_inv_mono) (use exit_ok [OF \<open>conns_ok cs\<close> exit(1,2)] in \<open>auto simp: GossipStream_exit_def\<close>)
next
  case (send cs a conn msg onErr block conn' calls)
  have "conns_ok cs" using send.prems by (simp add: store_inv_def)
  from send.prems show ?case
    by (rule store_inv_mono) (use send_ok [OF send(1,2) \<open>conns_ok cs\<close>] in auto)
next
  case (stop cs calls)
  have "conns_ok cs" using stop.prems by (simp add: store_inv_def)
  from stop.prems show ?case by (rule store_inv_mono) (use Stop_fields [OF \<open>conns_ok cs\<close>] in auto)
next
  case (close cs calls k)
  from close.prems show ?case
    by (rule store_inv_mono) (use close.prems in \<open>auto simp: store_inv_def closeByPKIid_ok\<close>)
next
  case (close_conn cs calls k)
  have "conns_ok cs" using close_conn.prems by (simp add: store_inv_def)
  from close_conn.prems show ?case
    by (rule store_inv_mono) (use \<open>conns_ok cs\<close> in \<open>auto simp: CloseConn_eq closeByPKIid_ok\<close>)
qed

lemma new_connStore_inv: "store_inv (new_connStore, [])"
  by (simp add: store_inv_def new_connStore_def conns_ok_def locks_ok_def)

interpretation connstore: inv_machine "\<lambda>s. s = (new_connStore, [])" "connstore_step config" store_inv for config
  by unfold_locales (auto intro: new_connStore_inv connstore_step_inv)



section \<open>What a failed dial leaves behind\<close>

text \<open>The lock of a destination is held for good: no call in progress would release it.\<close>

definition poisoned :: "bytes \<Rightarrow> nat \<Rightarrow> store_sys \<Rightarrow> bool" where
  "poisoned k l = (\<lambda>(cs, calls).
     map_get (cs_destinationLocks cs) (str_of k) = Some l \<and> map_get (cs_locks cs) l = Some True \<and>
     (\<forall>call\<in>set calls. gc_dest call = str_of k \<longrightarrow> (\<exists>k'. call = GC_waiting k' l)))"

lemma poisonedD:
  assumes "poisoned k l (cs, calls)"
  shows "map_get (cs_destinationLocks cs) (str_of k) = Some l" "map_get (cs_locks cs) l = Some True"
    "call \<in> set calls \<Longrightarrow> gc_dest call = str_of k \<Longrightarrow> \<exists>k'. call = GC_waiting k' l"
  using assms by (simp_all add: poisoned_def)

lemma poisoned_mono:
  assumes "poisoned k l (cs, calls)" "\<And>call. call \<in> set calls' \<Longrightarrow> call \<in> set calls"
    and "map_get (cs_destinationLocks cs') (str_of k) = map_get (cs_destinationLocks cs) (str_of k)"
    and "map_get (cs_locks cs') l = map_get (cs_locks cs) l"
  shows "poisoned k l (cs', calls')"
  using assms by (auto simp: poisoned_def)

text \<open>A call that may go on is of another destination, and so has another lock.\<close>

lemma poisoned_other:
  assumes "poisoned k l (cs, calls)" "locks_ok (cs, calls)" "call \<in> set calls" "\<nexists>k'. call = GC_waiting k' l"
  shows "gc_dest call \<noteq> str_of k" "gc_lock call \<noteq> l"
proof -
  show "gc_dest call \<noteq> str_of k" using poisonedD(3) [OF assms(1,3)] assms(4) by blast
  then show "gc_lock call \<noteq> l" using locks_okD(4) [OF assms(2,3)] poisonedD(1) [OF assms(1)] by auto
qed

lemma poisoned_step:
  assumes "connstore_step config s t" "store_inv s" "poisoned k l s"
  shows "poisoned k l t"
  using assms
proof (induction rule: connstore_step.induct)
  case (lock k' cs l' cs' calls)
  have o: "locks_ok (cs, calls)" using lock(2) by (simp add: store_inv_def)
  note p = poisonedD [OF lock(3)]
  have l: "l < cs_next cs" using locks_okD(1) [OF o p(1)] .
  show ?case
  proof (cases "map_get (cs_destinationLocks cs) (str_of k')")
    case None
    then have "str_of k' \<noteq> str_of k" using p(1) by auto
    then show ?thesis using None lock(1) p l
      by (auto simp: poisoned_def getConnection_lock_def Let_def split: if_splits)
  next
    case (Some l2)
    then show ?thesis using lock(1) p
      by (auto simp: poisoned_def getConnection_lock_def split: if_splits)
  qed
next
  case (found k' l' calls cs a cs')
  show ?case by (rule poisoned_mono [OF found(4) remove_call]) (use found_fields [OF found(2)] in auto)
next
  case (dial k' l' calls cs cs')
  have o: "locks_ok (cs, calls)" using dial(3) by (simp add: store_inv_def)
  have f: "cs' = cs\<lparr>cs_locks := map_put l' True (cs_locks cs)\<rparr>" "map_get (cs_locks cs) l' \<noteq> Some True"
    using dial(2) by (auto simp: getConnection_enter_def split: if_splits option.splits)
  then have "l' \<noteq> l" using poisonedD(2) [OF dial(4)] by auto
  moreover from this have "str_of k' \<noteq> str_of k" using poisoned_other [OF dial(4) o dial(1)] by simp
  moreover have "poisoned k l (cs', remove1 (GC_waiting k' l') calls)"
    by (rule poisoned_mono [OF dial(4) remove_call]) (use f \<open>l' \<noteq> l\<close> in auto)
  ultimately show ?case by (simp add: poisoned_def)
next
  case (finish k' l' calls k2 cs r cs')
  have o: "locks_ok (cs, calls)" using finish(3) by (simp add: store_inv_def)
  have "str_of k' \<noteq> str_of k" "l' \<noteq> l" using poisoned_other [OF finish(4) o finish(1)] by simp_all
  then have "map_get (cs_destinationLocks cs') (str_of k) = map_get (cs_destinationLocks cs) (str_of k)"
    "map_get (cs_locks cs') l = map_get (cs_locks cs) l"
    using finish_locks(3,4) [OF finish(2)] by metis+
  then show ?case by (intro poisoned_mono [OF finish(4) remove_call])
next
  case (fail k' l' calls err cs r cs')
  show ?case by (rule poisoned_mono [OF fail(4) remove_call]) (use fail(2) in \<open>auto simp: getConnection_finish_def\<close>)
next
  case (connected ci cs a cs' calls)
  have "conns_ok cs" using connected(2) by (simp add: store_inv_def)
  then show ?case by (intro poisoned_mono [OF connected(3)]) (use onConnected_ok [OF connected(1)] in auto)
next
  case (exit cs a conn ci calls)
  have "conns_ok cs" using exit(3) by (simp add: store_inv_def)
  then show ?case by (intro poisoned_mono [OF exit(4)]) (use exit_ok [OF _ exit(1,2)] in \<open>auto simp: GossipStream_exit_def\<close>)
next
  case (send cs a conn msg onErr block conn' calls)
  show ?case by (rule poisoned_mono [OF send(4)]) auto
next
  case (stop cs calls)
  have "conns_ok cs" using stop(1) by (simp add: store_inv_def)
  from Stop_fields [OF this] show ?case by (intro poisoned_mono [OF stop(2)]) auto
next
  case (close cs calls k')
  show ?case by (rule poisoned_mono [OF close(2)]) auto
next
  case (close_conn cs calls k')
  have "conns_ok cs" using close_conn(1) by (simp add: store_inv_def)
  then show ?case by (intro poisoned_mono [OF close_conn(2)]) (auto simp: CloseConn_eq)
qed

lemma poisoned_reach:
  assumes "(connstore_step config)\<^sup>*\<^sup>* s t" "store_inv s" "poisoned k l s"
  shows "store_inv t \<and> poisoned k l t"
  using assms by (induction rule: rtranclp_induct) (auto intro: connstore_step_inv poisoned_step)



text \<open>When a peer connects a second time, its first connection is closed; the handler of the first stream,
  leaving, then closes by identity and so closes the second connection and removes it from the table.\<close>

theorem old_stream_kills_new:
  assumes "conns_ok cs" "onConnected config ci cs = (a, cs1)" "onConnected config ci' cs1 = (b, cs2)"
    and "bytes_eq (ci_ID ci) (ci_ID ci')"
  shows "(\<exists>c. map_get (cs_conns cs2) a = Some c \<and> cn_stopFlag c) \<and>
    (\<exists>c. map_get (cs_conns cs2) b = Some c \<and> \<not> cn_stopFlag c \<and> map_get (cs_pki2Conn cs2) (str_of (ci_ID ci)) = Some b) \<and>
    (\<exists>c. map_get (cs_conns (GossipStream_exit ci a cs2)) b = Some c \<and> cn_stopFlag c) \<and>
    map_get (cs_pki2Conn (GossipStream_exit ci a cs2)) (str_of (ci_ID ci)) = None"
proof -
  have k: "str_of (ci_ID ci') = str_of (ci_ID ci)" using assms(4) by (simp add: bytes_eq_def)
  have a: "map_get (cs_conns cs1) a = Some (newConnection config (ci_ID ci))"
    "map_get (cs_pki2Conn cs1) (str_of (ci_ID ci)) = Some a" "a < cs_next cs1"
    using assms(2) by (auto simp: onConnected_def Let_def)
  then have "b \<noteq> a" "map_get (cs_conns cs2) a = Some (conn_close (newConnection config (ci_ID ci)))"
    "map_get (cs_conns cs2) b = Some (newConnection config (ci_ID ci'))"
    "map_get (cs_pki2Conn cs2) (str_of (ci_ID ci)) = Some b"
    using assms(3) k by (auto simp: onConnected_def Let_def close_at_get)
  then show ?thesis
    by (auto simp: GossipStream_exit_def closeByPKIid_def close_at_get newConnection_def)
qed

theorem old_stream_kills_new_witness:
  "\<exists>a cs1 b cs2. onConnected (\<lambda>_. 0) \<lparr>ci_ID = Some ''p'', ci_Id = Some ''p''\<rparr> new_connStore = (a, cs1) \<and>
     onConnected (\<lambda>_. 0) \<lparr>ci_ID = Some ''p'', ci_Id = Some ''p''\<rparr> cs1 = (b, cs2) \<and>
     map_get (cs_pki2Conn (GossipStream_exit \<lparr>ci_ID = Some ''p'', ci_Id = Some ''p''\<rparr> a cs2)) ''p'' = None"
proof -
  let ?ci = "\<lparr>ci_ID = Some ''p'', ci_Id = Some ''p''\<rparr>"
  obtain a cs1 where 1: "onConnected (\<lambda>_. 0) ?ci new_connStore = (a, cs1)" by (rule prod.exhaust)
  obtain b cs2 where 2: "onConnected (\<lambda>_. 0) ?ci cs1 = (b, cs2)" by (rule prod.exhaust)
  have "conns_ok new_connStore" using new_connStore_inv by (simp add: store_inv_def)
  from old_stream_kills_new [OF this 1 2] 1 2 show ?thesis by auto
qed

section \<open>Authentication\<close>

text \<open>What a successful authentication has checked, step by step.\<close>

lemma authenticateRemotePeer_Inr:
  assumes "authenticateRemotePeer c mcs tab now self selfId h address recv im = (Inr ci, im', outs)"
  obtains e m cm im1 where "recv = Some (Inr e)" "ToGossipMessage c e = Inr m" "GetConn (sg_Msg m) = Some cm"
    "ci = \<lparr>ci_ID = ce_PkiId cm, ci_Id = ce_Identity cm\<rparr>"
    "IdMapper_Put mcs tab now (ce_PkiId cm) (ce_Identity cm) im = (None, im1)"
    "SignedGossipMessage_Verify (ce_Identity cm) (conn_verifier now im1) m = None"
    "im' = (if consults m then snd (IdMapper_Get now (GetPKIidOfCert (ce_Identity cm)) im1) else im1)"
  using assms
  by (auto simp: authenticateRemotePeer_def readWithTimeout_def Let_def
      split: prod.splits option.splits sum.splits if_splits)

lemma ToGossipMessage_envelope: "ToGossipMessage c e = Inr m \<Longrightarrow> sg_Envelope m = Some e"
  by (auto simp: ToGossipMessage_def split: sum.splits)

lemma Verify_checks:
  assumes "SignedGossipMessage_Verify p v m = None" "sg_Envelope m = Some e"
  shows "bytes_len (ev_Payload e) \<noteq> 0 \<and> bytes_len (ev_Signature e) \<noteq> 0 \<and> v p (ev_Signature e) (ev_Payload e) = None"
  using assms by (auto simp: SignedGossipMessage_Verify_def split: if_splits option.splits)

lemma Get_keeps_ids: "map_has (im_pkiID2Cert (snd (IdMapper_Get now k im))) x = map_has (im_pkiID2Cert im) x"
  by (auto simp: IdMapper_Get_def fetchId_def map_has_def split: option.splits)

lemma Put_None:
  assumes "IdMapper_Put mcs tab now pkiID idType im = (None, im')"
  shows "map_has (im_pkiID2Cert im') (str_of pkiID) \<and> bytes_eq pkiID idType \<and> pkiID \<noteq> None \<and> idType \<noteq> None \<and>
    \<not> revoked mcs (str_of idType)"
  using assms by (cases rule: Put_cases) (auto simp: map_has_def)

text \<open>C30. An authentication succeeds only on a connection message whose PKI-ID is that of the identity it carries, whose
  identity is not revoked, and whose envelope verifies with the key of that identity; the identity is then
  in the mapper. The connection info carries that PKI-ID and identity.\<close>

theorem authenticate_sound:
  assumes "authenticate env now address recv im = (Inr ci, im', outs)" "mapper_ok im"
  shows "mapper_ok im' \<and> map_has (im_pkiID2Cert im') (str_of (ci_ID ci)) \<and>
    ci_ID ci \<noteq> None \<and> bytes_eq (ci_ID ci) (GetPKIidOfCert (ci_Id ci)) \<and> \<not> revoked (ce_mcs env) (str_of (ci_Id ci)) \<and>
    (\<exists>e msg cm. recv = Some (Inr e) \<and> unmarshal (ce_codec env) (ev_Payload e) = Inr msg \<and>
       gm_Content msg = Some (ConnMsg cm) \<and> ce_PkiId cm = ci_ID ci \<and> ce_Identity cm = ci_Id ci \<and>
       bytes_len (ev_Payload e) \<noteq> 0 \<and> mcs_Verify (ci_Id ci) (ev_Signature e) (ev_Payload e) = None)"
proof -
  obtain e m cm im1 where x: "recv = Some (Inr e)" "ToGossipMessage (ce_codec env) e = Inr m" "GetConn (sg_Msg m) = Some cm"
    "ci = \<lparr>ci_ID = ce_PkiId cm, ci_Id = ce_Identity cm\<rparr>"
    "IdMapper_Put (ce_mcs env) (ce_ExpirationTimes env) now (ce_PkiId cm) (ce_Identity cm) im = (None, im1)"
    "SignedGossipMessage_Verify (ce_Identity cm) (conn_verifier now im1) m = None"
    "im' = (if consults m then snd (IdMapper_Get now (GetPKIidOfCert (ce_Identity cm)) im1) else im1)"
    using assms(1) unfolding authenticate_def by (rule authenticateRemotePeer_Inr)
  note p = Put_None [OF x(5)]
  have ok1: "mapper_ok im1" using Put_ok [OF assms(2)] x(5) by (metis snd_conv)
  have v: "bytes_len (ev_Payload e) \<noteq> 0 \<and> bytes_len (ev_Signature e) \<noteq> 0 \<and>
      conn_verifier now im1 (ce_Identity cm) (ev_Signature e) (ev_Payload e) = None"
    by (rule Verify_checks [OF x(6) ToGossipMessage_envelope [OF x(2)]])
  then have "mcs_Verify (ce_Identity cm) (ev_Signature e) (ev_Payload e) = None"
    by (auto simp: conn_verifier_def IdMapper_Verify_def split: prod.splits sum.splits)
  moreover have "unmarshal (ce_codec env) (ev_Payload e) = Inr (sg_Msg m)"
    using x(2) by (auto simp: ToGossipMessage_def split: sum.splits)
  moreover have "gm_Content (sg_Msg m) = Some (ConnMsg cm)"
    using x(3) by (auto simp: getter_defs split: option.splits Content.splits)
  moreover have "mapper_ok im'" "map_has (im_pkiID2Cert im') (str_of (ci_ID ci))"
    using ok1 p by (auto simp: x(4,7) Get_ok Get_keeps_ids)
  ultimately show ?thesis using x(1,4) v p unfolding GetPKIidOfCert_def
    by (intro conjI exI [of _ e] exI [of _ "sg_Msg m"] exI [of _ cm]) auto
qed

definition conn_msg :: GossipMessage where
  "conn_msg = \<lparr>gm_Nonce = 0, gm_Channel = None, gm_Tag = Tag_EMPTY,
     gm_Content = Some (ConnMsg \<lparr>ce_PkiId = Some ''p'', ce_Identity = Some ''p'', ce_TlsCertHash = None\<rparr>)\<rparr>"

definition example_env :: cenv where
  "example_env = \<lparr>ce_codec = table_codec [conn_msg] [], ce_mcs = \<lparr>AllowedPkiIDS = None, RevokedPkiIDS = None\<rparr>,
     ce_ExpirationTimes = [(''p'', None)], ce_orgByPeerId = OrgCryptoService_OrgByPeerId, ce_config = (\<lambda>_. 0),
     ce_PKIID = Some ''p'', ce_peerId = Some ''p'', ce_certHash = None\<rparr>"

lemma example_authenticate:
  "authenticate example_env 5 ''a'' (Some (Inr \<lparr>ev_Payload = Some ''x'', ev_Signature = Some ''x'', ev_SecretEnvelope = None\<rparr>))
     \<lparr>im_pkiID2Cert = [], im_selfPKIID = ''q''\<rparr> =
   (Inr \<lparr>ci_ID = Some ''p'', ci_Id = Some ''p''\<rparr>,
    \<lparr>im_pkiID2Cert = [(''p'', \<lparr>sid_pkiID = Some ''p'', sid_lastAccessTime = unix_nano 5, sid_peerId = Some ''p'', sid_expirationTimer = None\<rparr>)],
      im_selfPKIID = ''q''\<rparr>,
    [Some \<lparr>ev_Payload = Some ''x'', ev_Signature = Some ''x'', ev_SecretEnvelope = None\<rparr>])"
proof -
  have m: "marshal (ce_codec example_env) conn_msg = Inr (Some ''x'')" "unmarshal (ce_codec example_env) (Some ''x'') = Inr conn_msg"
    by (simp_all add: example_env_def table_codec_def table_enc_def table_dec_def bytes_len_def)
  have s: "createConnectionMsg (ce_codec example_env) IdMapper_Sign (Some ''p'') None (Some ''p'') =
      (\<lparr>sg_Envelope = Some \<lparr>ev_Payload = Some ''x'', ev_Signature = Some ''x'', ev_SecretEnvelope = None\<rparr>, sg_Msg = conn_msg\<rparr>, None)"
    using m(1) by (simp add: createConnectionMsg_def Sign_def Let_def IdMapper_Sign_def mcs_Sign_def conn_msg_def)
  have f: "ce_PKIID example_env = Some ''p''" "ce_peerId example_env = Some ''p''" "ce_certHash example_env = None"
    "ce_ExpirationTimes example_env = [(''p'', None)]" "ce_mcs example_env = \<lparr>AllowedPkiIDS = None, RevokedPkiIDS = None\<rparr>"
    by (simp_all add: example_env_def)
  show ?thesis
    by (simp add: authenticate_def authenticateRemotePeer_def f s m readWithTimeout_def ToGossipMessage_def)
      (simp add: conn_msg_def getter_defs IdMapper_Put_def Expiration_def ValidateIdType_def GetPKIidOfCert_def bytes_eq_def
        map_has_def Let_def SignedGossipMessage_Verify_def bytes_len_def conn_verifier_def IdMapper_Verify_def IdMapper_Get_def
        fetchId_def mcs_Verify_def consults_def)
qed

theorem authenticate_sound_witness:
  "\<exists>im' outs. authenticate example_env 5 ''a'' (Some (Inr \<lparr>ev_Payload = Some ''x'', ev_Signature = Some ''x'', ev_SecretEnvelope = None\<rparr>))
       \<lparr>im_pkiID2Cert = [], im_selfPKIID = ''q''\<rparr> = (Inr \<lparr>ci_ID = Some ''p'', ci_Id = Some ''p''\<rparr>, im', outs) \<and>
     map_has (im_pkiID2Cert im') ''p''"
  using authenticate_sound [OF example_authenticate] example_authenticate by (auto simp: mapper_ok_def)

text \<open>A handshake that expects a peer succeeds only with that peer. A connection made with an expected peer and the
  organisations of \<open>OrgCryptoService\<close> is accepted from any authenticated peer: the check of the
  expected identity never fails, and the connection is stored under the identity that answered.\<close>

theorem expected_identity:
  assumes "authenticate env now endpoint (dl_recv dl) im = (Inr ci, im1, outs)"
    and "dl_conn dl = None" "dl_ping dl = None" "dl_stream dl = None"
    and "ce_orgByPeerId env = OrgCryptoService_OrgByPeerId"
  shows "fst (Handshake env now dl \<lparr>rp_Endpoint = endpoint, rp_PKIID = expected\<rparr> im) =
      (if bytes_len expected = 0 \<or> bytes_eq (ci_ID ci) expected then Inr (ci_Id ci)
       else Inl (Error (''PKI-ID of remote peer doesn'' @ [CHR 0x27] @ ''t match expected PKI-ID''))) \<and>
    fst (createConnection env now False dl endpoint expected im) = Inr (newConnection (ce_config env) (ci_ID ci))"
  using assms
  by (auto simp: Handshake_def createConnection_def OrgCryptoService_OrgByPeerId_def bytes_eq_def Let_def split: prod.splits)

theorem expected_identity_witness:
  "fst (createConnection example_env 5 False \<lparr>dl_conn = None, dl_ping = None, dl_stream = None,
      dl_recv = Some (Inr \<lparr>ev_Payload = Some ''x'', ev_Signature = Some ''x'', ev_SecretEnvelope = None\<rparr>)\<rparr>
      ''a'' (Some ''z'') \<lparr>im_pkiID2Cert = [], im_selfPKIID = ''q''\<rparr>) = Inr (newConnection (\<lambda>_. 0) (Some ''p''))"
proof -
  let ?dl = "\<lparr>dl_conn = None, dl_ping = None, dl_stream = None,
      dl_recv = Some (Inr \<lparr>ev_Payload = Some ''x'', ev_Signature = Some ''x'', ev_SecretEnvelope = None\<rparr>)\<rparr>"
  have "authenticate example_env 5 ''a'' (dl_recv ?dl) \<lparr>im_pkiID2Cert = [], im_selfPKIID = ''q''\<rparr> =
      (Inr \<lparr>ci_ID = Some ''p'', ci_Id = Some ''p''\<rparr>, fst (snd (authenticate example_env 5 ''a'' (dl_recv ?dl) \<lparr>im_pkiID2Cert = [], im_selfPKIID = ''q''\<rparr>)),
       snd (snd (authenticate example_env 5 ''a'' (dl_recv ?dl) \<lparr>im_pkiID2Cert = [], im_selfPKIID = ''q''\<rparr>)))"
    by (simp add: example_authenticate)
  from expected_identity [OF this, of "Some ''z''"] show ?thesis by (simp add: example_env_def)
qed

section \<open>The reader of a stream\<close>

text \<open>An envelope whose payload does not unmarshal is reported on the error channel, and the reader then puts
  a nil message on the message channel, on which the handler of the connection panics; every message that
  unmarshals is handled, and reading goes on.\<close>

theorem garbage_envelope_panics:
  "case unmarshal cd (ev_Payload e) of
     Inl err \<Rightarrow> read_step cd (Inr e) = ([wrap_unmarshal err], [None], True) \<and> interceptAcks ci None c = None
   | Inr msg \<Rightarrow> read_step cd (Inr e) = ([], [Some \<lparr>sg_Envelope = Some e, sg_Msg = msg\<rparr>], True) \<and>
       interceptAcks ci (Some \<lparr>sg_Envelope = Some e, sg_Msg = msg\<rparr>) c \<noteq> None"
  by (auto simp: read_step_def ToGossipMessage_def interceptAcks_def split: sum.splits option.splits prod.splits)

text \<open>A send that does not block always returns; when it gets into the buffer it is last, and it is dropped only by a
  closed connection or a full buffer. Writing takes messages in the order they were sent.\<close>

theorem conn_Send_correct:
  assumes "length (cn_outBuff conn) \<le> cn_cap conn"
  shows "conn_Send msg onErr False conn = Some (if cn_stopFlag conn \<or> length (cn_outBuff conn) = cn_cap conn then conn
      else conn\<lparr>cn_outBuff := cn_outBuff conn @ [\<lparr>ms_envelope = sg_Envelope msg, ms_onErr = onErr\<rparr>]\<rparr>) \<and>
    (conn_Send msg onErr True conn = None \<longleftrightarrow> \<not> cn_stopFlag conn \<and> length (cn_outBuff conn) = cn_cap conn) \<and>
    (\<not> cn_stopFlag conn \<longrightarrow> cn_outBuff conn = m # ms \<longrightarrow>
      (\<exists>conn' onE. write_step (\<lambda>_. False) conn = Some (conn', ms_envelope m, onE, True) \<and> cn_outBuff conn' = ms))"
  using assms by (auto simp: conn_Send_def conn_toDie_def Let_def write_step_def)

theorem conn_Send_correct_witness:
  "conn_Send \<lparr>sg_Envelope = None, sg_Msg = empty_msg\<rparr> None False
     \<lparr>cn_pkiID = None, cn_outBuff = [], cn_cap = 1, cn_stopFlag = False\<rparr> =
   Some \<lparr>cn_pkiID = None, cn_outBuff = [\<lparr>ms_envelope = None, ms_onErr = None\<rparr>], cn_cap = 1, cn_stopFlag = False\<rparr>"
  using conn_Send_correct [of "\<lparr>cn_pkiID = None, cn_outBuff = [], cn_cap = 1, cn_stopFlag = False\<rparr>"
      "\<lparr>sg_Envelope = None, sg_Msg = empty_msg\<rparr>" None] by simp

end
