(* ===== verification/Channel.thy ===== *)
theory Channel
  imports Pull Discovery Comm
begin

text \<open>
  The channels of a peer (channel.go): a \<open>GossipChannel\<close> with its organisations, its store of
  blocks, its cache of state infos, its store of leadership messages and its puller of blocks, and
  the table of channels (\<open>ChannelState\<close>). What a channel asks of the gossip service and of
  discovery is the record \<open>GossipAdapter\<close> of functions, as in the code; reading an identity also
  renews its time of last use in the mapper, which is no part of a channel's state. What a channel
  does to the outside is a list of outputs in order; \<open>None\<close> is a panic.
\<close>

declare map_of_eq_Some_iff [simp del] Some_eq_map_of_iff [simp del]

section \<open>Configuration and join messages\<close>

record GossipConfig =
  cf_BindPort :: int
  cf_ID :: string
  cf_BootstrapPeers :: "string list"
  cf_PropagateIterations :: int
  cf_PropagatePeerNum :: int
  cf_MaxBlockCountToStore :: int
  cf_MaxPropagationBurstSize :: int
  cf_MaxPropagationBurstLatency :: duration
  cf_PullInterval :: duration
  cf_PullPeerNum :: int
  cf_PublishCertPeriod :: duration
  cf_PublishStateInfoInterval :: duration
  cf_RequestStateInfoInterval :: duration
  cf_InternalEndpoint :: string
  cf_ExternalEndpoint :: string

record ChannelStoreConfig =
  sc_ID :: string
  sc_PublishStateInfoInterval :: duration
  sc_MaxBlockCountToStore :: int
  sc_PullPeerNum :: int
  sc_PullInterval :: duration
  sc_RequestStateInfoInterval :: duration
  sc_BlockExpirationInterval :: duration
  sc_StateInfoCacheSweepInterval :: duration

definition GetConf :: "GossipConfig \<Rightarrow> ChannelStoreConfig" where
  "GetConf conf =
     \<lparr>sc_ID = cf_ID conf, sc_PublishStateInfoInterval = cf_PublishStateInfoInterval conf,
      sc_MaxBlockCountToStore = cf_MaxBlockCountToStore conf, sc_PullPeerNum = cf_PullPeerNum conf,
      sc_PullInterval = cf_PullInterval conf, sc_RequestStateInfoInterval = cf_RequestStateInfoInterval conf,
      sc_BlockExpirationInterval = cf_PullInterval conf * 100,
      sc_StateInfoCacheSweepInterval = cf_PullInterval conf * 5\<rparr>"

record AnchorPeer =
  ap_Host :: string
  ap_Port :: int

record JoinChanMsg =
  jcm_Members2AnchorPeers :: "(string, AnchorPeer list) gomap option"

text \<open>The sequence number of a join message is the time it is asked for.\<close>

definition SequenceNumber :: "instant \<Rightarrow> JoinChanMsg \<Rightarrow> u64" where
  "SequenceNumber now jcm = unix_nano now"

definition JoinChanMsg_Peers :: "JoinChanMsg \<Rightarrow> bytes list" where
  "JoinChanMsg_Peers jcm =
     (case jcm_Members2AnchorPeers jcm of
        None \<Rightarrow> [DefaultOrgInChannelA]
      | Some m \<Rightarrow> map (\<lambda>(org, _). Some org) m)"

definition AnchorPeersOf :: "bytes \<Rightarrow> JoinChanMsg \<Rightarrow> AnchorPeer list" where
  "AnchorPeersOf org jcm =
     (case jcm_Members2AnchorPeers jcm of
        None \<Rightarrow> []
      | Some m \<Rightarrow> (case map_get m (str_of org) of None \<Rightarrow> [] | Some aps \<Rightarrow> aps))"

section \<open>The state of a channel\<close>

record stateInfoCache =
  sic_members :: MembershipStore
  sic_store :: "SignedGossipMessage MessageStore"

record GossipChannel =
  gch_shouldGossipStateInfo :: bool
  gch_pkiID :: bytes
  gch_selfOrg :: bytes
  gch_stateInfoMsg :: "SignedGossipMessage option"
  gch_orgs :: "bytes list"
  gch_joinMsg :: "JoinChanMsg option"
  gch_blockMsgStore :: "SignedGossipMessage MessageStore"
  gch_stateInfoMsgStore :: stateInfoCache
  gch_leaderMsgStore :: "SignedGossipMessage MessageStore"
  gch_chainID :: bytes
  gch_blocksPuller :: pull
  gch_ledgerHeight :: u64
  gch_incTime :: u64
  gch_leftChannel :: bool

text \<open>What a channel uses of the gossip service, its mapper and discovery.\<close>

record GossipAdapter =
  ga_codec :: codec
  ga_sha :: "string \<Rightarrow> string"
  ga_Conf :: GossipConfig
  ga_Mcs :: NaiveMessageCryptoService
  ga_membership :: "Peer list"
  ga_Lookup :: "bytes \<Rightarrow> Peer option"
  ga_GetIdByPKIID :: "bytes \<Rightarrow> bytes"
  ga_GetOrgOfPeer :: "bytes \<Rightarrow> bytes"
  ga_ValidateStateInfoMsg :: "SignedGossipMessage \<Rightarrow> error option"

datatype chan_out =
    Ch_Respond ReceivedMessage GossipMessage
  | Ch_Send SignedGossipMessage "RemotePeer list"
  | Ch_Gossip "SignedGossipMessage option"
  | Ch_Forward ReceivedMessage
  | Ch_DeMultiplex SignedGossipMessage
  | Ch_Pull pull_out

definition GossipAdapter_Sign :: "codec \<Rightarrow> GossipMessage \<Rightarrow> error + SignedGossipMessage" where
  "GossipAdapter_Sign c msg =
     (case Sign c mcs_Sign \<lparr>sg_Envelope = None, sg_Msg = msg\<rparr> of
        (Inl err, _) \<Rightarrow> Inl err
      | (Inr e, _) \<Rightarrow> Inr \<lparr>sg_Envelope = Some e, sg_Msg = msg\<rparr>)"

definition block_comparator :: "GossipAdapter \<Rightarrow> SignedGossipMessage \<Rightarrow> SignedGossipMessage \<Rightarrow> InvalidationResult option" where
  "block_comparator ga = NewGossipMessageComparator (sc_MaxBlockCountToStore (GetConf (ga_Conf ga)))"

definition state_comparator :: "SignedGossipMessage \<Rightarrow> SignedGossipMessage \<Rightarrow> InvalidationResult option" where
  "state_comparator = NewGossipMessageComparator 0"

section \<open>Who is in the channel\<close>

definition hasLeftChannel :: "GossipChannel \<Rightarrow> bool" where
  "hasLeftChannel gc = gch_leftChannel gc"

fun IsOrgInChannel_loop :: "bytes list \<Rightarrow> bytes \<Rightarrow> bool" where
  "IsOrgInChannel_loop [] membersOrg = False"
| "IsOrgInChannel_loop (orgOfChan # orgs) membersOrg =
     (if bytes_eq orgOfChan membersOrg then True else IsOrgInChannel_loop orgs membersOrg)"

definition IsOrgInChannel :: "GossipChannel \<Rightarrow> bytes \<Rightarrow> bool" where
  "IsOrgInChannel gc membersOrg = IsOrgInChannel_loop (gch_orgs gc) membersOrg"

definition IsMemberInChan :: "GossipAdapter \<Rightarrow> GossipChannel \<Rightarrow> Peer \<Rightarrow> bool" where
  "IsMemberInChan ga gc peer =
     (let org = ga_GetOrgOfPeer ga (p_PKIid peer) in if org = None then False else IsOrgInChannel gc org)"

definition EligibleForChannel :: "GossipAdapter \<Rightarrow> GossipChannel \<Rightarrow> Peer \<Rightarrow> bool" where
  "EligibleForChannel ga gc peer =
     (if bytes_len (ga_GetIdByPKIID ga (p_PKIid peer)) = 0 then False
      else if GetMsgByID (sic_members (gch_stateInfoMsgStore gc)) (p_PKIid peer) = None then False
      else True)"

definition eligibleForChannelAndSameOrg :: "GossipAdapter \<Rightarrow> GossipChannel \<Rightarrow> Peer \<Rightarrow> bool" where
  "eligibleForChannelAndSameOrg ga gc peer =
     CombineRoutingFilters
       [EligibleForChannel ga gc, \<lambda>p. bytes_eq (ga_GetOrgOfPeer ga (p_PKIid p)) (gch_selfOrg gc)] peer"

text \<open>The loop of \<open>GetPeers\<close>; the messages of the cache are state infos.\<close>

fun GetPeers_loop :: "GossipAdapter \<Rightarrow> GossipChannel \<Rightarrow> Peer list \<Rightarrow> Peer list option" where
  "GetPeers_loop ga gc [] = Some []"
| "GetPeers_loop ga gc (peer # ps) =
     (if \<not> EligibleForChannel ga gc peer then GetPeers_loop ga gc ps
      else case GetMsgByID (sic_members (gch_stateInfoMsgStore gc)) (p_PKIid peer) of
        None \<Rightarrow> GetPeers_loop ga gc ps
      | Some stateInf \<Rightarrow> do {
          si \<leftarrow> GetStateInfo (sg_Msg stateInf);
          (if (case si_Properties si of None \<Rightarrow> False | Some props \<Rightarrow> pr_LeftChannel props)
           then GetPeers_loop ga gc ps
           else do {
             peers \<leftarrow> GetPeers_loop ga gc ps;
             Some (peer\<lparr>p_Properties := si_Properties si, p_Envelope := sg_Envelope stateInf\<rparr> # peers)
           })
        })"

definition GetPeers :: "GossipAdapter \<Rightarrow> GossipChannel \<Rightarrow> Peer list option" where
  "GetPeers ga gc = (if hasLeftChannel gc then Some [] else GetPeers_loop ga gc (ga_membership ga))"

definition membershipFilter_GetMembership :: "GossipAdapter \<Rightarrow> GossipChannel \<Rightarrow> Peer list" where
  "membershipFilter_GetMembership ga gc =
     (if hasLeftChannel gc then [] else filter (eligibleForChannelAndSameOrg ga gc) (ga_membership ga))"

section \<open>The cache of state infos\<close>

text \<open>
  The check of a state info when it comes in, and with the new organisations when the channel is
  reconfigured. It reads the signature of the message through its envelope.
\<close>

definition verifyStateInfoMsg :: "GossipAdapter \<Rightarrow> GossipChannel \<Rightarrow> bytes list \<Rightarrow> SignedGossipMessage \<Rightarrow> bool option" where
  "verifyStateInfoMsg ga gc orgs msg = do {
     si \<leftarrow> GetStateInfo (sg_Msg msg);
     (if bytes_eq (gch_pkiID gc) (si_PkiId si) then Some True
      else (let peerId = ga_GetIdByPKIID ga (si_PkiId si) in
        if bytes_len peerId = 0 then Some False
        else (let org = ga_GetOrgOfPeer ga (si_PkiId si);
                  inChan = (if length orgs = 0 then IsOrgInChannel gc org else IsOrgInChannel_loop orgs org) in
          if \<not> inChan then Some False
          else do {
            e \<leftarrow> sg_Envelope msg;
            Some (VerifyByChannel (ga_Mcs ga) (gch_chainID gc) peerId (ev_Signature e) (ev_Payload e) = None)
          })))
   }"

text \<open>The trigger of the cache's message store: the replaced message leaves the membership too.\<close>

definition forget_member :: "SignedGossipMessage \<Rightarrow> MembershipStore \<Rightarrow> MembershipStore option" where
  "forget_member m ms = do { si \<leftarrow> GetStateInfo (sg_Msg m); Some (MembershipStore_Remove (si_PkiId si) ms) }"

definition stateInfoCache_add ::
  "GossipAdapter \<Rightarrow> instant \<Rightarrow> SignedGossipMessage \<Rightarrow> GossipChannel \<Rightarrow> (bool \<times> GossipChannel) option" where
  "stateInfoCache_add ga now msg gc =
     (let cache = gch_stateInfoMsgStore gc in do {
        valid \<leftarrow> MessageStore_CheckValid state_comparator msg (sic_store cache);
        (if \<not> valid then Some (False, gc)
         else do {
           ok \<leftarrow> verifyStateInfoMsg ga gc [] msg;
           (if \<not> ok then Some (False, gc)
            else do {
              (added, store, trig) \<leftarrow> MessageStore_Add state_comparator now msg (sic_store cache);
              members \<leftarrow> foldM forget_member trig (sic_members cache);
              (if \<not> added then Some (False, gc\<lparr>gch_stateInfoMsgStore := \<lparr>sic_members = members, sic_store = store\<rparr>\<rparr>)
               else do {
                 si \<leftarrow> GetStateInfo (sg_Msg msg);
                 Some (True, gc\<lparr>gch_stateInfoMsgStore :=
                   \<lparr>sic_members = MembershipStore_Put (si_PkiId si) msg members, sic_store = store\<rparr>\<rparr>)
               })
            })
         })
      })"

text \<open>A purge of the cache's message store with its trigger.\<close>

definition cache_purge :: "(SignedGossipMessage \<Rightarrow> bool) \<Rightarrow> stateInfoCache \<Rightarrow> stateInfoCache option" where
  "cache_purge P cache =
     (let (store, trig) = MessageStore_Purge P (sic_store cache) in
      map_option (\<lambda>members. \<lparr>sic_members = members, sic_store = store\<rparr>) (foldM forget_member trig (sic_members cache)))"

text \<open>The sweep of the cache: the state infos of peers discovery no longer knows.\<close>

definition state_key :: "SignedGossipMessage \<Rightarrow> bytes" where
  "state_key m = (case GetStateInfo (sg_Msg m) of None \<Rightarrow> None | Some si \<Rightarrow> si_PkiId si)"

definition cache_sweep :: "GossipAdapter \<Rightarrow> GossipChannel \<Rightarrow> GossipChannel option" where
  "cache_sweep ga gc =
     map_option (\<lambda>cache. gc\<lparr>gch_stateInfoMsgStore := cache\<rparr>)
       (cache_purge (\<lambda>m. ga_Lookup ga (state_key m) = None) (gch_stateInfoMsgStore gc))"

section \<open>Publishing the own state\<close>

definition stateInfo_MAC :: "GossipAdapter \<Rightarrow> GossipChannel \<Rightarrow> bytes \<Rightarrow> bytes" where
  "stateInfo_MAC ga gc pkiID = GenerateMAC (ga_sha ga) pkiID (gch_chainID gc)"

definition own_state_msg :: "GossipAdapter \<Rightarrow> GossipChannel \<Rightarrow> instant \<Rightarrow> u64 \<Rightarrow> Chaincode list \<Rightarrow> bool \<Rightarrow> GossipMessage" where
  "own_state_msg ga gc now ledgerHeight chaincodes leftChannel =
     \<lparr>gm_Nonce = 0, gm_Channel = None, gm_Tag = Tag_CHAN_OR_ORG,
      gm_Content = Some (StateInfoMsg
        \<lparr>si_Timestamp = Some (PeerTime (gch_incTime gc) (unix_nano now)), si_PkiId = gch_pkiID gc,
         si_Channel_MAC = stateInfo_MAC ga gc (gch_pkiID gc),
         si_Properties = Some \<lparr>pr_LedgerHeight = ledgerHeight, pr_LeftChannel = leftChannel, pr_Chaincodes = chaincodes\<rparr>\<rparr>)\<rparr>"

definition updateProperties ::
  "GossipAdapter \<Rightarrow> instant \<Rightarrow> u64 \<Rightarrow> Chaincode list \<Rightarrow> bool \<Rightarrow> GossipChannel \<Rightarrow> GossipChannel option" where
  "updateProperties ga now ledgerHeight chaincodes leftChannel gc =
     (case GossipAdapter_Sign (ga_codec ga) (own_state_msg ga gc now ledgerHeight chaincodes leftChannel) of
        Inl err \<Rightarrow> Some gc
      | Inr msg \<Rightarrow>
          map_option (\<lambda>(_, gc1). gc1\<lparr>gch_ledgerHeight := ledgerHeight, gch_stateInfoMsg := Some msg,
              gch_shouldGossipStateInfo := True\<rparr>)
            (stateInfoCache_add ga now msg gc))"

text \<open>The properties of the previous message: a nil one is dereferenced.\<close>

definition prev_properties :: "GossipChannel \<Rightarrow> Properties option option" where
  "prev_properties gc =
     (case gch_stateInfoMsg gc of
        None \<Rightarrow> Some None
      | Some prevMsg \<Rightarrow> do {
          si \<leftarrow> GetStateInfo (sg_Msg prevMsg);
          props \<leftarrow> si_Properties si;
          Some (Some props)
        })"

definition UpdateLedgerHeight :: "GossipAdapter \<Rightarrow> instant \<Rightarrow> u64 \<Rightarrow> GossipChannel \<Rightarrow> GossipChannel option" where
  "UpdateLedgerHeight ga now height gc = do {
     prev \<leftarrow> prev_properties gc;
     (case prev of
        None \<Rightarrow> updateProperties ga now height [] False gc
      | Some props \<Rightarrow> updateProperties ga now height (pr_Chaincodes props) (pr_LeftChannel props) gc)
   }"

definition LeaveChannel :: "GossipAdapter \<Rightarrow> instant \<Rightarrow> GossipChannel \<Rightarrow> GossipChannel option" where
  "LeaveChannel ga now gc =
     (let gc1 = gc\<lparr>gch_leftChannel := True\<rparr> in do {
        prev \<leftarrow> prev_properties gc1;
        (case prev of
           None \<Rightarrow> updateProperties ga now 0 [] True gc1
         | Some props \<Rightarrow> updateProperties ga now (pr_LedgerHeight props) (pr_Chaincodes props) True gc1)
      })"

definition publishStateInfo :: "GossipAdapter \<Rightarrow> GossipChannel \<Rightarrow> GossipChannel \<times> chan_out list" where
  "publishStateInfo ga gc =
     (if \<not> gch_shouldGossipStateInfo gc then (gc, [])
      else (if 0 < length (ga_membership ga) then gc\<lparr>gch_shouldGossipStateInfo := False\<rparr> else gc,
            [Ch_Gossip (gch_stateInfoMsg gc)]))"

definition createStateInfoRequest :: "GossipAdapter \<Rightarrow> GossipChannel \<Rightarrow> SignedGossipMessage \<times> error option" where
  "createStateInfoRequest ga gc =
     NoopSign (ga_codec ga) \<lparr>gm_Nonce = 0, gm_Channel = None, gm_Tag = Tag_CHAN_OR_ORG,
       gm_Content = Some (StateInfoPullReq \<lparr>sp_Channel_MAC = stateInfo_MAC ga gc (gch_pkiID gc)\<rparr>)\<rparr>"

definition requestStateInfo :: "GossipAdapter \<Rightarrow> nat list \<Rightarrow> GossipChannel \<Rightarrow> chan_out list" where
  "requestStateInfo ga perm gc =
     (case createStateInfoRequest ga gc of
        (_, Some err) \<Rightarrow> []
      | (req, None) \<Rightarrow>
          [Ch_Send req (SelectPeers perm (sc_PullPeerNum (GetConf (ga_Conf ga))) (ga_membership ga) (IsMemberInChan ga gc))])"

section \<open>Snapshots of state infos\<close>

text \<open>The loop of \<open>createStateInfoSnapshot\<close>: what a requester's organisation may see.\<close>

fun snapshot_elements ::
  "GossipAdapter \<Rightarrow> GossipChannel \<Rightarrow> bytes \<Rightarrow> SignedGossipMessage list \<Rightarrow> Envelope option list option" where
  "snapshot_elements ga gc requestersOrg [] = Some []"
| "snapshot_elements ga gc requestersOrg (msg # msgs) = do {
     si \<leftarrow> GetStateInfo (sg_Msg msg);
     elements \<leftarrow> snapshot_elements ga gc requestersOrg msgs;
     (if bytes_eq (gch_selfOrg gc) requestersOrg \<or> \<not> bytes_eq (ga_GetOrgOfPeer ga (si_PkiId si)) (gch_selfOrg gc)
      then Some (sg_Envelope msg # elements)
      else (case ga_Lookup ga (si_PkiId si) of
              None \<Rightarrow> Some elements
            | Some netMember \<Rightarrow>
                if p_Endpoint netMember = [] then Some elements else Some (sg_Envelope msg # elements)))
   }"

definition createStateInfoSnapshot :: "GossipAdapter \<Rightarrow> GossipChannel \<Rightarrow> bytes \<Rightarrow> GossipMessage option" where
  "createStateInfoSnapshot ga gc requestersOrg =
     map_option (\<lambda>elements. \<lparr>gm_Nonce = 0, gm_Channel = gch_chainID gc, gm_Tag = Tag_CHAN_OR_ORG,
        gm_Content = Some (StateSnapshot \<lparr>ss_Elements = elements\<rparr>)\<rparr>)
       (snapshot_elements ga gc requestersOrg (MessageStore_Get (sic_store (gch_stateInfoMsgStore gc))))"

text \<open>The loop of \<open>handleStateInfoSnapshot\<close> ends at the first envelope that fails a test.\<close>

fun snapshot_loop ::
  "GossipAdapter \<Rightarrow> instant \<Rightarrow> Envelope option list \<Rightarrow> GossipChannel \<Rightarrow> GossipChannel option" where
  "snapshot_loop ga now [] gc = Some gc"
| "snapshot_loop ga now (envelope # es) gc =
     (case envelope of
        None \<Rightarrow> None
      | Some e \<Rightarrow>
          (case ToGossipMessage (ga_codec ga) e of
             Inl err \<Rightarrow> Some gc
           | Inr stateInf \<Rightarrow>
               (case GetStateInfo (sg_Msg stateInf) of
                  None \<Rightarrow> Some gc
                | Some si \<Rightarrow>
                    (let orgID = ga_GetOrgOfPeer ga (si_PkiId si) in
                     if orgID = None then Some gc
                     else if \<not> IsOrgInChannel gc orgID then Some gc
                     else if \<not> bytes_eq (si_Channel_MAC si) (stateInfo_MAC ga gc (si_PkiId si)) then Some gc
                     else if ga_ValidateStateInfoMsg ga stateInf \<noteq> None then Some gc
                     else if ga_Lookup ga (si_PkiId si) = None then snapshot_loop ga now es gc
                     else do {
                       (_, gc1) \<leftarrow> stateInfoCache_add ga now stateInf gc;
                       snapshot_loop ga now es gc1
                     }))))"

definition handleStateInfoSnapshot ::
  "GossipAdapter \<Rightarrow> instant \<Rightarrow> GossipMessage \<Rightarrow> GossipChannel \<Rightarrow> GossipChannel option" where
  "handleStateInfoSnapshot ga now m gc = do {
     ss \<leftarrow> GetStateSnapshot m;
     snapshot_loop ga now (ss_Elements ss) gc
   }"

section \<open>Blocks\<close>

text \<open>The adapter of the block puller reads the ledger height of the channel.\<close>

definition chan_adapter :: "GossipChannel \<Rightarrow> PullAdapter" where
  "chan_adapter gc = block_adapter (gch_ledgerHeight gc)"

text \<open>The key of a block in the trigger and in the callback of the store: a nil payload is dereferenced.\<close>

definition block_seqNum :: "SignedGossipMessage \<Rightarrow> string option" where
  "block_seqNum m = do {
     d \<leftarrow> GetDataMsg (sg_Msg m);
     pl \<leftarrow> dm_Payload d;
     Some (fmt_u64 (pl_SeqNum pl))
   }"

definition block_removed :: "SignedGossipMessage \<Rightarrow> pull \<Rightarrow> pull option" where
  "block_removed m p = map_option (\<lambda>n. PullMediator_Remove n p) (block_seqNum m)"

definition verifyBlock :: "GossipMessage \<Rightarrow> bool" where
  "verifyBlock msg =
     (case GetDataMsg msg of
        None \<Rightarrow> False
      | Some d \<Rightarrow>
          (case dm_Payload d of
             None \<Rightarrow> False
           | Some payload \<Rightarrow> VerifyBlock (gm_Channel msg) (pl_SeqNum payload) (pl_Data payload) = None))"

text \<open>\<open>blockMsgStore.Add\<close>: the blocks it replaces leave the puller.\<close>

definition blockMsgStore_Add ::
  "GossipAdapter \<Rightarrow> instant \<Rightarrow> SignedGossipMessage \<Rightarrow> GossipChannel \<Rightarrow> (bool \<times> GossipChannel) option" where
  "blockMsgStore_Add ga now msg gc = do {
     (added, store, trig) \<leftarrow> MessageStore_Add (block_comparator ga) now msg (gch_blockMsgStore gc);
     puller \<leftarrow> foldM block_removed trig (gch_blocksPuller gc);
     Some (added, gc\<lparr>gch_blockMsgStore := store, gch_blocksPuller := puller\<rparr>)
   }"

text \<open>A round of the expiration of blocks: the expired ones leave the puller.\<close>

definition block_expirationTick :: "instant \<Rightarrow> GossipChannel \<Rightarrow> GossipChannel option" where
  "block_expirationTick now gc =
     (let (store, calls) = expirationTick now (gch_blockMsgStore gc) in
      map_option (\<lambda>puller. gc\<lparr>gch_blockMsgStore := store, gch_blocksPuller := puller\<rparr>)
        (foldM block_removed calls (gch_blocksPuller gc)))"

definition puller_add :: "SignedGossipMessage \<Rightarrow> GossipChannel \<Rightarrow> GossipChannel" where
  "puller_add msg gc = gc\<lparr>gch_blocksPuller := PullMediator_Add (chan_adapter gc) msg (gch_blocksPuller gc)\<rparr>"

definition AddToMsgStore :: "GossipAdapter \<Rightarrow> instant \<Rightarrow> SignedGossipMessage \<Rightarrow> GossipChannel \<Rightarrow> GossipChannel option" where
  "AddToMsgStore ga now msg gc = do {
     gc1 \<leftarrow> (if GetDataMsg (sg_Msg msg) \<noteq> None
             then map_option (\<lambda>(_, gc'). puller_add msg gc') (blockMsgStore_Add ga now msg gc)
             else Some gc);
     (if GetStateInfo (sg_Msg msg) \<noteq> None then map_option snd (stateInfoCache_add ga now msg gc1) else Some gc1)
   }"

section \<open>Messages of remote peers\<close>

definition verifyMsg :: "GossipAdapter \<Rightarrow> GossipChannel \<Rightarrow> ReceivedMessage \<Rightarrow> bool option" where
  "verifyMsg ga gc msg =
     (case rm_ConnInfo msg of
        None \<Rightarrow> None
      | Some ci \<Rightarrow>
          (let m = sg_Msg (rm_msg msg) in
           if ci_ID ci = None then Some False
           else (case GetStateInfo m of
             Some si \<Rightarrow> Some (bytes_eq (stateInfo_MAC ga gc (si_PkiId si)) (si_Channel_MAC si))
           | None \<Rightarrow>
               (case GetStateInfoPullReq m of
                  Some sipr \<Rightarrow> Some (bytes_eq (stateInfo_MAC ga gc (ci_ID ci)) (sp_Channel_MAC sipr))
                | None \<Rightarrow> Some (bytes_eq (gm_Channel m) (gch_chainID gc))))))"

text \<open>
  The loop over the data of an update: each block is added to the store and what was new is kept
  for the puller. It ends the handler (the flag is then \<open>False\<close>) at the first item that fails a test;
  the validity test is on the update itself.
\<close>

fun update_blocks ::
  "GossipAdapter \<Rightarrow> instant \<Rightarrow> SignedGossipMessage \<Rightarrow> Envelope option list \<Rightarrow> Envelope option list \<Rightarrow> GossipChannel \<Rightarrow>
   (bool \<times> Envelope option list \<times> GossipChannel) option" where
  "update_blocks ga now m [] filtered gc = Some (True, filtered, gc)"
| "update_blocks ga now m (item # items) filtered gc =
     (case item of
        None \<Rightarrow> None
      | Some e \<Rightarrow>
          (case ToGossipMessage (ga_codec ga) e of
             Inl err \<Rightarrow> Some (False, filtered, gc)
           | Inr gMsg \<Rightarrow>
               if \<not> bytes_eq (gm_Channel (sg_Msg gMsg)) (gch_chainID gc) then Some (False, filtered, gc)
               else do {
                 valid \<leftarrow> MessageStore_CheckValid (block_comparator ga) m (gch_blockMsgStore gc);
                 (if \<not> valid then Some (False, filtered, gc)
                  else if \<not> verifyBlock (sg_Msg gMsg) then Some (False, filtered, gc)
                  else do {
                    (added, gc1) \<leftarrow> blockMsgStore_Add ga now gMsg gc;
                    update_blocks ga now m items (if added then filtered @ [item] else filtered) gc1
                  })
               }))"

fun chan_of_pull :: "pull_out \<Rightarrow> chan_out" where
  "chan_of_pull (Pull_Send m peers) = Ch_Send m peers"
| "chan_of_pull (Pull_Respond m g) = Ch_Respond m g"
| "chan_of_pull (Pull_Consume m) = Ch_DeMultiplex m"
| "chan_of_pull p = Ch_Pull p"

definition puller_handle :: "GossipAdapter \<Rightarrow> ReceivedMessage \<Rightarrow> GossipChannel \<Rightarrow> (GossipChannel \<times> chan_out list) option" where
  "puller_handle ga msg gc =
     map_option (\<lambda>(p, outs). (gc\<lparr>gch_blocksPuller := p\<rparr>, map chan_of_pull outs))
       (PullMediator_HandleMessage (ga_codec ga) (chan_adapter gc) msg (gch_blocksPuller gc))"

text \<open>The branch of pull messages for blocks.\<close>

definition with_data :: "ReceivedMessage \<Rightarrow> DataUpdate \<Rightarrow> Envelope option list \<Rightarrow> ReceivedMessage" where
  "with_data msg du data =
     msg\<lparr>rm_msg := (rm_msg msg)\<lparr>sg_Msg := (sg_Msg (rm_msg msg))\<lparr>gm_Content := Some (DataUpdateMsg (du\<lparr>du_Data := data\<rparr>))\<rparr>\<rparr>\<rparr>"

definition handle_block_pull ::
  "GossipAdapter \<Rightarrow> instant \<Rightarrow> ReceivedMessage \<Rightarrow> bytes \<Rightarrow> GossipChannel \<Rightarrow> (GossipChannel \<times> chan_out list) option" where
  "handle_block_pull ga now msg sender gc =
     (if hasLeftChannel gc then Some (gc, [])
      else if GetMsgByID (sic_members (gch_stateInfoMsgStore gc)) sender = None then Some (gc, [])
      else if \<not> eligibleForChannelAndSameOrg ga gc (empty_peer\<lparr>p_PKIid := sender\<rparr>) then Some (gc, [])
      else case GetDataUpdate (sg_Msg (rm_msg msg)) of
        None \<Rightarrow> puller_handle ga msg gc
      | Some du \<Rightarrow> do {
          (ok, filtered, gc1) \<leftarrow> update_blocks ga now (rm_msg msg) (du_Data du) [] gc;
          (if \<not> ok then Some (gc1, []) else puller_handle ga (with_data msg du filtered) gc1)
        })"

text \<open>The branch of data messages and state infos.\<close>

definition handle_data ::
  "GossipAdapter \<Rightarrow> instant \<Rightarrow> ReceivedMessage \<Rightarrow> GossipChannel \<Rightarrow> (GossipChannel \<times> chan_out list) option" where
  "handle_data ga now msg gc =
     (let m = rm_msg msg in
      case GetDataMsg (sg_Msg m) of
        Some d \<Rightarrow>
          if dm_Payload d = None then Some (gc, [])
          else do {
            valid \<leftarrow> MessageStore_CheckValid (block_comparator ga) m (gch_blockMsgStore gc);
            (if \<not> valid then Some (gc, [])
             else if \<not> verifyBlock (sg_Msg m) then Some (gc, [])
             else do {
               (added, gc1) \<leftarrow> blockMsgStore_Add ga now m gc;
               (if added then Some (puller_add m gc1, [Ch_Forward msg, Ch_DeMultiplex m]) else Some (gc1, []))
             })
          }
      | None \<Rightarrow> do {
          (added, gc1) \<leftarrow> stateInfoCache_add ga now m gc;
          (if added then Some (gc1, [Ch_Forward msg, Ch_DeMultiplex m]) else Some (gc1, []))
        })"

definition handle_leadership ::
  "instant \<Rightarrow> SignedGossipMessage \<Rightarrow> GossipChannel \<times> chan_out list \<Rightarrow> (GossipChannel \<times> chan_out list) option" where
  "handle_leadership now m = (\<lambda>(gc, outs).
     if GetLeadershipMsg (sg_Msg m) = None then Some (gc, outs)
     else do {
       (added, store, _) \<leftarrow> MessageStore_Add (NewGossipMessageComparator 0) now m (gch_leaderMsgStore gc);
       Some (gc\<lparr>gch_leaderMsgStore := store\<rparr>, if added then outs @ [Ch_DeMultiplex m] else outs)
     })"

definition chan_HandleMessage ::
  "GossipAdapter \<Rightarrow> instant \<Rightarrow> ReceivedMessage \<Rightarrow> GossipChannel \<Rightarrow> (GossipChannel \<times> chan_out list) option" where
  "chan_HandleMessage ga now msg gc = do {
     ok \<leftarrow> verifyMsg ga gc msg;
     (if \<not> ok then Some (gc, [])
      else let m = sg_Msg (rm_msg msg) in
      if \<not> IsChannelRestricted m then Some (gc, [])
      else do {
        ci \<leftarrow> rm_ConnInfo msg;
        let orgID = ga_GetOrgOfPeer ga (ci_ID ci);
        (if bytes_len orgID = 0 then Some (gc, [])
         else if \<not> IsOrgInChannel gc orgID then Some (gc, [])
         else if GetStateInfoPullReq m \<noteq> None
           then map_option (\<lambda>snapshot. (gc, [Ch_Respond msg snapshot])) (createStateInfoSnapshot ga gc orgID)
         else if GetStateSnapshot m \<noteq> None
           then map_option (\<lambda>gc1. (gc1, [])) (handleStateInfoSnapshot ga now m gc)
         else if GetDataMsg m \<noteq> None \<or> GetStateInfo m \<noteq> None then handle_data ga now msg gc
         else if IsPullMsg m \<and> GetPullMsgType m = PullMsgType_BLOCK_MSG then handle_block_pull ga now msg (ci_ID ci) gc
         else handle_leadership now (rm_msg msg) (gc, []))
      })
   }"

section \<open>Configuring, starting and stopping\<close>

fun configure_loop ::
  "GossipAdapter \<Rightarrow> bytes list \<Rightarrow> SignedGossipMessage list \<Rightarrow> GossipChannel \<Rightarrow> GossipChannel option" where
  "configure_loop ga peers [] gc = Some gc"
| "configure_loop ga peers (msg # msgs) gc = do {
     ok \<leftarrow> verifyStateInfoMsg ga gc peers msg;
     gc1 \<leftarrow> (if ok then Some gc
             else do {
               cache \<leftarrow> cache_purge (\<lambda>other. bytes_eq (state_key other) (state_key msg)) (gch_stateInfoMsgStore gc);
               Some (gc\<lparr>gch_stateInfoMsgStore := cache\<lparr>sic_members :=
                 MembershipStore_Remove (state_key msg) (sic_members cache)\<rparr>\<rparr>)
             });
     configure_loop ga peers msgs gc1
   }"

text \<open>The two sequence numbers are the two times they are asked for.\<close>

definition ConfigureChannel ::
  "GossipAdapter \<Rightarrow> instant \<Rightarrow> instant \<Rightarrow> JoinChanMsg \<Rightarrow> GossipChannel \<Rightarrow> GossipChannel option" where
  "ConfigureChannel ga now1 now2 joinMsg gc =
     (if length (JoinChanMsg_Peers joinMsg) = 0 then Some gc
      else (let current = (case gch_joinMsg gc of None \<Rightarrow> joinMsg | Some j \<Rightarrow> j);
                gc1 = gc\<lparr>gch_joinMsg := Some current\<rparr> in
            if SequenceNumber now1 current > SequenceNumber now2 joinMsg then Some gc1
            else (let gc2 = gc1\<lparr>gch_orgs := JoinChanMsg_Peers joinMsg, gch_joinMsg := Some joinMsg\<rparr> in
                  configure_loop ga (JoinChanMsg_Peers joinMsg)
                    (MessageStore_Get (sic_store (gch_stateInfoMsgStore gc2))) gc2)))"

definition chan_Stop :: "GossipChannel \<Rightarrow> GossipChannel" where
  "chan_Stop gc = gc\<lparr>gch_blocksPuller := pull_Stop (gch_blocksPuller gc),
     gch_leaderMsgStore := MessageStore_Stop (gch_leaderMsgStore gc),
     gch_blockMsgStore := MessageStore_Stop (gch_blockMsgStore gc)\<rparr>"

definition leaderAliveThreshold :: duration where
  "leaderAliveThreshold = 10 * second"

definition newGossipChannel ::
  "GossipAdapter \<Rightarrow> (string \<Rightarrow> duration) \<Rightarrow> instant \<Rightarrow> instant \<Rightarrow> instant \<Rightarrow> bytes \<Rightarrow> bytes \<Rightarrow> bytes \<Rightarrow> JoinChanMsg \<Rightarrow> GossipChannel option" where
  "newGossipChannel ga config now now1 now2 pkiID org chainID joinMsg =
     (let conf = GetConf (ga_Conf ga);
          ttl = GetDurationOrDefault config ''peer.gossip.election.leaderAliveThreshold'' leaderAliveThreshold * 10;
          gc = \<lparr>gch_shouldGossipStateInfo = False, gch_pkiID = pkiID, gch_selfOrg = org, gch_stateInfoMsg = None,
            gch_orgs = [], gch_joinMsg = None, gch_blockMsgStore = NewMessageStoreExpirable (sc_BlockExpirationInterval conf),
            gch_stateInfoMsgStore = \<lparr>sic_members = NewMembershipStore, sic_store = newMsgStore\<rparr>,
            gch_leaderMsgStore = NewMessageStoreExpirable ttl, gch_chainID = chainID,
            gch_blocksPuller = snd (createBlockPuller (str_of chainID) (sc_ID conf) (sc_PullPeerNum conf) (sc_PullInterval conf) 0),
            gch_ledgerHeight = 0, gch_incTime = unix_nano now, gch_leftChannel = False\<rparr>
      in ConfigureChannel ga now1 now2 joinMsg gc)"

section \<open>The table of channels\<close>

record ChannelState =
  cst_Stopping :: bool
  cst_Channels :: "(string, GossipChannel) gomap"

definition GetGossipChannelByChainID :: "ChannelState \<Rightarrow> bytes \<Rightarrow> GossipChannel option" where
  "GetGossipChannelByChainID cs chainID =
     (if cst_Stopping cs then None else map_get (cst_Channels cs) (str_of chainID))"

fun by_MAC_loop :: "(string \<Rightarrow> string) \<Rightarrow> bytes \<Rightarrow> bytes \<Rightarrow> (string, GossipChannel) gomap \<Rightarrow> GossipChannel option" where
  "by_MAC_loop sha receivedMAC pkiID [] = None"
| "by_MAC_loop sha receivedMAC pkiID ((chanName, gc) # m) =
     (if bytes_eq (GenerateMAC sha pkiID (Some chanName)) receivedMAC then Some gc
      else by_MAC_loop sha receivedMAC pkiID m)"

definition getGossipChannelByMAC :: "(string \<Rightarrow> string) \<Rightarrow> ChannelState \<Rightarrow> bytes \<Rightarrow> bytes \<Rightarrow> GossipChannel option" where
  "getGossipChannelByMAC sha cs receivedMAC pkiID = by_MAC_loop sha receivedMAC pkiID (cst_Channels cs)"

definition LookupChannelForGossipMsg :: "(string \<Rightarrow> string) \<Rightarrow> ChannelState \<Rightarrow> GossipMessage \<Rightarrow> GossipChannel option" where
  "LookupChannelForGossipMsg sha cs msg =
     (case GetStateInfo msg of
        None \<Rightarrow> GetGossipChannelByChainID cs (gm_Channel msg)
      | Some stateInfMsg \<Rightarrow> getGossipChannelByMAC sha cs (si_Channel_MAC stateInfMsg) (si_PkiId stateInfMsg))"

text \<open>The outer \<open>None\<close> is the panic of a message without connection info.\<close>

definition LookupChannelForMsg :: "(string \<Rightarrow> string) \<Rightarrow> ChannelState \<Rightarrow> ReceivedMessage \<Rightarrow> GossipChannel option option" where
  "LookupChannelForMsg sha cs msg =
     (case GetStateInfoPullReq (sg_Msg (rm_msg msg)) of
        Some sipr \<Rightarrow> map_option (\<lambda>ci. getGossipChannelByMAC sha cs (sp_Channel_MAC sipr) (ci_ID ci)) (rm_ConnInfo msg)
      | None \<Rightarrow> Some (LookupChannelForGossipMsg sha cs (sg_Msg (rm_msg msg))))"

definition JoinChannel ::
  "GossipAdapter \<Rightarrow> (string \<Rightarrow> duration) \<Rightarrow> instant \<Rightarrow> instant \<Rightarrow> instant \<Rightarrow> bytes \<Rightarrow> bytes \<Rightarrow> JoinChanMsg \<Rightarrow> bytes \<Rightarrow> ChannelState \<Rightarrow>
   ChannelState option" where
  "JoinChannel ga config now now1 now2 pkiID selfOrg joinMsg chainID cs =
     (if cst_Stopping cs then Some cs
      else map_option (\<lambda>gc. cs\<lparr>cst_Channels := map_put (str_of chainID) gc (cst_Channels cs)\<rparr>)
        (case map_get (cst_Channels cs) (str_of chainID) of
           None \<Rightarrow> newGossipChannel ga config now now1 now2 pkiID selfOrg chainID joinMsg
         | Some gc \<Rightarrow> ConfigureChannel ga now1 now2 joinMsg gc))"

definition ChannelState_Stop :: "ChannelState \<Rightarrow> ChannelState" where
  "ChannelState_Stop cs =
     (if cst_Stopping cs then cs
      else cs\<lparr>cst_Stopping := True, cst_Channels := map (\<lambda>(k, gc). (k, chan_Stop gc)) (cst_Channels cs)\<rparr>)"

end
