(* ===== verification/ChannelProps.thy ===== *)
theory ChannelProps
  imports Channel PullProps
begin

text \<open>
  Properties of the channels. The cache of state infos keeps the newest state info of every peer
  in two tables that agree; every state info in it carries the MAC of the channel. Over every
  sequence of messages, joins, updates and expirations the invariant of a channel holds. Then what
  single operations do: who a message is handled for, the peers of the channel, joining with new
  organisations, snapshots, own state infos, and what an update with a bad item loses.
\<close>

declare map_of_eq_Some_iff [simp del] Some_eq_map_of_iff [simp del]

section \<open>The cache of state infos\<close>

lemma state_okE:
  assumes "state_ok s"
  obtains si t where "GetStateInfo (sg_Msg s) = Some si" "si_Timestamp si = Some t"
    "msg_peer s = str_of (si_PkiId si)" "msg_stamp s = t"
proof -
  from assms obtain k t where v: "view_of s = Some (VState k t)" by (auto simp: state_ok_def)
  then show ?thesis
    by (cases rule: view_of_cases) (auto intro!: that simp: v getter_defs newest_defs)
qed

lemma state_okI:
  "GetStateInfo (sg_Msg s) = Some si \<Longrightarrow> si_Timestamp si = Some t \<Longrightarrow>
   state_ok s \<and> msg_peer s = str_of (si_PkiId si) \<and> msg_stamp s = t"
  by (simp add: getter_Some_iff newest_defs view_of_def)

lemma state_key_peer: "state_ok m \<Longrightarrow> str_of (state_key m) = msg_peer m"
  by (erule state_okE) (simp add: state_key_def)

definition cache_ok :: "(SignedGossipMessage \<Rightarrow> bool) \<Rightarrow> stateInfoCache \<Rightarrow> bool" where
  "cache_ok G c \<longleftrightarrow>
     store_ok state_comparator state_ok (sic_store c) \<and> (\<forall>m\<in>set (datas (sic_store c)). G m) \<and>
     (\<forall>k m. map_get (sic_members c) k = Some m \<longleftrightarrow> m \<in> set (datas (sic_store c)) \<and> msg_peer m = k)"

lemma cache_okD:
  assumes "cache_ok G c"
  shows "store_ok state_comparator state_ok (sic_store c)"
    "m \<in> set (datas (sic_store c)) \<Longrightarrow> G m \<and> state_ok m"
    "map_get (sic_members c) k = Some m \<longleftrightarrow> m \<in> set (datas (sic_store c)) \<and> msg_peer m = k"
  using assms unfolding cache_ok_def store_ok_def by blast+

lemma cache_ok_cong:
  assumes "cache_ok G c" "sic_store c' = sic_store c" "map_get (sic_members c') = map_get (sic_members c)"
  shows "cache_ok G c'"
  using assms(1) unfolding cache_ok_def assms(2,3) .

text \<open>One message per peer: the members are the messages of the store by their peer.\<close>

lemma cache_member:
  assumes "cache_ok G c" "m \<in> set (datas (sic_store c))"
  shows "map_get (sic_members c) (msg_peer m) = Some m"
  using cache_okD(3) [OF assms(1)] assms(2) by blast

lemma forget_members:
  assumes "\<forall>m\<in>set ms. state_ok m"
  shows "\<exists>c'. foldM forget_member ms c = Some c' \<and>
    (\<forall>k. map_get c' k = (if k \<in> msg_peer ` set ms then None else map_get c k))"
  using assms
proof (induction ms arbitrary: c)
  case (Cons m ms)
  then obtain si t where si: "GetStateInfo (sg_Msg m) = Some si" "msg_peer m = str_of (si_PkiId si)"
    by (auto elim: state_okE)
  obtain c' where "foldM forget_member ms (MembershipStore_Remove (si_PkiId si) c) = Some c'"
    "\<forall>k. map_get c' k = (if k \<in> msg_peer ` set ms then None else map_get (MembershipStore_Remove (si_PkiId si) c) k)"
    using Cons.IH [of "MembershipStore_Remove (si_PkiId si) c"] Cons.prems by auto
  moreover have "forget_member m c = Some (MembershipStore_Remove (si_PkiId si) c)" by (simp add: forget_member_def si)
  ultimately show ?case using si(2) by (intro exI [of _ c']) (auto simp: MembershipStore_Remove_def)
qed simp

text \<open>Adding: the newest of each peer stays, and the members follow the store.\<close>

definition stale :: "SignedGossipMessage \<Rightarrow> stateInfoCache \<Rightarrow> bool" where
  "stale msg c \<longleftrightarrow> (\<exists>d\<in>set (datas (sic_store c)). msg_peer d = msg_peer msg \<and> msg_stamp msg \<le> msg_stamp d)"

lemma state_pol:
  assumes "state_ok x" "state_ok y"
  shows "state_comparator x y = Some (newer_wins (msg_peer x) (msg_stamp x) (msg_peer y) (msg_stamp y))"
  unfolding state_comparator_def using assms by (rule state_policy.pol_newest)

lemma store_stale:
  assumes "store_ok state_comparator state_ok s" "state_ok msg"
  shows "(\<forall>d\<in>set (datas s). state_comparator msg d \<noteq> Some MessageInvalidated) \<longleftrightarrow>
    \<not> (\<exists>d\<in>set (datas s). msg_peer d = msg_peer msg \<and> msg_stamp msg \<le> msg_stamp d)"
proof -
  have "state_comparator msg d = Some MessageInvalidated \<longleftrightarrow> msg_peer d = msg_peer msg \<and> msg_stamp msg \<le> msg_stamp d"
    if "d \<in> set (datas s)" for d
  proof -
    have "state_ok d" using assms(1) that by (simp add: store_ok_def)
    then show ?thesis using state_pol [OF assms(2), of d] by (auto simp: newer_wins_def)
  qed
  then show ?thesis by auto
qed

text \<open>A state info that is not stale replaces the one of its peer in the store, which goes to the trigger.\<close>

lemma state_add:
  assumes st: "store_ok state_comparator state_ok s0" and msg: "state_ok msg"
    and all: "\<forall>d\<in>set (datas s0). state_comparator msg d \<noteq> Some MessageInvalidated"
  obtains s trig where "MessageStore_Add state_comparator now msg s0 = Some (True, s, trig)" "store_ok state_comparator state_ok s"
    "datas s = filter (\<lambda>d. msg_peer d \<noteq> msg_peer msg) (datas s0) @ [msg]" "trig = filter (\<lambda>d. msg_peer d = msg_peer msg) (datas s0)"
proof -
  obtain b s trig where add: "MessageStore_Add state_comparator now msg s0 = Some (b, s, trig)"
    using state_policy.Add_total [of 0, folded state_comparator_def, OF st msg] by blast
  note data = state_policy.Add_datas [of 0, folded state_comparator_def, OF st msg add]
  have b: b using data all by simp
  have inv: "state_comparator msg d = Some MessageInvalidates \<longleftrightarrow> msg_peer d = msg_peer msg" if "d \<in> set (datas s0)" for d
  proof -
    have "state_ok d" using st that by (simp add: store_ok_def)
    with all that show ?thesis using state_pol [OF msg, of d] by (auto simp: newer_wins_def split: if_splits)
  qed
  show thesis
  proof (rule that)
    show "MessageStore_Add state_comparator now msg s0 = Some (True, s, trig)" using add b by simp
    show "store_ok state_comparator state_ok s"
      using state_policy.Add_store_ok [of 0, folded state_comparator_def, OF st msg add] .
  qed (use data b inv in \<open>auto intro!: filter_cong\<close>)
qed

lemma cache_add:
  assumes ok: "cache_ok G (gch_stateInfoMsgStore gc)" and msg: "state_ok msg"
  defines "c \<equiv> gch_stateInfoMsgStore gc"
  shows "stale msg c \<Longrightarrow> stateInfoCache_add ga now msg gc = Some (False, gc)"
    and "\<not> stale msg c \<Longrightarrow> verifyStateInfoMsg ga gc [] msg = Some False \<Longrightarrow>
      stateInfoCache_add ga now msg gc = Some (False, gc)"
    and "\<not> stale msg c \<Longrightarrow> verifyStateInfoMsg ga gc [] msg = Some True \<Longrightarrow>
      \<exists>c'. stateInfoCache_add ga now msg gc = Some (True, gc\<lparr>gch_stateInfoMsgStore := c'\<rparr>) \<and>
        (G msg \<longrightarrow> cache_ok G c') \<and>
        datas (sic_store c') = filter (\<lambda>d. msg_peer d \<noteq> msg_peer msg) (datas (sic_store c)) @ [msg] \<and>
        map_get (sic_members c') = (map_get (sic_members c))(msg_peer msg \<mapsto> msg)"
proof -
  have st: "store_ok state_comparator state_ok (sic_store c)" using cache_okD(1) [OF ok] by (simp add: c_def)
  note check = state_policy.CheckValid_eq [of 0, folded state_comparator_def, OF st msg]
  have valid: "MessageStore_CheckValid state_comparator msg (sic_store c) = Some (\<not> stale msg c)"
    using check store_stale [OF st msg] by (simp add: stale_def)
  then show "stale msg c \<Longrightarrow> stateInfoCache_add ga now msg gc = Some (False, gc)"
    and "\<not> stale msg c \<Longrightarrow> verifyStateInfoMsg ga gc [] msg = Some False \<Longrightarrow>
      stateInfoCache_add ga now msg gc = Some (False, gc)"
    by (simp_all add: stateInfoCache_add_def Let_def c_def [symmetric])
  assume fresh: "\<not> stale msg c" and v: "verifyStateInfoMsg ga gc [] msg = Some True"
  have "\<forall>d\<in>set (datas (sic_store c)). state_comparator msg d \<noteq> Some MessageInvalidated"
    using fresh store_stale [OF st msg] by (simp add: stale_def)
  from state_add [OF st msg this, of now] obtain s trig where
    add: "MessageStore_Add state_comparator now msg (sic_store c) = Some (True, s, trig)" and s: "store_ok state_comparator state_ok s"
    and d: "datas s = filter (\<lambda>d. msg_peer d \<noteq> msg_peer msg) (datas (sic_store c)) @ [msg]"
      "trig = filter (\<lambda>d. msg_peer d = msg_peer msg) (datas (sic_store c))" by blast
  have "\<forall>m\<in>set trig. state_ok m" using d(2) st by (auto simp: store_ok_def)
  from forget_members [OF this, of "sic_members c"] obtain ms where ms: "foldM forget_member trig (sic_members c) = Some ms"
    "\<And>k. map_get ms k = (if k \<in> msg_peer ` set trig then None else map_get (sic_members c) k)" by blast
  obtain si where si: "GetStateInfo (sg_Msg msg) = Some si" "msg_peer msg = str_of (si_PkiId si)"
    using msg by (auto elim: state_okE)
  let ?c' = "\<lparr>sic_members = MembershipStore_Put (si_PkiId si) msg ms, sic_store = s\<rparr>"
  have "stateInfoCache_add ga now msg gc = Some (True, gc\<lparr>gch_stateInfoMsgStore := ?c'\<rparr>)"
    using valid fresh v add ms(1) si(1) by (simp add: stateInfoCache_add_def Let_def c_def [symmetric])
  moreover have mem: "map_get (sic_members ?c') = (map_get (sic_members c))(msg_peer msg \<mapsto> msg)"
    using ms(2) by (auto simp: MembershipStore_Put_def si(2) [symmetric] fun_eq_iff d(2))
  moreover have "cache_ok G ?c'" if G: "G msg"
  proof -
    have "map_get (sic_members ?c') k = Some m \<longleftrightarrow> m \<in> set (datas s) \<and> msg_peer m = k" for k m
      unfolding mem d using cache_okD(3) [OF ok, folded c_def, of k m] by auto
    moreover have "\<forall>m\<in>set (datas s). G m" using d cache_okD(2) [OF ok, folded c_def] G by auto
    ultimately show ?thesis using s by (simp add: cache_ok_def)
  qed
  ultimately show "\<exists>c'. stateInfoCache_add ga now msg gc = Some (True, gc\<lparr>gch_stateInfoMsgStore := c'\<rparr>) \<and>
        (G msg \<longrightarrow> cache_ok G c') \<and>
        datas (sic_store c') = filter (\<lambda>d. msg_peer d \<noteq> msg_peer msg) (datas (sic_store c)) @ [msg] \<and>
        map_get (sic_members c') = (map_get (sic_members c))(msg_peer msg \<mapsto> msg)"
    using d(1) mem by (intro exI [of _ ?c'] conjI impI) (simp_all only: stateInfoCache.simps)
qed

text \<open>Whatever happens, an addition keeps the cache and touches nothing else of the channel.\<close>

lemma cache_add_ok:
  assumes "stateInfoCache_add ga now msg gc = Some (b, gc')" "cache_ok G (gch_stateInfoMsgStore gc)" "state_ok msg" "G msg"
  shows "\<exists>c'. gc' = gc\<lparr>gch_stateInfoMsgStore := c'\<rparr> \<and> cache_ok G c' \<and>
    set (datas (sic_store c')) \<subseteq> insert msg (set (datas (sic_store (gch_stateInfoMsgStore gc)))) \<and>
    (b \<longrightarrow> verifyStateInfoMsg ga gc [] msg = Some True)"
proof (cases "stale msg (gch_stateInfoMsgStore gc)")
  case True
  with cache_add(1) [OF assms(2,3)] assms(1,2) show ?thesis
    by (intro exI [of _ "gch_stateInfoMsgStore gc"]) (auto simp: subset_insertI)
next
  case False
  have "MessageStore_CheckValid state_comparator msg (sic_store (gch_stateInfoMsgStore gc)) = Some True"
    using state_policy.CheckValid_eq [of 0, folded state_comparator_def, OF cache_okD(1) [OF assms(2)] assms(3)]
      store_stale [OF cache_okD(1) [OF assms(2)] assms(3)] False by (simp add: stale_def)
  note valid = this
  show ?thesis
  proof (cases "verifyStateInfoMsg ga gc [] msg")
    case None
    with valid have "stateInfoCache_add ga now msg gc = None" by (simp add: stateInfoCache_add_def Let_def)
    with assms(1) show ?thesis by simp
  next
    case (Some v)
    then show ?thesis
    proof (cases v)
      case True
      with Some have "verifyStateInfoMsg ga gc [] msg = Some True" by simp
      then obtain c' where c': "stateInfoCache_add ga now msg gc = Some (True, gc\<lparr>gch_stateInfoMsgStore := c'\<rparr>)"
        "G msg \<longrightarrow> cache_ok G c'"
        "datas (sic_store c') = filter (\<lambda>d. msg_peer d \<noteq> msg_peer msg) (datas (sic_store (gch_stateInfoMsgStore gc))) @ [msg]"
        using cache_add(3) [OF assms(2,3) False, of ga now] by blast
      with Some True assms(1,4) show ?thesis by (intro exI [of _ c']) auto
    next
      case v: False
      with Some cache_add(2) [OF assms(2,3) False] assms(1,2) show ?thesis
        by (intro exI [of _ "gch_stateInfoMsgStore gc"]) (auto simp: subset_insertI)
    qed
  qed
qed

text \<open>A purge takes the purged out of both tables.\<close>

lemma cache_purge_ok:
  assumes "cache_ok G c"
  shows "\<exists>c'. cache_purge P c = Some c' \<and> cache_ok G c' \<and>
    datas (sic_store c') = filter (\<lambda>m. \<not> P m) (datas (sic_store c))"
proof -
  let ?s = "fst (MessageStore_Purge P (sic_store c))" and ?trig = "filter P (datas (sic_store c))"
  have p: "MessageStore_Purge P (sic_store c) = (?s, ?trig)" by (simp add: Purge_eq)
  have d: "datas ?s = filter (\<lambda>m. \<not> P m) (datas (sic_store c))" by (simp add: Purge_eq datas_def filter_map comp_def)
  have "\<forall>m\<in>set ?trig. state_ok m" using cache_okD(2) [OF assms] by auto
  from forget_members [OF this, of "sic_members c"] obtain ms where ms: "foldM forget_member ?trig (sic_members c) = Some ms"
    "\<And>k. map_get ms k = (if k \<in> msg_peer ` set ?trig then None else map_get (sic_members c) k)" by blast
  have "cache_ok G \<lparr>sic_members = ms, sic_store = ?s\<rparr>"
  proof -
    have "store_ok state_comparator state_ok ?s" by (rule Purge_store_ok [OF cache_okD(1) [OF assms]])
    moreover have "map_get ms k = Some m \<longleftrightarrow> m \<in> set (datas ?s) \<and> msg_peer m = k" for k m
    proof -
      have "m = m'" if "m \<in> set (datas (sic_store c))" "m' \<in> set (datas (sic_store c))" "msg_peer m = msg_peer m'" for m m'
        using cache_member [OF assms that(1)] cache_member [OF assms that(2)] that(3) by (metis option.inject)
      note uniq = this
      have mem: "k \<in> msg_peer ` set ?trig \<longleftrightarrow> P m" if "m \<in> set (datas (sic_store c))" "msg_peer m = k"
      proof
        assume "k \<in> msg_peer ` set ?trig"
        then obtain m' where "m' \<in> set (datas (sic_store c))" "P m'" "msg_peer m' = k" by auto
        with uniq [OF that(1) this(1)] that(2) show "P m" by simp
      next
        assume "P m"
        with that show "k \<in> msg_peer ` set ?trig" by auto
      qed
      show ?thesis
      proof (cases "m \<in> set (datas (sic_store c)) \<and> msg_peer m = k")
        case True
        then show ?thesis using mem cache_okD(3) [OF assms, of k m] unfolding ms(2) d by simp
      next
        case False
        then show ?thesis using cache_okD(3) [OF assms, of k m] by (simp add: ms(2) d) blast
      qed
    qed
    ultimately show ?thesis using cache_okD(2) [OF assms] by (simp add: cache_ok_def d)
  qed
  moreover have "cache_purge P c = Some \<lparr>sic_members = ms, sic_store = ?s\<rparr>"
    unfolding cache_purge_def by (subst p) (simp add: ms(1))
  ultimately show ?thesis using d by (intro exI [of _ "\<lparr>sic_members = ms, sic_store = ?s\<rparr>"]) simp
qed

section \<open>The invariant of a channel\<close>

definition mac_good :: "(string \<Rightarrow> string) \<Rightarrow> bytes \<Rightarrow> SignedGossipMessage \<Rightarrow> bool" where
  "mac_good sha chainID m \<longleftrightarrow>
     (\<exists>si. GetStateInfo (sg_Msg m) = Some si \<and> bytes_eq (si_Channel_MAC si) (GenerateMAC sha (si_PkiId si) chainID))"

text \<open>
  The cache is well-formed and its state infos are of this channel, every stored block has a
  payload, every stored leadership message a time, the own state info has properties to be updated, and
  the puller of blocks is in a state its handlers reach.
\<close>

definition chan_inv :: "(string \<Rightarrow> string) \<Rightarrow> GossipChannel \<Rightarrow> bool" where
  "chan_inv sha gc \<longleftrightarrow>
     cache_ok (mac_good sha (gch_chainID gc)) (gch_stateInfoMsgStore gc) \<and>
     (\<forall>b\<in>set (datas (gch_blockMsgStore gc)). block_seqNum b \<noteq> None) \<and> prev_properties gc \<noteq> None \<and>
     (\<forall>m\<in>set (datas (gch_leaderMsgStore gc)). leader_ok m) \<and> pull_ok (gch_blocksPuller gc)"

text \<open>What an operation keeps: the identity of the channel and, once left, that it was left.\<close>

definition same_chan :: "GossipChannel \<Rightarrow> GossipChannel \<Rightarrow> bool" where
  "same_chan gc gc' \<longleftrightarrow> gch_chainID gc' = gch_chainID gc \<and> gch_pkiID gc' = gch_pkiID gc \<and>
     gch_selfOrg gc' = gch_selfOrg gc \<and> gch_incTime gc' = gch_incTime gc \<and> (gch_leftChannel gc \<longrightarrow> gch_leftChannel gc')"

definition keeps :: "(string \<Rightarrow> string) \<Rightarrow> GossipChannel \<Rightarrow> GossipChannel \<Rightarrow> bool" where
  "keeps sha gc gc' \<longleftrightarrow> (chan_inv sha gc \<longrightarrow> chan_inv sha gc' \<and> same_chan gc gc')"

lemma same_chan_refl [simp]: "same_chan gc gc"
  by (simp add: same_chan_def)

lemma same_chan_trans: "same_chan a b \<Longrightarrow> same_chan b c \<Longrightarrow> same_chan a c"
  by (simp add: same_chan_def)

lemma keeps_refl [simp]: "keeps sha gc gc"
  by (simp add: keeps_def)

lemma keeps_trans: "keeps sha a b \<Longrightarrow> keeps sha b c \<Longrightarrow> keeps sha a c"
  unfolding keeps_def by (blast intro: same_chan_trans)

text \<open>Changing only other fields.\<close>

lemma keeps_other:
  assumes "gch_stateInfoMsgStore gc' = gch_stateInfoMsgStore gc" "gch_stateInfoMsg gc' = gch_stateInfoMsg gc"
    "set (datas (gch_blockMsgStore gc')) \<subseteq> set (datas (gch_blockMsgStore gc))" "same_chan gc gc'"
    "set (datas (gch_leaderMsgStore gc')) \<subseteq> set (datas (gch_leaderMsgStore gc))"
    "pull_ok (gch_blocksPuller gc) \<Longrightarrow> pull_ok (gch_blocksPuller gc')"
  shows "keeps sha gc gc'"
  using assms by (auto simp: keeps_def chan_inv_def prev_properties_def same_chan_def)

lemma keeps_cache:
  assumes "chan_inv sha gc \<Longrightarrow> cache_ok (mac_good sha (gch_chainID gc)) c"
  shows "keeps sha gc (gc\<lparr>gch_stateInfoMsgStore := c\<rparr>)"
  using assms by (simp add: keeps_def chan_inv_def prev_properties_def same_chan_def)

lemma keeps_cache_add:
  assumes "stateInfoCache_add ga now msg gc = Some (b, gc')" "state_ok msg" "mac_good sha (gch_chainID gc) msg"
  shows "keeps sha gc gc'"
proof (cases "chan_inv sha gc")
  case True
  then have "cache_ok (mac_good sha (gch_chainID gc)) (gch_stateInfoMsgStore gc)" by (simp add: chan_inv_def)
  from cache_add_ok [OF assms(1) this assms(2,3)] show ?thesis by (auto intro: keeps_cache)
qed (simp add: keeps_def)

section \<open>Blocks\<close>

lemma add_loop_subset: "add_loop pol x i ms trig = Some (b, ms', trig') \<Longrightarrow> set ms' \<subseteq> set ms"
proof (induction pol x i ms trig rule: add_loop.induct)
  case (1 pol x i ms trig)
  have cut: "set (take i ms @ drop (Suc i) ms) \<subseteq> set ms" by (auto dest: in_set_takeD in_set_dropD)
  show ?case
  proof (cases "i < length ms")
    case True
    then show ?thesis using 1 cut by (subst (asm) (3) add_loop.simps) (auto split: option.splits InvalidationResult.splits)
  next
    case False
    then show ?thesis using 1(3) by (subst (asm) add_loop.simps) simp
  qed
qed

lemma Add_datas_subset:
  assumes "MessageStore_Add pol now x s = Some (b, s', trig)"
  shows "set (datas s') \<subseteq> insert x (set (datas s))"
proof -
  obtain b' ms' trig' where l: "add_loop pol x 0 (ms_messages s) [] = Some (b', ms', trig')"
    using assms by (auto simp: MessageStore_Add_def split: option.splits prod.splits)
  then have "set ms' \<subseteq> set (ms_messages s)" by (rule add_loop_subset)
  then show ?thesis using assms l by (auto simp: MessageStore_Add_def datas_def split: bool.splits) blast
qed

lemma blocks_removed_ok: "foldM block_removed ms p = Some p' \<Longrightarrow> pull_ok p \<Longrightarrow> pull_ok p'"
  by (erule foldM_inv [where I = pull_ok]) (auto simp: block_removed_def PullMediator_Remove_ok)

lemma block_add_keeps:
  assumes "blockMsgStore_Add ga now msg gc = Some (b, gc')" "block_seqNum msg \<noteq> None"
  shows "keeps sha gc gc' \<and> gch_stateInfoMsgStore gc' = gch_stateInfoMsgStore gc"
proof -
  obtain store trig puller where f: "MessageStore_Add (block_comparator ga) now msg (gch_blockMsgStore gc) = Some (b, store, trig)"
    "gc' = gc\<lparr>gch_blockMsgStore := store, gch_blocksPuller := puller\<rparr>" "foldM block_removed trig (gch_blocksPuller gc) = Some puller"
    using assms(1) by (auto simp: blockMsgStore_Add_def bind_eq_Some_conv)
  have "set (datas store) \<subseteq> insert msg (set (datas (gch_blockMsgStore gc)))" by (rule Add_datas_subset [OF f(1)])
  then show ?thesis using assms(2) blocks_removed_ok [OF f(3)]
    by (auto simp: f(2) keeps_def chan_inv_def prev_properties_def same_chan_def)
qed

lemma verifyBlock_seqNum: "verifyBlock (sg_Msg m) \<Longrightarrow> block_seqNum m \<noteq> None"
  by (auto simp: verifyBlock_def block_seqNum_def split: option.splits)

lemma puller_add_keeps: "keeps sha gc (puller_add msg gc)"
  by (rule keeps_other) (simp_all add: puller_add_def same_chan_def PullMediator_Add_ok)

lemma puller_handle_keeps: "puller_handle ga msg gc = Some (gc', outs) \<Longrightarrow> keeps sha gc gc'"
  by (rule keeps_other) (auto simp: puller_handle_def same_chan_def HandleMessage_ok)

lemma update_blocks_keeps:
  "update_blocks ga now m items filtered gc = Some (ok, fs, gc') \<Longrightarrow> keeps sha gc gc'"
proof (induction items arbitrary: filtered gc)
  case (Cons item items)
  then show ?case
  proof (cases item)
    case (Some e)
    show ?thesis
    proof (cases "ToGossipMessage (ga_codec ga) e")
      case (Inr g)
      show ?thesis
      proof (cases "bytes_eq (gm_Channel (sg_Msg g)) (gch_chainID gc) \<and>
          MessageStore_CheckValid (block_comparator ga) m (gch_blockMsgStore gc) = Some True \<and> verifyBlock (sg_Msg g)")
        case True
        then obtain added gc1 where 1: "blockMsgStore_Add ga now g gc = Some (added, gc1)"
          "update_blocks ga now m items (if added then filtered @ [item] else filtered) gc1 = Some (ok, fs, gc')"
          using Cons.prems Some Inr by (auto simp: bind_eq_Some_conv)
        have "keeps sha gc gc1" using block_add_keeps [OF 1(1) verifyBlock_seqNum] True by blast
        with Cons.IH [OF 1(2)] show ?thesis by (rule keeps_trans [rotated])
      next
        case False
        then have "gc' = gc" using Cons.prems Some Inr by (auto simp: bind_eq_Some_conv split: if_splits)
        then show ?thesis by simp
      qed
    qed (use Cons Some in auto)
  qed simp
qed simp

section \<open>Every operation keeps the invariant\<close>

text \<open>
  What the comparator needs: a state info and a leadership message with a time. A snapshot is checked envelope by
  envelope.
\<close>

definition timed_state :: "SignedGossipMessage \<Rightarrow> bool" where
  "timed_state m \<longleftrightarrow> (\<forall>si. GetStateInfo (sg_Msg m) = Some si \<longrightarrow> si_Timestamp si \<noteq> None)"

definition timed_leader :: "SignedGossipMessage \<Rightarrow> bool" where
  "timed_leader m \<longleftrightarrow> (\<forall>lm. GetLeadershipMsg (sg_Msg m) = Some lm \<longrightarrow> lm_Timestamp lm \<noteq> None)"

definition timed_msg :: "GossipAdapter \<Rightarrow> SignedGossipMessage \<Rightarrow> bool" where
  "timed_msg ga m \<longleftrightarrow> timed_state m \<and> timed_leader m \<and>
     (\<forall>ss e r. GetStateSnapshot (sg_Msg m) = Some ss \<longrightarrow> Some e \<in> set (ss_Elements ss) \<longrightarrow>
        ToGossipMessage (ga_codec ga) e = Inr r \<longrightarrow> timed_state r)"

lemma timed_state_ok: "timed_state m \<Longrightarrow> GetStateInfo (sg_Msg m) = Some si \<Longrightarrow> state_ok m"
  using state_okI by (auto simp: timed_state_def)

lemma timed_leader_ok: "timed_leader m \<Longrightarrow> GetLeadershipMsg (sg_Msg m) \<noteq> None \<Longrightarrow> leader_ok m"
  by (auto simp: timed_leader_def getter_Some_iff newest_defs view_of_def)

lemma leadership_keeps:
  assumes "handle_leadership now m (gc, outs) = Some (gc', outs')" "timed_leader m"
  shows "keeps sha gc gc'"
proof (cases "GetLeadershipMsg (sg_Msg m) = None")
  case True
  then show ?thesis using assms(1) by (simp add: handle_leadership_def)
next
  case False
  then obtain b store tr where 1: "MessageStore_Add (NewGossipMessageComparator 0) now m (gch_leaderMsgStore gc) = Some (b, store, tr)"
    "gc' = gc\<lparr>gch_leaderMsgStore := store\<rparr>"
    using assms(1) by (auto simp: handle_leadership_def bind_eq_Some_conv)
  have "leader_ok m" using timed_leader_ok [OF assms(2) False] .
  then show ?thesis using Add_datas_subset [OF 1(1)]
    by (auto simp: 1(2) keeps_def chan_inv_def prev_properties_def same_chan_def)
qed

lemma snapshot_keeps:
  assumes "snapshot_loop ga now es gc = Some gc'"
    and "\<And>e r. Some e \<in> set es \<Longrightarrow> ToGossipMessage (ga_codec ga) e = Inr r \<Longrightarrow> timed_state r"
  shows "keeps (ga_sha ga) gc gc'"
  using assms
proof (induction es arbitrary: gc)
  case (Cons x es)
  have rest: "snapshot_loop ga now es g = Some gc' \<Longrightarrow> keeps (ga_sha ga) g gc'" for g
    by (rule Cons.IH) (use Cons.prems(2) in auto)
  show ?case
  proof (cases "\<exists>e m si. x = Some e \<and> ToGossipMessage (ga_codec ga) e = Inr m \<and> GetStateInfo (sg_Msg m) = Some si")
    case True
    then obtain e m si where x: "x = Some e" "ToGossipMessage (ga_codec ga) e = Inr m" "GetStateInfo (sg_Msg m) = Some si" by blast
    have "timed_state m" using Cons.prems(2) [of e m] x(1,2) by simp
    then have ok: "state_ok m" using x(3) by (rule timed_state_ok)
    let ?org = "ga_GetOrgOfPeer ga (si_PkiId si)"
    show ?thesis
    proof (cases "?org = None \<or> \<not> IsOrgInChannel gc ?org \<or>
        \<not> bytes_eq (si_Channel_MAC si) (stateInfo_MAC ga gc (si_PkiId si)) \<or> ga_ValidateStateInfoMsg ga m \<noteq> None")
      case True
      then have "gc' = gc" using Cons.prems(1) x by (auto simp: Let_def split: if_splits)
      then show ?thesis by simp
    next
      case False
      show ?thesis
      proof (cases "ga_Lookup ga (si_PkiId si)")
        case None
        with False have "snapshot_loop ga now es gc = Some gc'" using Cons.prems(1) x by (auto simp: Let_def split: if_splits)
        then show ?thesis by (rule rest)
      next
        case (Some p)
        then obtain b gc1 where 1: "stateInfoCache_add ga now m gc = Some (b, gc1)" "snapshot_loop ga now es gc1 = Some gc'"
          using Cons.prems(1) x False by (auto simp: Let_def bind_eq_Some_conv)
        have "mac_good (ga_sha ga) (gch_chainID gc) m" using x(3) False by (auto simp: mac_good_def stateInfo_MAC_def)
        with ok have "keeps (ga_sha ga) gc gc1" by (rule keeps_cache_add [OF 1(1)])
        then show ?thesis using rest [OF 1(2)] by (rule keeps_trans)
      qed
    qed
  next
    case False
    then have "gc' = gc" using Cons.prems(1) by (cases x) (auto split: sum.splits option.splits)
    then show ?thesis by simp
  qed
qed simp

lemma own_state:
  assumes "GossipAdapter_Sign c (own_state_msg ga gc now h cc left) = Inr msg"
  shows "state_ok msg \<and> mac_good (ga_sha ga) (gch_chainID gc) msg \<and> msg_peer msg = str_of (gch_pkiID gc) \<and>
    msg_stamp msg = PeerTime (gch_incTime gc) (unix_nano now) \<and> verifyStateInfoMsg ga gc orgs msg = Some True \<and>
    sg_Msg msg = own_state_msg ga gc now h cc left \<and> sg_Envelope msg \<noteq> None"
proof -
  have m: "sg_Msg msg = own_state_msg ga gc now h cc left" "sg_Envelope msg \<noteq> None"
    using assms by (auto simp: GossipAdapter_Sign_def split: sum.splits prod.splits)
  define si where "si = \<lparr>si_Timestamp = Some (PeerTime (gch_incTime gc) (unix_nano now)), si_PkiId = gch_pkiID gc,
    si_Channel_MAC = stateInfo_MAC ga gc (gch_pkiID gc),
    si_Properties = Some \<lparr>pr_LedgerHeight = h, pr_LeftChannel = left, pr_Chaincodes = cc\<rparr>\<rparr>"
  have si: "GetStateInfo (sg_Msg msg) = Some si" "si_Timestamp si = Some (PeerTime (gch_incTime gc) (unix_nano now))"
    "si_PkiId si = gch_pkiID gc" "si_Channel_MAC si = stateInfo_MAC ga gc (gch_pkiID gc)"
    by (simp_all add: m(1) own_state_msg_def getter_defs si_def)
  have "mac_good (ga_sha ga) (gch_chainID gc) msg" "verifyStateInfoMsg ga gc orgs msg = Some True"
    using si by (simp_all add: mac_good_def stateInfo_MAC_def verifyStateInfoMsg_def bytes_eq_def)
  with state_okI [OF si(1,2)] m si(3) show ?thesis by simp
qed

lemma updateProperties_keeps:
  assumes "updateProperties ga now h cc left gc = Some gc'"
  shows "keeps (ga_sha ga) gc gc'"
proof (cases "GossipAdapter_Sign (ga_codec ga) (own_state_msg ga gc now h cc left)")
  case (Inl err)
  with assms show ?thesis by (simp add: updateProperties_def)
next
  case (Inr msg)
  note own = own_state [OF Inr]
  obtain b gc1 where 1: "stateInfoCache_add ga now msg gc = Some (b, gc1)"
    "gc' = gc1\<lparr>gch_ledgerHeight := h, gch_stateInfoMsg := Some msg, gch_shouldGossipStateInfo := True\<rparr>"
    using assms by (auto simp: updateProperties_def Inr)
  have "keeps (ga_sha ga) gc gc1" by (rule keeps_cache_add [OF 1(1)]) (use own in auto)
  moreover have "prev_properties gc' \<noteq> None"
    using own by (simp add: prev_properties_def 1(2) own_state_msg_def getter_defs)
  ultimately have "chan_inv (ga_sha ga) gc1 \<Longrightarrow> chan_inv (ga_sha ga) gc'" by (simp add: chan_inv_def 1(2))
  with \<open>keeps (ga_sha ga) gc gc1\<close> show ?thesis by (simp add: keeps_def same_chan_def 1(2))
qed

lemma configure_keeps: "configure_loop ga peers msgs gc = Some gc' \<Longrightarrow> keeps sha gc gc'"
proof (induction msgs arbitrary: gc)
  case (Cons msg msgs)
  then obtain ok gc1 where 1: "configure_loop ga peers msgs gc1 = Some gc'"
    "(if ok then Some gc
      else do {
        cache \<leftarrow> cache_purge (\<lambda>other. bytes_eq (state_key other) (state_key msg)) (gch_stateInfoMsgStore gc);
        Some (gc\<lparr>gch_stateInfoMsgStore := cache\<lparr>sic_members :=
          MembershipStore_Remove (state_key msg) (sic_members cache)\<rparr>\<rparr>)
      }) = Some gc1"
    by (auto simp: bind_eq_Some_conv simp del: bind_assoc)
  have "keeps sha gc gc1"
  proof (cases ok)
    case False
    let ?P = "\<lambda>other. bytes_eq (state_key other) (state_key msg)"
    obtain c where c: "cache_purge ?P (gch_stateInfoMsgStore gc) = Some c"
      "gc1 = gc\<lparr>gch_stateInfoMsgStore := c\<lparr>sic_members := MembershipStore_Remove (state_key msg) (sic_members c)\<rparr>\<rparr>"
      using 1(2) False by (auto simp: bind_eq_Some_conv)
    show ?thesis unfolding c(2)
    proof (rule keeps_cache)
      assume "chan_inv sha gc"
      then have ok: "cache_ok (mac_good sha (gch_chainID gc)) (gch_stateInfoMsgStore gc)" by (simp add: chan_inv_def)
      from cache_purge_ok [OF ok, of ?P] c(1) have d: "cache_ok (mac_good sha (gch_chainID gc)) c"
        "datas (sic_store c) = filter (\<lambda>m. \<not> ?P m) (datas (sic_store (gch_stateInfoMsgStore gc)))" by auto
      have "map_get (sic_members c) (str_of (state_key msg)) = None"
      proof (rule ccontr)
        assume "map_get (sic_members c) (str_of (state_key msg)) \<noteq> None"
        then obtain m where "m \<in> set (datas (sic_store c))" "msg_peer m = str_of (state_key msg)"
          using cache_okD(3) [OF d(1)] by blast
        moreover from this have "str_of (state_key m) = msg_peer m" using cache_okD(2) [OF d(1)] state_key_peer by blast
        ultimately show False by (auto simp: d(2) bytes_eq_def)
      qed
      then have "(map_get (sic_members c))(str_of (state_key msg) := None) = map_get (sic_members c)" by (rule fun_upd_idem)
      then show "cache_ok (mac_good sha (gch_chainID gc)) (c\<lparr>sic_members := MembershipStore_Remove (state_key msg) (sic_members c)\<rparr>)"
        by (intro cache_ok_cong [OF d(1)]) (simp_all add: MembershipStore_Remove_def)
    qed
  qed (use 1(2) in simp)
  then show ?case using Cons.IH [OF 1(1)] by (rule keeps_trans)
qed simp

lemma Configure_keeps: "ConfigureChannel ga now1 now2 joinMsg gc = Some gc' \<Longrightarrow> keeps sha gc gc'"
proof -
  assume c: "ConfigureChannel ga now1 now2 joinMsg gc = Some gc'"
  have other: "keeps sha gc (gc\<lparr>gch_joinMsg := j\<rparr>)" "keeps sha gc (gc\<lparr>gch_orgs := os, gch_joinMsg := j\<rparr>)" for j os
    by (rule keeps_other; simp add: same_chan_def)+
  show ?thesis using c
    by (auto simp: ConfigureChannel_def Let_def other split: if_splits dest!: configure_keeps [of _ _ _ _ _ sha] intro: keeps_trans [OF other(2)])
qed

lemma sweep_keeps: "cache_sweep ga gc = Some gc' \<Longrightarrow> keeps sha gc gc'"
proof -
  assume "cache_sweep ga gc = Some gc'"
  then obtain c where c: "cache_purge (\<lambda>m. ga_Lookup ga (state_key m) = None) (gch_stateInfoMsgStore gc) = Some c"
    "gc' = gc\<lparr>gch_stateInfoMsgStore := c\<rparr>" by (auto simp: cache_sweep_def)
  show ?thesis unfolding c(2)
  proof (rule keeps_cache)
    assume "chan_inv sha gc"
    then have "cache_ok (mac_good sha (gch_chainID gc)) (gch_stateInfoMsgStore gc)" by (simp add: chan_inv_def)
    from cache_purge_ok [OF this, of "\<lambda>m. ga_Lookup ga (state_key m) = None"] c(1)
    show "cache_ok (mac_good sha (gch_chainID gc)) c" by auto
  qed
qed

lemma tick_keeps_chan: "block_expirationTick now gc = Some gc' \<Longrightarrow> keeps sha gc gc'"
proof -
  assume "block_expirationTick now gc = Some gc'"
  then obtain p ms where "gc' = gc\<lparr>gch_blockMsgStore := fst (expirationTick now (gch_blockMsgStore gc)), gch_blocksPuller := p\<rparr>"
    "foldM block_removed ms (gch_blocksPuller gc) = Some p"
    by (auto simp: block_expirationTick_def split: prod.splits)
  moreover have "set (datas (fst (expirationTick now (gch_blockMsgStore gc)))) \<subseteq> set (datas (gch_blockMsgStore gc))"
    unfolding tick_datas by (auto simp: datas_def)
  ultimately show ?thesis by (intro keeps_other) (simp_all add: same_chan_def blocks_removed_ok)
qed

lemma handle_data_keeps:
  assumes "handle_data ga now msg gc = Some (gc', outs)" "timed_state (rm_msg msg)"
    and "GetDataMsg (sg_Msg (rm_msg msg)) \<noteq> None \<or> GetStateInfo (sg_Msg (rm_msg msg)) \<noteq> None"
    and "\<And>si. GetStateInfo (sg_Msg (rm_msg msg)) = Some si \<Longrightarrow> bytes_eq (stateInfo_MAC ga gc (si_PkiId si)) (si_Channel_MAC si)"
  shows "keeps (ga_sha ga) gc gc'"
proof (cases "GetDataMsg (sg_Msg (rm_msg msg))")
  case None
  then obtain si where si: "GetStateInfo (sg_Msg (rm_msg msg)) = Some si" using assms(3) by auto
  obtain b where "stateInfoCache_add ga now (rm_msg msg) gc = Some (b, gc')"
    using assms(1) None by (auto simp: handle_data_def Let_def bind_eq_Some_conv split: if_splits)
  then show ?thesis
    by (rule keeps_cache_add) (use timed_state_ok [OF assms(2) si] assms(4) [OF si] si in \<open>auto simp: mac_good_def stateInfo_MAC_def bytes_eq_def\<close>)
next
  case (Some d)
  show ?thesis
  proof (cases "gc' = gc")
    case False
    then obtain b gc1 where 1: "blockMsgStore_Add ga now (rm_msg msg) gc = Some (b, gc1)"
      "gc' = gc1 \<or> gc' = puller_add (rm_msg msg) gc1" "verifyBlock (sg_Msg (rm_msg msg))"
      using assms(1) Some by (auto simp: handle_data_def Let_def bind_eq_Some_conv split: if_splits)
    have "keeps (ga_sha ga) gc gc1" using block_add_keeps [OF 1(1) verifyBlock_seqNum [OF 1(3)]] by blast
    then show ?thesis using 1(2) by (auto intro: keeps_trans puller_add_keeps)
  qed simp
qed

lemma handle_block_pull_keeps: "handle_block_pull ga now msg sender gc = Some (gc', outs) \<Longrightarrow> keeps sha gc gc'"
  by (auto simp: handle_block_pull_def bind_eq_Some_conv split: if_splits option.splits
      intro: puller_handle_keeps keeps_trans [OF update_blocks_keeps puller_handle_keeps] update_blocks_keeps)

lemma HandleMessage_keeps:
  assumes "chan_HandleMessage ga now msg gc = Some (gc', outs)" "timed_msg ga (rm_msg msg)"
  shows "keeps (ga_sha ga) gc gc'"
proof (cases "gc' = gc")
  case False
  let ?m = "sg_Msg (rm_msg msg)"
  obtain ci where ci: "rm_ConnInfo msg = Some ci" "verifyMsg ga gc msg = Some True"
    "(if GetStateInfoPullReq ?m \<noteq> None
           then map_option (\<lambda>snapshot. (gc, [Ch_Respond msg snapshot])) (createStateInfoSnapshot ga gc (ga_GetOrgOfPeer ga (ci_ID ci)))
         else if GetStateSnapshot ?m \<noteq> None
           then map_option (\<lambda>gc1. (gc1, [])) (handleStateInfoSnapshot ga now ?m gc)
         else if GetDataMsg ?m \<noteq> None \<or> GetStateInfo ?m \<noteq> None then handle_data ga now msg gc
         else if IsPullMsg ?m \<and> GetPullMsgType ?m = PullMsgType_BLOCK_MSG then handle_block_pull ga now msg (ci_ID ci) gc
         else handle_leadership now (rm_msg msg) (gc, [])) = Some (gc', outs)"
    using assms(1) False by (auto simp: chan_HandleMessage_def Let_def bind_eq_Some_conv split: if_splits)
  consider (pull) "GetStateInfoPullReq ?m \<noteq> None" | (snap) "handleStateInfoSnapshot ga now ?m gc = Some gc'"
    | (data) "handle_data ga now msg gc = Some (gc', outs)" "GetDataMsg ?m \<noteq> None \<or> GetStateInfo ?m \<noteq> None"
    | (block) "handle_block_pull ga now msg (ci_ID ci) gc = Some (gc', outs)"
    | (leader) "handle_leadership now (rm_msg msg) (gc, []) = Some (gc', outs)"
    using ci(3) by (auto split: if_splits)
  then show ?thesis
  proof cases
    case pull
    then show ?thesis using ci(3) False by auto
  next
    case snap
    then obtain ss where "GetStateSnapshot ?m = Some ss" "snapshot_loop ga now (ss_Elements ss) gc = Some gc'"
      by (auto simp: handleStateInfoSnapshot_def bind_eq_Some_conv)
    then show ?thesis using assms(2) by (intro snapshot_keeps) (auto simp: timed_msg_def)
  next
    case data
    have "bytes_eq (stateInfo_MAC ga gc (si_PkiId si)) (si_Channel_MAC si)" if "GetStateInfo ?m = Some si" for si
      using ci(1,2) that by (auto simp: verifyMsg_def Let_def split: if_splits)
    with data assms(2) show ?thesis by (intro handle_data_keeps) (auto simp: timed_msg_def)
  next
    case block
    then show ?thesis by (rule handle_block_pull_keeps)
  next
    case leader
    then show ?thesis by (rule leadership_keeps) (use assms(2) in \<open>simp add: timed_msg_def\<close>)
  qed
qed simp

section \<open>The channel as a machine\<close>

text \<open>
  What may happen to a channel, each step with the adapter of its time: the mapper and discovery
  may say something else at every step; only the hash stays. A block added locally has a payload. The
  rounds and timers of the puller of blocks run on their own.
\<close>

inductive pull_timer :: "pull \<Rightarrow> pull \<Rightarrow> bool" where
  pt_round: "initiatePull c idraws pool mem draws p = Some (p', outs) \<Longrightarrow> pull_timer p p'"
| pt_digests: "digestWait_fires c smem pick p = Some (p', outs) \<Longrightarrow> pull_timer p p'"
| pt_requests: "pull_timer p (requestWait_fires nonce p)"
| pt_responses: "pull_timer p (endPull p)"
| pt_locked: "pull_timer p (onDigest_locked ns nonce p)"
| pt_add: "pull_timer p (PullMediator_Add ad msg p)"

lemma pull_timer_ok: "pull_timer p p' \<Longrightarrow> pull_ok p \<Longrightarrow> pull_ok p'"
  by (induction rule: pull_timer.induct)
     (auto intro: initiatePull_ok digestWait_ok requestWait_ok endPull_ok onDigest_locked_ok PullMediator_Add_ok)

inductive chan_step :: "(string \<Rightarrow> string) \<Rightarrow> GossipChannel \<Rightarrow> GossipChannel \<Rightarrow> bool" for sha where
  message: "ga_sha ga = sha \<Longrightarrow> timed_msg ga (rm_msg msg) \<Longrightarrow> chan_HandleMessage ga now msg gc = Some (gc', outs) \<Longrightarrow>
    chan_step sha gc gc'"
| height: "ga_sha ga = sha \<Longrightarrow> UpdateLedgerHeight ga now h gc = Some gc' \<Longrightarrow> chan_step sha gc gc'"
| leave: "ga_sha ga = sha \<Longrightarrow> LeaveChannel ga now gc = Some gc' \<Longrightarrow> chan_step sha gc gc'"
| join: "ConfigureChannel ga now1 now2 joinMsg gc = Some gc' \<Longrightarrow> chan_step sha gc gc'"
| block: "GetDataMsg (sg_Msg m) \<noteq> None \<Longrightarrow> block_seqNum m \<noteq> None \<Longrightarrow> AddToMsgStore ga now m gc = Some gc' \<Longrightarrow> chan_step sha gc gc'"
| publish: "chan_step sha gc (fst (publishStateInfo ga gc))"
| sweep: "cache_sweep ga gc = Some gc' \<Longrightarrow> chan_step sha gc gc'"
| expire: "block_expirationTick now gc = Some gc' \<Longrightarrow> chan_step sha gc gc'"
| expire_leaders: "chan_step sha gc (gc\<lparr>gch_leaderMsgStore := fst (expirationTick now (gch_leaderMsgStore gc))\<rparr>)"
| pull: "pull_timer (gch_blocksPuller gc) p \<Longrightarrow> chan_step sha gc (gc\<lparr>gch_blocksPuller := p\<rparr>)"
| stop: "chan_step sha gc (chan_Stop gc)"

lemma leave_flag: "keeps sha gc (gc\<lparr>gch_leftChannel := True\<rparr>)"
  by (rule keeps_other) (simp_all add: same_chan_def)

lemma chan_step_keeps: "chan_step sha gc gc' \<Longrightarrow> keeps sha gc gc'"
proof (induction rule: chan_step.induct)
  case (message ga msg now gc gc' outs)
  then show ?case using HandleMessage_keeps [of ga now msg gc gc' outs] by simp
next
  case (height ga now h gc gc')
  then show ?case using updateProperties_keeps by (auto simp: UpdateLedgerHeight_def bind_eq_Some_conv split: option.splits)
next
  case (leave ga now gc gc')
  then show ?case using keeps_trans [OF leave_flag updateProperties_keeps]
    by (auto simp: LeaveChannel_def Let_def bind_eq_Some_conv split: option.splits)
next
  case (join ga now1 now2 joinMsg gc gc')
  then show ?case by (rule Configure_keeps)
next
  case (block m ga now gc gc')
  then obtain b gc1 where "blockMsgStore_Add ga now m gc = Some (b, gc1)" "gc' = puller_add m gc1"
    by (auto simp: AddToMsgStore_def bind_eq_Some_conv getter_Some_iff split: if_splits)
  with block_add_keeps [OF this(1) block(2)] show ?case by (auto intro: keeps_trans puller_add_keeps)
next
  case (publish gc ga)
  show ?case by (rule keeps_other) (simp_all add: publishStateInfo_def same_chan_def)
next
  case (sweep ga gc gc')
  then show ?case by (rule sweep_keeps)
next
  case (expire now gc gc')
  then show ?case by (rule tick_keeps_chan)
next
  case (expire_leaders gc now)
  have "set (datas (fst (expirationTick now (gch_leaderMsgStore gc)))) \<subseteq> set (datas (gch_leaderMsgStore gc))"
    unfolding tick_datas by (auto simp: datas_def)
  then show ?case by (intro keeps_other) (simp_all add: same_chan_def)
next
  case (pull gc p)
  then show ?case by (intro keeps_other) (simp_all add: same_chan_def pull_timer_ok)
next
  case (stop gc)
  show ?case by (rule keeps_other) (simp_all add: chan_Stop_def same_chan_def MessageStore_Stop_def datas_def pull_Stop_ok)
qed

definition fresh_channel :: "GossipChannel \<Rightarrow> bool" where
  "fresh_channel gc \<longleftrightarrow> (\<exists>ga config now now1 now2 pkiID org chainID joinMsg.
     newGossipChannel ga config now now1 now2 pkiID org chainID joinMsg = Some gc)"

lemma new_chan_inv: "newGossipChannel ga config now now1 now2 pkiID org chainID joinMsg = Some gc \<Longrightarrow>
    chan_inv sha gc \<and> gch_chainID gc = chainID \<and> gch_pkiID gc = pkiID \<and> \<not> gch_leftChannel gc"
proof -
  assume n: "newGossipChannel ga config now now1 now2 pkiID org chainID joinMsg = Some gc"
  let ?gc = "\<lparr>gch_shouldGossipStateInfo = False, gch_pkiID = pkiID, gch_selfOrg = org, gch_stateInfoMsg = None,
    gch_orgs = [], gch_joinMsg = None, gch_blockMsgStore = NewMessageStoreExpirable (sc_BlockExpirationInterval (GetConf (ga_Conf ga))),
    gch_stateInfoMsgStore = \<lparr>sic_members = NewMembershipStore, sic_store = newMsgStore\<rparr>,
    gch_leaderMsgStore = NewMessageStoreExpirable (GetDurationOrDefault config ''peer.gossip.election.leaderAliveThreshold'' leaderAliveThreshold * 10),
    gch_chainID = chainID, gch_blocksPuller = snd (createBlockPuller (str_of chainID) (sc_ID (GetConf (ga_Conf ga)))
      (sc_PullPeerNum (GetConf (ga_Conf ga))) (sc_PullInterval (GetConf (ga_Conf ga))) 0),
    gch_ledgerHeight = 0, gch_incTime = unix_nano now, gch_leftChannel = False\<rparr>"
  have c: "ConfigureChannel ga now1 now2 joinMsg ?gc = Some gc" using n by (simp add: newGossipChannel_def Let_def)
  have "chan_inv sha ?gc" by (simp add: chan_inv_def cache_ok_def prev_properties_def NewMembershipStore_def
      createBlockPuller_def NewPullMediator_ok)
  moreover have "configure_loop ga peers [] g = Some g" for peers g by simp
  then have "\<not> gch_leftChannel gc" using c
    by (auto simp: ConfigureChannel_def Let_def MessageStore_Get_def newMsgStore_def split: if_splits)
  ultimately show ?thesis using Configure_keeps [OF c, of sha] by (auto simp: keeps_def same_chan_def)
qed

interpretation channel: inv_machine fresh_channel "chan_step sha" "chan_inv sha" for sha
  by unfold_locales (use new_chan_inv chan_step_keeps in \<open>auto simp: fresh_channel_def keeps_def\<close>)

lemma chan_run_same:
  assumes "(chan_step sha)\<^sup>*\<^sup>* gc gc'" "chan_inv sha gc"
  shows "chan_inv sha gc' \<and> same_chan gc gc'"
  using assms by (induction rule: rtranclp_induct) (use chan_step_keeps in \<open>auto simp: keeps_def intro: same_chan_trans\<close>)

end
