(* ===== verification/ChannelOps.thy ===== *)
theory ChannelOps
  imports ChannelProps
begin

text \<open>
  What single operations of a channel do: whom a message is handled for, the peers of a channel,
  leaving, joining with new organisations, what a snapshot shows and accepts, the own state info,
  the lookup of a channel by its MAC, and what an update with a bad item loses.
\<close>

declare map_of_eq_Some_iff [simp del] Some_eq_map_of_iff [simp del]

section \<open>The invariant in every state\<close>

lemma updateProperties_total:
  assumes "chan_inv sha gc"
  shows "updateProperties ga now h cc left gc \<noteq> None"
proof (cases "GossipAdapter_Sign (ga_codec ga) (own_state_msg ga gc now h cc left)")
  case (Inr msg)
  have ok: "cache_ok (mac_good sha (gch_chainID gc)) (gch_stateInfoMsgStore gc)" using assms by (simp add: chan_inv_def)
  note own = own_state [OF Inr]
  from own have "\<exists>b gc'. stateInfoCache_add ga now msg gc = Some (b, gc')"
    using cache_add(1,3) [OF ok, of msg ga now] by (cases "stale msg (gch_stateInfoMsgStore gc)") blast+
  then show ?thesis by (auto simp: updateProperties_def Inr)
qed (simp add: updateProperties_def)

lemma UpdateLedgerHeight_total: "chan_inv sha gc \<Longrightarrow> UpdateLedgerHeight ga now h gc \<noteq> None"
  using updateProperties_total [of sha gc] by (auto simp: chan_inv_def UpdateLedgerHeight_def split: option.splits)


section \<open>Whom a message is handled for\<close>

text \<open>C23. A channel changes or does anything for a message only when the message comes from an authenticated peer of an
  organisation of the channel, has a tag of a channel, and names the channel: by the MAC of its subject
  for a state info, by the MAC of its sender for a request of state infos, by its name otherwise.\<close>

theorem HandleMessage_guarded:
  assumes "chan_HandleMessage ga now msg gc = Some (gc', outs)" "gc' \<noteq> gc \<or> outs \<noteq> []"
  shows "\<exists>ci. rm_ConnInfo msg = Some ci \<and> ci_ID ci \<noteq> None \<and> IsChannelRestricted (sg_Msg (rm_msg msg)) \<and>
    bytes_len (ga_GetOrgOfPeer ga (ci_ID ci)) \<noteq> 0 \<and>
    (\<exists>org\<in>set (gch_orgs gc). bytes_eq org (ga_GetOrgOfPeer ga (ci_ID ci))) \<and>
    (case gm_Content (sg_Msg (rm_msg msg)) of
       Some (StateInfoMsg si) \<Rightarrow> bytes_eq (si_Channel_MAC si) (GenerateMAC (ga_sha ga) (si_PkiId si) (gch_chainID gc))
     | Some (StateInfoPullReq r) \<Rightarrow> bytes_eq (sp_Channel_MAC r) (GenerateMAC (ga_sha ga) (ci_ID ci) (gch_chainID gc))
     | _ \<Rightarrow> bytes_eq (gm_Channel (sg_Msg (rm_msg msg))) (gch_chainID gc))"
proof -
  have loop: "IsOrgInChannel_loop orgs o1 \<longleftrightarrow> (\<exists>org\<in>set orgs. bytes_eq org o1)" for orgs o1
    by (induction orgs) auto
  have "verifyMsg ga gc msg = Some True"
    using assms by (auto simp: chan_HandleMessage_def bind_eq_Some_conv split: if_splits)
  note v = this
  obtain ci where ci: "rm_ConnInfo msg = Some ci" "IsChannelRestricted (sg_Msg (rm_msg msg))"
    "bytes_len (ga_GetOrgOfPeer ga (ci_ID ci)) \<noteq> 0" "IsOrgInChannel gc (ga_GetOrgOfPeer ga (ci_ID ci))"
    using assms v by (cases "rm_ConnInfo msg") (simp_all add: chan_HandleMessage_def Let_def split: if_splits)
  have id: "ci_ID ci \<noteq> None" using v ci(1) by (simp add: verifyMsg_def Let_def split: if_splits)
  have org: "\<exists>org\<in>set (gch_orgs gc). bytes_eq org (ga_GetOrgOfPeer ga (ci_ID ci))"
    using ci(4) by (simp add: IsOrgInChannel_def loop)
  have "case gm_Content (sg_Msg (rm_msg msg)) of
       Some (StateInfoMsg si) \<Rightarrow> bytes_eq (si_Channel_MAC si) (GenerateMAC (ga_sha ga) (si_PkiId si) (gch_chainID gc))
     | Some (StateInfoPullReq r) \<Rightarrow> bytes_eq (sp_Channel_MAC r) (GenerateMAC (ga_sha ga) (ci_ID ci) (gch_chainID gc))
     | _ \<Rightarrow> bytes_eq (gm_Channel (sg_Msg (rm_msg msg))) (gch_chainID gc)"
    using v ci(1) id
    by (cases "gm_Content (sg_Msg (rm_msg msg))"; (cases "the (gm_Content (sg_Msg (rm_msg msg)))")?)
      (simp_all add: verifyMsg_def Let_def getter_defs stateInfo_MAC_def bytes_eq_def eq_commute [of "str_of (GenerateMAC _ _ _)"])
  with ci id org show ?thesis by blast
qed

section \<open>The peers of a channel\<close>

definition chan_state :: "GossipChannel \<Rightarrow> Peer \<Rightarrow> (SignedGossipMessage \<times> StateInfo) option" where
  "chan_state gc p = do {
     m \<leftarrow> GetMsgByID (sic_members (gch_stateInfoMsgStore gc)) (p_PKIid p);
     si \<leftarrow> GetStateInfo (sg_Msg m);
     Some (m, si)
   }"

text \<open>A peer takes part: its identity is known, it has told its state and has not left.\<close>

definition takes_part :: "GossipAdapter \<Rightarrow> GossipChannel \<Rightarrow> Peer \<Rightarrow> bool" where
  "takes_part ga gc p \<longleftrightarrow> bytes_len (ga_GetIdByPKIID ga (p_PKIid p)) \<noteq> 0 \<and>
     (case chan_state gc p of
        None \<Rightarrow> False
      | Some (m, si) \<Rightarrow> (case si_Properties si of None \<Rightarrow> True | Some props \<Rightarrow> \<not> pr_LeftChannel props))"

definition with_state :: "GossipChannel \<Rightarrow> Peer \<Rightarrow> Peer" where
  "with_state gc p =
     (case chan_state gc p of None \<Rightarrow> p
      | Some (m, si) \<Rightarrow> p\<lparr>p_Properties := si_Properties si, p_Envelope := sg_Envelope m\<rparr>)"

lemma GetPeers_loop_eq:
  assumes "cache_ok G (gch_stateInfoMsgStore gc)"
  shows "GetPeers_loop ga gc ps = Some (map (with_state gc) (filter (takes_part ga gc) ps))"
proof (induction ps)
  case (Cons p ps)
  show ?case
  proof (cases "GetMsgByID (sic_members (gch_stateInfoMsgStore gc)) (p_PKIid p)")
    case None
    with Cons show ?thesis by (simp add: EligibleForChannel_def takes_part_def chan_state_def)
  next
    case (Some m)
    then have "m \<in> set (datas (sic_store (gch_stateInfoMsgStore gc)))"
      using cache_okD(3) [OF assms] by (simp add: GetMsgByID_def)
    then obtain si where si: "GetStateInfo (sg_Msg m) = Some si"
      using cache_okD(2) [OF assms] by (blast elim: state_okE)
    have c: "chan_state gc p = Some (m, si)" by (simp add: chan_state_def Some si)
    show ?thesis
    proof (cases "bytes_len (ga_GetIdByPKIID ga (p_PKIid p)) = 0")
      case True
      then show ?thesis using Cons by (simp add: EligibleForChannel_def takes_part_def)
    next
      case False
      then have e: "EligibleForChannel ga gc p" by (simp add: EligibleForChannel_def Some)
      show ?thesis
        by (simp add: e Some si Cons takes_part_def with_state_def c False split: option.splits)
    qed
  qed
qed simp

text \<open>The peers of a channel are the members discovery knows whose identity the mapper has and whose state info is
  in the cache and does not say they left, each with its published properties and envelope, in the
  order of the membership; after this peer has left the channel there are none.\<close>

theorem GetPeers_correct:
  assumes "fresh_channel gc0" "(chan_step sha)\<^sup>*\<^sup>* gc0 gc"
  shows "GetPeers ga gc =
    Some (if gch_leftChannel gc then [] else map (with_state gc) (filter (takes_part ga gc) (ga_membership ga)))"
  using GetPeers_loop_eq [of _ gc] channel.reach_inv [OF assms] by (auto simp: GetPeers_def hasLeftChannel_def chan_inv_def)

section \<open>Leaving\<close>

text \<open>C24. Leaving a channel is for good. After any sequence of messages, joins and updates, the channel has no peers to
  offer, its puller sees no members, and pull messages for blocks change nothing and are not answered;
  joining the channel again does not bring it back.\<close>

theorem leave_is_final:
  assumes "fresh_channel gc0" "(chan_step sha)\<^sup>*\<^sup>* gc0 gc" "ga_sha ga0 = sha" "LeaveChannel ga0 now gc = Some gc1"
    and "(chan_step sha)\<^sup>*\<^sup>* gc1 gc2"
  shows "GetPeers ga gc2 = Some [] \<and> membershipFilter_GetMembership ga gc2 = [] \<and>
    handle_block_pull ga now' msg sender gc2 = Some (gc2, [])"
proof -
  have inv: "chan_inv sha gc" using channel.reach_inv [OF assms(1,2)] .
  let ?gc = "gc\<lparr>gch_leftChannel := True\<rparr>"
  have inv': "chan_inv sha ?gc" using leave_flag [of sha gc] inv by (simp add: keeps_def)
  have "keeps sha ?gc gc1"
    using assms(3,4) updateProperties_keeps
    by (auto simp: LeaveChannel_def Let_def bind_eq_Some_conv split: option.splits)
  with inv' have 1: "chan_inv sha gc1" "gch_leftChannel gc1" by (auto simp: keeps_def same_chan_def)
  from chan_run_same [OF assms(5) 1(1)] 1(2) have "gch_leftChannel gc2" by (simp add: same_chan_def)
  then show ?thesis by (simp add: GetPeers_def membershipFilter_GetMembership_def handle_block_pull_def hasLeftChannel_def)
qed

section \<open>The own state\<close>

text \<open>When the own state info can be marshalled and the clock has advanced, updating the ledger height puts a state info
  with the new height into the cache under the own identity, replacing the one before and keeping its
  chaincodes and whether the channel was left; the next publication gossips exactly this message.\<close>

theorem UpdateLedgerHeight_correct:
  assumes "fresh_channel gc0" "(chan_step sha)\<^sup>*\<^sup>* gc0 gc" "ga_sha ga = sha"
    and "UpdateLedgerHeight ga now h gc = Some gc'" "\<forall>m. \<exists>p. marshal (ga_codec ga) m = Inr p"
    and "\<forall>d\<in>set (datas (sic_store (gch_stateInfoMsgStore gc))). msg_peer d = str_of (gch_pkiID gc) \<longrightarrow>
      msg_stamp d < PeerTime (gch_incTime gc) (unix_nano now)"
  shows "\<exists>msg props. GetMsgByID (sic_members (gch_stateInfoMsgStore gc')) (gch_pkiID gc) = Some msg \<and>
    gch_stateInfoMsg gc' = Some msg \<and> gch_ledgerHeight gc' = h \<and>
    prev_properties gc' = Some (Some props) \<and> pr_LedgerHeight props = h \<and>
    (case prev_properties gc of
       Some (Some old) \<Rightarrow> pr_Chaincodes props = pr_Chaincodes old \<and> pr_LeftChannel props = pr_LeftChannel old
     | _ \<Rightarrow> pr_Chaincodes props = [] \<and> \<not> pr_LeftChannel props) \<and>
    snd (publishStateInfo ga gc') = [Ch_Gossip (Some msg)]"
proof -
  have inv: "chan_inv sha gc" using channel.reach_inv [OF assms(1,2)] .
  then have ok: "cache_ok (mac_good sha (gch_chainID gc)) (gch_stateInfoMsgStore gc)" by (simp add: chan_inv_def)
  obtain prev where prev: "prev_properties gc = Some prev" using inv by (auto simp: chan_inv_def)
  define cc left where "cc = (case prev of None \<Rightarrow> [] | Some p \<Rightarrow> pr_Chaincodes p)"
    and "left = (case prev of None \<Rightarrow> False | Some p \<Rightarrow> pr_LeftChannel p)"
  have upd: "updateProperties ga now h cc left gc = Some gc'"
    using assms(4) prev by (auto simp: UpdateLedgerHeight_def cc_def left_def split: option.splits)
  obtain p where "marshal (ga_codec ga) (own_state_msg ga gc now h cc left) = Inr p" using assms(5) by blast
  then obtain msg where sign: "GossipAdapter_Sign (ga_codec ga) (own_state_msg ga gc now h cc left) = Inr msg"
    by (simp add: GossipAdapter_Sign_def Sign_def mcs_Sign_def Let_def)
  note own = own_state [OF sign]
  have "\<not> stale msg (gch_stateInfoMsgStore gc)" using assms(6) own by (auto simp: stale_def not_le)
  from cache_add(3) [OF ok _ this, of ga now] own obtain c' where c':
    "stateInfoCache_add ga now msg gc = Some (True, gc\<lparr>gch_stateInfoMsgStore := c'\<rparr>)"
    "map_get (sic_members c') = (map_get (sic_members (gch_stateInfoMsgStore gc)))(msg_peer msg \<mapsto> msg)" by auto
  have gc': "gc' = gc\<lparr>gch_stateInfoMsgStore := c', gch_ledgerHeight := h, gch_stateInfoMsg := Some msg, gch_shouldGossipStateInfo := True\<rparr>"
    using upd sign c'(1) by (simp add: updateProperties_def)
  have "prev_properties gc' = Some (Some \<lparr>pr_LedgerHeight = h, pr_LeftChannel = left, pr_Chaincodes = cc\<rparr>)"
    using own by (simp add: gc' prev_properties_def own_state_msg_def getter_defs)
  then show ?thesis
    using c'(2) own prev
    by (intro exI [of _ msg] exI [of _ "\<lparr>pr_LedgerHeight = h, pr_LeftChannel = left, pr_Chaincodes = cc\<rparr>"])
      (auto simp: gc' GetMsgByID_def publishStateInfo_def cc_def left_def split: option.splits)
qed

section \<open>Joining with other organisations\<close>

lemma verify_orgs:
  assumes "orgs \<noteq> []" "gch_pkiID gc' = gch_pkiID gc" "gch_chainID gc' = gch_chainID gc"
  shows "verifyStateInfoMsg ga gc' orgs = verifyStateInfoMsg ga gc orgs"
proof
  fix x
  show "verifyStateInfoMsg ga gc' orgs x = verifyStateInfoMsg ga gc orgs x"
    using assms by (cases "GetStateInfo (sg_Msg x)"; cases "sg_Envelope x") (simp_all add: verifyStateInfoMsg_def Let_def)
qed

lemma purge_Get:
  assumes "cache_purge P c = Some c'"
  shows "MessageStore_Get (sic_store c') = filter (\<lambda>m. \<not> P m) (MessageStore_Get (sic_store c))"
proof -
  have "sic_store c' = fst (MessageStore_Purge P (sic_store c))"
    using assms by (auto simp: cache_purge_def split: prod.splits)
  then show ?thesis by (simp add: Purge_eq MessageStore_Get_def filter_map comp_def conj_commute)
qed

lemma configure_Get:
  assumes "configure_loop ga peers msgs gc = Some gc'" "peers \<noteq> []"
  shows "gch_orgs gc' = gch_orgs gc \<and> gch_joinMsg gc' = gch_joinMsg gc \<and> (\<forall>m\<in>set msgs. verifyStateInfoMsg ga gc peers m \<noteq> None) \<and>
    MessageStore_Get (sic_store (gch_stateInfoMsgStore gc')) =
      filter (\<lambda>m. \<forall>x\<in>set msgs. verifyStateInfoMsg ga gc peers x = Some False \<longrightarrow> \<not> bytes_eq (state_key m) (state_key x))
        (MessageStore_Get (sic_store (gch_stateInfoMsgStore gc)))"
  using assms(1)
proof (induction msgs arbitrary: gc)
  case (Cons msg msgs)
  obtain ok where ok: "verifyStateInfoMsg ga gc peers msg = Some ok" using Cons.prems by (auto simp: bind_eq_Some_conv)
  show ?case
  proof (cases ok)
    case True
    with ok Cons.prems have "configure_loop ga peers msgs gc = Some gc'" by simp
    from Cons.IH [OF this] ok True show ?thesis by auto
  next
    case False
    let ?P = "\<lambda>other. bytes_eq (state_key other) (state_key msg)"
    obtain c where c: "cache_purge ?P (gch_stateInfoMsgStore gc) = Some c"
      "configure_loop ga peers msgs (gc\<lparr>gch_stateInfoMsgStore := c\<lparr>sic_members :=
         MembershipStore_Remove (state_key msg) (sic_members c)\<rparr>\<rparr>) = Some gc'"
      using ok False Cons.prems by (auto simp: bind_eq_Some_conv)
    let ?gc = "gc\<lparr>gch_stateInfoMsgStore := c\<lparr>sic_members := MembershipStore_Remove (state_key msg) (sic_members c)\<rparr>\<rparr>"
    have v: "verifyStateInfoMsg ga ?gc peers = verifyStateInfoMsg ga gc peers" by (rule verify_orgs [OF assms(2)]) simp_all
    from Cons.IH [OF c(2)] show ?thesis
      using ok False by (auto simp: v purge_Get [OF c(1)] intro!: filter_cong)
  qed
qed simp

text \<open>Joining a channel again at a time that is not before puts the new organisations in place, and of the state infos
  exactly those stay that verify under them: the own one, and those of peers whose organisation is one
  of the new ones and whom the crypto service allows.\<close>

theorem ConfigureChannel_correct:
  assumes "fresh_channel gc0" "(chan_step sha)\<^sup>*\<^sup>* gc0 gc" "JoinChanMsg_Peers joinMsg \<noteq> []"
    and "unix_nano now1 \<le> unix_nano now2" "ConfigureChannel ga now1 now2 joinMsg gc = Some gc'"
  shows "gch_orgs gc' = JoinChanMsg_Peers joinMsg \<and> gch_joinMsg gc' = Some joinMsg \<and>
    MessageStore_Get (sic_store (gch_stateInfoMsgStore gc')) =
      filter (\<lambda>m. verifyStateInfoMsg ga gc (JoinChanMsg_Peers joinMsg) m = Some True)
        (MessageStore_Get (sic_store (gch_stateInfoMsgStore gc)))"
proof -
  let ?ps = "JoinChanMsg_Peers joinMsg" and ?get = "MessageStore_Get (sic_store (gch_stateInfoMsgStore gc))"
  let ?gc = "gc\<lparr>gch_orgs := ?ps, gch_joinMsg := Some joinMsg\<rparr>"
  have "chan_inv sha gc" using channel.reach_inv [OF assms(1,2)] .
  then have ok: "cache_ok (mac_good sha (gch_chainID gc)) (gch_stateInfoMsgStore gc)" by (simp add: chan_inv_def)
  have l: "configure_loop ga ?ps ?get ?gc = Some gc'"
    using assms(3,4,5) by (simp add: ConfigureChannel_def Let_def SequenceNumber_def not_less [symmetric])
  have v: "verifyStateInfoMsg ga ?gc ?ps = verifyStateInfoMsg ga gc ?ps" by (rule verify_orgs [OF assms(3)]) simp_all
  note c = configure_Get [OF l assms(3), unfolded v]
  have sub: "set ?get \<subseteq> set (datas (sic_store (gch_stateInfoMsgStore gc)))" by (auto simp: MessageStore_Get_def datas_def)
  have uniq: "x = m" if "m \<in> set ?get" "x \<in> set ?get" "bytes_eq (state_key m) (state_key x)" for m x
  proof -
    have mx: "m \<in> set (datas (sic_store (gch_stateInfoMsgStore gc)))" "x \<in> set (datas (sic_store (gch_stateInfoMsgStore gc)))"
      using sub that by auto
    then have "msg_peer x = msg_peer m"
      using that(3) cache_okD(2) [OF ok] state_key_peer by (metis bytes_eq_def)
    with cache_member [OF ok mx(1)] cache_member [OF ok mx(2)] show ?thesis by (metis option.inject)
  qed
  have "(\<forall>x\<in>set ?get. verifyStateInfoMsg ga gc ?ps x = Some False \<longrightarrow> \<not> bytes_eq (state_key m) (state_key x)) \<longleftrightarrow>
      verifyStateInfoMsg ga gc ?ps m = Some True" if m: "m \<in> set ?get" for m
  proof
    assume a: "\<forall>x\<in>set ?get. verifyStateInfoMsg ga gc ?ps x = Some False \<longrightarrow> \<not> bytes_eq (state_key m) (state_key x)"
    obtain b where b: "verifyStateInfoMsg ga gc ?ps m = Some b" using c m by auto
    have "bytes_eq (state_key m) (state_key m)" by (simp add: bytes_eq_def)
    then have b using a m b by (cases b) auto
    then show "verifyStateInfoMsg ga gc ?ps m = Some True" using b by simp
  next
    assume t: "verifyStateInfoMsg ga gc ?ps m = Some True"
    show "\<forall>x\<in>set ?get. verifyStateInfoMsg ga gc ?ps x = Some False \<longrightarrow> \<not> bytes_eq (state_key m) (state_key x)"
    proof (intro ballI impI notI)
      fix x assume x: "x \<in> set ?get" "verifyStateInfoMsg ga gc ?ps x = Some False" "bytes_eq (state_key m) (state_key x)"
      then have "x = m" by (intro uniq [OF m])
      with t x(2) show False by simp
    qed
  qed
  then have "filter (\<lambda>m. \<forall>x\<in>set ?get. verifyStateInfoMsg ga gc ?ps x = Some False \<longrightarrow> \<not> bytes_eq (state_key m) (state_key x)) ?get =
      filter (\<lambda>m. verifyStateInfoMsg ga gc ?ps m = Some True) ?get" by (rule filter_cong [OF refl])
  with c show ?thesis by simp
qed

section \<open>Snapshots\<close>

text \<open>Who may see a state info: a requester of the own organisation sees all, another one only foreign
  peers and own peers with an external endpoint.\<close>

definition shown :: "GossipAdapter \<Rightarrow> GossipChannel \<Rightarrow> bytes \<Rightarrow> SignedGossipMessage \<Rightarrow> bool" where
  "shown ga gc requestersOrg m \<longleftrightarrow>
     bytes_eq (gch_selfOrg gc) requestersOrg \<or> \<not> bytes_eq (ga_GetOrgOfPeer ga (state_key m)) (gch_selfOrg gc) \<or>
     (\<exists>p. ga_Lookup ga (state_key m) = Some p \<and> p_Endpoint p \<noteq> [])"

lemma snapshot_elements_eq:
  assumes "\<forall>m\<in>set ms. state_ok m"
  shows "snapshot_elements ga gc org ms = Some (map sg_Envelope (filter (shown ga gc org) ms))"
  using assms
proof (induction ms)
  case (Cons m ms)
  then obtain si where "GetStateInfo (sg_Msg m) = Some si" by (auto elim: state_okE)
  then show ?case using Cons by (auto simp: shown_def state_key_def split: option.splits)
qed simp

text \<open>C25. A request of state infos from a peer of the channel is answered with a snapshot that holds the envelopes of the
  stored state infos its organisation may see, and of no others: all for the own organisation, and for
  a foreign one neither endpoint-less own peers nor own peers discovery does not know.\<close>

theorem snapshot_discloses:
  assumes "fresh_channel gc0" "(chan_step sha)\<^sup>*\<^sup>* gc0 gc"
    and "chan_HandleMessage ga now msg gc = Some (gc', outs)" "GetStateInfoPullReq (sg_Msg (rm_msg msg)) \<noteq> None" "outs \<noteq> []"
  shows "gc' = gc \<and> (\<exists>ci g. rm_ConnInfo msg = Some ci \<and> outs = [Ch_Respond msg g] \<and> gm_Channel g = gch_chainID gc \<and>
    GetStateSnapshot g = Some \<lparr>ss_Elements = map sg_Envelope (filter (shown ga gc (ga_GetOrgOfPeer ga (ci_ID ci)))
      (MessageStore_Get (sic_store (gch_stateInfoMsgStore gc))))\<rparr>)"
proof -
  have "chan_inv sha gc" using channel.reach_inv [OF assms(1,2)] .
  then have "cache_ok (mac_good sha (gch_chainID gc)) (gch_stateInfoMsgStore gc)" by (simp add: chan_inv_def)
  then have "\<forall>m\<in>set (MessageStore_Get (sic_store (gch_stateInfoMsgStore gc))). state_ok m"
    using cache_okD(2) by (fastforce simp: MessageStore_Get_def datas_def)
  note e = snapshot_elements_eq [OF this, of ga gc]
  from assms(3-5) show ?thesis
    by (auto simp: chan_HandleMessage_def Let_def bind_eq_Some_conv createStateInfoSnapshot_def e getter_defs split: if_splits)
qed

section \<open>Finding a channel by its MAC\<close>

lemma by_MAC_loop_eq:
  assumes "map_wf m" "inj_on sha ((\<lambda>c. str_of pkiID @ c) ` insert name (fst ` set m))"
  shows "by_MAC_loop sha (GenerateMAC sha pkiID (Some name)) pkiID m = map_get m name"
  using assms
proof (induction m)
  case (Cons x m)
  obtain k gc where x: "x = (k, gc)" by (cases x)
  have "sha (str_of pkiID @ k) = sha (str_of pkiID @ name) \<longleftrightarrow> k = name"
    using Cons.prems(2) by (auto simp: x inj_on_def)
  moreover have "inj_on sha ((\<lambda>c. str_of pkiID @ c) ` insert name (fst ` set m))"
    by (rule inj_on_subset [OF Cons.prems(2)]) (auto simp: x)
  ultimately show ?case using Cons.IH Cons.prems(1) by (auto simp: x GenerateMAC_def bytes_eq_def)
qed simp

text \<open>C26. A request of state infos finds its channel: when the hash has no collision between the peer's identity followed by
  the names at hand, the message a peer makes for its channel is looked up, on the connection of that
  peer, to the channel of the same name, if the receiver has one, and that channel accepts it.\<close>

theorem request_finds_channel:
  assumes "createStateInfoRequest ga gc = (req, None)" "rm_msg msg = req" "rm_ConnInfo msg = Some ci"
    and "bytes_eq (ci_ID ci) (gch_pkiID gc)" "ci_ID ci \<noteq> None" "map_wf (cst_Channels cs)"
    and "inj_on (ga_sha ga) ((\<lambda>c. str_of (ci_ID ci) @ c) ` insert (str_of (gch_chainID gc)) (fst ` set (cst_Channels cs)))"
  shows "LookupChannelForMsg (ga_sha ga) cs msg = Some (map_get (cst_Channels cs) (str_of (gch_chainID gc))) \<and>
    (\<forall>ga2 gc2. ga_sha ga2 = ga_sha ga \<longrightarrow> bytes_eq (gch_chainID gc2) (gch_chainID gc) \<longrightarrow> verifyMsg ga2 gc2 msg = Some True)"
proof -
  have r: "GetStateInfoPullReq (sg_Msg (rm_msg msg)) = Some \<lparr>sp_Channel_MAC = stateInfo_MAC ga gc (gch_pkiID gc)\<rparr>"
  proof -
    have "sg_Msg req = \<lparr>gm_Nonce = 0, gm_Channel = None, gm_Tag = Tag_CHAN_OR_ORG,
        gm_Content = Some (StateInfoPullReq \<lparr>sp_Channel_MAC = stateInfo_MAC ga gc (gch_pkiID gc)\<rparr>)\<rparr>"
      using assms(1) by (auto simp: createStateInfoRequest_def NoopSign_eq split: sum.splits)
    then show ?thesis by (simp add: assms(2) getter_defs)
  qed
  have mac: "stateInfo_MAC ga gc (gch_pkiID gc) = GenerateMAC (ga_sha ga) (ci_ID ci) (Some (str_of (gch_chainID gc)))"
    using assms(4) by (simp add: stateInfo_MAC_def GenerateMAC_def bytes_eq_def)
  have "LookupChannelForMsg (ga_sha ga) cs msg = Some (map_get (cst_Channels cs) (str_of (gch_chainID gc)))"
    using by_MAC_loop_eq [OF assms(6,7)] by (simp add: LookupChannelForMsg_def r assms(3) getGossipChannelByMAC_def mac)
  moreover have "verifyMsg ga2 gc2 msg = Some True" if "ga_sha ga2 = ga_sha ga" "bytes_eq (gch_chainID gc2) (gch_chainID gc)" for ga2 gc2
  proof -
    have "GetStateInfo (sg_Msg (rm_msg msg)) = None" using r by (simp add: getter_Some_iff) (simp add: getter_defs)
    then show ?thesis using r assms(3,5) that
      by (simp add: verifyMsg_def mac Let_def) (simp add: stateInfo_MAC_def GenerateMAC_def bytes_eq_def)
  qed
  ultimately show ?thesis by blast
qed

section \<open>An update with a bad item\<close>

text \<open>What a channel asks of the sender of a pull message for blocks.\<close>

definition admits :: "GossipAdapter \<Rightarrow> GossipChannel \<Rightarrow> ReceivedMessage \<Rightarrow> bool" where
  "admits ga gc msg \<longleftrightarrow>
     (\<exists>ci. rm_ConnInfo msg = Some ci \<and> ci_ID ci \<noteq> None \<and> IsChannelRestricted (sg_Msg (rm_msg msg)) \<and>
        bytes_eq (gm_Channel (sg_Msg (rm_msg msg))) (gch_chainID gc) \<and> IsOrgInChannel gc (ga_GetOrgOfPeer ga (ci_ID ci)) \<and>
        bytes_len (ga_GetOrgOfPeer ga (ci_ID ci)) \<noteq> 0 \<and> \<not> gch_leftChannel gc \<and>
        eligibleForChannelAndSameOrg ga gc (empty_peer\<lparr>p_PKIid := ci_ID ci\<rparr>))"

lemma update_unrelated: "gm_Content (sg_Msg m) = Some (DataUpdateMsg du) \<Longrightarrow> check_valid (NewGossipMessageComparator n) m ms = Some True"
  by (induction ms) (auto simp: policy_defs getter_defs)

text \<open>C27. When a peer of the channel answers a pull with a new block followed by an envelope that does not unmarshal, the
  block is put into the store of blocks and then dropped: it is not handed to the subscribers and not
  given to the puller, and when the same block arrives again as a message of its own it is refused as
  already known.\<close>

theorem bad_item_loses_block:
  assumes "admits ga gc msg" "gm_Content (sg_Msg (rm_msg msg)) =
      Some (DataUpdateMsg \<lparr>du_Nonce = n, du_Data = [Some e, Some bad], du_MsgType = PullMsgType_BLOCK_MSG\<rparr>)"
    and "ToGossipMessage (ga_codec ga) e = Inr b" "bytes_eq (gm_Channel (sg_Msg b)) (gch_chainID gc)" "verifyBlock (sg_Msg b)"
    and "ToGossipMessage (ga_codec ga) bad = Inl err"
    and "store_ok (block_comparator ga) comparable (gch_blockMsgStore gc)"
    and "blockMsgStore_Add ga now b gc = Some (True, gc1)"
  shows "chan_HandleMessage ga now msg gc = Some (gc1, []) \<and> b \<in> set (datas (gch_blockMsgStore gc1)) \<and>
    (\<forall>msg2 now2. rm_msg msg2 = b \<longrightarrow> rm_ConnInfo msg2 \<noteq> None \<longrightarrow> chan_HandleMessage ga now2 msg2 gc1 = Some (gc1, []))"
proof -
  let ?m = "sg_Msg (rm_msg msg)"
  obtain ci where ci: "rm_ConnInfo msg = Some ci" "ci_ID ci \<noteq> None" "IsChannelRestricted ?m"
    "bytes_eq (gm_Channel ?m) (gch_chainID gc)" "IsOrgInChannel gc (ga_GetOrgOfPeer ga (ci_ID ci))"
    "bytes_len (ga_GetOrgOfPeer ga (ci_ID ci)) \<noteq> 0" "\<not> gch_leftChannel gc"
    "eligibleForChannelAndSameOrg ga gc (empty_peer\<lparr>p_PKIid := ci_ID ci\<rparr>)"
    using assms(1) by (auto simp: admits_def)
  obtain sm where member: "GetMsgByID (sic_members (gch_stateInfoMsgStore gc)) (ci_ID ci) = Some sm"
    using ci(8) by (auto simp: eligibleForChannelAndSameOrg_def EligibleForChannel_def empty_peer_def split: if_splits)
  have valid: "MessageStore_CheckValid (block_comparator ga) (rm_msg msg) s = Some True" for s
    using update_unrelated [OF assms(2)] by (simp add: MessageStore_CheckValid_def block_comparator_def)
  have chain: "gch_chainID gc1 = gch_chainID gc"
    using assms(8) by (auto simp: blockMsgStore_Add_def bind_eq_Some_conv)
  have blocks: "update_blocks ga now (rm_msg msg) [Some e, Some bad] [] gc = Some (False, [Some e], gc1)"
    using assms(3-6,8) by (simp add: valid)
  have pull: "IsPullMsg ?m" "GetPullMsgType ?m = PullMsgType_BLOCK_MSG"
    using assms(2) by (simp_all add: IsPullMsg_def GetPullMsgType_def getter_defs)
  have "handle_block_pull ga now msg (ci_ID ci) gc = Some (gc1, [])"
    using ci member assms(2) blocks by (simp add: handle_block_pull_def hasLeftChannel_def getter_defs del: update_blocks.simps)
  moreover have "verifyMsg ga gc msg = Some True"
    using ci assms(2) by (simp add: verifyMsg_def Let_def getter_defs)
  ultimately have 1: "chan_HandleMessage ga now msg gc = Some (gc1, [])"
    using ci pull assms(2) by (simp add: chan_HandleMessage_def Let_def) (simp add: getter_defs)
  obtain d pl where d: "gm_Content (sg_Msg b) = Some (DataMsg d)" "dm_Payload d = Some pl"
    using assms(5) by (auto simp: verifyBlock_def getter_Some_iff split: option.splits)
  have good: "comparable b" by (simp add: comparable_def view_of_def d)
  obtain store trig where add: "MessageStore_Add (block_comparator ga) now b (gch_blockMsgStore gc) = Some (True, store, trig)"
    "gch_blockMsgStore gc1 = store" using assms(8) by (auto simp: blockMsgStore_Add_def bind_eq_Some_conv)
  note cmp = assms(7) [unfolded block_comparator_def] add(1) [unfolded block_comparator_def]
  have inb: "b \<in> set (datas (gch_blockMsgStore gc1))"
    using comparator.Add_datas [OF cmp(1) good cmp(2)] by (simp add: add(2))
  have "store_ok (block_comparator ga) comparable (gch_blockMsgStore gc1)"
    unfolding add(2) block_comparator_def by (rule comparator.Add_store_ok [OF cmp(1) good cmp(2)])
  then have refused: "MessageStore_CheckValid (block_comparator ga) b (gch_blockMsgStore gc1) = Some False"
    unfolding block_comparator_def by (rule comparator.CheckValid_stored [OF _ inb])
  have "chan_HandleMessage ga now2 msg2 gc1 = Some (gc1, [])" if m2: "rm_msg msg2 = b" "rm_ConnInfo msg2 = Some ci2" for msg2 now2 ci2
  proof -
    have "handle_data ga now2 msg2 gc1 = Some (gc1, [])"
      using d refused m2(1) by (simp add: handle_data_def Let_def getter_defs)
    moreover have "verifyMsg ga gc1 msg2 \<noteq> None" using m2 by (auto simp: verifyMsg_def Let_def split: option.splits)
    ultimately show ?thesis
      using d m2 by (auto simp: chan_HandleMessage_def Let_def getter_defs)
  qed
  with 1 inb show ?thesis by (metis option.exhaust)
qed

section \<open>A channel to compute with\<close>

definition ex_conf :: GossipConfig where
  "ex_conf = \<lparr>cf_BindPort = 0, cf_ID = ''p'', cf_BootstrapPeers = [], cf_PropagateIterations = 1, cf_PropagatePeerNum = 3,
     cf_MaxBlockCountToStore = 10, cf_MaxPropagationBurstSize = 20, cf_MaxPropagationBurstLatency = 1,
     cf_PullInterval = 4, cf_PullPeerNum = 5, cf_PublishCertPeriod = 4, cf_PublishStateInfoInterval = 1,
     cf_RequestStateInfoInterval = 1, cf_InternalEndpoint = ''p'', cf_ExternalEndpoint = ''p''\<rparr>"

definition ex_peer :: "string \<Rightarrow> Peer" where
  "ex_peer k = empty_peer\<lparr>p_PKIid := Some k, p_Endpoint := k\<rparr>"

definition ex_ga :: "codec \<Rightarrow> GossipAdapter" where
  "ex_ga cd = \<lparr>ga_codec = cd, ga_sha = (\<lambda>s. s), ga_Conf = ex_conf, ga_Mcs = \<lparr>AllowedPkiIDS = None, RevokedPkiIDS = None\<rparr>,
     ga_membership = [ex_peer ''q''], ga_Lookup = (\<lambda>k. Some (ex_peer (str_of k))), ga_GetIdByPKIID = (\<lambda>k. k),
     ga_GetOrgOfPeer = (\<lambda>_. DefaultOrgInChannelA), ga_ValidateStateInfoMsg = (\<lambda>_. None)\<rparr>"

definition const_codec :: codec where
  "const_codec = \<lparr>marshal = (\<lambda>_. Inr (Some ''x'')), unmarshal = (\<lambda>_. Inl (Error ''malformed'')),
     marshal_secret = (\<lambda>_. Inr (Some ''x'')), unmarshal_secret = (\<lambda>_. Inl (Error ''malformed''))\<rparr>"

definition ex_join :: JoinChanMsg where
  "ex_join = \<lparr>jcm_Members2AnchorPeers = None\<rparr>"

definition ex_chan :: GossipChannel where
  "ex_chan = \<lparr>gch_shouldGossipStateInfo = False, gch_pkiID = Some ''p'', gch_selfOrg = DefaultOrgInChannelA, gch_stateInfoMsg = None,
     gch_orgs = [DefaultOrgInChannelA], gch_joinMsg = Some ex_join, gch_blockMsgStore = NewMessageStoreExpirable 400,
     gch_stateInfoMsgStore = \<lparr>sic_members = [], sic_store = newMsgStore\<rparr>,
     gch_leaderMsgStore = NewMessageStoreExpirable (leaderAliveThreshold * 10), gch_chainID = Some ''c'',
     gch_blocksPuller = snd (createBlockPuller ''c'' ''p'' 5 4 0), gch_ledgerHeight = 0, gch_incTime = 1, gch_leftChannel = False\<rparr>"

lemma ex_chan_new:
  "newGossipChannel (ex_ga cd) (\<lambda>_. 0) 1 1 1 (Some ''p'') DefaultOrgInChannelA (Some ''c'') ex_join = Some ex_chan"
  by (simp add: newGossipChannel_def ConfigureChannel_def ex_chan_def ex_ga_def ex_conf_def ex_join_def GetConf_def JoinChanMsg_Peers_def
      SequenceNumber_def GetDurationOrDefault_def MessageStore_Get_def newMsgStore_def NewMembershipStore_def Let_def unix_nano_def)

lemma ex_chan_fresh: "fresh_channel ex_chan"
  unfolding fresh_channel_def using ex_chan_new by blast

lemma const_marshal: "\<forall>m. \<exists>p. marshal (ga_codec (ex_ga const_codec)) m = Inr p"
  by (simp add: ex_ga_def const_codec_def)

lemma ex_height:
  "\<exists>gc. UpdateLedgerHeight (ex_ga const_codec) 2 7 ex_chan = Some gc"
proof -
  have "chan_inv (\<lambda>s. s) ex_chan" using new_chan_inv [OF ex_chan_new] by blast
  then have ok: "cache_ok (mac_good (\<lambda>s. s) (gch_chainID ex_chan)) (gch_stateInfoMsgStore ex_chan)" by (simp add: chan_inv_def)
  obtain msg where m: "GossipAdapter_Sign const_codec (own_state_msg (ex_ga const_codec) ex_chan 2 7 [] False) = Inr msg"
    by (simp add: GossipAdapter_Sign_def Sign_def mcs_Sign_def Let_def const_codec_def)
  note own = own_state [OF m]
  have "\<not> stale msg (gch_stateInfoMsgStore ex_chan)" by (simp add: stale_def ex_chan_def)
  with own cache_add(3) [OF ok, of msg "ex_ga const_codec" 2] obtain c where
    "stateInfoCache_add (ex_ga const_codec) 2 msg ex_chan = Some (True, ex_chan\<lparr>gch_stateInfoMsgStore := c\<rparr>)" by blast
  moreover have "prev_properties ex_chan = Some None" "ga_codec (ex_ga const_codec) = const_codec"
    by (simp_all add: prev_properties_def ex_chan_def ex_ga_def)
  ultimately show ?thesis using m by (simp add: UpdateLedgerHeight_def updateProperties_def)
qed

theorem GetPeers_correct_witness:
  "\<exists>gc. GetPeers (ex_ga const_codec) gc = Some []"
  using GetPeers_correct [OF ex_chan_fresh rtranclp.rtrancl_refl, of "ex_ga const_codec"]
  by (intro exI [of _ ex_chan]) (simp add: ex_chan_def ex_ga_def takes_part_def chan_state_def GetMsgByID_def)

theorem UpdateLedgerHeight_correct_witness:
  "\<exists>gc' msg. UpdateLedgerHeight (ex_ga const_codec) 2 7 ex_chan = Some gc' \<and> gch_ledgerHeight gc' = 7 \<and>
     GetMsgByID (sic_members (gch_stateInfoMsgStore gc')) (Some ''p'') = Some msg"
proof -
  obtain gc' where u: "UpdateLedgerHeight (ex_ga const_codec) 2 7 ex_chan = Some gc'" using ex_height by blast
  have "gch_pkiID ex_chan = Some ''p''" "datas (sic_store (gch_stateInfoMsgStore ex_chan)) = []" by (simp_all add: ex_chan_def)
  with UpdateLedgerHeight_correct [OF ex_chan_fresh rtranclp.rtrancl_refl refl u const_marshal] u show ?thesis by auto
qed

theorem leave_is_final_witness:
  "\<exists>gc1 gc2. LeaveChannel (ex_ga example_codec) 2 ex_chan = Some gc1 \<and>
     ConfigureChannel (ex_ga example_codec) 3 3 ex_join gc1 = Some gc2 \<and> GetPeers (ex_ga example_codec) gc2 = Some []"
proof -
  let ?ga = "ex_ga example_codec" and ?gc = "ex_chan\<lparr>gch_leftChannel := True\<rparr>"
  have "marshal example_codec (own_state_msg ?ga ?gc 2 0 [] True) = Inl (Error ''unknown'')"
    by (simp add: example_codec_def table_codec_def table_enc_def own_state_msg_def empty_msg_def)
  moreover have "ga_codec ?ga = example_codec" by (simp add: ex_ga_def)
  moreover have "gch_stateInfoMsg ?gc = None" by (simp add: ex_chan_def)
  ultimately have l: "LeaveChannel ?ga 2 ex_chan = Some ?gc"
    by (simp add: LeaveChannel_def Let_def prev_properties_def updateProperties_def GossipAdapter_Sign_def Sign_def)
  have c: "ConfigureChannel ?ga 3 3 ex_join ?gc = Some ?gc"
    by (simp add: ConfigureChannel_def ex_join_def JoinChanMsg_Peers_def SequenceNumber_def Let_def ex_chan_def
        MessageStore_Get_def newMsgStore_def)
  have "(chan_step (ga_sha ?ga))\<^sup>*\<^sup>* ?gc ?gc" using chan_step.join [OF c] by blast
  from leave_is_final [OF ex_chan_fresh rtranclp.rtrancl_refl refl l this] l c show ?thesis by blast
qed

theorem ConfigureChannel_correct_witness:
  "\<exists>gc'. ConfigureChannel (ex_ga const_codec) 3 3 \<lparr>jcm_Members2AnchorPeers = Some [(''ORG2'', [])]\<rparr> ex_chan = Some gc' \<and>
     gch_orgs gc' = [Some ''ORG2'']"
proof -
  let ?j = "\<lparr>jcm_Members2AnchorPeers = Some [(''ORG2'', [])]\<rparr>"
  have "\<exists>gc'. ConfigureChannel (ex_ga const_codec) 3 3 ?j ex_chan = Some gc'"
    by (simp add: ConfigureChannel_def JoinChanMsg_Peers_def SequenceNumber_def Let_def ex_chan_def MessageStore_Get_def newMsgStore_def)
  then obtain gc' where c: "ConfigureChannel (ex_ga const_codec) 3 3 ?j ex_chan = Some gc'" by blast
  from ConfigureChannel_correct [OF ex_chan_fresh rtranclp.rtrancl_refl _ _ c] c show ?thesis
    by (simp add: JoinChanMsg_Peers_def)
qed

definition ex_received :: "Content \<Rightarrow> Tag \<Rightarrow> bytes \<Rightarrow> ReceivedMessage" where
  "ex_received c t ch = \<lparr>rm_msg = \<lparr>sg_Envelope = None, sg_Msg = \<lparr>gm_Nonce = 0, gm_Channel = ch, gm_Tag = t, gm_Content = Some c\<rparr>\<rparr>,
     rm_ConnInfo = Some \<lparr>ci_ID = Some ''q'', ci_Id = Some ''q''\<rparr>\<rparr>"

lemma ex_request:
  "chan_HandleMessage (ex_ga const_codec) 5 (ex_received (StateInfoPullReq \<lparr>sp_Channel_MAC = Some ''qc''\<rparr>) Tag_CHAN_OR_ORG None) ex_chan =
   Some (ex_chan, [Ch_Respond (ex_received (StateInfoPullReq \<lparr>sp_Channel_MAC = Some ''qc''\<rparr>) Tag_CHAN_OR_ORG None)
     \<lparr>gm_Nonce = 0, gm_Channel = Some ''c'', gm_Tag = Tag_CHAN_OR_ORG, gm_Content = Some (StateSnapshot \<lparr>ss_Elements = []\<rparr>)\<rparr>])"
  by (simp add: chan_HandleMessage_def ex_received_def verifyMsg_def getter_defs stateInfo_MAC_def GenerateMAC_def bytes_eq_def
      IsChannelRestricted_def ex_ga_def ex_chan_def DefaultOrgInChannelA_def bytes_len_def IsOrgInChannel_def
      createStateInfoSnapshot_def MessageStore_Get_def newMsgStore_def Let_def)

theorem snapshot_discloses_witness:
  "\<exists>outs. chan_HandleMessage (ex_ga const_codec) 5 (ex_received (StateInfoPullReq \<lparr>sp_Channel_MAC = Some ''qc''\<rparr>) Tag_CHAN_OR_ORG None) ex_chan =
     Some (ex_chan, outs) \<and> outs \<noteq> []"
  using snapshot_discloses [OF ex_chan_fresh rtranclp.rtrancl_refl ex_request] ex_request by (auto simp: ex_received_def getter_defs)

theorem HandleMessage_guarded_witness:
  "\<exists>ci. rm_ConnInfo (ex_received (StateInfoPullReq \<lparr>sp_Channel_MAC = Some ''qc''\<rparr>) Tag_CHAN_OR_ORG None) = Some ci \<and> ci_ID ci \<noteq> None \<and>
     IsChannelRestricted (sg_Msg (rm_msg (ex_received (StateInfoPullReq \<lparr>sp_Channel_MAC = Some ''qc''\<rparr>) Tag_CHAN_OR_ORG None)))"
  using HandleMessage_guarded [OF ex_request] by blast


theorem request_finds_channel_witness:
  "\<exists>req. createStateInfoRequest (ex_ga const_codec) (ex_chan\<lparr>gch_pkiID := Some ''q''\<rparr>) = (req, None) \<and>
     LookupChannelForMsg (\<lambda>s. s) \<lparr>cst_Stopping = False, cst_Channels = [(''c'', ex_chan)]\<rparr>
       \<lparr>rm_msg = req, rm_ConnInfo = Some \<lparr>ci_ID = Some ''q'', ci_Id = Some ''q''\<rparr>\<rparr> = Some (Some ex_chan)"
proof -
  let ?gc = "ex_chan\<lparr>gch_pkiID := Some ''q''\<rparr>" and ?ci = "\<lparr>ci_ID = Some ''q'', ci_Id = Some ''q''\<rparr>"
  let ?cs = "\<lparr>cst_Stopping = False, cst_Channels = [(''c'', ex_chan)]\<rparr>"
  have sha: "ga_sha (ex_ga const_codec) = (\<lambda>s. s)" by (simp add: ex_ga_def)
  have "\<exists>req. createStateInfoRequest (ex_ga const_codec) ?gc = (req, None)"
    by (simp add: createStateInfoRequest_def NoopSign_eq ex_ga_def const_codec_def)
  then obtain req where r: "createStateInfoRequest (ex_ga const_codec) ?gc = (req, None)" by blast
  have "gch_chainID ?gc = Some ''c''" by (simp add: ex_chan_def)
  with request_finds_channel [OF r, of "\<lparr>rm_msg = req, rm_ConnInfo = Some ?ci\<rparr>" ?ci ?cs] r show ?thesis
    by (simp add: bytes_eq_def sha)
qed

definition ex_block :: GossipMessage where
  "ex_block = \<lparr>gm_Nonce = 0, gm_Channel = Some ''c'', gm_Tag = Tag_CHAN_AND_ORG,
     gm_Content = Some (DataMsg \<lparr>dm_Payload = Some \<lparr>pl_SeqNum = 3, pl_Data = None, pl_PrivateData = []\<rparr>\<rparr>)\<rparr>"

definition ex_envelope :: "bytes \<Rightarrow> Envelope" where
  "ex_envelope payload = \<lparr>ev_Payload = payload, ev_Signature = None, ev_SecretEnvelope = None\<rparr>"

text \<open>A channel with the state info of one peer, which then sends a block and garbage.\<close>

theorem bad_item_loses_block_witness:
  "\<exists>gc gc1 b. chan_HandleMessage (ex_ga (table_codec [ex_block] [])) 5
       (ex_received (DataUpdateMsg \<lparr>du_Nonce = 1, du_Data = [Some (ex_envelope (Some ''x'')), Some (ex_envelope None)],
          du_MsgType = PullMsgType_BLOCK_MSG\<rparr>) Tag_CHAN_AND_ORG (Some ''c'')) gc = Some (gc1, []) \<and>
     sg_Msg b = ex_block \<and> b \<in> set (datas (gch_blockMsgStore gc1))"
proof -
  let ?ga = "ex_ga (table_codec [ex_block] [])" and ?b = "\<lparr>sg_Envelope = Some (ex_envelope (Some ''x'')), sg_Msg = ex_block\<rparr>"
  let ?gc = "ex_chan\<lparr>gch_stateInfoMsgStore := \<lparr>sic_members = [(''q'', ?b)], sic_store = newMsgStore\<rparr>\<rparr>"
  let ?msg = "ex_received (DataUpdateMsg \<lparr>du_Nonce = 1, du_Data = [Some (ex_envelope (Some ''x'')), Some (ex_envelope None)],
          du_MsgType = PullMsgType_BLOCK_MSG\<rparr>) Tag_CHAN_AND_ORG (Some ''c'')"
  have ad: "admits ?ga ?gc ?msg"
    by (simp add: admits_def ex_received_def IsChannelRestricted_def bytes_eq_def ex_chan_def ex_ga_def IsOrgInChannel_def
        DefaultOrgInChannelA_def bytes_len_def eligibleForChannelAndSameOrg_def EligibleForChannel_def GetMsgByID_def empty_peer_def)
  have e: "ToGossipMessage (ga_codec ?ga) (ex_envelope (Some ''x'')) = Inr ?b"
    "ToGossipMessage (ga_codec ?ga) (ex_envelope None) = Inl (wrap_unmarshal (Error ''malformed''))"
    by (simp_all add: ex_ga_def ToGossipMessage_def ex_envelope_def table_codec_def table_dec_def bytes_len_def)
  have b: "bytes_eq (gm_Channel (sg_Msg ?b)) (gch_chainID ?gc)" "verifyBlock (sg_Msg ?b)"
    by (simp_all add: ex_block_def ex_chan_def bytes_eq_def verifyBlock_def getter_defs VerifyBlock_def)
  have s: "store_ok (block_comparator ?ga) comparable (gch_blockMsgStore ?gc)" by (simp add: ex_chan_def)
  have "\<exists>gc1. blockMsgStore_Add ?ga 5 ?b ?gc = Some (True, gc1)"
    by (simp add: blockMsgStore_Add_def MessageStore_Add_def ex_chan_def NewMessageStoreExpirable_def newMsgStore_def add_loop.simps)
  then obtain gc1 where "blockMsgStore_Add ?ga 5 ?b ?gc = Some (True, gc1)" by blast
  note r = bad_item_loses_block [OF ad _ e(1) b e(2) s this]
  have "chan_HandleMessage ?ga 5 ?msg ?gc = Some (gc1, []) \<and> ?b \<in> set (datas (gch_blockMsgStore gc1))"
    using r [of 1] by (simp add: ex_received_def)
  then show ?thesis by (intro exI [of _ ?gc] exI [of _ gc1] exI [of _ ?b]) simp
qed

end
