(* ===== verification/GossipSvc.thy ===== *)
theory GossipSvc
  imports Channel Emitter
begin

text \<open>
  The gossip service (gossip.go): its state, what it knows of a peer's organisation, what it checks
  of a message, and what it sends to whom. The handlers of received messages and the operations of
  its interface are in the theory after it. The organisation of an identity (the code's
  \<open>OrgCryptoService\<close> answers the same for all) and the codec are arguments. Reading an identity also
  renews its time of last use in the mapper; the filters below read without that.
  A value \<open>None\<close> is a panic.
\<close>

declare map_of_eq_Some_iff [simp del] Some_eq_map_of_iff [simp del]

section \<open>The state\<close>

record EmittedGossipMessage =
  em_msg :: SignedGossipMessage
  em_Filter :: "bytes \<Rightarrow> bool"

record SendCriteria =
  scr_Timeout :: duration
  scr_MinAck :: int
  scr_MaxPeers :: int
  scr_IsEligible :: "RoutingFilter option"
  scr_Channel :: bytes

text \<open>
  The mapper is shared with discovery and the communication layer; the service's field is the one
  state of it. Of the communication layer the service reads the own PKI-ID.
\<close>

record GossipService =
  gs_SelfId :: bytes
  gs_IncludeIdPeriod :: instant
  gs_IdMapper :: IdMapper
  gs_PresumedDead :: "bytes list"
  gs_Discovery :: "disc option"
  gs_PKIID :: bytes
  gs_SelfOrg :: bytes
  gs_demux :: "SignedGossipMessage ChannelDeMultiplexer"
  gs_Conf :: GossipConfig
  gs_StopFlag :: bool
  gs_Emitter :: "EmittedGossipMessage BatchingEmitter"
  gs_IncClosed :: bool
  gs_ChanState :: ChannelState
  gs_StateInfoMsgStore :: "SignedGossipMessage MessageStore"
  gs_CertPuller :: pull

text \<open>What the service is given from outside.\<close>

record senv =
  se_codec :: codec
  se_sha :: "string \<Rightarrow> string"
  se_mcs :: NaiveMessageCryptoService
  se_ExpirationTimes :: expiration_table
  se_orgByPeerId :: "bytes \<Rightarrow> bytes"
  se_config :: "string \<Rightarrow> duration"
  se_MaxConnectionAttempts :: nat

text \<open>
  What the service does to the outside: the calls of the communication layer, a batch the emitter
  hands to \<open>sendGossipBatch\<close>, a message passed to discovery's channel, what a channel subscribes to
  (and whether all its readers had room), and what a puller starts.
\<close>

datatype svc_out =
    Sv_Send SignedGossipMessage "RemotePeer list"
  | Sv_SendWithAck SignedGossipMessage duration int "RemotePeer list"
  | Sv_Respond ReceivedMessage GossipMessage
  | Sv_CloseConn RemotePeer
  | Sv_Batch "EmittedGossipMessage list"
  | Sv_Discovery ReceivedMessage
  | Sv_DeMultiplex SignedGossipMessage bool
  | Sv_Pull pull_out
  | Sv_DiscoveryOut disc_out
  | Sv_CommStop

section \<open>Identities and organisations\<close>

definition cert_of :: "GossipService \<Rightarrow> bytes \<Rightarrow> error + bytes" where
  "cert_of g pkiID = fst (IdMapper_Get 0 pkiID (gs_IdMapper g))"

definition GetOrgOfPeer :: "senv \<Rightarrow> GossipService \<Rightarrow> bytes \<Rightarrow> bytes" where
  "GetOrgOfPeer env g pkiID =
     (case cert_of g pkiID of Inl err \<Rightarrow> None | Inr cert \<Rightarrow> se_orgByPeerId env cert)"

definition GetIdByPKIID :: "GossipService \<Rightarrow> bytes \<Rightarrow> bytes" where
  "GetIdByPKIID g pkiID = (case cert_of g pkiID of Inl err \<Rightarrow> None | Inr i \<Rightarrow> i)"

definition isInMyorg :: "senv \<Rightarrow> GossipService \<Rightarrow> Peer \<Rightarrow> bool" where
  "isInMyorg env g peer =
     (if p_PKIid peer = None then False
      else (let org = GetOrgOfPeer env g (p_PKIid peer) in
            if org \<noteq> None then bytes_eq (gs_SelfOrg g) org else False))"

text \<open>Discovery is set by the time anything asks for an external endpoint.\<close>

definition hasExternalEndpoint :: "GossipService \<Rightarrow> bytes \<Rightarrow> bool" where
  "hasExternalEndpoint g pkiID =
     (case gs_Discovery g of
        None \<Rightarrow> False
      | Some d \<Rightarrow> (case Lookup pkiID d of None \<Rightarrow> False | Some nm \<Rightarrow> p_Endpoint nm \<noteq> []))"

abbreviation peer_with :: "bytes \<Rightarrow> Peer" where
  "peer_with pkiID \<equiv> empty_peer\<lparr>p_PKIid := pkiID\<rparr>"

section \<open>Disclosure\<close>

definition member_of :: "SignedGossipMessage \<Rightarrow> Member option" where
  "member_of m = do { am \<leftarrow> GetAliveMsg (sg_Msg m); am_Membership am }"

definition strip :: "SignedGossipMessage \<Rightarrow> SignedGossipMessage option" where
  "strip m = map_option (\<lambda>e. m\<lparr>sg_Envelope := Some (e\<lparr>ev_SecretEnvelope := None\<rparr>)\<rparr>) (sg_Envelope m)"

definition disclosurePolicy :: "senv \<Rightarrow> GossipService \<Rightarrow> DisclosurePolicy" where
  "disclosurePolicy env g remotePeer =
     (let remotePeerOrg = GetOrgOfPeer env g (p_PKIid remotePeer) in
      if bytes_len remotePeerOrg = 0 then (\<lambda>m. Some False, \<lambda>m. Some (m, sg_Envelope m))
      else
        (\<lambda>m. do {
           mem \<leftarrow> member_of m;
           let org = GetOrgOfPeer env g (mb_PkiId mem);
           (if bytes_len org = 0 then Some False
            else let fromSameForeignOrg = bytes_eq remotePeerOrg org; fromMyOrg = bytes_eq (gs_SelfOrg g) org in
            if \<not> (fromSameForeignOrg \<or> fromMyOrg) then Some False
            else Some (bytes_eq org remotePeerOrg \<or> mb_Endpoint mem \<noteq> [] \<and> p_Endpoint remotePeer \<noteq> []))
         },
         \<lambda>m. do {
           m' \<leftarrow> (if \<not> bytes_eq (gs_SelfOrg g) remotePeerOrg then strip m else Some m);
           Some (m', sg_Envelope m')
         }))"

definition peersByOriginOrgPolicy :: "senv \<Rightarrow> GossipService \<Rightarrow> Peer \<Rightarrow> RoutingFilter" where
  "peersByOriginOrgPolicy env g peer =
     (let peersOrg = GetOrgOfPeer env g (p_PKIid peer) in
      if bytes_len peersOrg = 0 then SelectNonePolicy
      else if bytes_eq (gs_SelfOrg g) peersOrg then SelectAllPolicy
      else (\<lambda>peer. let memberOrg = GetOrgOfPeer env g (p_PKIid peer) in
              if bytes_len memberOrg = 0 then False
              else let isFromMyOrg = bytes_eq (gs_SelfOrg g) memberOrg
                   in isFromMyOrg \<or> bytes_eq memberOrg peersOrg))"

section \<open>Validation\<close>

text \<open>The verifier of a state info reads the mapper under the PKI-ID of the identity it is given.\<close>

definition state_verifier :: "GossipService \<Rightarrow> verifier" where
  "state_verifier g i signature message =
     (let pkiID = GetPKIidOfCert i in
      if pkiID = None then Some (Error ''PKI-ID not found in id mapper'')
      else fst (IdMapper_Verify 0 pkiID signature message (gs_IdMapper g)))"

text \<open>\<open>GetStateInfo\<close> of a message of another kind is nil and is dereferenced.\<close>

definition ValidateStateInfoMsg :: "GossipService \<Rightarrow> SignedGossipMessage \<Rightarrow> error option option" where
  "ValidateStateInfoMsg g m = do {
     si \<leftarrow> GetStateInfo (sg_Msg m);
     (case cert_of g (si_PkiId si) of
        Inl err \<Rightarrow> Some (Some err)
      | Inr ids \<Rightarrow> Some (SignedGossipMessage_Verify ids (state_verifier g) m))
   }"

definition validateLeadershipMessage :: "GossipService \<Rightarrow> SignedGossipMessage \<Rightarrow> error option option" where
  "validateLeadershipMessage g m = do {
     lm \<leftarrow> GetLeadershipMsg (sg_Msg m);
     let pkiID = lm_PkiId lm;
     (if bytes_len pkiID = 0 then Some (Some (Error ''Empty PKI-ID''))
      else case cert_of g pkiID of
        Inl err \<Rightarrow> Some (Some (wrap_error ''Unable to fetch PKI-ID from id-mapper'' err))
      | Inr ids \<Rightarrow> Some (SignedGossipMessage_Verify ids (\<lambda>_ signature message. mcs_Verify ids signature message) m))
   }"

text \<open>The text of the first error leaves out the printed message.\<close>

definition validateIdMsg :: "NaiveMessageCryptoService \<Rightarrow> SignedGossipMessage \<Rightarrow> error option" where
  "validateIdMsg mcs m =
     (case GetPeerIdentity (sg_Msg m) of
        None \<Rightarrow> Some (Error ''Identity empty'')
      | Some idMsg \<Rightarrow>
          if \<not> bytes_eq (GetPKIidOfCert (pi_Cert idMsg)) (pi_PkiId idMsg) 
            then Some (Error (''Calculated pkiID doesn't match id: calculated:'' @ fmt_bytes (GetPKIidOfCert (pi_Cert idMsg)) @
                   '', claimedPKI-ID:'' @ fmt_bytes (pi_PkiId idMsg)))
          else (case SignedGossipMessage_Verify (pi_Cert idMsg) mcs_Verify m of
                  Some err \<Rightarrow> Some (wrap_error ''Failed verifying message'' err)
                | None \<Rightarrow> ValidateIdType mcs (pi_Cert idMsg)))"

text \<open>Discovery's security adapter works on the mapper alone.\<close>

definition mapper_view :: "IdMapper \<Rightarrow> disc" where
  "mapper_view im = \<lparr>di_incTime = 0, di_seqNum = 0, di_self = empty_peer, di_deadLastTS = [], di_aliveLastTS = [],
     di_id2Member = [], di_aliveMembership = [], di_deadMembership = [], di_selfAliveMessage = None,
     di_msgStore = newMsgStore, di_idMapper = im, di_port = 0, di_toDieFlag = False, di_stopping = False, di_out = []\<rparr>"

definition aliveExpirationTimeout :: "senv \<Rightarrow> duration" where
  "aliveExpirationTimeout env = getAliveExpirationTimeout (se_config env)"

definition denv_of :: "senv \<Rightarrow> GossipService \<Rightarrow> denv" where
  "denv_of env g = \<lparr>de_codec = se_codec env, de_mcs = se_mcs env, de_ExpirationTimes = se_ExpirationTimes env,
     de_Id = gs_SelfId g, de_IncludeIdPeriod = gs_IncludeIdPeriod g,
     de_aliveExpirationTimeout = aliveExpirationTimeout env,
     de_MaxConnectionAttempts = se_MaxConnectionAttempts env, de_disclosurePolicy = disclosurePolicy env g\<rparr>"

definition validateMsg :: "senv \<Rightarrow> instant \<Rightarrow> ReceivedMessage \<Rightarrow> GossipService \<Rightarrow> (bool \<times> GossipService) option" where
  "validateMsg env now msg g =
     (let m = rm_msg msg in
      if IsTagLegal (sg_Msg m) \<noteq> None then Some (False, g)
      else (let (valid, g1) =
                (if GetAliveMsg (sg_Msg m) \<noteq> None
                 then let (b, d) = ValidateAliveMsg (denv_of env g) now m (mapper_view (gs_IdMapper g))
                      in (b, g\<lparr>gs_IdMapper := di_idMapper d\<rparr>)
                 else (True, g))
            in if \<not> valid then Some (False, g1)
               else if GetStateInfo (sg_Msg m) \<noteq> None
               then map_option (\<lambda>err. (err = None, g1)) (ValidateStateInfoMsg g1 m)
               else Some (True, g1)))"

section \<open>What a channel uses of the service\<close>

text \<open>\<open>GetMembership\<close> does not panic in a state discovery reaches.\<close>

definition adapter_of :: "senv \<Rightarrow> GossipService \<Rightarrow> GossipAdapter option" where
  "adapter_of env g = do {
     d \<leftarrow> gs_Discovery g;
     membership \<leftarrow> GetMembership d;
     Some \<lparr>ga_codec = se_codec env, ga_sha = se_sha env, ga_Conf = gs_Conf g, ga_Mcs = se_mcs env,
       ga_membership = membership, ga_Lookup = (\<lambda>k. Lookup k d), ga_GetIdByPKIID = GetIdByPKIID g,
       ga_GetOrgOfPeer = GetOrgOfPeer env g,
       ga_ValidateStateInfoMsg = (\<lambda>m. case ValidateStateInfoMsg g m of None \<Rightarrow> None | Some r \<Rightarrow> r)\<rparr>
   }"

definition put_channel :: "GossipChannel \<Rightarrow> GossipService \<Rightarrow> GossipService" where
  "put_channel gc g = g\<lparr>gs_ChanState := (gs_ChanState g)\<lparr>cst_Channels :=
     map_put (str_of (gch_chainID gc)) gc (cst_Channels (gs_ChanState g))\<rparr>\<rparr>"

section \<open>Sending a batch\<close>

text \<open>A predicate may dereference a nil field, so it has an option result.\<close>

fun partitionMessages :: "('a \<Rightarrow> bool option) \<Rightarrow> 'a list \<Rightarrow> ('a list \<times> 'a list) option" where
  "partitionMessages pred [] = Some ([], [])"
| "partitionMessages pred (m # a) = do {
     b \<leftarrow> pred m;
     (s1, s2) \<leftarrow> partitionMessages pred a;
     Some (if b then (m # s1, s2) else (s1, m # s2))
   }"

definition removeSelfLoop :: "EmittedGossipMessage \<Rightarrow> RemotePeer list \<Rightarrow> RemotePeer list" where
  "removeSelfLoop msg peers = filter (\<lambda>peer. em_Filter msg (rp_PKIID peer)) peers"

text \<open>Every call of \<open>SelectPeers\<close> in a batch has a permutation of its own.\<close>

datatype draw = DrawBlocks nat | DrawLeadership nat | DrawState nat | DrawOrg | DrawAlive nat

abbreviation em_content :: "EmittedGossipMessage \<Rightarrow> GossipMessage" where
  "em_content em \<equiv> sg_Msg (em_msg em)"

fun channels_of :: "EmittedGossipMessage list \<Rightarrow> bytes list \<Rightarrow> bytes list" where
  "channels_of [] totalChannels = totalChannels"
| "channels_of (m # ms) totalChannels =
     (if bytes_len (gm_Channel (em_content m)) = 0 then channels_of ms totalChannels
      else channels_of ms
        (if IndexInSlice totalChannels (gm_Channel (em_content m)) bytes_eq = -1
         then totalChannels @ [gm_Channel (em_content m)] else totalChannels))"

fun gossip_channels ::
  "senv \<Rightarrow> GossipService \<Rightarrow> (nat \<Rightarrow> nat list) \<Rightarrow> (GossipChannel \<Rightarrow> RoutingFilter) \<Rightarrow> nat \<Rightarrow> bytes list \<Rightarrow>
   EmittedGossipMessage list \<Rightarrow> svc_out list option" where
  "gossip_channels env g perm factory n [] messages = Some []"
| "gossip_channels env g perm factory n (channel # totalChannels) messages = do {
     (messagesOfChannel, rest) \<leftarrow> partitionMessages (\<lambda>em. Some (bytes_eq (gm_Channel (em_content em)) channel)) messages;
     (case messagesOfChannel of
        [] \<Rightarrow> gossip_channels env g perm factory (Suc n) totalChannels rest
      | first # _ \<Rightarrow>
          (case GetGossipChannelByChainID (gs_ChanState g) channel of
             None \<Rightarrow> gossip_channels env g perm factory (Suc n) totalChannels rest
           | Some gc \<Rightarrow> do {
               d \<leftarrow> gs_Discovery g;
               membership \<leftarrow> GetMembership d;
               let k = (if GetLeadershipMsg (em_content first) \<noteq> None then int (length membership)
                        else cf_PropagatePeerNum (gs_Conf g));
               let peers2Send = SelectPeers (perm n) k membership (factory gc);
               outs \<leftarrow> gossip_channels env g perm factory (Suc n) totalChannels rest;
               Some (map (\<lambda>msg. Sv_Send (em_msg msg) (removeSelfLoop msg peers2Send)) messagesOfChannel @ outs)
             }))
   }"

definition gossipInChan ::
  "senv \<Rightarrow> GossipService \<Rightarrow> (nat \<Rightarrow> nat list) \<Rightarrow> (GossipChannel \<Rightarrow> RoutingFilter) \<Rightarrow> EmittedGossipMessage list \<Rightarrow> svc_out list option" where
  "gossipInChan env g perm factory messages =
     (if length messages = 0 then Some []
      else gossip_channels env g perm factory 0 (channels_of messages []) messages)"

text \<open>Blocks and leadership messages go to peers of the own organisation that are in the channel.\<close>

definition chan_filter :: "senv \<Rightarrow> GossipService \<Rightarrow> GossipAdapter \<Rightarrow> GossipChannel \<Rightarrow> RoutingFilter" where
  "chan_filter env g ga gc = CombineRoutingFilters [EligibleForChannel ga gc, IsMemberInChan ga gc, isInMyorg env g]"

definition state_selector ::
  "senv \<Rightarrow> GossipService \<Rightarrow> GossipAdapter \<Rightarrow> EmittedGossipMessage \<Rightarrow> RoutingFilter option" where
  "state_selector env g ga em = do {
     let gc = LookupChannelForGossipMsg (se_sha env) (gs_ChanState g) (em_content em);
     si \<leftarrow> GetStateInfo (em_content em);
     let peerSelector = (case gc of
           Some c \<Rightarrow> if hasExternalEndpoint g (si_PkiId si) then IsMemberInChan ga c else isInMyorg env g
         | None \<Rightarrow> isInMyorg env g);
     Some (CombineRoutingFilters [peerSelector, \<lambda>peer. em_Filter em (p_PKIid peer)])
   }"

fun state_sends ::
  "senv \<Rightarrow> GossipService \<Rightarrow> GossipAdapter \<Rightarrow> (nat \<Rightarrow> nat list) \<Rightarrow> nat \<Rightarrow> EmittedGossipMessage list \<Rightarrow> svc_out list option" where
  "state_sends env g ga perm n [] = Some []"
| "state_sends env g ga perm n (em # ems) = do {
     sel \<leftarrow> state_selector env g ga em;
     outs \<leftarrow> state_sends env g ga perm (Suc n) ems;
     Some (Sv_Send (em_msg em) (SelectPeers (perm n) (cf_PropagatePeerNum (gs_Conf g)) (ga_membership ga) sel) # outs)
   }"

definition aliveMsgsWithNoEndpointAndInOurOrg :: "senv \<Rightarrow> GossipService \<Rightarrow> EmittedGossipMessage \<Rightarrow> bool option" where
  "aliveMsgsWithNoEndpointAndInOurOrg env g em =
     (case GetAliveMsg (em_content em) of
        None \<Rightarrow> Some False
      | Some am \<Rightarrow> map_option (\<lambda>peer. mb_Endpoint peer = [] \<and> isInMyorg env g (peer_with (mb_PkiId peer))) (am_Membership am))"

definition isOrgRestricted :: "senv \<Rightarrow> GossipService \<Rightarrow> EmittedGossipMessage \<Rightarrow> bool option" where
  "isOrgRestricted env g em =
     map_option (\<lambda>a. a \<or> IsOrgRestricted (em_content em)) (aliveMsgsWithNoEndpointAndInOurOrg env g em)"

text \<open>
  The loop over the peers an alive message goes to. The secret envelope is cut off in place, from
  the envelope that discovery and the emitter's buffer share; the message as it is afterwards is
  returned.
\<close>

fun alive_peers ::
  "senv \<Rightarrow> GossipService \<Rightarrow> SignedGossipMessage \<Rightarrow> RemotePeer list \<Rightarrow> (SignedGossipMessage \<times> svc_out list) option" where
  "alive_peers env g m [] = Some (m, [])"
| "alive_peers env g m (peer # peers) = do {
     mem \<leftarrow> member_of m;
     let aliveMsgFromDiffOrg = (\<not> isInMyorg env g (peer_with (mb_PkiId mem)));
     (if aliveMsgFromDiffOrg \<and> \<not> hasExternalEndpoint g (rp_PKIID peer) then alive_peers env g m peers
      else do {
        m1 \<leftarrow> (if \<not> isInMyorg env g (peer_with (rp_PKIID peer)) then strip m else Some m);
        (m2, outs) \<leftarrow> alive_peers env g m1 peers;
        Some (m2, Sv_Send m1 [peer] # outs)
      })
   }"

fun alive_sends ::
  "senv \<Rightarrow> GossipService \<Rightarrow> (nat \<Rightarrow> nat list) \<Rightarrow> Peer list \<Rightarrow> nat \<Rightarrow> EmittedGossipMessage list \<Rightarrow>
   (SignedGossipMessage list \<times> svc_out list) option" where
  "alive_sends env g perm membership n [] = Some ([], [])"
| "alive_sends env g perm membership n (em # ems) =
     (if GetAliveMsg (em_content em) = None then alive_sends env g perm membership (Suc n) ems
      else do {
        mem \<leftarrow> member_of (em_msg em);
        let selectByOriginOrg = peersByOriginOrgPolicy env g (peer_with (mb_PkiId mem));
        let selector = CombineRoutingFilters [selectByOriginOrg, \<lambda>peer. em_Filter em (p_PKIid peer)];
        let peers2Send = SelectPeers (perm n) (cf_PropagatePeerNum (gs_Conf g)) membership selector;
        (m, outs) \<leftarrow> alive_peers env g (em_msg em) peers2Send;
        (ms, outs') \<leftarrow> alive_sends env g perm membership (Suc n) ems;
        Some (m # ms, outs @ outs')
      })"

text \<open>A batch: what is sent, and the alive messages as they are afterwards.\<close>

definition sendGossipBatch ::
  "senv \<Rightarrow> (draw \<Rightarrow> nat list) \<Rightarrow> GossipService \<Rightarrow> EmittedGossipMessage list \<Rightarrow> (SignedGossipMessage list \<times> svc_out list) option" where
  "sendGossipBatch env perm g msgs =
     (if gs_Discovery g = None then Some ([], [])
      else do {
        ga \<leftarrow> adapter_of env g;
        (blocks, msgs1) \<leftarrow> partitionMessages (\<lambda>em. Some (GetDataMsg (em_content em) \<noteq> None)) msgs;
        out1 \<leftarrow> gossipInChan env g (\<lambda>n. perm (DrawBlocks n)) (chan_filter env g ga) blocks;
        (leadershipMsgs, msgs2) \<leftarrow> partitionMessages (\<lambda>em. Some (GetLeadershipMsg (em_content em) \<noteq> None)) msgs1;
        out2 \<leftarrow> gossipInChan env g (\<lambda>n. perm (DrawLeadership n)) (chan_filter env g ga) leadershipMsgs;
        (stateInfoMsgs, msgs3) \<leftarrow> partitionMessages (\<lambda>em. Some (GetStateInfo (em_content em) \<noteq> None)) msgs2;
        out3 \<leftarrow> state_sends env g ga (\<lambda>n. perm (DrawState n)) 0 stateInfoMsgs;
        (orgMsgs, msgs4) \<leftarrow> partitionMessages (isOrgRestricted env g) msgs3;
        let peers2Send = SelectPeers (perm DrawOrg) (cf_PropagatePeerNum (gs_Conf g)) (ga_membership ga) (isInMyorg env g);
        let out4 = map (\<lambda>msg. Sv_Send (em_msg msg) (removeSelfLoop msg peers2Send)) orgMsgs;
        (ms, out5) \<leftarrow> alive_sends env g (\<lambda>n. perm (DrawAlive n)) (ga_membership ga) 0 msgs4;
        Some (ms, out1 @ out2 @ out3 @ out4 @ out5)
      })"

section \<open>The emitter\<close>

definition emitter_Add :: "EmittedGossipMessage \<Rightarrow> GossipService \<Rightarrow> GossipService \<times> svc_out list" where
  "emitter_Add em g = (let (e, batches) = BatchingEmitter_Add em (gs_Emitter g) in (g\<lparr>gs_Emitter := e\<rparr>, map Sv_Batch batches))"

definition gossip_all :: "SignedGossipMessage \<Rightarrow> EmittedGossipMessage" where
  "gossip_all m = \<lparr>em_msg = m, em_Filter = (\<lambda>_. True)\<rparr>"

definition forward_from :: "ReceivedMessage \<Rightarrow> EmittedGossipMessage option" where
  "forward_from m = map_option (\<lambda>ci. \<lparr>em_msg = rm_msg m, em_Filter = IsNotSameFilter (ci_ID ci)\<rparr>) (rm_ConnInfo m)"

text \<open>The functions of discovery's adapter.\<close>

definition GossipFunc :: "SignedGossipMessage \<Rightarrow> GossipService \<Rightarrow> GossipService \<times> svc_out list" where
  "GossipFunc m g = (if cf_PropagateIterations (gs_Conf g) = 0 then (g, []) else emitter_Add (gossip_all m) g)"

definition ForwardFunc :: "ReceivedMessage \<Rightarrow> GossipService \<Rightarrow> (GossipService \<times> svc_out list) option" where
  "ForwardFunc m g =
     (if cf_PropagateIterations (gs_Conf g) = 0 then Some (g, [])
      else map_option (\<lambda>em. emitter_Add em g) (forward_from m))"

definition GossipAdapter_Gossip :: "SignedGossipMessage \<Rightarrow> GossipService \<Rightarrow> GossipService \<times> svc_out list" where
  "GossipAdapter_Gossip m g = emitter_Add (gossip_all m) g"

definition GossipAdapter_Forward :: "ReceivedMessage \<Rightarrow> GossipService \<Rightarrow> (GossipService \<times> svc_out list) option" where
  "GossipAdapter_Forward m g = map_option (\<lambda>em. emitter_Add em g) (forward_from m)"

end
