(* ===== verification/GossipNode.thy ===== *)
theory GossipNode
  imports GossipSvc
begin

text \<open>
  The gossip service's handlers and operations (gossip.go): a received message from its validation to
  the channel, discovery or the puller of identities it is for, the operations of the \<open>Gossip\<close>
  interface, and the construction of a service. Here the components meet: what a channel, discovery
  or the puller gives out is run on the service's emitter, mapper and demultiplexer. Starting a
  goroutine or a timer is an output, and what it does is an operation of its own.
\<close>

declare map_of_eq_Some_iff [simp del] Some_eq_map_of_iff [simp del]

section \<open>Running the outputs of the components\<close>

definition run_chan_out ::
  "chan_out \<Rightarrow> GossipService \<times> svc_out list \<Rightarrow> (GossipService \<times> svc_out list) option" where
  "run_chan_out a = (\<lambda>(g, outs). map_option (\<lambda>(g', outs'). (g', outs @ outs'))
     (case a of
        Ch_Respond m msg \<Rightarrow> Some (g, [Sv_Respond m msg])
      | Ch_Send m peers \<Rightarrow> Some (g, [Sv_Send m peers])
      | Ch_Gossip mo \<Rightarrow> map_option (\<lambda>m. GossipAdapter_Gossip m g) mo
      | Ch_Forward m \<Rightarrow> GossipAdapter_Forward m g
      | Ch_DeMultiplex m \<Rightarrow>
          (let (d, ok) = DeMultiplex m (gs_demux g) in Some (g\<lparr>gs_demux := d\<rparr>, [Sv_DeMultiplex m ok]))
      | Ch_Pull p \<Rightarrow> Some (g, [Sv_Pull p])))"

definition run_disc_out ::
  "disc_out \<Rightarrow> GossipService \<times> svc_out list \<Rightarrow> (GossipService \<times> svc_out list) option" where
  "run_disc_out a = (\<lambda>(g, outs). map_option (\<lambda>(g', outs'). (g', outs @ outs'))
     (case a of
        OutSend m peer \<Rightarrow> Some (g, [Sv_Send m [peer]])
      | OutGossip m \<Rightarrow> Some (GossipFunc m g)
      | OutForward m \<Rightarrow> ForwardFunc m g
      | OutCloseConn peer \<Rightarrow> Some (g, [Sv_CloseConn peer])
      | _ \<Rightarrow> Some (g, [Sv_DiscoveryOut a])))"

text \<open>An operation of discovery, with the mapper it shares.\<close>

definition on_disc ::
  "(denv \<Rightarrow> disc \<Rightarrow> disc option) \<Rightarrow> senv \<Rightarrow> GossipService \<Rightarrow> (GossipService \<times> svc_out list) option" where
  "on_disc f env g = do {
     d \<leftarrow> gs_Discovery g;
     d' \<leftarrow> f (denv_of env g) (d\<lparr>di_idMapper := gs_IdMapper g, di_out := []\<rparr>);
     foldM run_disc_out (di_out d') (g\<lparr>gs_Discovery := Some (d'\<lparr>di_out := []\<rparr>), gs_IdMapper := di_idMapper d'\<rparr>, [])
   }"

text \<open>An operation of one of the channels.\<close>

definition on_channel ::
  "(GossipAdapter \<Rightarrow> GossipChannel \<Rightarrow> (GossipChannel \<times> chan_out list) option) \<Rightarrow> senv \<Rightarrow> GossipChannel \<Rightarrow>
   GossipService \<Rightarrow> (GossipService \<times> svc_out list) option" where
  "on_channel f env gc g = do {
     ga \<leftarrow> adapter_of env g;
     (gc', outs) \<leftarrow> f ga gc;
     foldM run_chan_out outs (put_channel gc' g, [])
   }"

section \<open>The store of identities\<close>

definition identity_Put :: "senv \<Rightarrow> instant \<Rightarrow> PeerIdentity \<Rightarrow> GossipService \<Rightarrow> GossipService" where
  "identity_Put env now idMsg g = g\<lparr>gs_IdMapper :=
     snd (IdMapper_Put (se_mcs env) (se_ExpirationTimes env) now (pi_PkiId idMsg) (pi_Cert idMsg) (gs_IdMapper g))\<rparr>"

definition certConsumer :: "senv \<Rightarrow> instant \<Rightarrow> SignedGossipMessage \<Rightarrow> GossipService \<Rightarrow> GossipService" where
  "certConsumer env now msg g =
     (case GetPeerIdentity (sg_Msg msg) of
        None \<Rightarrow> g
      | Some idMsg \<Rightarrow> if pi_Cert idMsg = None \<or> pi_PkiId idMsg = None then g else identity_Put env now idMsg g)"

text \<open>The hook on requests; a message that is no identity is dereferenced.\<close>

definition cert_hook :: "senv \<Rightarrow> instant \<Rightarrow> SignedGossipMessage list \<Rightarrow> GossipService \<Rightarrow> GossipService option" where
  "cert_hook env now msgs g =
     foldM (\<lambda>msg g. map_option (\<lambda>idMsg. identity_Put env now idMsg g) (GetPeerIdentity (sg_Msg msg))) msgs g"

definition cert_EgressDigFilter :: "senv \<Rightarrow> GossipService \<Rightarrow> ReceivedMessage \<Rightarrow> string \<Rightarrow> bool" where
  "cert_EgressDigFilter env g msg item =
     (case rm_ConnInfo msg of
        None \<Rightarrow> False
      | Some ci \<Rightarrow> sameOrgOrOurOrgPullFilter (se_orgByPeerId env) (gs_SelfOrg g) (GetOrgOfPeer env g) (hasExternalEndpoint g) ci item)"

definition cert_adapter :: "senv \<Rightarrow> GossipService \<Rightarrow> PullAdapter" where
  "cert_adapter env g = \<lparr>pa_IdExtractor = pkiIDFromMsg, pa_EgressDigFilter = Some (cert_EgressDigFilter env g),
     pa_IngressDigFilter = None\<rparr>"

definition createCertStorePuller :: "senv \<Rightarrow> GossipService \<Rightarrow> PullAdapter \<times> pull" where
  "createCertStorePuller env g =
     NewPullMediator (cert_puller_config (cf_InternalEndpoint (gs_Conf g)) (cf_PullPeerNum (gs_Conf g)) (cf_PullInterval (gs_Conf g)))
       (cert_adapter env g)"

definition run_cert_out ::
  "senv \<Rightarrow> instant \<Rightarrow> pull_out \<Rightarrow> GossipService \<times> svc_out list \<Rightarrow> (GossipService \<times> svc_out list) option" where
  "run_cert_out env now a = (\<lambda>(g, outs).
     (case a of
        Pull_Send m peers \<Rightarrow> Some (g, outs @ [Sv_Send m peers])
      | Pull_Respond m msg \<Rightarrow> Some (g, outs @ [Sv_Respond m msg])
      | Pull_Consume m \<Rightarrow> Some (certConsumer env now m g, outs)
      | Pull_Hook h items msgs \<Rightarrow> map_option (\<lambda>g'. (g', outs)) (cert_hook env now msgs g)
      | _ \<Rightarrow> Some (g, outs @ [Sv_Pull a])))"

text \<open>The egress filter is a closure: it is evaluated in the state in which a message is handled.\<close>

definition cert_puller_handle ::
  "senv \<Rightarrow> instant \<Rightarrow> ReceivedMessage \<Rightarrow> GossipService \<Rightarrow> (GossipService \<times> svc_out list) option" where
  "cert_puller_handle env now m g = do {
     (p, outs) \<leftarrow> PullMediator_HandleMessage (se_codec env) (fst (createCertStorePuller env g)) m
                   ((gs_CertPuller g)\<lparr>en_digestFilter := cert_EgressDigFilter env g\<rparr>);
     foldM (run_cert_out env now) outs (g\<lparr>gs_CertPuller := p\<rparr>, [])
   }"

text \<open>What the mapper calls for every identity it drops.\<close>

definition identity_purged :: "bytes \<times> bytes \<Rightarrow> GossipService \<times> svc_out list \<Rightarrow> GossipService \<times> svc_out list" where
  "identity_purged = (\<lambda>(pkiID, _) (g, outs).
     (g\<lparr>gs_CertPuller := PullMediator_Remove (str_of pkiID) (gs_CertPuller g)\<rparr>,
      outs @ [Sv_CloseConn \<lparr>rp_Endpoint = [], rp_PKIID = pkiID\<rparr>]))"

definition svc_SuspectPeers ::
  "senv \<Rightarrow> duration \<Rightarrow> instant \<Rightarrow> (bytes \<Rightarrow> bool) \<Rightarrow> GossipService \<Rightarrow> GossipService \<times> svc_out list" where
  "svc_SuspectPeers env usageTh now isSuspected g =
     (let (im, purges) = SuspectPeers (se_mcs env) usageTh now isSuspected (gs_IdMapper g)
      in fold identity_purged purges (g\<lparr>gs_IdMapper := im\<rparr>, []))"

definition identity_expires :: "instant \<Rightarrow> string \<Rightarrow> GossipService \<Rightarrow> (GossipService \<times> svc_out list) option" where
  "identity_expires now k g =
     map_option (\<lambda>(im, purges). fold identity_purged purges (g\<lparr>gs_IdMapper := im\<rparr>, []))
       (timer_fires now k (gs_IdMapper g))"

section \<open>Received messages\<close>

definition selectOnlyDiscoveryMessages :: "ReceivedMessage \<Rightarrow> bool" where
  "selectOnlyDiscoveryMessages m =
     (let g = sg_Msg (rm_msg m) in GetAliveMsg g \<noteq> None \<or> GetMemReq g \<noteq> None \<or> GetMemRes g \<noteq> None)"

definition msgSelector :: "ReceivedMessage \<Rightarrow> bool" where
  "msgSelector m =
     (let g = sg_Msg (rm_msg m);
          isConn = (GetConn g \<noteq> None); isEmpty = (GetEmpty g \<noteq> None); isPrivateData = IsPrivateDataMsg g
      in \<not> (isConn \<or> isEmpty \<or> isPrivateData))"

text \<open>A closed channel panics and the panic is recovered.\<close>

definition forwardDiscoveryMsg :: "ReceivedMessage \<Rightarrow> GossipService \<Rightarrow> svc_out list" where
  "forwardDiscoveryMsg m g = (if gs_IncClosed g then [] else [Sv_Discovery m])"

text \<open>
  A membership request must introduce the peer it comes from; the nil fields of the request panic.
\<close>

definition memReq_check :: "senv \<Rightarrow> ReceivedMessage \<Rightarrow> bool option" where
  "memReq_check env m =
     (case GetMemReq (sg_Msg (rm_msg m)) of
        None \<Rightarrow> Some True
      | Some memReq \<Rightarrow> do {
          e \<leftarrow> mq_SelfInformation memReq;
          (case ToGossipMessage (se_codec env) e of
             Inl err \<Rightarrow> Some False
           | Inr sMsg \<Rightarrow>
               if GetAliveMsg (sg_Msg sMsg) = None then Some False
               else do {
                 mem \<leftarrow> member_of sMsg;
                 ci \<leftarrow> rm_ConnInfo m;
                 Some (bytes_eq (mb_PkiId mem) (ci_ID ci))
               })
        })"

text \<open>The identities of an update are all checked before the puller sees any.\<close>

fun update_check :: "senv \<Rightarrow> Envelope option list \<Rightarrow> bool option" where
  "update_check env [] = Some True"
| "update_check env (item # items) = do {
     e \<leftarrow> item;
     (case ToGossipMessage (se_codec env) e of
        Inl err \<Rightarrow> Some False
      | Inr m \<Rightarrow>
          if GetPeerIdentity (sg_Msg m) = None then Some False
          else if validateIdMsg (se_mcs env) m \<noteq> None then Some False
          else update_check env items)
   }"

definition handle_identity_pull ::
  "senv \<Rightarrow> instant \<Rightarrow> ReceivedMessage \<Rightarrow> GossipService \<Rightarrow> (GossipService \<times> svc_out list) option" where
  "handle_identity_pull env now m g =
     (let msg = sg_Msg (rm_msg m) in
      if IsPullMsg msg \<and> GetPullMsgType msg = PullMsgType_IDENTITY_MSG
      then do {
        ok \<leftarrow> (case GetDataUpdate msg of None \<Rightarrow> Some True | Some update \<Rightarrow> update_check env (du_Data update));
        (if \<not> ok then Some (g, []) else cert_puller_handle env now m g)
      }
      else Some (g, []))"

definition handle_unrestricted ::
  "senv \<Rightarrow> instant \<Rightarrow> ReceivedMessage \<Rightarrow> GossipService \<Rightarrow> (GossipService \<times> svc_out list) option" where
  "handle_unrestricted env now m g =
     (if selectOnlyDiscoveryMessages m
      then do {
        ok \<leftarrow> memReq_check env m;
        (if \<not> ok then Some (g, [])
         else map_option (\<lambda>(g', outs). (g', forwardDiscoveryMsg m g @ outs)) (handle_identity_pull env now m g))
      }
      else handle_identity_pull env now m g)"

text \<open>
  A message for a channel. A state info of a peer of the own organisation for a channel that is not
  joined is passed on when it is new.
\<close>

definition handle_no_channel ::
  "senv \<Rightarrow> instant \<Rightarrow> ReceivedMessage \<Rightarrow> GossipService \<Rightarrow> (GossipService \<times> svc_out list) option" where
  "handle_no_channel env now m g = do {
     ci \<leftarrow> rm_ConnInfo m;
     (if isInMyorg env g (peer_with (ci_ID ci)) \<and> GetStateInfo (sg_Msg (rm_msg m)) \<noteq> None
      then do {
        (added, store, _) \<leftarrow> MessageStore_Add (NewGossipMessageComparator 0) now (rm_msg m) (gs_StateInfoMsgStore g);
        let g1 = g\<lparr>gs_StateInfoMsgStore := store\<rparr>;
        Some (if added then emitter_Add \<lparr>em_msg = rm_msg m, em_Filter = IsNotSameFilter (ci_ID ci)\<rparr> g1 else (g1, []))
      }
      else Some (g, []))
   }"

definition handle_restricted ::
  "senv \<Rightarrow> instant \<Rightarrow> ReceivedMessage \<Rightarrow> GossipService \<Rightarrow> (GossipService \<times> svc_out list) option" where
  "handle_restricted env now m g = do {
     gco \<leftarrow> LookupChannelForMsg (se_sha env) (gs_ChanState g) m;
     (case gco of
        None \<Rightarrow> handle_no_channel env now m g
      | Some gc \<Rightarrow> do {
          err \<leftarrow> (if GetLeadershipMsg (sg_Msg (rm_msg m)) \<noteq> None then validateLeadershipMessage g (rm_msg m) else Some None);
          (if err \<noteq> None then Some (g, []) else on_channel (\<lambda>ga. chan_HandleMessage ga now m) env gc g)
        })
   }"

definition handleMessage ::
  "senv \<Rightarrow> instant \<Rightarrow> ReceivedMessage option \<Rightarrow> GossipService \<Rightarrow> (GossipService \<times> svc_out list) option" where
  "handleMessage env now mo g =
     (case mo of
        None \<Rightarrow> Some (g, [])
      | Some m \<Rightarrow>
          if gs_StopFlag g then Some (g, [])
          else do {
            (valid, g1) \<leftarrow> validateMsg env now m g;
            (if \<not> valid then Some (g1, [])
             else if IsChannelRestricted (sg_Msg (rm_msg m)) then handle_restricted env now m g1
             else handle_unrestricted env now m g1)
          })"

text \<open>Discovery's goroutine takes a message that was passed to it.\<close>

definition discovery_takes ::
  "senv \<Rightarrow> instant \<Rightarrow> ReceivedMessage \<Rightarrow> GossipService \<Rightarrow> (GossipService \<times> svc_out list) option" where
  "discovery_takes env now m g = on_disc (\<lambda>de. handleMsgFromComm de now (Some m)) env g"

text \<open>One round of \<open>syncDiscovery\<close>, and one presumed death; \<open>None\<close>: the channel of those is full.\<close>

definition syncDiscovery :: "senv \<Rightarrow> instant \<Rightarrow> u64 list \<Rightarrow> GossipService \<Rightarrow> (GossipService \<times> svc_out list) option" where
  "syncDiscovery env now draws g =
     (if gs_StopFlag g then Some (g, [])
      else on_disc (\<lambda>de. InitiateSync de now draws (cf_PullPeerNum (gs_Conf g))) env g)"

definition presumedDeadChanSize :: nat where
  "presumedDeadChanSize = 100"

definition handlePresumedDead :: "bytes \<Rightarrow> GossipService \<Rightarrow> GossipService option" where
  "handlePresumedDead deadEndpoint g =
     (if length (gs_PresumedDead g) < presumedDeadChanSize
      then Some (g\<lparr>gs_PresumedDead := gs_PresumedDead g @ [deadEndpoint]\<rparr>) else None)"

text \<open>A round of the emitter, and of the expiration of state infos of channels that are not joined.\<close>

definition svc_periodicEmit :: "GossipService \<Rightarrow> GossipService \<times> svc_out list" where
  "svc_periodicEmit g = (let (e, batches) = periodicEmit (gs_Emitter g) in (g\<lparr>gs_Emitter := e\<rparr>, map Sv_Batch batches))"

definition stateInfo_expirationTick :: "instant \<Rightarrow> GossipService \<Rightarrow> GossipService" where
  "stateInfo_expirationTick now g = g\<lparr>gs_StateInfoMsgStore := fst (expirationTick now (gs_StateInfoMsgStore g))\<rparr>"

section \<open>The operations of the interface\<close>

definition svc_Gossip ::
  "senv \<Rightarrow> instant \<Rightarrow> GossipMessage \<Rightarrow> GossipService \<Rightarrow> (GossipService \<times> svc_out list) option" where
  "svc_Gossip env now msg g =
     (if IsTagLegal msg \<noteq> None then None
      else (let (sMsg, err) =
              (if GetDataMsg msg \<noteq> None then NoopSign (se_codec env) msg
               else (case Sign (se_codec env) mcs_Sign \<lparr>sg_Envelope = None, sg_Msg = msg\<rparr> of
                       (Inl e, s) \<Rightarrow> (s, Some e)
                     | (Inr _, s) \<Rightarrow> (s, None)))
            in if err \<noteq> None then Some (g, [])
               else do {
                 r \<leftarrow> (if IsChannelRestricted msg
                       then (case GetGossipChannelByChainID (gs_ChanState g) (gm_Channel msg) of
                               None \<Rightarrow> Some None
                             | Some gc \<Rightarrow>
                                 if GetDataMsg msg \<noteq> None
                                 then map_option Some (on_channel (\<lambda>ga gc. map_option (\<lambda>gc'. (gc', [])) (AddToMsgStore ga now sMsg gc)) env gc g)
                                 else Some (Some (g, [])))
                       else Some (Some (g, [])));
                 (case r of
                    None \<Rightarrow> Some (g, [])
                  | Some (g1, outs) \<Rightarrow>
                      if cf_PropagateIterations (gs_Conf g1) = 0 then Some (g1, outs)
                      else (let (g2, outs') = emitter_Add (gossip_all sMsg) g1 in Some (g2, outs @ outs')))
               }))"

definition svc_Send :: "senv \<Rightarrow> GossipMessage \<Rightarrow> RemotePeer list \<Rightarrow> svc_out list" where
  "svc_Send env msg peers =
     (case NoopSign (se_codec env) msg of (_, Some err) \<Rightarrow> [] | (m, None) \<Rightarrow> [Sv_Send m peers])"

text \<open>
  \<open>SendByCriteria\<close>: the results are what \<open>SendWithAck\<close> returns for the peers it is called with;
  \<open>quote\<close> is how JSON writes a string.
\<close>

definition SendByCriteria ::
  "senv \<Rightarrow> (string \<Rightarrow> string) \<Rightarrow> nat list \<Rightarrow> (RemotePeer list \<Rightarrow> sendResult list) \<Rightarrow> SignedGossipMessage \<Rightarrow> SendCriteria \<Rightarrow>
   GossipService \<Rightarrow> (error option \<times> svc_out list) option" where
  "SendByCriteria env quote perm results msg criteria g =
     (if scr_MaxPeers criteria = 0 then Some (None, [])
      else if scr_Timeout criteria = 0 then Some (Some (Error ''Timeout should be specified''), [])
      else do {
        ga \<leftarrow> adapter_of env g;
        let eligible = (case scr_IsEligible criteria of None \<Rightarrow> SelectAllPolicy | Some f \<Rightarrow> f);
        r \<leftarrow> (if 0 < bytes_len (scr_Channel criteria)
              then (case GetGossipChannelByChainID (gs_ChanState g) (scr_Channel criteria) of
                      None \<Rightarrow> Some (Inl (Error (''requested to Send for channel '' @ str_of (scr_Channel criteria) @ '', but no such channel exists'')))
                    | Some gc \<Rightarrow> map_option Inr (GetPeers ga gc))
              else Some (Inr (ga_membership ga)));
        (case r of
           Inl err \<Rightarrow> Some (Some err, [])
         | Inr membership \<Rightarrow>
             (let peers2send = SelectPeers perm (scr_MaxPeers criteria) membership eligible in
              if int (length peers2send) < scr_MinAck criteria
              then Some (Some (Error (''requested to send to at least '' @ fmt_int (scr_MinAck criteria) @ '' peers, but know only of '' @
                     fmt_int (int (length peers2send)) @ '' suitable peers'')), [])
              else (let rs = results peers2send in
                    Some (if AckCount rs < scr_MinAck criteria then Some (Error (AggregatedSendResults_String quote rs)) else None,
                          [Sv_SendWithAck msg (scr_Timeout criteria) (scr_MinAck criteria) peers2send]))))
      })"

definition svc_Peers :: "GossipService \<Rightarrow> Peer list option" where
  "svc_Peers g = do { d \<leftarrow> gs_Discovery g; GetMembership d }"

definition PeersOfChannel :: "senv \<Rightarrow> bytes \<Rightarrow> GossipService \<Rightarrow> Peer list option" where
  "PeersOfChannel env chainID g =
     (case GetGossipChannelByChainID (gs_ChanState g) chainID of
        None \<Rightarrow> Some []
      | Some gc \<Rightarrow> do { ga \<leftarrow> adapter_of env g; GetPeers ga gc })"

definition svc_UpdateLedgerHeight ::
  "senv \<Rightarrow> instant \<Rightarrow> u64 \<Rightarrow> bytes \<Rightarrow> GossipService \<Rightarrow> (GossipService \<times> svc_out list) option" where
  "svc_UpdateLedgerHeight env now height chainID g =
     (case GetGossipChannelByChainID (gs_ChanState g) chainID of
        None \<Rightarrow> Some (g, [])
      | Some gc \<Rightarrow> on_channel (\<lambda>ga gc. map_option (\<lambda>gc'. (gc', [])) (UpdateLedgerHeight ga now height gc)) env gc g)"

definition LeaveChan :: "senv \<Rightarrow> instant \<Rightarrow> bytes \<Rightarrow> GossipService \<Rightarrow> (GossipService \<times> svc_out list) option" where
  "LeaveChan env now chainID g =
     (case GetGossipChannelByChainID (gs_ChanState g) chainID of
        None \<Rightarrow> Some (g, [])
      | Some gc \<Rightarrow> on_channel (\<lambda>ga gc. map_option (\<lambda>gc'. (gc', [])) (LeaveChannel ga now gc)) env gc g)"

text \<open>\<open>Receive\<close>: a subscription to what is demultiplexed, and the next message its goroutine passes on.\<close>

definition svc_Receive :: "(GossipMessage \<Rightarrow> bool) \<Rightarrow> bool \<Rightarrow> GossipService \<Rightarrow> GossipService" where
  "svc_Receive acceptor passThrough g =
     (if passThrough then g else g\<lparr>gs_demux := AddChannel (\<lambda>m. acceptor (sg_Msg m)) (gs_demux g)\<rparr>)"

definition Receive_next :: "nat \<Rightarrow> GossipService \<Rightarrow> (GossipMessage \<times> GossipService) option" where
  "Receive_next i g =
     (let chs = dm_channels (gs_demux g) in
      if length chs \<le> i then None
      else (case ch_ch (chs ! i) of
              [] \<Rightarrow> None
            | m # ms \<Rightarrow> Some (sg_Msg m, g\<lparr>gs_demux := (gs_demux g)\<lparr>dm_channels := chs[i := (chs ! i)\<lparr>ch_ch := ms\<rparr>]\<rparr>\<rparr>)))"

section \<open>Anchor and bootstrap peers\<close>

text \<open>Asking discovery for itself counts as an alive message: it takes a sequence number.\<close>

definition selfNetworkMember :: "senv \<Rightarrow> GossipService \<Rightarrow> Peer \<times> GossipService" where
  "selfNetworkMember env g =
     (let self = empty_peer\<lparr>p_Endpoint := cf_ExternalEndpoint (gs_Conf g), p_PKIid := gs_PKIID g, p_Metadata := Some [],
            p_InternalEndpoint := cf_InternalEndpoint (gs_Conf g)\<rparr>
      in case gs_Discovery g of
           None \<Rightarrow> (self, g)
         | Some d \<Rightarrow> (let (p, d') = disc_Self (denv_of env g) d in
                      (self\<lparr>p_Metadata := p_Metadata p\<rparr>, g\<lparr>gs_Discovery := Some d'\<rparr>)))"

text \<open>The identifiers that \<open>Connect\<close> calls, on the result of a handshake.\<close>

definition anchor_id :: "senv \<Rightarrow> GossipService \<Rightarrow> bytes \<Rightarrow> string \<Rightarrow> error + bytes \<Rightarrow> error + PeerId" where
  "anchor_id env g orgOfAnchorPeers endpoint r =
     (case r of
        Inl err \<Rightarrow> Inl err
      | Inr remotePeerId \<Rightarrow>
          (let isAnchorPeerInMyOrg = bytes_eq (gs_SelfOrg g) (se_orgByPeerId env remotePeerId);
               pkiID = GetPKIidOfCert remotePeerId in
           if bytes_eq orgOfAnchorPeers (gs_SelfOrg g) \<and> \<not> isAnchorPeerInMyOrg
           then Inl (Error (''Anchor peer '' @ endpoint @ '' isn't in our org, but is claimed to be''))
           else if bytes_len pkiID = 0
           then Inl (Error (''Wasn't able to extract PKI-ID of remote peer with id of '' @ fmt_bytes remotePeerId))
           else Inr \<lparr>pid_ID = pkiID, pid_SelfOrg = isAnchorPeerInMyOrg\<rparr>))"

definition bootstrap_id :: "senv \<Rightarrow> GossipService \<Rightarrow> string \<Rightarrow> error + bytes \<Rightarrow> error + PeerId" where
  "bootstrap_id env g endpoint r =
     (case r of
        Inl err \<Rightarrow> Inl err
      | Inr remotePeerId \<Rightarrow>
          (let sameOrg = bytes_eq (gs_SelfOrg g) (se_orgByPeerId env remotePeerId); pkiID = GetPKIidOfCert remotePeerId in
           if \<not> sameOrg then Inl (Error (endpoint @ '' isn't in our organization, cannot be a bootstrap peer''))
           else if bytes_len pkiID = 0
           then Inl (Error (''Wasn't able to extract PKI-ID of remote peer with id of '' @ fmt_bytes remotePeerId))
           else Inr \<lparr>pid_ID = pkiID, pid_SelfOrg = sameOrg\<rparr>))"

text \<open>
  The attempts to an endpoint are the results of its handshakes with the nonces drawn. The goroutine
  of \<open>Connect\<close> runs at once.
\<close>

type_synonym handshakes = "string \<Rightarrow> ((error + bytes) \<times> u64) list"

definition connect_to ::
  "(error + bytes \<Rightarrow> error + PeerId) \<Rightarrow> senv \<Rightarrow> instant \<Rightarrow> handshakes \<Rightarrow> string \<Rightarrow> GossipService \<Rightarrow> (GossipService \<times> svc_out list) option" where
  "connect_to idf env now hs endpoint g =
     on_disc (\<lambda>de d. Some (Connect de now (map (\<lambda>(r, nonce). (idf r, nonce)) (hs endpoint))
       (empty_peer\<lparr>p_InternalEndpoint := endpoint, p_Endpoint := endpoint\<rparr>) d)) env g"

definition learn_anchor ::
  "senv \<Rightarrow> instant \<Rightarrow> handshakes \<Rightarrow> bytes \<Rightarrow> AnchorPeer \<Rightarrow> GossipService \<times> svc_out list \<Rightarrow> (GossipService \<times> svc_out list) option" where
  "learn_anchor env now hs orgOfAnchorPeers ap = (\<lambda>(g, outs).
     (if ap_Host ap = [] then Some (g, outs)
      else if ap_Port ap = 0 then Some (g, outs)
      else
        (let endpoint = ap_Host ap @ '':'' @ fmt_int (ap_Port ap);
             (self, g1) = selfNetworkMember env g in
         if p_Endpoint self = endpoint then Some (g1, outs)
         else (let (self2, g2) = selfNetworkMember env g1 in
           if p_InternalEndpoint self2 = endpoint then Some (g2, outs)
           else (let inOurOrg = bytes_eq (gs_SelfOrg g2) orgOfAnchorPeers;
                     (self3, g3) = (if inOurOrg then (self2, g2) else selfNetworkMember env g2) in
             if \<not> inOurOrg \<and> p_Endpoint self3 = [] then Some (g3, outs)
             else map_option (\<lambda>(g', outs'). (g', outs @ outs'))
               (connect_to (anchor_id env g3 orgOfAnchorPeers endpoint) env now hs endpoint g3))))))"

definition learnAnchorPeers ::
  "senv \<Rightarrow> instant \<Rightarrow> handshakes \<Rightarrow> bytes \<Rightarrow> AnchorPeer list \<Rightarrow> GossipService \<times> svc_out list \<Rightarrow> (GossipService \<times> svc_out list) option" where
  "learnAnchorPeers env now hs orgOfAnchorPeers anchorPeers st =
     (if length anchorPeers = 0 then Some st else foldM (learn_anchor env now hs orgOfAnchorPeers) anchorPeers st)"

definition connect2BootstrapPeers ::
  "senv \<Rightarrow> instant \<Rightarrow> handshakes \<Rightarrow> GossipService \<Rightarrow> (GossipService \<times> svc_out list) option" where
  "connect2BootstrapPeers env now hs g =
     foldM (\<lambda>endpoint (g, outs). map_option (\<lambda>(g', outs'). (g', outs @ outs'))
         (connect_to (bootstrap_id env g endpoint) env now hs endpoint g))
       (cf_BootstrapPeers (gs_Conf g)) (g, [])"

definition JoinChan ::
  "senv \<Rightarrow> instant \<Rightarrow> instant \<Rightarrow> instant \<Rightarrow> handshakes \<Rightarrow> JoinChanMsg \<Rightarrow> bytes \<Rightarrow> GossipService \<Rightarrow> (GossipService \<times> svc_out list) option" where
  "JoinChan env now now1 now2 hs joinMsg chainID g = do {
     ga \<leftarrow> adapter_of env g;
     cs \<leftarrow> JoinChannel ga (se_config env) now now1 now2 (gs_PKIID g) (gs_SelfOrg g) joinMsg chainID (gs_ChanState g);
     foldM (\<lambda>org. learnAnchorPeers env now hs org (AnchorPeersOf org joinMsg)) (JoinChanMsg_Peers joinMsg)
       (g\<lparr>gs_ChanState := cs\<rparr>, [])
   }"

section \<open>Starting and stopping\<close>

definition svc_Stop :: "GossipService \<Rightarrow> GossipService \<times> svc_out list" where
  "svc_Stop g =
     (if gs_StopFlag g then (g, [])
      else (g\<lparr>gs_StopFlag := True, gs_ChanState := ChannelState_Stop (gs_ChanState g), gs_IncClosed := True,
              gs_Discovery := map_option (\<lambda>d. disc_Stop (d\<lparr>di_stopping := True\<rparr>)) (gs_Discovery g),
              gs_CertPuller := pull_Stop (gs_CertPuller g), gs_Emitter := BatchingEmitter_Stop (gs_Emitter g),
              gs_demux := demux_Close (gs_demux g),
              gs_StateInfoMsgStore := MessageStore_Stop (gs_StateInfoMsgStore g)\<rparr>, [Sv_CommStop]))"

text \<open>\<open>newCertStore\<close>: the own identity goes into the mapper and the puller, and the hook is registered.\<close>

definition self_identity :: "bytes \<Rightarrow> GossipMessage" where
  "self_identity selfId = \<lparr>gm_Nonce = 0, gm_Channel = None, gm_Tag = Tag_EMPTY,
     gm_Content = Some (PeerIdentityMsg \<lparr>pi_PkiId = GetPKIidOfCert selfId, pi_Cert = selfId, pi_Metadata = None\<rparr>)\<rparr>"

definition newCertStore :: "senv \<Rightarrow> instant \<Rightarrow> GossipService \<Rightarrow> GossipService" where
  "newCertStore env now g =
     (let selfId = gs_SelfId g;
          (ad, p) = createCertStorePuller env g;
          im = snd (IdMapper_Put (se_mcs env) (se_ExpirationTimes env) now (GetPKIidOfCert selfId) selfId (gs_IdMapper g));
          selfIDMsg = snd (Sign (se_codec env) IdMapper_Sign \<lparr>sg_Envelope = None, sg_Msg = self_identity selfId\<rparr>)
      in g\<lparr>gs_IdMapper := im, gs_CertPuller := RegisterMsgHook RequestMsgType 0 (PullMediator_Add ad selfIDMsg p)\<rparr>)"

text \<open>The service before its communication and its discovery are there. The puller is not set yet.\<close>

definition initial_service :: "senv \<Rightarrow> instant \<Rightarrow> GossipConfig \<Rightarrow> bytes \<Rightarrow> GossipService" where
  "initial_service env now conf selfId =
     \<lparr>gs_SelfId = selfId, gs_IncludeIdPeriod = now + cf_PublishCertPeriod conf,
      gs_IdMapper = NewIdMapper (se_mcs env) (se_ExpirationTimes env) now selfId,
      gs_PresumedDead = [], gs_Discovery = None, gs_PKIID = GetPKIidOfCert selfId,
      gs_SelfOrg = se_orgByPeerId env selfId, gs_demux = NewChannelDemultiplexer, gs_Conf = conf, gs_StopFlag = False,
      gs_Emitter = NewBatchingEmitter (cf_PropagateIterations conf) (cf_MaxPropagationBurstSize conf),
      gs_IncClosed = False, gs_ChanState = \<lparr>cst_Stopping = False, cst_Channels = []\<rparr>,
      gs_StateInfoMsgStore = NewMessageStoreExpirable (cf_PublishStateInfoInterval conf * 100),
      gs_CertPuller = snd (NewPullMediator (cert_puller_config [] 0 0)
        \<lparr>pa_IdExtractor = pkiIDFromMsg, pa_EgressDigFilter = None, pa_IngressDigFilter = None\<rparr>)\<rparr>"

text \<open>
  The construction of a service: the inner \<open>None\<close> is the nil a failure of the communication layer
  returns, the outer one a panic of discovery's.
\<close>

definition NewGossipServiceWithServer ::
  "senv \<Rightarrow> instant \<Rightarrow> error option \<Rightarrow> GossipConfig \<Rightarrow> bytes \<Rightarrow> GossipService option option" where
  "NewGossipServiceWithServer env now comm_err conf selfId =
     (if comm_err \<noteq> None then Some None
      else do {
        let g0 = initial_service env now conf selfId;
        d \<leftarrow> NewDiscoveryService (denv_of env g0) now (fst (selfNetworkMember env g0)) (gs_IdMapper g0);
        Some (Some (newCertStore env now (g0\<lparr>gs_Discovery := Some d\<rparr>)))
      })"

definition BootPeers :: "int \<Rightarrow> int list \<Rightarrow> string list" where
  "BootPeers portPrefix ids = map (\<lambda>i. ''localhost:'' @ fmt_int (i + portPrefix)) ids"

definition default_config :: "int \<Rightarrow> int \<Rightarrow> int \<Rightarrow> int list \<Rightarrow> GossipConfig" where
  "default_config portPrefix i maxMsgCount boot =
     (let port = i + portPrefix in
      \<lparr>cf_BindPort = port, cf_ID = ''p'' @ fmt_int i, cf_BootstrapPeers = BootPeers portPrefix boot,
       cf_PropagateIterations = 1, cf_PropagatePeerNum = 3, cf_MaxBlockCountToStore = maxMsgCount,
       cf_MaxPropagationBurstSize = 20, cf_MaxPropagationBurstLatency = 500 * millisecond,
       cf_PullInterval = 4 * second, cf_PullPeerNum = 5, cf_PublishCertPeriod = 4 * second,
       cf_PublishStateInfoInterval = second, cf_RequestStateInfoInterval = second,
       cf_InternalEndpoint = ''localhost:'' @ fmt_int port, cf_ExternalEndpoint = ''1.2.3.4:'' @ fmt_int port\<rparr>)"

definition DefaultGossipInstance ::
  "senv \<Rightarrow> instant \<Rightarrow> error option \<Rightarrow> int \<Rightarrow> int \<Rightarrow> int \<Rightarrow> int list \<Rightarrow> GossipService option option" where
  "DefaultGossipInstance env now comm_err portPrefix i maxMsgCount boot =
     (let conf = default_config portPrefix i maxMsgCount boot in
      NewGossipServiceWithServer (env\<lparr>se_orgByPeerId := OrgCryptoService_OrgByPeerId\<rparr>) now comm_err conf (Some (cf_InternalEndpoint conf)))"

end
