(* ===== verification/GossipInv.thy ===== *)
theory GossipInv
  imports GossipNode DiscoveryProps ChannelOps
begin

text \<open>
  The invariant of a gossip service. Every operation of the service is built from steps of its
  components: a step of discovery, of a channel, of the mapper, and additions to the emitter and the
  demultiplexer, which the invariant does not speak of. So the invariants of the components carry
  over, and the service's disclosure policy discharges what discovery assumes of one.
\<close>

declare map_of_eq_Some_iff [simp del] Some_eq_map_of_iff [simp del]

section \<open>The disclosure policy keeps discovery's contract\<close>

lemma service_policy_ok: "policy_ok (disclosurePolicy env g p)"
proof -
  have m: "\<exists>mem. member_of m = Some mem" if "alive_ok m" for m
    using that by (auto simp: member_of_def elim!: alive_okE)
  have e: "sg_Envelope m = Some e \<Longrightarrow> m = m\<lparr>sg_Envelope := Some e\<rparr>" for m e
    by (metis SignedGossipMessage.surjective SignedGossipMessage.update_convs(1))
  show ?thesis
    by (auto simp: policy_ok_def disclosurePolicy_def strip_def Let_def bind_eq_Some_conv intro: e dest!: m)
qed

lemma service_policies_ok: "policies_ok (denv_of env g)"
  by (simp add: policies_ok_def denv_of_def service_policy_ok)

section \<open>What the outputs touch\<close>

definition same_core :: "GossipService \<Rightarrow> GossipService \<Rightarrow> bool" where
  "same_core g g' \<longleftrightarrow> (\<exists>e d. g' = g\<lparr>gs_Emitter := e, gs_demux := d\<rparr>)"

lemma same_core_put [simp]: "same_core g (g\<lparr>gs_Emitter := e\<rparr>)" "same_core g (g\<lparr>gs_demux := d\<rparr>)"
proof -
  have "g\<lparr>gs_Emitter := e\<rparr> = g\<lparr>gs_Emitter := e, gs_demux := gs_demux g\<rparr>" by simp
  then show "same_core g (g\<lparr>gs_Emitter := e\<rparr>)" unfolding same_core_def by blast
  have "g\<lparr>gs_demux := d\<rparr> = g\<lparr>gs_Emitter := gs_Emitter g, gs_demux := d\<rparr>" by simp
  then show "same_core g (g\<lparr>gs_demux := d\<rparr>)" unfolding same_core_def by blast
qed

lemma same_core_refl [simp]: "same_core g g"
  using same_core_put(1) [of g "gs_Emitter g"] by simp

lemma same_core_trans: "same_core a b \<Longrightarrow> same_core b c \<Longrightarrow> same_core a c"
  by (auto simp: same_core_def) blast

lemma same_core_fields:
  assumes "same_core g g'"
  shows "gs_IdMapper g' = gs_IdMapper g" "gs_Discovery g' = gs_Discovery g" "gs_ChanState g' = gs_ChanState g"
    "gs_StateInfoMsgStore g' = gs_StateInfoMsgStore g" "gs_CertPuller g' = gs_CertPuller g" "gs_Conf g' = gs_Conf g"
    "gs_SelfOrg g' = gs_SelfOrg g" "gs_StopFlag g' = gs_StopFlag g" "gs_PKIID g' = gs_PKIID g" "gs_SelfId g' = gs_SelfId g"
  using assms by (auto simp: same_core_def)

lemma emitter_Add_core: "same_core g (fst (emitter_Add em g))"
  by (simp add: emitter_Add_def split: prod.splits)

lemma emitter_Add_core': "emitter_Add em g = (g', outs) \<Longrightarrow> same_core g g'"
  using emitter_Add_core [of g em] by simp

lemma GossipFunc_core: "same_core g (fst (GossipFunc m g))"
  by (simp add: GossipFunc_def emitter_Add_core)

lemma ForwardFunc_core: "ForwardFunc m g = Some (g', outs) \<Longrightarrow> same_core g g'"
  by (auto simp: ForwardFunc_def dest: emitter_Add_core' split: if_splits)

lemma run_chan_out_core:
  assumes "run_chan_out a s = Some s'"
  shows "same_core (fst s) (fst s')"
proof (cases a)
  case (Ch_DeMultiplex m)
  then show ?thesis using assms by (auto simp: run_chan_out_def split: prod.splits)
qed (use assms in \<open>auto simp: run_chan_out_def GossipAdapter_Gossip_def GossipAdapter_Forward_def emitter_Add_core
    dest: emitter_Add_core' split: prod.splits\<close>)

lemma run_disc_out_core:
  assumes "run_disc_out a s = Some s'"
  shows "same_core (fst s) (fst s')"
proof (cases a)
  case (OutGossip m)
  obtain g outs where s: "s = (g, outs)" by (rule prod.exhaust)
  obtain g' o' where "GossipFunc m g = (g', o')" by (rule prod.exhaust)
  with assms OutGossip s GossipFunc_core [of g m] show ?thesis by (auto simp: run_disc_out_def)
qed (use assms in \<open>auto simp: run_disc_out_def dest: ForwardFunc_core split: prod.splits\<close>)

lemma chan_outs_core: "foldM run_chan_out as s = Some s' \<Longrightarrow> same_core (fst s) (fst s')"
  by (erule foldM_inv [where I = "\<lambda>t. same_core (fst s) (fst t)"]) (auto intro: same_core_trans dest!: run_chan_out_core)

lemma disc_outs_core: "foldM run_disc_out as s = Some s' \<Longrightarrow> same_core (fst s) (fst s')"
  by (erule foldM_inv [where I = "\<lambda>t. same_core (fst s) (fst t)"]) (auto intro: same_core_trans dest!: run_disc_out_core)

section \<open>The invariant\<close>

definition chans_ok :: "(string \<Rightarrow> string) \<Rightarrow> ChannelState \<Rightarrow> bool" where
  "chans_ok sha cs \<longleftrightarrow> map_wf (cst_Channels cs) \<and>
     (\<forall>k gc. map_get (cst_Channels cs) k = Some gc \<longrightarrow> str_of (gch_chainID gc) = k \<and> chan_inv sha gc)"

definition svc_ok :: "senv \<Rightarrow> GossipService \<Rightarrow> bool" where
  "svc_ok env g \<longleftrightarrow> mapper_ok (gs_IdMapper g) \<and> (\<exists>d. gs_Discovery g = Some d \<and> disc_ok d) \<and>
     chans_ok (se_sha env) (gs_ChanState g) \<and> store_ok state_comparator state_ok (gs_StateInfoMsgStore g) \<and>
     pull_ok (gs_CertPuller g)"

lemma svc_okD:
  assumes "svc_ok env g"
  shows "mapper_ok (gs_IdMapper g)" "\<exists>d. gs_Discovery g = Some d \<and> disc_ok d" "chans_ok (se_sha env) (gs_ChanState g)"
    "store_ok state_comparator state_ok (gs_StateInfoMsgStore g)" "pull_ok (gs_CertPuller g)"
  using assms by (auto simp: svc_ok_def)

lemma svc_ok_core: "same_core g g' \<Longrightarrow> svc_ok env g \<Longrightarrow> svc_ok env g'"
  by (simp add: svc_ok_def same_core_fields)

lemma svc_ok_mapper: "svc_ok env g \<Longrightarrow> mapper_ok im \<Longrightarrow> svc_ok env (g\<lparr>gs_IdMapper := im\<rparr>)"
  by (simp add: svc_ok_def)

lemma svc_ok_puller: "svc_ok env g \<Longrightarrow> pull_ok p \<Longrightarrow> svc_ok env (g\<lparr>gs_CertPuller := p\<rparr>)"
  by (simp add: svc_ok_def)

lemma adapter_sha: "adapter_of env g = Some ga \<Longrightarrow> ga_sha ga = se_sha env \<and> ga_codec ga = se_codec env"
  by (auto simp: adapter_of_def bind_eq_Some_conv)

lemma svc_membership:
  assumes "svc_ok env g" "gs_Discovery g = Some d"
  shows "GetMembership d \<noteq> None"
proof (cases "di_toDieFlag d")
  case True
  then show ?thesis by (simp add: GetMembership_def)
next
  case False
  moreover have "disc_ok d" using assms by (auto simp: svc_ok_def)
  ultimately show ?thesis using GetMembership_ok [of d] by auto
qed

lemma svc_adapter: "svc_ok env g \<Longrightarrow> \<exists>ga. adapter_of env g = Some ga"
  using svc_membership [of env g] svc_okD(2) [of env g] by (fastforce simp: adapter_of_def)

section \<open>Every operation keeps it\<close>

lemma put_channel_ok:
  assumes "svc_ok env g" "chan_inv (se_sha env) gc"
  shows "svc_ok env (put_channel gc g)"
  using assms by (auto simp: svc_ok_def put_channel_def chans_ok_def)

lemma on_channel_ok:
  assumes ok: "svc_ok env g" and k: "map_get (cst_Channels (gs_ChanState g)) k = Some gc"
    and on: "on_channel f env gc g = Some (g', outs)"
    and step: "\<And>ga gc' cs. ga_sha ga = se_sha env \<Longrightarrow> ga_codec ga = se_codec env \<Longrightarrow> f ga gc = Some (gc', cs) \<Longrightarrow>
      chan_step (se_sha env) gc gc'"
  shows "svc_ok env g'"
proof -
  from on obtain ga gc' cs where a: "adapter_of env g = Some ga" "f ga gc = Some (gc', cs)"
    "foldM run_chan_out cs (put_channel gc' g, []) = Some (g', outs)"
    by (auto simp: on_channel_def bind_eq_Some_conv)
  have "chan_step (se_sha env) gc gc'" using adapter_sha [OF a(1)] a(2) by (blast intro: step)
  moreover have "chan_inv (se_sha env) gc" using ok k by (auto simp: svc_ok_def chans_ok_def)
  ultimately have "chan_inv (se_sha env) gc'" using chan_step_keeps by (auto simp: keeps_def)
  then have "svc_ok env (put_channel gc' g)" by (rule put_channel_ok [OF ok])
  then show ?thesis by (rule svc_ok_core [OF chan_outs_core [OF a(3), simplified]])
qed

lemma on_disc_ok:
  assumes ok: "svc_ok env g" and on: "on_disc f env g = Some (g', outs)"
    and step: "\<And>d d'. f (denv_of env g) d = Some d' \<Longrightarrow> disc_step (denv_of env g) d d'"
  shows "svc_ok env g'"
proof -
  from on obtain d d' where d: "gs_Discovery g = Some d"
    "f (denv_of env g) (d\<lparr>di_idMapper := gs_IdMapper g, di_out := []\<rparr>) = Some d'"
    "foldM run_disc_out (di_out d') (g\<lparr>gs_Discovery := Some (d'\<lparr>di_out := []\<rparr>), gs_IdMapper := di_idMapper d'\<rparr>, []) = Some (g', outs)"
    by (auto simp: on_disc_def bind_eq_Some_conv)
  have "disc_ok (d\<lparr>di_idMapper := gs_IdMapper g\<rparr>)" using ok d(1) by (intro disc_ok_mapper) (auto simp: svc_ok_def)
  then have "disc_ok (d\<lparr>di_idMapper := gs_IdMapper g, di_out := []\<rparr>)" by simp
  with step [OF d(2)] have "disc_ok d'" by (blast intro: trans_ok_ok disc_step_trans service_policies_ok)
  then have "svc_ok env (g\<lparr>gs_Discovery := Some (d'\<lparr>di_out := []\<rparr>), gs_IdMapper := di_idMapper d'\<rparr>)"
    using ok disc_okD(5) [of d'] by (simp add: svc_ok_def)
  then show ?thesis by (rule svc_ok_core [OF disc_outs_core [OF d(3), simplified]])
qed

lemma by_MAC_in: "by_MAC_loop sha mac pid m = Some gc \<Longrightarrow> \<exists>k. (k, gc) \<in> set m"
  by (induction m) (auto split: if_splits)

lemma lookup_in:
  assumes "LookupChannelForMsg sha cs m = Some (Some gc)" "map_wf (cst_Channels cs)"
  shows "\<exists>k. map_get (cst_Channels cs) k = Some gc"
proof -
  have "\<exists>k. map_get (cst_Channels cs) k = Some gc" if "getGossipChannelByMAC sha cs mac pid = Some gc" for mac pid
    using that by_MAC_in [of sha mac pid "cst_Channels cs" gc] map_entry_iff [OF assms(2)] by (auto simp: getGossipChannelByMAC_def)
  moreover have "\<exists>k. map_get (cst_Channels cs) k = Some gc" if "GetGossipChannelByChainID cs c = Some gc" for c
    using that by (auto simp: GetGossipChannelByChainID_def split: if_splits)
  ultimately show ?thesis
    using assms(1) by (auto simp: LookupChannelForMsg_def LookupChannelForGossipMsg_def split: option.splits)
qed

lemma chain_in: "GetGossipChannelByChainID cs c = Some gc \<Longrightarrow> map_get (cst_Channels cs) (str_of c) = Some gc"
  by (auto simp: GetGossipChannelByChainID_def split: if_splits)

text \<open>The mapper through the puller of identities.\<close>

lemma identity_Put_ok: "svc_ok env g \<Longrightarrow> svc_ok env (identity_Put env now idMsg g)"
  by (simp add: identity_Put_def svc_ok_mapper Put_ok svc_okD)

lemma run_cert_out_ok:
  assumes "run_cert_out env now a (g, outs) = Some (g', outs')" "svc_ok env g"
  shows "svc_ok env g'"
proof (cases a)
  case (Pull_Hook h items msgs)
  then have "cert_hook env now msgs g = Some g'" using assms(1) by (auto simp: run_cert_out_def)
  then show ?thesis unfolding cert_hook_def
    by (rule foldM_inv [where I = "svc_ok env"]) (use assms(2) in \<open>auto intro: identity_Put_ok\<close>)
qed (use assms in \<open>auto simp: run_cert_out_def certConsumer_def identity_Put_ok split: option.splits\<close>)

lemma cert_puller_ok:
  assumes "cert_puller_handle env now m g = Some (g', outs)" "svc_ok env g"
  shows "svc_ok env g'"
proof -
  let ?p = "(gs_CertPuller g)\<lparr>en_digestFilter := cert_EgressDigFilter env g\<rparr>"
  from assms(1) obtain p as where f: "foldM (run_cert_out env now) as (g\<lparr>gs_CertPuller := p\<rparr>, []) = Some (g', outs)"
    and h: "PullMediator_HandleMessage (se_codec env) (fst (createCertStorePuller env g)) m ?p = Some (p, as)"
    by (auto simp: cert_puller_handle_def bind_eq_Some_conv)
  have "pull_ok ?p" using svc_okD(5) [OF assms(2)] by (simp add: pull_ok_def)
  with h have "pull_ok p" by (rule HandleMessage_ok)
  then have "svc_ok env (g\<lparr>gs_CertPuller := p\<rparr>)" by (rule svc_ok_puller [OF assms(2)])
  then have "svc_ok env (fst (g', outs))"
    by (intro foldM_inv [OF f, of "\<lambda>s. svc_ok env (fst s)"]) (use run_cert_out_ok in auto)
  then show ?thesis by simp
qed

lemma purged_ok: "svc_ok env (fst st) \<Longrightarrow> svc_ok env (fst (fold identity_purged ps st))"
  by (induction ps arbitrary: st)
     (auto simp: identity_purged_def svc_ok_puller PullMediator_Remove_ok svc_okD split: prod.splits)

text \<open>Received messages.\<close>

definition timed_recv :: "codec \<Rightarrow> ReceivedMessage \<Rightarrow> bool" where
  "timed_recv c m \<longleftrightarrow> timed_state (rm_msg m) \<and> timed_leader (rm_msg m) \<and>
     (\<forall>ss e r. GetStateSnapshot (sg_Msg (rm_msg m)) = Some ss \<longrightarrow> Some e \<in> set (ss_Elements ss) \<longrightarrow>
        ToGossipMessage c e = Inr r \<longrightarrow> timed_state r)"

lemma validateMsg_ok:
  assumes "validateMsg env now m g = Some (b, g')" "svc_ok env g"
  shows "\<exists>im. g' = g\<lparr>gs_IdMapper := im\<rparr> \<and> mapper_ok im"
proof -
  obtain b' d' where v: "ValidateAliveMsg (denv_of env g) now (rm_msg m) (mapper_view (gs_IdMapper g)) = (b', d')" by (rule prod.exhaust)
  have "mapper_ok (di_idMapper d')"
    using v by (cases rule: ValidateAliveMsg_cases) (use svc_okD(1) [OF assms(2)] in \<open>simp add: mapper_view_def\<close>)
  moreover have "g' = g \<or> g' = g\<lparr>gs_IdMapper := di_idMapper d'\<rparr>"
    using assms(1) v by (auto simp: validateMsg_def Let_def split: if_splits)
  moreover have "g = g\<lparr>gs_IdMapper := gs_IdMapper g\<rparr>" by simp
  ultimately show ?thesis using svc_okD(1) [OF assms(2)] by metis
qed

lemma handle_identity_pull_ok:
  "handle_identity_pull env now m g = Some (g', outs) \<Longrightarrow> svc_ok env g \<Longrightarrow> svc_ok env g'"
  by (auto simp: handle_identity_pull_def Let_def bind_eq_Some_conv split: if_splits dest: cert_puller_ok)

lemma handle_no_channel_ok:
  assumes h: "handle_no_channel env now m g = Some (g', outs)" and ok: "svc_ok env g" and t: "timed_state (rm_msg m)"
  shows "svc_ok env g'"
proof (cases "g' = g")
  case False
  obtain si where si: "GetStateInfo (sg_Msg (rm_msg m)) = Some si"
    using h False by (auto simp: handle_no_channel_def bind_eq_Some_conv split: if_splits)
  from h False obtain b store tr where a: "MessageStore_Add (NewGossipMessageComparator 0) now (rm_msg m) (gs_StateInfoMsgStore g) = Some (b, store, tr)"
    "same_core (g\<lparr>gs_StateInfoMsgStore := store\<rparr>) g'"
    by (auto simp: handle_no_channel_def bind_eq_Some_conv Let_def dest: emitter_Add_core' split: if_splits)
  have "state_ok (rm_msg m)" using timed_state_ok [OF t si] .
  with a(1) have "store_ok state_comparator state_ok store"
    using state_policy.Add_store_ok [of 0, folded state_comparator_def, OF svc_okD(4) [OF ok]] by (simp add: state_comparator_def)
  then have "svc_ok env (g\<lparr>gs_StateInfoMsgStore := store\<rparr>)" using ok by (simp add: svc_ok_def)
  then show ?thesis by (rule svc_ok_core [OF a(2)])
qed (use ok in simp)

lemma handleMessage_ok:
  assumes h: "handleMessage env now mo g = Some (g', outs)" and ok: "svc_ok env g"
    and t: "\<forall>m. mo = Some m \<longrightarrow> timed_recv (se_codec env) m"
  shows "svc_ok env g'"
proof (cases "g' = g")
  case False
  from h False obtain m b g1 where m: "mo = Some m" "validateMsg env now m g = Some (b, g1)"
    by (auto simp: handleMessage_def bind_eq_Some_conv split: option.splits if_splits)
  from validateMsg_ok [OF m(2) ok] have ok1: "svc_ok env g1" using ok svc_ok_mapper by auto
  consider "g' = g1" | "handle_restricted env now m g1 = Some (g', outs)" | "handle_unrestricted env now m g1 = Some (g', outs)"
    using h m False by (auto simp: handleMessage_def split: if_splits)
  then show ?thesis
  proof cases
    case 2
    then obtain gco where l: "LookupChannelForMsg (se_sha env) (gs_ChanState g1) m = Some gco"
      by (auto simp: handle_restricted_def bind_eq_Some_conv)
    show ?thesis
    proof (cases gco)
      case None
      with 2 l t m(1) ok1 show ?thesis by (auto simp: handle_restricted_def timed_recv_def intro: handle_no_channel_ok)
    next
      case (Some gc)
      from l Some ok1 obtain k where k: "map_get (cst_Channels (gs_ChanState g1)) k = Some gc"
        using lookup_in [of "se_sha env" "gs_ChanState g1" m gc] by (auto simp: svc_ok_def chans_ok_def)
      have "g' = g1 \<or> on_channel (\<lambda>ga. chan_HandleMessage ga now m) env gc g1 = Some (g', outs)"
        using 2 l Some by (auto simp: handle_restricted_def bind_eq_Some_conv split: if_splits)
      then show ?thesis
      proof
        assume on: "on_channel (\<lambda>ga. chan_HandleMessage ga now m) env gc g1 = Some (g', outs)"
        show ?thesis
          by (rule on_channel_ok [OF ok1 k on], rule chan_step.message)
             (use t m(1) in \<open>auto simp: timed_recv_def timed_msg_def\<close>)
      qed (use ok1 in simp)
    qed
  next
    case 3
    then show ?thesis using ok1
      by (auto simp: handle_unrestricted_def bind_eq_Some_conv split: if_splits dest: handle_identity_pull_ok)
  qed (use ok1 in simp)
qed (use ok in simp)

section \<open>The operations\<close>

lemma NoopSign_msg: "NoopSign c m = (s, err) \<Longrightarrow> sg_Msg s = m"
  by (auto simp: NoopSign_eq split: sum.splits)

lemma emitted_ok: "emitter_Add em g = (g', outs) \<Longrightarrow> svc_ok env g \<Longrightarrow> svc_ok env g'"
  by (rule svc_ok_core [OF emitter_Add_core'])

text \<open>What \<open>Gossip\<close> does to the state: a block goes to its channel, and the message to the emitter.\<close>

lemma Gossip_cases:
  assumes g: "svc_Gossip env now msg g = Some (g', outs)"
  shows "\<exists>g1. (g1 = g \<or> (\<exists>pl gc sMsg o1. GetDataMsg msg = Some pl \<and> sg_Msg sMsg = msg \<and>
        GetGossipChannelByChainID (gs_ChanState g) (gm_Channel msg) = Some gc \<and>
        on_channel (\<lambda>ga gc. map_option (\<lambda>gc'. (gc', [])) (AddToMsgStore ga now sMsg gc)) env gc g = Some (g1, o1))) \<and>
    (g' = g1 \<or> (\<exists>em o2. emitter_Add em g1 = (g', o2)))"
proof -
  obtain sMsg err where s: "(if GetDataMsg msg \<noteq> None then NoopSign (se_codec env) msg
     else (case Sign (se_codec env) mcs_Sign \<lparr>sg_Envelope = None, sg_Msg = msg\<rparr> of
             (Inl e, s) \<Rightarrow> (s, Some e) | (Inr _, s) \<Rightarrow> (s, None))) = (sMsg, err)" by (rule prod.exhaust)
  let ?r = "if IsChannelRestricted msg
     then (case GetGossipChannelByChainID (gs_ChanState g) (gm_Channel msg) of
             None \<Rightarrow> Some None
           | Some gc \<Rightarrow>
               if GetDataMsg msg \<noteq> None
               then map_option Some (on_channel (\<lambda>ga gc. map_option (\<lambda>gc'. (gc', [])) (AddToMsgStore ga now sMsg gc)) env gc g)
               else Some (Some (g, [])))
     else Some (Some (g, []))"
  show ?thesis
  proof (cases "err = None")
    case True
    then obtain x where x: "?r = Some x" and res: "(case x of None \<Rightarrow> Some (g, [])
        | Some (g1, outs) \<Rightarrow> if cf_PropagateIterations (gs_Conf g1) = 0 then Some (g1, outs)
            else (let (g2, outs') = emitter_Add (gossip_all sMsg) g1 in Some (g2, outs @ outs'))) = Some (g', outs)"
      using g s by (auto simp: svc_Gossip_def Let_def bind_eq_Some_conv split: if_splits)
    show ?thesis
    proof (cases x)
      case (Some y)
      obtain g1 o1 where y: "y = (g1, o1)" by (rule prod.exhaust)
      have "g1 = g \<or> (\<exists>pl gc. GetDataMsg msg = Some pl \<and> sg_Msg sMsg = msg \<and>
          GetGossipChannelByChainID (gs_ChanState g) (gm_Channel msg) = Some gc \<and>
          on_channel (\<lambda>ga gc. map_option (\<lambda>gc'. (gc', [])) (AddToMsgStore ga now sMsg gc)) env gc g = Some (g1, o1))"
        using x Some y s NoopSign_msg by (auto split: if_splits option.splits)
      moreover have "g' = g1 \<or> (\<exists>em o2. emitter_Add em g1 = (g', o2))" using res Some y by (auto split: if_splits prod.splits)
      ultimately show ?thesis by blast
    qed (use res in auto)
  qed (use g s in \<open>auto simp: svc_Gossip_def Let_def split: if_splits\<close>)
qed

lemma Gossip_ok:
  assumes g: "svc_Gossip env now msg g = Some (g', outs)" and ok: "svc_ok env g"
    and d: "\<And>d. GetDataMsg msg = Some d \<Longrightarrow> dm_Payload d \<noteq> None"
  shows "svc_ok env g'"
proof -
  from Gossip_cases [OF g] obtain g1 where g1: "g1 = g \<or> (\<exists>pl gc sMsg o1. GetDataMsg msg = Some pl \<and> sg_Msg sMsg = msg \<and>
        GetGossipChannelByChainID (gs_ChanState g) (gm_Channel msg) = Some gc \<and>
        on_channel (\<lambda>ga gc. map_option (\<lambda>gc'. (gc', [])) (AddToMsgStore ga now sMsg gc)) env gc g = Some (g1, o1))"
      "g' = g1 \<or> (\<exists>em o2. emitter_Add em g1 = (g', o2))" by blast
  have "svc_ok env g1"
  proof (cases "g1 = g")
    case False
    then obtain pl gc sMsg o1 where s: "GetDataMsg msg = Some pl" "sg_Msg sMsg = msg"
      "GetGossipChannelByChainID (gs_ChanState g) (gm_Channel msg) = Some gc"
      "on_channel (\<lambda>ga gc. map_option (\<lambda>gc'. (gc', [])) (AddToMsgStore ga now sMsg gc)) env gc g = Some (g1, o1)" using g1(1) by blast
    then have b: "GetDataMsg (sg_Msg sMsg) \<noteq> None" "block_seqNum sMsg \<noteq> None" using d [OF s(1)] by (auto simp: block_seqNum_def)
    show ?thesis
      by (rule on_channel_ok [OF ok chain_in [OF s(3)] s(4)]) (auto intro: chan_step.block [OF b])
  qed (use ok in simp)
  with g1(2) show ?thesis by (auto dest: emitted_ok)
qed

lemma self_member_ok: "selfNetworkMember env g = (p, g') \<Longrightarrow> svc_ok env g \<Longrightarrow> svc_ok env g'"
  using Self_quiet [of _ "denv_of env g"]
  by (auto simp: selfNetworkMember_def svc_ok_def Let_def split: option.splits prod.splits)
     (metis quiet_trans_ok snd_conv trans_ok_ok)

lemma connect_to_ok: "connect_to idf env now hs endpoint g = Some (g', outs) \<Longrightarrow> svc_ok env g \<Longrightarrow> svc_ok env g'"
  unfolding connect_to_def by (erule on_disc_ok) (auto intro: disc_step.ds_connect)

lemma learn_anchor_ok:
  assumes "learn_anchor env now hs org ap (g, outs) = Some s'" "svc_ok env g"
  shows "svc_ok env (fst s')"
proof -
  obtain p1 g1 where s1: "selfNetworkMember env g = (p1, g1)" by (rule prod.exhaust)
  obtain p2 g2 where s2: "selfNetworkMember env g1 = (p2, g2)" by (rule prod.exhaust)
  obtain p3 g3 where s3: "selfNetworkMember env g2 = (p3, g3)" by (rule prod.exhaust)
  note ok = self_member_ok [OF s1 assms(2)] self_member_ok [OF s2 self_member_ok [OF s1 assms(2)]]
    self_member_ok [OF s3 self_member_ok [OF s2 self_member_ok [OF s1 assms(2)]]]
  show ?thesis using assms(1) ok assms(2)
    by (auto simp: learn_anchor_def s1 s2 s3 Let_def split: if_splits dest: connect_to_ok)
qed

lemma learnAnchorPeers_ok: "learnAnchorPeers env now hs org aps s = Some s' \<Longrightarrow> svc_ok env (fst s) \<Longrightarrow> svc_ok env (fst s')"
  unfolding learnAnchorPeers_def
  by (auto split: if_splits elim!: foldM_inv [where I = "\<lambda>s. svc_ok env (fst s)"] dest: learn_anchor_ok)

lemma join_chans_ok:
  assumes "JoinChannel ga config now now1 now2 pid org j c cs = Some cs'" "chans_ok sha cs"
  shows "chans_ok sha cs'"
proof (cases "cst_Stopping cs")
  case False
  then obtain gc where gc: "cs' = cs\<lparr>cst_Channels := map_put (str_of c) gc (cst_Channels cs)\<rparr>"
    "(case map_get (cst_Channels cs) (str_of c) of
       None \<Rightarrow> newGossipChannel ga config now now1 now2 pid org c j
     | Some gc \<Rightarrow> ConfigureChannel ga now1 now2 j gc) = Some gc"
    using assms(1) by (auto simp: JoinChannel_def)
  have "chan_inv sha gc \<and> str_of (gch_chainID gc) = str_of c"
  proof (cases "map_get (cst_Channels cs) (str_of c)")
    case None
    then show ?thesis using gc(2) new_chan_inv by auto
  next
    case (Some gc0)
    then show ?thesis using gc(2) Configure_keeps [of ga now1 now2 j gc0 gc sha] assms(2)
      by (auto simp: keeps_def same_chan_def chans_ok_def)
  qed
  with gc(1) assms(2) show ?thesis by (auto simp: chans_ok_def)
qed (use assms in \<open>simp add: JoinChannel_def\<close>)

lemma JoinChan_ok:
  assumes "JoinChan env now now1 now2 hs j c g = Some (g', outs)" "svc_ok env g"
  shows "svc_ok env g'"
proof -
  from assms(1) obtain ga cs where j: "JoinChannel ga (se_config env) now now1 now2 (gs_PKIID g) (gs_SelfOrg g) j c (gs_ChanState g) = Some cs"
    "foldM (\<lambda>org. learnAnchorPeers env now hs org (AnchorPeersOf org j)) (JoinChanMsg_Peers j) (g\<lparr>gs_ChanState := cs\<rparr>, []) = Some (g', outs)"
    by (auto simp: JoinChan_def bind_eq_Some_conv)
  have "svc_ok env (g\<lparr>gs_ChanState := cs\<rparr>)" using join_chans_ok [OF j(1)] assms(2) by (simp add: svc_ok_def)
  then have "svc_ok env (fst (g', outs))"
    by (intro foldM_inv [OF j(2), where I = "\<lambda>s. svc_ok env (fst s)"]) (auto dest: learnAnchorPeers_ok)
  then show ?thesis by simp
qed

lemma bootstrap_ok: "connect2BootstrapPeers env now hs g = Some (g', outs) \<Longrightarrow> svc_ok env g \<Longrightarrow> svc_ok env g'"
  unfolding connect2BootstrapPeers_def
  using foldM_inv [where I = "\<lambda>s. svc_ok env (fst s)" and t = "(g', outs)" and s = "(g, [])"]
  by (force dest: connect_to_ok)

lemma chan_Stop_inv: "chan_inv sha gc \<Longrightarrow> chan_inv sha (chan_Stop gc) \<and> gch_chainID (chan_Stop gc) = gch_chainID gc"
  using chan_step_keeps [OF chan_step.stop, of sha gc] by (auto simp: keeps_def same_chan_def)

lemma Stop_chans_ok: "chans_ok sha cs \<Longrightarrow> chans_ok sha (ChannelState_Stop cs)"
proof -
  assume "chans_ok sha cs"
  moreover have "fst \<circ> (\<lambda>(k :: string, gc). (k, chan_Stop gc)) = fst" by auto
  ultimately show ?thesis
    using chan_Stop_inv [of sha] by (auto simp: chans_ok_def ChannelState_Stop_def map_of_values)
qed

lemma Stop_ok: "svc_ok env g \<Longrightarrow> svc_ok env (fst (svc_Stop g))"
proof -
  assume ok: "svc_ok env g"
  then obtain d where d: "gs_Discovery g = Some d" "disc_ok d" by (auto simp: svc_ok_def)
  have "disc_ok (disc_Stop (d\<lparr>di_stopping := True\<rparr>))"
    by (rule trans_ok_ok [OF Stop_trans]) (simp add: d)
  moreover have "store_ok state_comparator state_ok (MessageStore_Stop s) = store_ok state_comparator state_ok s" for s
    by (simp add: store_ok_def MessageStore_Stop_def datas_def)
  ultimately show ?thesis using ok d Stop_chans_ok by (simp add: svc_Stop_def svc_ok_def pull_Stop_ok)
qed

section \<open>The service as a machine\<close>

text \<open>
  Whatever the network, the clocks and the client do. The timers of discovery and of the channels are
  any operation of theirs; the timers of the puller of identities touch the puller only. State infos and
  leadership messages carry a time, the messages discovery takes carry the fields it reads without a test, and a block
  given to \<open>Gossip\<close> has a payload.
\<close>

inductive svc_step :: "senv \<Rightarrow> GossipService \<Rightarrow> GossipService \<Rightarrow> bool" for env where
  sv_message: "\<forall>m. mo = Some m \<longrightarrow> timed_recv (se_codec env) m \<Longrightarrow> handleMessage env now mo g = Some (g', outs) \<Longrightarrow> svc_step env g g'"
| sv_takes: "recv_ok (se_codec env) (Some m) \<Longrightarrow> discovery_takes env now m g = Some (g', outs) \<Longrightarrow> svc_step env g g'"
| sv_sync: "syncDiscovery env now draws g = Some (g', outs) \<Longrightarrow> svc_step env g g'"
| sv_presumed: "handlePresumedDead p g = Some g' \<Longrightarrow> svc_step env g g'"
| sv_emit: "svc_step env g (fst (svc_periodicEmit g))"
| sv_expire: "svc_step env g (stateInfo_expirationTick now g)"
| sv_suspect: "svc_step env g (fst (svc_SuspectPeers env th now sus g))"
| sv_timer: "identity_expires now k g = Some (g', outs) \<Longrightarrow> svc_step env g g'"
| sv_gossip: "(\<And>d. GetDataMsg msg = Some d \<Longrightarrow> dm_Payload d \<noteq> None) \<Longrightarrow> svc_Gossip env now msg g = Some (g', outs) \<Longrightarrow> svc_step env g g'"
| sv_height: "svc_UpdateLedgerHeight env now h c g = Some (g', outs) \<Longrightarrow> svc_step env g g'"
| sv_leave: "LeaveChan env now c g = Some (g', outs) \<Longrightarrow> svc_step env g g'"
| sv_join: "JoinChan env now now1 now2 hs j c g = Some (g', outs) \<Longrightarrow> svc_step env g g'"
| sv_bootstrap: "connect2BootstrapPeers env now hs g = Some (g', outs) \<Longrightarrow> svc_step env g g'"
| sv_receive: "svc_step env g (svc_Receive acceptor pass g)"
| sv_received: "Receive_next i g = Some (msg, g') \<Longrightarrow> svc_step env g g'"
| sv_discovery: "(\<And>d d'. f (denv_of env g) d = Some d' \<Longrightarrow> disc_step (denv_of env g) d d') \<Longrightarrow>
    on_disc f env g = Some (g', outs) \<Longrightarrow> svc_step env g g'"
| sv_channel: "(\<And>ga gc' cs. ga_sha ga = se_sha env \<Longrightarrow> ga_codec ga = se_codec env \<Longrightarrow> f ga gc = Some (gc', cs) \<Longrightarrow> chan_step (se_sha env) gc gc') \<Longrightarrow>
    map_get (cst_Channels (gs_ChanState g)) k = Some gc \<Longrightarrow> on_channel f env gc g = Some (g', outs) \<Longrightarrow> svc_step env g g'"
| sv_puller: "pull_timer (gs_CertPuller g) p \<Longrightarrow> svc_step env g (g\<lparr>gs_CertPuller := p\<rparr>)"
| sv_stop: "svc_step env g (fst (svc_Stop g))"

inductive_cases svc_stepE: "svc_step env g g'"

lemma svc_step_ok:
  assumes "svc_step env g g'" "svc_ok env g"
  shows "svc_ok env g'"
  using assms
proof (induction rule: svc_step.induct)
  case (sv_message mo now g g' outs)
  then show ?case by (blast intro: handleMessage_ok)
next
  case (sv_takes m now g g' outs)
  then show ?case unfolding discovery_takes_def
    by (elim on_disc_ok) (auto intro!: disc_step.ds_message [of _ "Some m"] simp: denv_of_def)
next
  case (sv_sync now draws g g' outs)
  then show ?case unfolding syncDiscovery_def
    by (auto split: if_splits elim!: on_disc_ok intro: disc_step.ds_sync)
next
  case (sv_presumed p g g')
  then show ?case by (auto simp: handlePresumedDead_def svc_ok_def split: if_splits)
next
  case (sv_emit g)
  then show ?case by (simp add: svc_periodicEmit_def svc_ok_def split: prod.splits)
next
  case (sv_expire g now)
  have "store_ok state_comparator state_ok (fst (expirationTick now (gs_StateInfoMsgStore g)))"
    using tick_store_ok [OF svc_okD(4) [OF sv_expire]] .
  with sv_expire show ?case by (simp add: stateInfo_expirationTick_def svc_ok_def)
next
  case (sv_suspect g th now sus)
  obtain im ps where s: "SuspectPeers (se_mcs env) th now sus (gs_IdMapper g) = (im, ps)" by (rule prod.exhaust)
  then have "svc_ok env (g\<lparr>gs_IdMapper := im\<rparr>)"
    using SuspectPeers_ok [OF svc_okD(1) [OF sv_suspect], of "se_mcs env" th now sus] sv_suspect by (intro svc_ok_mapper) auto
  with s show ?case by (simp add: svc_SuspectPeers_def purged_ok)
next
  case (sv_timer now k g g' outs)
  then obtain im ps where t: "timer_fires now k (gs_IdMapper g) = Some (im, ps)"
    "fold identity_purged ps (g\<lparr>gs_IdMapper := im\<rparr>, []) = (g', outs)"
    by (auto simp: identity_expires_def)
  have "svc_ok env (fst (fold identity_purged ps (g\<lparr>gs_IdMapper := im\<rparr>, [])))"
    using timer_ok [OF t(1)] sv_timer(2) by (intro purged_ok) (simp add: svc_ok_mapper svc_okD)
  with t(2) show ?case by simp
next
  case (sv_gossip msg now g g' outs)
  then show ?case using Gossip_ok [of env now msg g g' outs] by blast
next
  case (sv_height now h c g g' outs)
  then show ?case unfolding svc_UpdateLedgerHeight_def
    by (auto split: option.splits dest!: chain_in elim!: on_channel_ok intro: chan_step.height)
next
  case (sv_leave now c g g' outs)
  then show ?case unfolding LeaveChan_def
    by (auto split: option.splits dest!: chain_in elim!: on_channel_ok intro: chan_step.leave)
next
  case (sv_join now now1 now2 hs j c g g' outs)
  then show ?case by (blast intro: JoinChan_ok)
next
  case (sv_bootstrap now hs g g' outs)
  then show ?case by (blast intro: bootstrap_ok)
next
  case (sv_receive g acceptor pass)
  then show ?case by (simp add: svc_Receive_def svc_ok_def)
next
  case (sv_received i g msg g')
  then show ?case by (auto simp: Receive_next_def Let_def svc_ok_def split: if_splits list.splits)
next
  case (sv_discovery f g g' outs)
  then show ?case by (blast intro: on_disc_ok)
next
  case (sv_channel f gc g k g' outs)
  then show ?case using on_channel_ok [of env g k gc f g' outs] by blast
next
  case (sv_puller g p)
  then show ?case by (simp add: svc_ok_puller pull_timer_ok svc_okD)
next
  case (sv_stop g)
  then show ?case by (rule Stop_ok)
qed

definition fresh_service :: "senv \<Rightarrow> GossipService \<Rightarrow> bool" where
  "fresh_service env g \<longleftrightarrow> (\<exists>now conf selfId. NewGossipServiceWithServer env now None conf selfId = Some (Some g))"

lemma fresh_service_ok: "fresh_service env g \<Longrightarrow> svc_ok env g"
proof -
  assume "fresh_service env g"
  then obtain now conf selfId where n: "NewGossipServiceWithServer env now None conf selfId = Some (Some g)"
    by (auto simp: fresh_service_def)
  let ?g0 = "initial_service env now conf selfId"
  obtain d where d: "NewDiscoveryService (denv_of env ?g0) now (fst (selfNetworkMember env ?g0)) (gs_IdMapper ?g0) = Some d"
    and g: "g = newCertStore env now (?g0\<lparr>gs_Discovery := Some d\<rparr>)"
    using n by (auto simp: NewGossipServiceWithServer_def Let_def bind_eq_Some_conv)
  have im: "mapper_ok (gs_IdMapper ?g0)" by (simp add: initial_service_def New_ok)
  moreover have "disc_ok d" using New_disc_ok [OF d im] by blast
  moreover have "chans_ok (se_sha env) (gs_ChanState ?g0)" "store_ok state_comparator state_ok (gs_StateInfoMsgStore ?g0)"
    "pull_ok (gs_CertPuller ?g0)"
    by (simp_all add: chans_ok_def initial_service_def NewPullMediator_ok)
  ultimately have "svc_ok env (?g0\<lparr>gs_Discovery := Some d\<rparr>)" by (simp add: svc_ok_def)
  moreover have "pull_ok (RegisterMsgHook t h (PullMediator_Add ad m (snd (createCertStorePuller env g1))))" for t h ad m g1
    by (simp add: createCertStorePuller_def RegisterMsgHook_ok PullMediator_Add_ok NewPullMediator_ok)
  ultimately show ?thesis unfolding g newCertStore_def Let_def case_prod_beta
    by (simp add: svc_ok_def Put_ok)
qed

interpretation service: inv_machine "fresh_service env" "svc_step env" "svc_ok env" for env
  by unfold_locales (blast intro: fresh_service_ok, blast intro: svc_step_ok)

end
