(* ===== verification/GossipExample.thy ===== *)
theory GossipExample
  imports GossipInv
begin

text \<open>
  A gossip service to compute with: its peers ''b'' of its own organisation and ''f'' of another one are
  alive, their identities are in the mapper, and it has joined a channel in which ''b'' is known. The
  witnesses of the service's properties evaluate its operations on this state.
\<close>

declare map_of_eq_Some_iff [simp del] Some_eq_map_of_iff [simp del]

definition ex_senv :: "codec \<Rightarrow> senv" where
  "ex_senv cd = \<lparr>se_codec = cd, se_sha = (\<lambda>s. s), se_mcs = \<lparr>AllowedPkiIDS = None, RevokedPkiIDS = None\<rparr>, se_ExpirationTimes = [],
     se_orgByPeerId = (\<lambda>c. if c = Some ''s'' \<or> c = Some ''b'' then DefaultOrgInChannelA else Some ''ORG2''),
     se_config = (\<lambda>_. 0), se_MaxConnectionAttempts = 3\<rparr>"

definition ex_id :: "string \<Rightarrow> storedId" where
  "ex_id k = \<lparr>sid_pkiID = Some k, sid_lastAccessTime = 0, sid_peerId = Some k, sid_expirationTimer = None\<rparr>"

definition ex_alive :: "string \<Rightarrow> SignedGossipMessage" where
  "ex_alive k = (hello_from k 1)\<lparr>sg_Envelope := Some \<lparr>ev_Payload = Some ''p'', ev_Signature = Some ''p'',
     ev_SecretEnvelope = Some \<lparr>se_Payload = Some ''i'', se_Signature = Some ''i''\<rparr>\<rparr>\<rparr>"

definition ex_member :: "string \<Rightarrow> Peer" where
  "ex_member k = empty_peer\<lparr>p_PKIid := Some k, p_Endpoint := k, p_Envelope := sg_Envelope (ex_alive k)\<rparr>"

definition ex_disc :: disc where
  "ex_disc = (mapper_view \<lparr>im_pkiID2Cert = [], im_selfPKIID = ''s''\<rparr>)\<lparr>di_self := ex_member ''s'',
     di_id2Member := [(''b'', ex_member ''b''), (''f'', ex_member ''f'')],
     di_aliveMembership := [(''b'', ex_alive ''b''), (''f'', ex_alive ''f'')]\<rparr>"

definition ex_gc :: GossipChannel where
  "ex_gc = ex_chan\<lparr>gch_stateInfoMsgStore := \<lparr>sic_members = [(''b'', ex_alive ''b'')], sic_store = newMsgStore\<rparr>\<rparr>"

definition ex_node :: GossipService where
  "ex_node = (initial_service (ex_senv const_codec) 0 (ex_conf\<lparr>cf_InternalEndpoint := ''s'', cf_ExternalEndpoint := ''s''\<rparr>) (Some ''s''))
     \<lparr>gs_Discovery := Some ex_disc,
      gs_IdMapper := \<lparr>im_pkiID2Cert = [(''s'', ex_id ''s''), (''b'', ex_id ''b''), (''f'', ex_id ''f'')], im_selfPKIID = ''s''\<rparr>,
      gs_ChanState := \<lparr>cst_Stopping = False,
        cst_Channels = [(''c'', ex_gc)]\<rparr>\<rparr>"

lemma ex_node_simps [simp]:
  "gs_Discovery ex_node = Some ex_disc" "\<not> gs_StopFlag ex_node" "gs_SelfOrg ex_node = DefaultOrgInChannelA"
  "cf_PropagatePeerNum (gs_Conf ex_node) = 3" "cf_PropagateIterations (gs_Conf ex_node) = 1" "gs_PKIID ex_node = Some ''s''"
  by (simp_all add: ex_node_def initial_service_def ex_senv_def ex_conf_def GetPKIidOfCert_def)

lemma ex_cert: "cert_of ex_node (Some k) = (if k \<in> {''s'', ''b'', ''f''} then Inr (Some k) else Inl (Error ''PKIID wasn't found''))"
  by (simp add: cert_of_def IdMapper_Get_def ex_node_def initial_service_def ex_id_def fetchId_def Let_def)

lemma ex_org [simp]:
  "GetOrgOfPeer (ex_senv cd) ex_node (Some ''s'') = DefaultOrgInChannelA" "GetOrgOfPeer (ex_senv cd) ex_node (Some ''b'') = DefaultOrgInChannelA"
  "GetOrgOfPeer (ex_senv cd) ex_node (Some ''f'') = Some ''ORG2''"
  by (simp_all add: GetOrgOfPeer_def ex_cert ex_senv_def)

lemma ex_isInMyorg [simp]:
  "isInMyorg (ex_senv cd) ex_node p =
     (p_PKIid p \<noteq> None \<and> GetOrgOfPeer (ex_senv cd) ex_node (p_PKIid p) = DefaultOrgInChannelA)"
  by (auto simp: isInMyorg_def bytes_eq_def DefaultOrgInChannelA_def Let_def split: option.splits)

lemma ex_membership [simp]: "GetMembership ex_disc = Some [ex_member ''b'', ex_member ''f'']"
  by (simp add: GetMembership_def ex_disc_def mapper_view_def ToSlice_def member_peer_def ex_alive_def hello_from_def getter_defs
      ex_member_def empty_peer_def)

lemma ex_external [simp]: "hasExternalEndpoint ex_node (Some ''b'')" "hasExternalEndpoint ex_node (Some ''f'')"
  by (simp_all add: hasExternalEndpoint_def Lookup_def ex_disc_def ex_member_def bytes_eq_def empty_peer_def)

lemma ex_adapter: "\<exists>ga. adapter_of (ex_senv cd) ex_node = Some ga \<and> ga_membership ga = [ex_member ''b'', ex_member ''f''] \<and>
    ga_GetOrgOfPeer ga = GetOrgOfPeer (ex_senv cd) ex_node \<and> ga_GetIdByPKIID ga = GetIdByPKIID ex_node"
  by (simp add: adapter_of_def)

lemma ex_GetChan [simp]: "GetGossipChannelByChainID (gs_ChanState ex_node) (Some ''c'') = Some ex_gc"
  by (simp add: GetGossipChannelByChainID_def ex_node_def)

lemma ex_chan_filter:
  assumes "ga_GetOrgOfPeer ga = GetOrgOfPeer (ex_senv cd) ex_node" "ga_GetIdByPKIID ga = GetIdByPKIID ex_node"
  shows "chan_filter (ex_senv cd) ex_node ga ex_gc p \<longleftrightarrow> p_PKIid p = Some ''b''"
proof (cases "p_PKIid p = Some ''b''")
  case True
  with assms show ?thesis
    by (simp add: chan_filter_def EligibleForChannel_def IsMemberInChan_def GetIdByPKIID_def ex_cert bytes_len_def ex_gc_def GetMsgByID_def
        IsOrgInChannel_def ex_chan_def bytes_eq_def DefaultOrgInChannelA_def)
next
  case False
  have "GetMsgByID (sic_members (gch_stateInfoMsgStore ex_gc)) (p_PKIid p) = None \<or> p_PKIid p = None"
    using False by (cases "p_PKIid p") (auto simp: ex_gc_def GetMsgByID_def)
  with False show ?thesis by (auto simp: chan_filter_def EligibleForChannel_def)
qed

lemma ex_draws: "is_perm (length [a, b]) [0, 1]"
  by (auto simp: is_perm_def)

lemma ex_member_simps [simp]:
  "p_PKIid (ex_member k) = Some k" "p_Endpoint (ex_member k) = k" "em_content (gossip_all m) = sg_Msg m" "em_msg (gossip_all m) = m"
  "em_Filter (gossip_all m) p" "member_of (ex_alive k) = Some \<lparr>mb_Endpoint = k, mb_Metadata = None, mb_PkiId = Some k\<rparr>"
  by (simp_all add: ex_member_def gossip_all_def member_of_def ex_alive_def hello_from_def getter_defs)

lemma ex_fresh:
  "\<exists>g d n. fresh_service (ex_senv cd) g \<and> gs_Discovery g = Some d \<and> status_of d = Map.empty \<and> self_key d = ''s'' \<and>
     di_msgStore d = NewMessageStoreExpirable n \<and> \<not> gs_StopFlag g \<and> \<not> gs_IncClosed g"
proof -
  let ?env = "ex_senv cd" and ?conf = "ex_conf\<lparr>cf_InternalEndpoint := ''h:1''\<rparr>"
  let ?g0 = "initial_service ?env 0 ?conf (Some ''s'')"
  have self: "p_PKIid (fst (selfNetworkMember ?env ?g0)) = Some ''s''"
    by (simp add: selfNetworkMember_def initial_service_def GetPKIidOfCert_def)
  obtain d n where d: "NewDiscoveryService (denv_of ?env ?g0) 0 (fst (selfNetworkMember ?env ?g0)) (gs_IdMapper ?g0) = Some d"
    "di_msgStore d = NewMessageStoreExpirable n"
    by (simp add: NewDiscoveryService_def selfNetworkMember_def initial_service_def ex_conf_def empty_peer_def)
  have "mapper_ok (gs_IdMapper ?g0)" by (simp add: initial_service_def New_ok)
  then have ok: "status_of d = Map.empty" "self_key d = ''s''" using New_disc_ok [OF d(1)] self by (simp_all add: self_key_def)
  have "NewGossipServiceWithServer ?env 0 None ?conf (Some ''s'') = Some (Some (newCertStore ?env 0 (?g0\<lparr>gs_Discovery := Some d\<rparr>)))"
    using d(1) by (simp add: NewGossipServiceWithServer_def)
  then have "fresh_service ?env (newCertStore ?env 0 (?g0\<lparr>gs_Discovery := Some d\<rparr>))" unfolding fresh_service_def by blast
  then show ?thesis using d ok
    by (intro exI [of _ "newCertStore ?env 0 (?g0\<lparr>gs_Discovery := Some d\<rparr>)"] exI [of _ d] exI [of _ n])
       (simp add: newCertStore_def initial_service_def Let_def split: prod.splits)
qed

end
