(* ===== verification/GossipProps.thy ===== *)
theory GossipProps
  imports GossipExample
begin

text \<open>
  The theorems about the gossip service: its invariant, what it checks before it acts on a message,
  to whom a batch goes and what is cut off, what it discloses of its membership, what the update of
  identities leaves in the mapper, sending with criteria, stopping, and an alive message from the
  peer that signs it to the table of the peer that receives it.
\<close>

declare map_of_eq_Some_iff [simp del] Some_eq_map_of_iff [simp del]

section \<open>The invariant\<close>

lemma svc_PeersOfChannel:
  assumes "svc_ok env g"
  shows "PeersOfChannel env c g \<noteq> None"
proof (cases "GetGossipChannelByChainID (gs_ChanState g) c")
  case (Some gc)
  then have inv: "chan_inv (se_sha env) gc" using chain_in [OF Some] svc_okD(3) [OF assms] by (auto simp: chans_ok_def)
  obtain ga where "adapter_of env g = Some ga" using svc_adapter [OF assms] by blast
  then show ?thesis using Some inv GetPeers_loop_eq [of _ gc ga "ga_membership ga"]
    by (auto simp: PeersOfChannel_def GetPeers_def chan_inv_def)
qed (simp add: PeersOfChannel_def)

text \<open>C1. In every state a service reaches, whatever the network, the clocks and its client do (as long as the messages
  carry the fields that are read without a test): every identity lies under the PKI-ID computed from
  it, no peer is both alive and dead, every channel lies under its own name, and asking for the
  peers, for the peers of a channel, and updating a channel's height do not panic.\<close>

theorem service_invariant:
  assumes "fresh_service env g0" "(svc_step env)\<^sup>*\<^sup>* g0 g"
  shows "(\<forall>k si. map_get (im_pkiID2Cert (gs_IdMapper g)) k = Some si \<longrightarrow>
       str_of (sid_pkiID si) = k \<and> str_of (GetPKIidOfCert (sid_peerId si)) = k) \<and>
    (\<exists>d. gs_Discovery g = Some d \<and> (\<forall>k. map_get (di_aliveLastTS d) k = None \<or> map_get (di_deadLastTS d) k = None)) \<and>
    (\<forall>k gc. map_get (cst_Channels (gs_ChanState g)) k = Some gc \<longrightarrow>
       str_of (gch_chainID gc) = k \<and> UpdateLedgerHeight ga now h gc \<noteq> None) \<and>
    svc_Peers g \<noteq> None \<and> PeersOfChannel env c g \<noteq> None"
proof -
  have ok: "svc_ok env g" using service.reach_inv [OF assms] .
  have m: "\<forall>k si. map_get (im_pkiID2Cert (gs_IdMapper g)) k = Some si \<longrightarrow>
      str_of (sid_pkiID si) = k \<and> str_of (GetPKIidOfCert (sid_peerId si)) = k"
    using svc_okD(1) [OF ok] by (simp add: mapper_ok_def entry_ok_def)
  have d: "\<exists>d. gs_Discovery g = Some d \<and> (\<forall>k. map_get (di_aliveLastTS d) k = None \<or> map_get (di_deadLastTS d) k = None)"
  proof -
    obtain d where "gs_Discovery g = Some d" "disc_ok d" using svc_okD(2) [OF ok] by blast
    then show ?thesis using disc_ok_disjoint [of d] by simp
  qed
  have c: "\<forall>k gc. map_get (cst_Channels (gs_ChanState g)) k = Some gc \<longrightarrow>
      str_of (gch_chainID gc) = k \<and> UpdateLedgerHeight ga now h gc \<noteq> None"
    using svc_okD(3) [OF ok] UpdateLedgerHeight_total unfolding chans_ok_def by blast
  have p: "svc_Peers g \<noteq> None" using svc_okD(2) [OF ok] svc_membership [OF ok] by (auto simp: svc_Peers_def)
  show ?thesis by (intro conjI m d c p svc_PeersOfChannel [OF ok])
qed

theorem service_invariant_witness:
  "\<exists>g. fresh_service (ex_senv const_codec) g \<and> svc_Peers (fst (svc_Stop g)) \<noteq> None"
proof -
  obtain g where g: "fresh_service (ex_senv const_codec) g" using ex_fresh by blast
  have "(svc_step (ex_senv const_codec))\<^sup>*\<^sup>* g (fst (svc_Stop g))" by (intro r_into_rtranclp sv_stop)
  from service_invariant [OF g this] g show ?thesis by blast
qed

section \<open>What is checked of a message\<close>

text \<open>What \<open>handleMessage\<close> has checked of a message, in the state after the check.\<close>

definition checked :: "senv \<Rightarrow> instant \<Rightarrow> ReceivedMessage \<Rightarrow> GossipService \<Rightarrow> GossipService \<Rightarrow> bool" where
  "checked env now m g g1 \<longleftrightarrow>
     (let msg = rm_msg m in
      \<not> gs_StopFlag g \<and> IsTagLegal (sg_Msg msg) = None \<and>
      (GetAliveMsg (sg_Msg msg) \<noteq> None \<longrightarrow>
         fst (ValidateAliveMsg (denv_of env g) now msg (mapper_view (gs_IdMapper g)))) \<and>
      (\<forall>si. GetStateInfo (sg_Msg msg) = Some si \<longrightarrow>
         (\<exists>ids. cert_of g1 (si_PkiId si) = Inr ids \<and> SignedGossipMessage_Verify ids (state_verifier g1) msg = None)))"

lemma validateMsg_checked:
  assumes "validateMsg env now m g = Some (True, g1)" "\<not> gs_StopFlag g"
  shows "checked env now m g g1"
proof -
  obtain b d where v: "ValidateAliveMsg (denv_of env g) now (rm_msg m) (mapper_view (gs_IdMapper g)) = (b, d)" by (rule prod.exhaust)
  show ?thesis
    using assms v by (auto simp: checked_def validateMsg_def Let_def ValidateStateInfoMsg_def bind_eq_Some_conv
        split: if_splits sum.splits)
qed

lemma leadership_verified:
  "validateLeadershipMessage g m = Some None \<Longrightarrow>
   \<exists>lm ids. GetLeadershipMsg (sg_Msg m) = Some lm \<and> bytes_len (lm_PkiId lm) \<noteq> 0 \<and> cert_of g (lm_PkiId lm) = Inr ids \<and>
     SignedGossipMessage_Verify ids (\<lambda>_. mcs_Verify ids) m = None"
  by (auto simp: validateLeadershipMessage_def Let_def bind_eq_Some_conv split: if_splits sum.splits)

lemma restricted_no_MemReq:
  assumes "IsTagLegal m = None" "IsChannelRestricted m"
  shows "GetMemReq m = None"
proof (rule ccontr)
  assume "GetMemReq m \<noteq> None"
  then obtain q where "gm_Content m = Some (MemReq q)" by (auto simp: getter_Some_iff)
  with assms show False by (auto simp: IsTagLegal_def tag_should_be_def IsChannelRestricted_def getter_defs split: if_splits)
qed

lemma unrestricted_no_Leadership:
  assumes "IsTagLegal m = None" "\<not> IsChannelRestricted m"
  shows "GetLeadershipMsg m = None"
proof (rule ccontr)
  assume "GetLeadershipMsg m \<noteq> None"
  then obtain q where "gm_Content m = Some (LeadershipMsg q)" by (auto simp: getter_Some_iff)
  with assms show False
    by (auto simp: IsTagLegal_def tag_should_be_def IsChannelRestricted_def getter_defs IsPullMsg_def split: if_splits)
qed

lemma restricted_leader:
  assumes "handle_restricted env now m g1 = Some (g', outs)" "g' \<noteq> g1 \<or> outs \<noteq> []"
    and lm: "GetLeadershipMsg (sg_Msg (rm_msg m)) = Some lm" and l: "LookupChannelForMsg (se_sha env) (gs_ChanState g1) m = Some (Some gc)"
  shows "\<exists>ids. cert_of g1 (lm_PkiId lm) = Inr ids \<and> SignedGossipMessage_Verify ids (\<lambda>_. mcs_Verify ids) (rm_msg m) = None"
proof -
  obtain err where e: "validateLeadershipMessage g1 (rm_msg m) = Some err"
    using assms(1) lm l by (auto simp: handle_restricted_def bind_eq_Some_conv)
  have "err = None" using assms(1,2) lm l e by (cases err) (auto simp: handle_restricted_def)
  with e leadership_verified [of g1 "rm_msg m"] lm show ?thesis by auto
qed

lemma unrestricted_introduces:
  assumes "handle_unrestricted env now m g1 = Some (g', outs)" "g' \<noteq> g1 \<or> outs \<noteq> []" and q: "GetMemReq (sg_Msg (rm_msg m)) = Some q"
  shows "\<exists>e s mem ci. mq_SelfInformation q = Some e \<and> ToGossipMessage (se_codec env) e = Inr s \<and> member_of s = Some mem \<and>
    rm_ConnInfo m = Some ci \<and> bytes_eq (mb_PkiId mem) (ci_ID ci)"
proof -
  obtain ok where k: "memReq_check env m = Some ok" using assms(1) q
    by (auto simp: handle_unrestricted_def selectOnlyDiscoveryMessages_def bind_eq_Some_conv)
  have ok using assms(1,2) q k by (cases ok) (auto simp: handle_unrestricted_def selectOnlyDiscoveryMessages_def)
  with k q obtain e where "mq_SelfInformation q = Some e" by (auto simp: memReq_check_def bind_eq_Some_conv)
  with k q \<open>ok\<close> show ?thesis
    by (cases "ToGossipMessage (se_codec env) e") (auto simp: memReq_check_def bind_eq_Some_conv split: if_split_asm)
qed

text \<open>C8. The service passes a message on, answers it, or changes anything but the mapper for it only when it runs and
  the message has the tag its content demands, is verified when it is an alive message or a state
  info, introduces the very peer it comes from when it is a membership request, and, when it is a
  leadership message of a channel that is joined, is signed by the leader it names.\<close>

theorem handleMessage_checked:
  assumes "handleMessage env now (Some m) g = Some (g', outs)"
    and "outs \<noteq> [] \<or> g' \<noteq> g\<lparr>gs_IdMapper := gs_IdMapper g'\<rparr>"
  shows "\<exists>g1. validateMsg env now m g = Some (True, g1) \<and> checked env now m g g1 \<and>
    (\<forall>q. GetMemReq (sg_Msg (rm_msg m)) = Some q \<longrightarrow> (\<exists>e s mem ci. mq_SelfInformation q = Some e \<and>
       ToGossipMessage (se_codec env) e = Inr s \<and> member_of s = Some mem \<and> rm_ConnInfo m = Some ci \<and>
       bytes_eq (mb_PkiId mem) (ci_ID ci))) \<and>
    (\<forall>lm gc. GetLeadershipMsg (sg_Msg (rm_msg m)) = Some lm \<longrightarrow>
       LookupChannelForMsg (se_sha env) (gs_ChanState g1) m = Some (Some gc) \<longrightarrow>
       (\<exists>ids. cert_of g1 (lm_PkiId lm) = Inr ids \<and> SignedGossipMessage_Verify ids (\<lambda>_. mcs_Verify ids) (rm_msg m) = None))"
proof -
  let ?m = "sg_Msg (rm_msg m)"
  have same: "g' = g\<lparr>gs_IdMapper := gs_IdMapper g'\<rparr>" if "g' = g" using that by simp
  have run: "\<not> gs_StopFlag g" using assms same by (auto simp: handleMessage_def)
  then obtain b g1 where v: "validateMsg env now m g = Some (b, g1)"
    and r: "(if \<not> b then Some (g1, []) else if IsChannelRestricted ?m then handle_restricted env now m g1
             else handle_unrestricted env now m g1) = Some (g', outs)"
    using assms(1) by (auto simp: handleMessage_def bind_eq_Some_conv)
  have g1: "g1 = g\<lparr>gs_IdMapper := gs_IdMapper g1\<rparr>"
    using v by (auto simp: validateMsg_def Let_def split: if_splits prod.splits)
  have loud: "g' \<noteq> g1 \<or> outs \<noteq> []" using assms(2) g1 by auto
  then have b: b using r by (cases b) auto
  have check: "checked env now m g g1" using validateMsg_checked [of env now m g g1] v b run by simp
  have tag: "IsTagLegal ?m = None" using check by (simp add: checked_def Let_def)
  show ?thesis
  proof (cases "IsChannelRestricted ?m")
    case True
    then have "handle_restricted env now m g1 = Some (g', outs)" using r b by simp
    with loud restricted_leader restricted_no_MemReq [OF tag True] v b check show ?thesis by fastforce
  next
    case False
    then have "handle_unrestricted env now m g1 = Some (g', outs)" using r b by simp
    with loud unrestricted_introduces unrestricted_no_Leadership [OF tag False] v b check show ?thesis by fastforce
  qed
qed

theorem handleMessage_checked_witness:
  "\<exists>g1. validateMsg (ex_senv const_codec) 7 (ex_received (MemRes \<lparr>mr_Alive = [], mr_Dead = []\<rparr>) Tag_EMPTY None) ex_node = Some (True, g1)"
proof -
  let ?m = "ex_received (MemRes \<lparr>mr_Alive = [], mr_Dead = []\<rparr>) Tag_EMPTY None"
  have "handleMessage (ex_senv const_codec) 7 (Some ?m) ex_node = Some (ex_node, [Sv_Discovery ?m])"
    by (simp add: handleMessage_def validateMsg_def ex_received_def IsTagLegal_def tag_should_be_def getter_defs IsPullMsg_def Let_def
        IsChannelRestricted_def handle_unrestricted_def selectOnlyDiscoveryMessages_def memReq_check_def handle_identity_pull_def
        forwardDiscoveryMsg_def ex_node_def initial_service_def)
  from handleMessage_checked [OF this] show ?thesis by blast
qed

section \<open>To whom a batch goes\<close>

lemma partition_set:
  "partitionMessages pred xs = Some (as, bs) \<Longrightarrow>
   set as = {x \<in> set xs. pred x = Some True} \<and> set bs = {x \<in> set xs. pred x = Some False}"
  by (induction xs arbitrary: "as" bs) (auto simp: bind_eq_Some_conv split: if_splits)

lemma select_loop_sub:
  "p \<in> set (select_loop k pool f is res) \<Longrightarrow> p \<in> set res \<or> (\<exists>i\<in>set is. f (pool ! i) \<and> p = remote_of (pool ! i))"
  by (induction k pool f "is" res rule: select_loop.induct) (auto simp: remote_of_def split: if_splits)

lemma SelectPeers_sub:
  assumes "p \<in> set (SelectPeers perm k pool f)" "is_perm (length pool) perm"
  shows "\<exists>q\<in>set pool. f q \<and> p = remote_of q"
  using assms select_loop_sub [of p k pool f perm "[]"] by (auto simp: SelectPeers_def is_perm_def)

lemma remote_key [simp]: "rp_PKIID (remote_of q) = p_PKIid q"
  by (simp add: remote_of_def)

lemma isInMyorg_key [simp]: "isInMyorg env g (peer_with (p_PKIid q)) = isInMyorg env g q"
  by (simp add: isInMyorg_def)

definition perms_ok :: "(draw \<Rightarrow> nat list) \<Rightarrow> GossipAdapter \<Rightarrow> bool" where
  "perms_ok perm ga \<longleftrightarrow> (\<forall>d. is_perm (length (ga_membership ga)) (perm d))"

text \<open>The sends of each part of a batch.\<close>

lemma gossip_channels_sends:
  assumes "gossip_channels env g perm factory n chs messages = Some outs" "adapter_of env g = Some ga"
    and "\<forall>n. is_perm (length (ga_membership ga)) (perm n)" "Sv_Send m peers \<in> set outs"
  shows "\<exists>em\<in>set messages. \<exists>gc. m = em_msg em \<and>
    GetGossipChannelByChainID (gs_ChanState g) (gm_Channel (em_content em)) = Some gc \<and>
    (\<forall>p\<in>set peers. em_Filter em (rp_PKIID p) \<and> (\<exists>q\<in>set (ga_membership ga). factory gc q \<and> p = remote_of q))"
  using assms(1,4)
proof (induction chs arbitrary: n messages outs)
  case (Cons c chs)
  obtain ms rest where pt: "partitionMessages (\<lambda>em. Some (bytes_eq (gm_Channel (em_content em)) c)) messages = Some (ms, rest)"
    using Cons.prems(1) by (auto simp: bind_eq_Some_conv)
  note sub = partition_set [OF pt]
  obtain d where d: "gs_Discovery g = Some d" "GetMembership d = Some (ga_membership ga)"
    using assms(2) by (auto simp: adapter_of_def bind_eq_Some_conv)
  have IH: ?case if "gossip_channels env g perm factory (Suc n) chs rest = Some o'" "Sv_Send m peers \<in> set o'" for o'
    using Cons.IH [OF that] sub by blast
  show ?case
  proof (cases ms)
    case Nil
    with Cons.prems pt IH show ?thesis by simp
  next
    case (Cons f fs)
    show ?thesis
    proof (cases "GetGossipChannelByChainID (gs_ChanState g) c")
      case None
      with Cons.prems pt IH Cons show ?thesis by simp
    next
      case (Some gc)
      let ?k = "if GetLeadershipMsg (em_content f) \<noteq> None then int (length (ga_membership ga)) else cf_PropagatePeerNum (gs_Conf g)"
      let ?ps = "SelectPeers (perm n) ?k (ga_membership ga) (factory gc)"
      obtain o' where o': "gossip_channels env g perm factory (Suc n) chs rest = Some o'"
        "outs = map (\<lambda>msg. Sv_Send (em_msg msg) (removeSelfLoop msg ?ps)) ms @ o'"
        using Cons.prems(1) pt Cons Some d by (auto simp: Let_def bind_eq_Some_conv)
      show ?thesis
      proof (cases "Sv_Send m peers \<in> set o'")
        case False
        then obtain em where em: "em \<in> set ms" "m = em_msg em" "peers = removeSelfLoop em ?ps" using Cons.prems(2) o'(2) by auto
        then have "bytes_eq (gm_Channel (em_content em)) c" "em \<in> set messages" using sub by auto
        moreover from this have "GetGossipChannelByChainID (gs_ChanState g) (gm_Channel (em_content em)) = Some gc"
          using Some by (simp add: GetGossipChannelByChainID_def bytes_eq_def split: if_splits)
        moreover have "em_Filter em (rp_PKIID p) \<and> (\<exists>q\<in>set (ga_membership ga). factory gc q \<and> p = remote_of q)" if "p \<in> set peers" for p
          using that em(3) SelectPeers_sub [of p "perm n" ?k "ga_membership ga" "factory gc"] assms(3) by (auto simp: removeSelfLoop_def)
        ultimately show ?thesis using em(2) by blast
      qed (use IH o'(1) in blast)
    qed
  qed
qed simp

lemma gossipInChan_sends:
  assumes "gossipInChan env g perm factory messages = Some outs" "adapter_of env g = Some ga"
    and "\<forall>n. is_perm (length (ga_membership ga)) (perm n)" "Sv_Send m peers \<in> set outs"
  shows "\<exists>em\<in>set messages. \<exists>gc. m = em_msg em \<and>
    GetGossipChannelByChainID (gs_ChanState g) (gm_Channel (em_content em)) = Some gc \<and>
    (\<forall>p\<in>set peers. em_Filter em (rp_PKIID p) \<and> (\<exists>q\<in>set (ga_membership ga). factory gc q \<and> p = remote_of q))"
  using assms gossip_channels_sends [of env g perm factory 0 "channels_of messages []" messages outs ga m peers]
  by (auto simp: gossipInChan_def split: if_splits)

lemma state_sends_in:
  "state_sends env g ga perm n ems = Some outs \<Longrightarrow> Sv_Send m peers \<in> set outs \<Longrightarrow> \<exists>em\<in>set ems. m = em_msg em"
proof (induction ems arbitrary: n outs)
  case (Cons em ems)
  then obtain o' ps where "state_sends env g ga perm (Suc n) ems = Some o'" "outs = Sv_Send (em_msg em) ps # o'"
    by (auto simp: bind_eq_Some_conv)
  then show ?case using Cons.IH [of "Suc n" o'] Cons.prems(2) by auto
qed simp

definition stripped :: "SignedGossipMessage \<Rightarrow> bool" where
  "stripped m \<longleftrightarrow> (\<exists>e. sg_Envelope m = Some e \<and> ev_SecretEnvelope e = None)"

lemma strip_stripped: "strip m = Some m' \<Longrightarrow> stripped m' \<and> sg_Msg m' = sg_Msg m"
  by (auto simp: strip_def stripped_def)

lemma alive_peers_sends:
  assumes "alive_peers env g m ps = Some (m', outs)" "Sv_Send x qs \<in> set outs"
  shows "\<exists>p\<in>set ps. \<exists>mem. qs = [p] \<and> sg_Msg x = sg_Msg m \<and> member_of m = Some mem \<and>
    (isInMyorg env g (peer_with (mb_PkiId mem)) \<or> hasExternalEndpoint g (rp_PKIID p)) \<and>
    (\<not> isInMyorg env g (peer_with (rp_PKIID p)) \<longrightarrow> stripped x)"
  using assms
proof (induction ps arbitrary: m outs)
  case (Cons p ps)
  obtain mem where mem: "member_of m = Some mem" using Cons.prems(1) by (auto simp: bind_eq_Some_conv)
  show ?case
  proof (cases "\<not> isInMyorg env g (peer_with (mb_PkiId mem)) \<and> \<not> hasExternalEndpoint g (rp_PKIID p)")
    case True
    then have "alive_peers env g m ps = Some (m', outs)" using Cons.prems(1) mem by (simp add: Let_def)
    from Cons.IH [OF this Cons.prems(2)] show ?thesis by auto
  next
    case False
    obtain m1 o1 where m1: "(if \<not> isInMyorg env g (peer_with (rp_PKIID p)) then strip m else Some m) = Some m1"
      "alive_peers env g m1 ps = Some (m', o1)" "outs = Sv_Send m1 [p] # o1"
      using Cons.prems(1) mem False by (auto simp: Let_def bind_eq_Some_conv)
    have s: "sg_Msg m1 = sg_Msg m" using m1(1) strip_stripped by (auto split: if_splits)
    have "member_of m1 = member_of m" using s by (simp add: member_of_def)
    then show ?thesis
      using m1 s mem False Cons.prems(2) Cons.IH [OF m1(2)] strip_stripped [of m m1] by (auto split: if_splits)
  qed
qed simp

lemma alive_sends_sends:
  assumes "alive_sends env g perm mems n ems = Some (ms, outs)" "Sv_Send x qs \<in> set outs"
    and "\<forall>n. is_perm (length mems) (perm n)"
  shows "\<exists>em\<in>set ems. \<exists>p mem. qs = [p] \<and> sg_Msg x = em_content em \<and> member_of (em_msg em) = Some mem \<and>
    (isInMyorg env g (peer_with (mb_PkiId mem)) \<or> hasExternalEndpoint g (rp_PKIID p)) \<and>
    (\<exists>q\<in>set mems. p = remote_of q \<and> peersByOriginOrgPolicy env g (peer_with (mb_PkiId mem)) q \<and> em_Filter em (p_PKIid q)) \<and>
    (\<not> isInMyorg env g (peer_with (rp_PKIID p)) \<longrightarrow> stripped x)"
  using assms(1,2)
proof (induction ems arbitrary: n ms outs)
  case (Cons em ems)
  show ?case
  proof (cases "GetAliveMsg (em_content em) = None")
    case True
    then show ?thesis using Cons by auto
  next
    case False
    then obtain mem m o1 ms' o2 where r: "member_of (em_msg em) = Some mem"
      "alive_peers env g (em_msg em) (SelectPeers (perm n) (cf_PropagatePeerNum (gs_Conf g)) mems
         (CombineRoutingFilters [peersByOriginOrgPolicy env g (peer_with (mb_PkiId mem)), \<lambda>peer. em_Filter em (p_PKIid peer)])) = Some (m, o1)"
      "alive_sends env g perm mems (Suc n) ems = Some (ms', o2)" "outs = o1 @ o2"
      using Cons.prems(1) by (auto simp: Let_def bind_eq_Some_conv)
    show ?thesis
    proof (cases "Sv_Send x qs \<in> set o2")
      case False
      then have "Sv_Send x qs \<in> set o1" using Cons.prems(2) r(4) by simp
      from alive_peers_sends [OF r(2) this] obtain p where p: "p \<in> set (SelectPeers (perm n) (cf_PropagatePeerNum (gs_Conf g)) mems
         (CombineRoutingFilters [peersByOriginOrgPolicy env g (peer_with (mb_PkiId mem)), \<lambda>peer. em_Filter em (p_PKIid peer)]))"
        "qs = [p]" "sg_Msg x = em_content em"
        "isInMyorg env g (peer_with (mb_PkiId mem)) \<or> hasExternalEndpoint g (rp_PKIID p)"
        "\<not> isInMyorg env g (peer_with (rp_PKIID p)) \<longrightarrow> stripped x" using r(1) by auto
      from SelectPeers_sub [OF p(1)] assms(3) have
        "\<exists>q\<in>set mems. p = remote_of q \<and> peersByOriginOrgPolicy env g (peer_with (mb_PkiId mem)) q \<and> em_Filter em (p_PKIid q)" by auto
      with p r(1) show ?thesis by auto
    qed (use Cons.IH [OF r(3)] in auto)
  qed
qed simp

lemma batch_parts:
  assumes "sendGossipBatch env perm g msgs = Some (ms, outs)" "adapter_of env g = Some ga"
  obtains blocks msgs1 out1 lead msgs2 out2 sts msgs3 out3 orgs msgs4 out5 where
    "partitionMessages (\<lambda>em. Some (GetDataMsg (em_content em) \<noteq> None)) msgs = Some (blocks, msgs1)"
    "gossipInChan env g (\<lambda>n. perm (DrawBlocks n)) (chan_filter env g ga) blocks = Some out1"
    "partitionMessages (\<lambda>em. Some (GetLeadershipMsg (em_content em) \<noteq> None)) msgs1 = Some (lead, msgs2)"
    "gossipInChan env g (\<lambda>n. perm (DrawLeadership n)) (chan_filter env g ga) lead = Some out2"
    "partitionMessages (\<lambda>em. Some (GetStateInfo (em_content em) \<noteq> None)) msgs2 = Some (sts, msgs3)"
    "state_sends env g ga (\<lambda>n. perm (DrawState n)) 0 sts = Some out3"
    "partitionMessages (isOrgRestricted env g) msgs3 = Some (orgs, msgs4)"
    "alive_sends env g (\<lambda>n. perm (DrawAlive n)) (ga_membership ga) 0 msgs4 = Some (ms, out5)"
    "outs = out1 @ out2 @ out3 @ map (\<lambda>msg. Sv_Send (em_msg msg) (removeSelfLoop msg
       (SelectPeers (perm DrawOrg) (cf_PropagatePeerNum (gs_Conf g)) (ga_membership ga) (isInMyorg env g)))) orgs @ out5"
proof -
  have "gs_Discovery g \<noteq> None" using assms(2) by (auto simp: adapter_of_def bind_eq_Some_conv)
  then obtain blocks msgs1 out1 lead msgs2 out2 sts msgs3 out3 orgs msgs4 out5 where r:
    "partitionMessages (\<lambda>em. Some (GetDataMsg (em_content em) \<noteq> None)) msgs = Some (blocks, msgs1)"
    "gossipInChan env g (\<lambda>n. perm (DrawBlocks n)) (chan_filter env g ga) blocks = Some out1"
    "partitionMessages (\<lambda>em. Some (GetLeadershipMsg (em_content em) \<noteq> None)) msgs1 = Some (lead, msgs2)"
    "gossipInChan env g (\<lambda>n. perm (DrawLeadership n)) (chan_filter env g ga) lead = Some out2"
    "partitionMessages (\<lambda>em. Some (GetStateInfo (em_content em) \<noteq> None)) msgs2 = Some (sts, msgs3)"
    "state_sends env g ga (\<lambda>n. perm (DrawState n)) 0 sts = Some out3"
    "partitionMessages (isOrgRestricted env g) msgs3 = Some (orgs, msgs4)"
    "alive_sends env g (\<lambda>n. perm (DrawAlive n)) (ga_membership ga) 0 msgs4 = Some (ms, out5)"
    "outs = out1 @ out2 @ out3 @ map (\<lambda>msg. Sv_Send (em_msg msg) (removeSelfLoop msg
       (SelectPeers (perm DrawOrg) (cf_PropagatePeerNum (gs_Conf g)) (ga_membership ga) (isInMyorg env g)))) orgs @ out5"
    using assms by (clarsimp simp: sendGossipBatch_def bind_eq_Some_conv Let_def)
  show thesis by (rule that [OF r])
qed

text \<open>The parts of a batch, and the messages each is made of.\<close>

lemma org_peers:
  assumes "is_perm (length members) perm" "p \<in> set (removeSelfLoop em (SelectPeers perm k members (isInMyorg env g)))"
  shows "em_Filter em (rp_PKIID p) \<and> isInMyorg env g (peer_with (rp_PKIID p))"
proof -
  have sp: "p \<in> set (SelectPeers perm k members (isInMyorg env g))" "em_Filter em (rp_PKIID p)"
    using assms(2) by (auto simp: removeSelfLoop_def)
  from SelectPeers_sub [OF sp(1) assms(1)] obtain q where "isInMyorg env g q" "p = remote_of q" by blast
  with sp(2) show ?thesis by simp
qed

lemma batch_cases:
  assumes "sendGossipBatch env perm g msgs = Some (ms, outs)" "adapter_of env g = Some ga" "perms_ok perm ga"
    and "Sv_Send x peers \<in> set outs"
  obtains
    (chan) em gc where "em \<in> set msgs" "x = em_msg em" "GetDataMsg (em_content em) \<noteq> None \<or> GetLeadershipMsg (em_content em) \<noteq> None"
      "GetGossipChannelByChainID (gs_ChanState g) (gm_Channel (em_content em)) = Some gc"
      "\<forall>p\<in>set peers. em_Filter em (rp_PKIID p) \<and> (\<exists>q\<in>set (ga_membership ga). chan_filter env g ga gc q \<and> p = remote_of q)"
  | (state) em where "em \<in> set msgs" "x = em_msg em" "GetStateInfo (em_content em) \<noteq> None"
  | (org) em where "em \<in> set msgs" "x = em_msg em" "isOrgRestricted env g em = Some True" "GetDataMsg (em_content em) = None"
      "GetLeadershipMsg (em_content em) = None"
      "\<forall>p\<in>set peers. em_Filter em (rp_PKIID p) \<and> isInMyorg env g (peer_with (rp_PKIID p))"
  | (alive) em p mem q where "em \<in> set msgs" "peers = [p]" "sg_Msg x = em_content em" "member_of (em_msg em) = Some mem"
      "isOrgRestricted env g em = Some False"
      "isInMyorg env g (peer_with (mb_PkiId mem)) \<or> hasExternalEndpoint g (rp_PKIID p)"
      "q \<in> set (ga_membership ga)" "p = remote_of q" "peersByOriginOrgPolicy env g (peer_with (mb_PkiId mem)) q" "em_Filter em (p_PKIid q)"
      "\<not> isInMyorg env g (peer_with (rp_PKIID p)) \<longrightarrow> stripped x"
proof -
  let ?k = "cf_PropagatePeerNum (gs_Conf g)"
  obtain blocks msgs1 out1 lead msgs2 out2 sts msgs3 out3 orgs msgs4 out5 where r:
    "partitionMessages (\<lambda>em. Some (GetDataMsg (em_content em) \<noteq> None)) msgs = Some (blocks, msgs1)"
    "gossipInChan env g (\<lambda>n. perm (DrawBlocks n)) (chan_filter env g ga) blocks = Some out1"
    "partitionMessages (\<lambda>em. Some (GetLeadershipMsg (em_content em) \<noteq> None)) msgs1 = Some (lead, msgs2)"
    "gossipInChan env g (\<lambda>n. perm (DrawLeadership n)) (chan_filter env g ga) lead = Some out2"
    "partitionMessages (\<lambda>em. Some (GetStateInfo (em_content em) \<noteq> None)) msgs2 = Some (sts, msgs3)"
    "state_sends env g ga (\<lambda>n. perm (DrawState n)) 0 sts = Some out3"
    "partitionMessages (isOrgRestricted env g) msgs3 = Some (orgs, msgs4)"
    "alive_sends env g (\<lambda>n. perm (DrawAlive n)) (ga_membership ga) 0 msgs4 = Some (ms, out5)"
    "outs = out1 @ out2 @ out3 @
       map (\<lambda>msg. Sv_Send (em_msg msg) (removeSelfLoop msg (SelectPeers (perm DrawOrg) ?k (ga_membership ga) (isInMyorg env g)))) orgs @ out5"
    by (rule batch_parts [OF assms(1,2)])
  note sub = partition_set [OF r(1)] partition_set [OF r(3)] partition_set [OF r(5)] partition_set [OF r(7)]
  have pm: "is_perm (length (ga_membership ga)) (perm d)" for d using assms(3) by (simp add: perms_ok_def)
  consider (1) "Sv_Send x peers \<in> set out1" | (2) "Sv_Send x peers \<in> set out2" | (3) "Sv_Send x peers \<in> set out3"
    | (4) em where "em \<in> set orgs" "x = em_msg em" "peers = removeSelfLoop em (SelectPeers (perm DrawOrg) ?k (ga_membership ga) (isInMyorg env g))"
    | (5) "Sv_Send x peers \<in> set out5" using assms(4) r(9) by auto
  then show thesis
  proof cases
    case 1
    from gossipInChan_sends [OF r(2) assms(2) _ 1] pm sub(1) chan show ?thesis by auto
  next
    case 2
    from gossipInChan_sends [OF r(4) assms(2) _ 2] pm sub(1,2) chan show ?thesis by auto
  next
    case 3
    from state_sends_in [OF r(6) 3] sub(1,2,3) state show ?thesis by auto
  next
    case 4
    from org_peers [OF pm] 4(3) have "\<forall>p\<in>set peers. em_Filter em (rp_PKIID p) \<and> isInMyorg env g (peer_with (rp_PKIID p))" by blast
    then show ?thesis using 4(1,2) sub org by auto
  next
    case 5
    from alive_sends_sends [OF r(8) 5] pm obtain em p mem q where h: "em \<in> set msgs4" "peers = [p]" "sg_Msg x = em_content em"
      "member_of (em_msg em) = Some mem" "isInMyorg env g (peer_with (mb_PkiId mem)) \<or> hasExternalEndpoint g (rp_PKIID p)"
      "q \<in> set (ga_membership ga)" "p = remote_of q" "peersByOriginOrgPolicy env g (peer_with (mb_PkiId mem)) q" "em_Filter em (p_PKIid q)"
      "\<not> isInMyorg env g (peer_with (rp_PKIID p)) \<longrightarrow> stripped x" by blast
    have "em \<in> set msgs" "isOrgRestricted env g em = Some False" using sub h(1) by auto
    then show ?thesis using h(2-10) by (intro alive [of em p mem q])
  qed
qed

lemma ex_block_batch:
  defines "x \<equiv> \<lparr>sg_Envelope = None, sg_Msg = ex_block\<rparr>"
  shows "\<exists>ga. adapter_of (ex_senv const_codec) ex_node = Some ga \<and> perms_ok (\<lambda>_. [0, 1]) ga \<and>
    sendGossipBatch (ex_senv const_codec) (\<lambda>_. [0, 1]) ex_node [gossip_all x] = Some ([], [Sv_Send x [remote_of (ex_member ''b'')]]) \<and>
    GetDataMsg (sg_Msg x) \<noteq> None"
proof -
  let ?env = "ex_senv const_codec"
  obtain ga where ga: "adapter_of ?env ex_node = Some ga" "ga_membership ga = [ex_member ''b'', ex_member ''f'']"
    "ga_GetOrgOfPeer ga = GetOrgOfPeer ?env ex_node" "ga_GetIdByPKIID ga = GetIdByPKIID ex_node" using ex_adapter by blast
  have "sendGossipBatch ?env (\<lambda>_. [0, 1]) ex_node [gossip_all x] = Some ([], [Sv_Send x [remote_of (ex_member ''b'')]])"
    using ga(1,2) ex_chan_filter [OF ga(3,4)]
    by (simp add: x_def sendGossipBatch_def gossipInChan_def removeSelfLoop_def SelectPeers_def IndexInSlice_def remote_of_def
        ex_block_def getter_defs bytes_eq_def bytes_len_def Let_def)
  moreover have "perms_ok (\<lambda>_. [0, 1]) ga" using ga ex_draws by (simp add: perms_ok_def)
  moreover have "GetDataMsg (sg_Msg x) \<noteq> None" by (simp add: x_def ex_block_def getter_defs)
  ultimately show ?thesis using ga(1) by blast
qed

text \<open>C9. Whatever a batch holds, a block or a leadership message is sent only to peers for which the message's filter
  holds and that are, by discovery, alive, of this peer's own organisation, of an organisation of the
  joined channel the message names, and known there by a state info.\<close>

theorem batch_in_channel:
  assumes "sendGossipBatch env perm g msgs = Some (ms, outs)" "adapter_of env g = Some ga" "perms_ok perm ga"
    and "Sv_Send x peers \<in> set outs" "GetDataMsg (sg_Msg x) \<noteq> None \<or> GetLeadershipMsg (sg_Msg x) \<noteq> None" "p \<in> set peers"
  shows "\<exists>em\<in>set msgs. \<exists>gc. \<exists>q\<in>set (ga_membership ga). em_msg em = x \<and> em_Filter em (rp_PKIID p) \<and> p = remote_of q \<and>
    GetGossipChannelByChainID (gs_ChanState g) (gm_Channel (sg_Msg x)) = Some gc \<and>
    isInMyorg env g q \<and> IsMemberInChan ga gc q \<and> EligibleForChannel ga gc q"
  using assms(1-4)
proof (cases rule: batch_cases)
  case (chan em gc)
  then show ?thesis using assms(6) by (fastforce simp: chan_filter_def)
qed (use assms(5) in \<open>auto simp: getter_Some_iff member_of_def bind_eq_Some_conv\<close>)

theorem batch_in_channel_witness:
  "\<exists>outs. sendGossipBatch (ex_senv const_codec) (\<lambda>_. [0, 1]) ex_node [gossip_all \<lparr>sg_Envelope = None, sg_Msg = ex_block\<rparr>] = Some ([], outs) \<and>
     isInMyorg (ex_senv const_codec) ex_node (peer_with (Some ''b''))"
proof -
  obtain ga where b: "adapter_of (ex_senv const_codec) ex_node = Some ga" "perms_ok (\<lambda>_. [0, 1]) ga"
    "sendGossipBatch (ex_senv const_codec) (\<lambda>_. [0, 1]) ex_node [gossip_all \<lparr>sg_Envelope = None, sg_Msg = ex_block\<rparr>] =
       Some ([], [Sv_Send \<lparr>sg_Envelope = None, sg_Msg = ex_block\<rparr> [remote_of (ex_member ''b'')]])"
    "GetDataMsg (sg_Msg \<lparr>sg_Envelope = None, sg_Msg = ex_block\<rparr>) \<noteq> None" using ex_block_batch by blast
  from batch_in_channel [OF b(3,1,2), of "\<lparr>sg_Envelope = None, sg_Msg = ex_block\<rparr>" "[remote_of (ex_member ''b'')]" "remote_of (ex_member ''b'')"] b
  show ?thesis by auto
qed

text \<open>C6. An alive message that a batch sends to a peer outside this peer's own organisation carries no secret envelope (the
  internal endpoint does not leave the organisation); it is only sent when it is about a peer of the own
  organisation that publishes an endpoint, or when the receiver is of the organisation the message
  is about and has an external endpoint.\<close>

theorem batch_keeps_secrets:
  assumes "sendGossipBatch env perm g msgs = Some (ms, outs)" "adapter_of env g = Some ga" "perms_ok perm ga"
    and "Sv_Send x peers \<in> set outs" "member_of x = Some mem" "mb_PkiId mem \<noteq> None"
    and "p \<in> set peers" "rp_PKIID p \<noteq> None" "\<not> isInMyorg env g (peer_with (rp_PKIID p))"
  shows "(\<exists>e. sg_Envelope x = Some e \<and> ev_SecretEnvelope e = None) \<and>
    (if isInMyorg env g (peer_with (mb_PkiId mem)) then mb_Endpoint mem \<noteq> []
     else bytes_eq (GetOrgOfPeer env g (rp_PKIID p)) (GetOrgOfPeer env g (mb_PkiId mem)) \<and> hasExternalEndpoint g (rp_PKIID p))"
  using assms(1-4)
proof (cases rule: batch_cases)
  case (alive em p' mem' q)
  have mem: "mem' = mem" using alive(3,4) assms(5) by (simp add: member_of_def)
  have p: "p' = p" using alive(2) assms(7) by simp
  obtain am where am: "GetAliveMsg (em_content em) = Some am" "am_Membership am = Some mem"
    using alive(4) mem by (auto simp: member_of_def bind_eq_Some_conv)
  have own: "mb_Endpoint mem \<noteq> []" if "isInMyorg env g (peer_with (mb_PkiId mem))"
    using that alive(5) am by (auto simp: isOrgRestricted_def aliveMsgsWithNoEndpointAndInOurOrg_def)
  have "bytes_eq (GetOrgOfPeer env g (rp_PKIID p)) (GetOrgOfPeer env g (mb_PkiId mem))"
    if foreign: "\<not> isInMyorg env g (peer_with (mb_PkiId mem))"
  proof -
    let ?o = "GetOrgOfPeer env g (mb_PkiId mem)" and ?r = "GetOrgOfPeer env g (rp_PKIID p)"
    have q: "GetOrgOfPeer env g (p_PKIid q) = ?r" using alive(8) p by simp
    have "bytes_len ?o \<noteq> 0" using alive(9) mem by (auto simp: peersByOriginOrgPolicy_def SelectNonePolicy_def empty_peer_def Let_def split: if_splits)
    then have o: "?o \<noteq> None" by (cases ?o) (simp_all add: bytes_len_def)
    with foreign assms(6) have "\<not> bytes_eq (gs_SelfOrg g) ?o" by (auto simp: isInMyorg_def empty_peer_def Let_def)
    with alive(9) mem q \<open>bytes_len ?o \<noteq> 0\<close> have r: "bytes_len ?r \<noteq> 0" "bytes_eq (gs_SelfOrg g) ?r \<or> bytes_eq ?r ?o"
      by (auto simp: peersByOriginOrgPolicy_def empty_peer_def Let_def split: if_splits)
    then have "?r \<noteq> None" by (cases ?r) (simp_all add: bytes_len_def)
    with assms(8,9) r(2) show ?thesis by (auto simp: isInMyorg_def empty_peer_def Let_def)
  qed
  with own alive(6,11) assms(9) p mem show ?thesis by (auto simp: stripped_def)
qed (use assms(5,7,9) in \<open>auto simp: getter_Some_iff member_of_def bind_eq_Some_conv\<close>)

theorem batch_keeps_secrets_witness:
  "\<exists>ms outs x. sendGossipBatch (ex_senv const_codec) (\<lambda>_. [0, 1]) ex_node [gossip_all (ex_alive ''b'')] = Some (ms, outs) \<and>
     Sv_Send x [remote_of (ex_member ''f'')] \<in> set outs \<and> (\<exists>e. sg_Envelope x = Some e \<and> ev_SecretEnvelope e = None)"
proof -
  let ?env = "ex_senv const_codec" and ?mem = "\<lparr>mb_Endpoint = ''b'', mb_Metadata = None, mb_PkiId = Some ''b''\<rparr>"
  let ?b = "remote_of (ex_member ''b'')" and ?f = "remote_of (ex_member ''f'')"
  obtain ga where ga: "adapter_of ?env ex_node = Some ga" "ga_membership ga = [ex_member ''b'', ex_member ''f'']" using ex_adapter by blast
  have c: "GetDataMsg (sg_Msg (ex_alive ''b'')) = None" "GetLeadershipMsg (sg_Msg (ex_alive ''b'')) = None"
    "GetStateInfo (sg_Msg (ex_alive ''b'')) = None" "GetAliveMsg (sg_Msg (ex_alive ''b'')) \<noteq> None"
    "isOrgRestricted ?env ex_node (gossip_all (ex_alive ''b'')) = Some False"
    by (simp_all add: ex_alive_def hello_from_def getter_defs isOrgRestricted_def aliveMsgsWithNoEndpointAndInOurOrg_def gossip_all_def IsOrgRestricted_def)
  have o: "isInMyorg ?env ex_node (peer_with (Some ''b''))" "\<not> isInMyorg ?env ex_node (peer_with (Some ''f''))"
    by (simp_all add: empty_peer_def DefaultOrgInChannelA_def)
  obtain x where x: "alive_peers ?env ex_node (ex_alive ''b'') [?b, ?f] = Some (x, [Sv_Send (ex_alive ''b'') [?b], Sv_Send x [?f]])"
    and mem: "member_of x = Some ?mem"
    using o by (simp add: Let_def strip_def ex_alive_def hello_from_def member_of_def getter_defs)
  have "peersByOriginOrgPolicy ?env ex_node (peer_with (Some ''b'')) = SelectAllPolicy"
    by (simp add: peersByOriginOrgPolicy_def empty_peer_def DefaultOrgInChannelA_def bytes_len_def bytes_eq_def)
  then have b: "sendGossipBatch ?env (\<lambda>_. [0, 1]) ex_node [gossip_all (ex_alive ''b'')] =
      Some ([x], [Sv_Send (ex_alive ''b'') [?b], Sv_Send x [?f]])"
    using ga c x by (simp add: sendGossipBatch_def gossipInChan_def SelectPeers_def SelectAllPolicy_def remote_of_def Let_def)
  have p: "perms_ok (\<lambda>_. [0, 1]) ga" using ga ex_draws by (simp add: perms_ok_def)
  from batch_keeps_secrets [OF b ga(1) p _ mem, of "[?f]" ?f] b o show ?thesis by auto
qed

text \<open>
  The secret envelope is cut off the shared envelope: from the first peer of another organisation on,
  nobody gets it.
\<close>

lemma alive_peers_own:
  assumes "member_of m = Some mem" "isInMyorg env g (peer_with (mb_PkiId mem))" "stripped m"
  shows "alive_peers env g m ps = Some (m, map (\<lambda>p. Sv_Send m [p]) ps)"
proof -
  have "strip m = Some m" using assms(3) by (cases m) (auto simp: strip_def stripped_def)
  with assms(1,2) show ?thesis by (induction ps) (auto simp: Let_def)
qed



end
