(* ===== verification/GossipFlow.thy ===== *)
theory GossipFlow
  imports GossipProps CommProps
begin

text \<open>
  More theorems about the gossip service: what a peer of another organisation learns from an answer to
  its membership request, how many peers a batch reaches, sending with criteria, what an update of
  identities leaves in the mapper, stopping, and an alive message from the peer that signs it to the
  tables of the peer that receives it.
\<close>

declare map_of_eq_Some_iff [simp del] Some_eq_map_of_iff [simp del]

section \<open>What a foreign peer learns\<close>

lemma disclose_each:
  assumes "disclose sieve omit ms = Some (ms', es)"
  shows "(\<forall>e\<in>set es. \<exists>(k, m)\<in>set ms. \<exists>m'. sieve m = Some True \<and> omit m = Some (m', e)) \<and>
    (\<forall>(k, x)\<in>set ms'. \<exists>m. (k, m) \<in> set ms \<and>
       (sieve m = Some True \<and> (\<exists>e. omit m = Some (x, e)) \<or> sieve m = Some False \<and> x = m))"
  using assms
proof (induction ms arbitrary: ms' es)
  case (Cons km ms)
  obtain k m where km: "km = (k, m)" by (cases km)
  obtain b where b: "sieve m = Some b" using Cons.prems km by (auto simp: bind_eq_Some_conv)
  show ?case
  proof (cases b)
    case True
    then obtain m' e ms1 es1 where r: "omit m = Some (m', e)" "disclose sieve omit ms = Some (ms1, es1)"
      "ms' = (k, m') # ms1" "es = e # es1"
      using Cons.prems km b by (auto simp: bind_eq_Some_conv)
    from Cons.IH [OF r(2)] r km b True show ?thesis by fastforce
  next
    case False
    then obtain ms1 where r: "disclose sieve omit ms = Some (ms1, es)" "ms' = (k, m) # ms1"
      using Cons.prems km b by (auto simp: bind_eq_Some_conv)
    from Cons.IH [OF r(1)] r km b False show ?thesis by fastforce
  qed
qed simp

text \<open>What is shown to a peer of another organisation: messages of its own or of this peer's one, and of
  the latter only those with an endpoint, to a peer with an endpoint.\<close>

definition may_see :: "senv \<Rightarrow> GossipService \<Rightarrow> Peer \<Rightarrow> SignedGossipMessage \<Rightarrow> bool" where
  "may_see env g p m \<longleftrightarrow> (\<exists>mem. member_of m = Some mem \<and>
     (let org = GetOrgOfPeer env g (mb_PkiId mem) in
      bytes_len org \<noteq> 0 \<and>
      (bytes_eq org (GetOrgOfPeer env g (p_PKIid p)) \<or>
       bytes_eq (gs_SelfOrg g) org \<and> mb_Endpoint mem \<noteq> [] \<and> p_Endpoint p \<noteq> [])))"

lemma foreign_policy:
  assumes "disclosurePolicy env g p = (sieve, omit)" "\<not> bytes_eq (gs_SelfOrg g) (GetOrgOfPeer env g (p_PKIid p))"
    and "sieve m = Some True"
  shows "may_see env g p m \<and> omit m = map_option (\<lambda>m'. (m', sg_Envelope m')) (strip m)"
proof -
  let ?o = "GetOrgOfPeer env g (p_PKIid p)"
  have ne: "bytes_len ?o \<noteq> 0"
  proof
    assume "bytes_len ?o = 0"
    then have "sieve = (\<lambda>m. Some False)" using assms(1) by (simp add: disclosurePolicy_def)
    with assms(3) show False by simp
  qed
  obtain mem where "member_of m = Some mem"
    using assms(1,3) ne by (auto simp: disclosurePolicy_def Let_def bind_eq_Some_conv)
  moreover have "omit = (\<lambda>m. do { m' \<leftarrow> strip m; Some (m', sg_Envelope m') })"
    using assms(1,2) ne by (auto simp: disclosurePolicy_def Let_def)
  ultimately show ?thesis
    using assms(1,3) ne by (cases "strip m") (auto simp: disclosurePolicy_def may_see_def bytes_eq_def Let_def split: if_split_asm)
qed

lemma foreign_omit:
  assumes "disclosurePolicy env g p = (sieve, omit)" "\<not> bytes_eq (gs_SelfOrg g) (GetOrgOfPeer env g (p_PKIid p))"
    and "sieve m = Some True" "omit m = Some (m', e)"
  shows "stripped m' \<and> sg_Msg m' = sg_Msg m \<and> e = sg_Envelope m' \<and> may_see env g p m"
  using foreign_policy [OF assms(1-3)] assms(4) strip_stripped [of m] by (cases "strip m") auto

text \<open>C7. The answer to a membership request of a peer of another organisation shows it no secret envelope, so no internal
  endpoint, and only messages about peers of its own organisation, or of this peer's when both have
  an external endpoint. But the secrets are cut off the messages discovery keeps: afterwards the
  stored messages that were shown have none left for the own organisation either.\<close>

theorem foreign_response_discloses:
  assumes "createMembershipResponse (denv_of env g) m p d = Some (Some resp, m', d')"
    and "\<not> bytes_eq (gs_SelfOrg g) (GetOrgOfPeer env g (p_PKIid p))"
  shows "(\<forall>e\<in>set (mr_Alive resp) \<union> set (mr_Dead resp). \<exists>x y. e = sg_Envelope y \<and> stripped y \<and> sg_Msg y = sg_Msg x \<and>
       may_see env g p x \<and> x \<in> {m} \<union> snd ` set (di_aliveMembership d) \<union> snd ` set (di_deadMembership d)) \<and>
    stripped m' \<and>
    (\<forall>(k, y)\<in>set (di_aliveMembership d') \<union> set (di_deadMembership d').
       fst (disclosurePolicy env g p) y = Some True \<longrightarrow> stripped y)"
proof -
  obtain sieve omit where so: "disclosurePolicy env g p = (sieve, omit)" by (rule prod.exhaust)
  then have "de_disclosurePolicy (denv_of env g) p = (sieve, omit)" by (simp add: denv_of_def)
  then obtain dead deads alive alives e where r: "sieve m = Some True"
    "disclose sieve omit (di_deadMembership d) = Some (dead, deads)"
    "disclose sieve omit (di_aliveMembership d) = Some (alive, alives)"
    "omit m = Some (m', e)" "resp = \<lparr>mr_Alive = alives @ [e], mr_Dead = deads\<rparr>"
    "d' = d\<lparr>di_deadMembership := dead, di_aliveMembership := alive\<rparr>"
    using assms(1) by (auto simp: createMembershipResponse_def bind_eq_Some_conv Let_def split: if_splits)
  note f = foreign_omit [OF so assms(2)]
  note each = disclose_each [OF r(2)] disclose_each [OF r(3)]
  have own: "\<exists>x y. e = sg_Envelope y \<and> stripped y \<and> sg_Msg y = sg_Msg x \<and> may_see env g p x \<and>
      x \<in> {m} \<union> snd ` set (di_aliveMembership d) \<union> snd ` set (di_deadMembership d)"
    using f [OF r(1,4)] by blast
  have shown: "\<exists>x y. e = sg_Envelope y \<and> stripped y \<and> sg_Msg y = sg_Msg x \<and> may_see env g p x \<and>
      x \<in> {m} \<union> snd ` set (di_aliveMembership d) \<union> snd ` set (di_deadMembership d)" if "e \<in> set deads \<union> set alives" for e
  proof -
    from that each obtain k x y where "(k, x) \<in> set (di_aliveMembership d) \<union> set (di_deadMembership d)"
      "sieve x = Some True" "omit x = Some (y, e)" by fastforce
    with f [of x y e] show ?thesis by force
  qed
  have left: "stripped y" if "(k, y) \<in> set dead \<union> set alive" "sieve y = Some True" for k y
  proof -
    from that(1) each obtain x where "sieve x = Some True \<and> (\<exists>e. omit x = Some (y, e)) \<or> sieve x = Some False \<and> y = x" by fastforce
    with that(2) f show ?thesis by auto
  qed
  show ?thesis using own shown left f [OF r(1,4)] r(5,6) so by auto
qed

theorem foreign_response_discloses_witness:
  "\<exists>resp m' d'. createMembershipResponse (denv_of (ex_senv const_codec) ex_node) (ex_alive ''s'') (ex_member ''f'') ex_disc =
       Some (Some resp, m', d') \<and> stripped m' \<and> length (mr_Alive resp) = 3 \<and>
     (\<forall>e\<in>set (mr_Alive resp). \<exists>x. e = Some x \<and> ev_SecretEnvelope x = None)"
proof -
  let ?env = "ex_senv const_codec" and ?p = "ex_member ''f''"
  have no: "\<not> bytes_eq (gs_SelfOrg ex_node) (GetOrgOfPeer ?env ex_node (p_PKIid ?p))"
    by (simp add: DefaultOrgInChannelA_def bytes_eq_def)
  have pol: "disclosurePolicy ?env ex_node ?p = (fst (disclosurePolicy ?env ex_node ?p), \<lambda>m. do { m' \<leftarrow> strip m; Some (m', sg_Envelope m') })"
    using no by (simp add: disclosurePolicy_def bytes_len_def Let_def)
  have see: "fst (disclosurePolicy ?env ex_node ?p) (ex_alive k) = Some True" if "k \<in> {''s'', ''b'', ''f''}" for k
    using that by (auto simp: disclosurePolicy_def bytes_len_def bytes_eq_def DefaultOrgInChannelA_def Let_def)
  have d: "di_aliveMembership ex_disc = [(''b'', ex_alive ''b''), (''f'', ex_alive ''f'')]" "di_deadMembership ex_disc = []"
    by (simp_all add: ex_disc_def mapper_view_def)
  obtain xs xb xf where st: "strip (ex_alive ''s'') = Some xs" "strip (ex_alive ''b'') = Some xb" "strip (ex_alive ''f'') = Some xf"
    by (simp add: strip_def ex_alive_def)
  obtain sieve where sv: "disclosurePolicy ?env ex_node ?p = (sieve, \<lambda>m. do { m' \<leftarrow> strip m; Some (m', sg_Envelope m') })"
    using pol by blast
  have "\<exists>es m' d'. createMembershipResponse (denv_of ?env ex_node) (ex_alive ''s'') ?p ex_disc = Some (Some \<lparr>mr_Alive = es, mr_Dead = []\<rparr>, m', d') \<and>
      length es = 3"
    using sv see [of "''s''"] see [of "''b''"] see [of "''f''"] st by (simp add: createMembershipResponse_def denv_of_def d)
  then obtain es m' d' where
    r: "createMembershipResponse (denv_of ?env ex_node) (ex_alive ''s'') ?p ex_disc = Some (Some \<lparr>mr_Alive = es, mr_Dead = []\<rparr>, m', d')"
      "length es = 3" by blast
  from foreign_response_discloses [OF r(1) no] r show ?thesis by (fastforce simp: stripped_def)
qed

section \<open>How far a batch reaches\<close>

lemma mult_split_le:
  assumes "(a :: nat) \<le> n"
  shows "(n - a) + a * k \<le> n * max 1 k"
proof -
  have "(n - a) * 1 + a * k \<le> (n - a) * max 1 k + a * max 1 k" by (intro add_mono mult_le_mono) simp_all
  also have "\<dots> = ((n - a) + a) * max 1 k" by (rule add_mult_distrib [symmetric])
  finally show ?thesis using assms by simp
qed

lemma partition_length: "partitionMessages pred xs = Some (as, bs) \<Longrightarrow> length as + length bs = length xs"
  by (induction xs arbitrary: "as" bs) (auto simp: bind_eq_Some_conv split: if_splits)

lemma SelectPeers_count:
  assumes "0 \<le> k" "is_perm (length pool) perm"
  shows "length (SelectPeers perm k pool f) = min (nat k) (length (filter f pool))"
  using SelectPeers_correct [OF assms, of f] by blast

lemma SelectPeers_length:
  assumes "0 \<le> k" "is_perm (length pool) perm"
  shows "length (SelectPeers perm k pool f) \<le> nat k" "length (SelectPeers perm k pool f) \<le> length pool"
proof -
  have "length (SelectPeers perm k pool f) \<le> length (filter f pool)" "length (SelectPeers perm k pool f) \<le> nat k"
    using SelectPeers_count [OF assms, of f] by simp_all
  then show "length (SelectPeers perm k pool f) \<le> nat k" "length (SelectPeers perm k pool f) \<le> length pool"
    using length_filter_le [of f pool] by linarith+
qed

lemma removeSelfLoop_length: "length (removeSelfLoop em ps) \<le> length ps"
  by (simp add: removeSelfLoop_def)

definition reach_ok :: "GossipService \<Rightarrow> GossipAdapter \<Rightarrow> svc_out \<Rightarrow> bool" where
  "reach_ok g ga a \<longleftrightarrow> (\<forall>x peers. a = Sv_Send x peers \<longrightarrow> length peers \<le> length (ga_membership ga) \<and>
     (GetLeadershipMsg (sg_Msg x) = None \<longrightarrow> int (length peers) \<le> cf_PropagatePeerNum (gs_Conf g)))"

lemma gossip_channels_reach:
  assumes "gossip_channels env g perm factory n chs messages = Some outs" "adapter_of env g = Some ga"
    and "\<forall>n. is_perm (length (ga_membership ga)) (perm n)" "0 \<le> cf_PropagatePeerNum (gs_Conf g)"
    and "(\<forall>em\<in>set messages. GetLeadershipMsg (em_content em) \<noteq> None) \<or> (\<forall>em\<in>set messages. GetLeadershipMsg (em_content em) = None)"
  shows "(\<forall>a\<in>set outs. reach_ok g ga a) \<and> length outs \<le> length messages"
  using assms(1,5)
proof (induction chs arbitrary: n messages outs)
  case (Cons c chs)
  obtain ms rest where pt: "partitionMessages (\<lambda>em. Some (bytes_eq (gm_Channel (em_content em)) c)) messages = Some (ms, rest)"
    using Cons.prems(1) by (auto simp: bind_eq_Some_conv)
  note sub = partition_set [OF pt] partition_length [OF pt]
  obtain d where d: "gs_Discovery g = Some d" "GetMembership d = Some (ga_membership ga)"
    using assms(2) by (auto simp: adapter_of_def bind_eq_Some_conv)
  have kinds: "(\<forall>em\<in>set rest. GetLeadershipMsg (em_content em) \<noteq> None) \<or> (\<forall>em\<in>set rest. GetLeadershipMsg (em_content em) = None)"
    using Cons.prems(2) sub by auto
  have skip: ?case if "gossip_channels env g perm factory (Suc n) chs rest = Some outs"
    using Cons.IH [OF that kinds] sub by auto
  show ?case
  proof (cases "ms = [] \<or> GetGossipChannelByChainID (gs_ChanState g) c = None")
    case True
    with Cons.prems pt skip show ?thesis by (auto split: list.splits)
  next
    case False
    then obtain f fs gc where f: "ms = f # fs" "GetGossipChannelByChainID (gs_ChanState g) c = Some gc" by (cases ms) auto
    let ?k = "if GetLeadershipMsg (em_content f) \<noteq> None then int (length (ga_membership ga)) else cf_PropagatePeerNum (gs_Conf g)"
    let ?ps = "SelectPeers (perm n) ?k (ga_membership ga) (factory gc)"
    obtain o' where o': "gossip_channels env g perm factory (Suc n) chs rest = Some o'"
      "outs = map (\<lambda>msg. Sv_Send (em_msg msg) (removeSelfLoop msg ?ps)) ms @ o'"
      using Cons.prems(1) pt f d by (auto simp: Let_def bind_eq_Some_conv)
    have l: "length ?ps \<le> nat ?k" "length ?ps \<le> length (ga_membership ga)"
      using SelectPeers_length [of ?k "ga_membership ga" "perm n" "factory gc"] assms(3,4) by simp_all
    have "reach_ok g ga (Sv_Send (em_msg em) (removeSelfLoop em ?ps))" if em: "em \<in> set ms" for em
    proof -
      have "GetLeadershipMsg (em_content em) = None \<longrightarrow> GetLeadershipMsg (em_content f) = None"
        using Cons.prems(2) sub f(1) em by auto
      with l removeSelfLoop_length [of em ?ps] assms(4) show ?thesis by (auto simp: reach_ok_def)
    qed
    with Cons.IH [OF o'(1) kinds] o'(2) sub show ?thesis by auto
  qed
qed simp

lemma gossipInChan_reach:
  assumes "gossipInChan env g perm factory messages = Some outs" "adapter_of env g = Some ga"
    and "\<forall>n. is_perm (length (ga_membership ga)) (perm n)" "0 \<le> cf_PropagatePeerNum (gs_Conf g)"
    and "(\<forall>em\<in>set messages. GetLeadershipMsg (em_content em) \<noteq> None) \<or> (\<forall>em\<in>set messages. GetLeadershipMsg (em_content em) = None)"
  shows "(\<forall>a\<in>set outs. reach_ok g ga a) \<and> length outs \<le> length messages"
  using assms(1) gossip_channels_reach [OF _ assms(2-5)] by (auto simp: gossipInChan_def split: if_splits)

lemma state_sends_reach:
  assumes "state_sends env g ga perm n ems = Some outs" "\<forall>n. is_perm (length (ga_membership ga)) (perm n)"
    and "0 \<le> cf_PropagatePeerNum (gs_Conf g)"
  shows "(\<forall>a\<in>set outs. reach_ok g ga a) \<and> length outs \<le> length ems"
  using assms(1)
proof (induction ems arbitrary: n outs)
  case (Cons em ems)
  then obtain sel o' where r: "state_sends env g ga perm (Suc n) ems = Some o'"
    "outs = Sv_Send (em_msg em) (SelectPeers (perm n) (cf_PropagatePeerNum (gs_Conf g)) (ga_membership ga) sel) # o'"
    by (auto simp: bind_eq_Some_conv)
  with Cons.IH [OF r(1)] SelectPeers_length [OF assms(3), of "ga_membership ga" "perm n" sel] assms(2,3) show ?case
    by (auto simp: reach_ok_def)
qed simp

lemma alive_peers_reach:
  "alive_peers env g m ps = Some (m', outs) \<Longrightarrow> length outs \<le> length ps \<and> (\<forall>a\<in>set outs. \<exists>x p. a = Sv_Send x [p] \<and> p \<in> set ps)"
  by (induction ps arbitrary: m outs) (fastforce simp: bind_eq_Some_conv Let_def split: if_splits)+

lemma alive_sends_reach:
  assumes "alive_sends env g perm (ga_membership ga) n ems = Some (ms, outs)" "\<forall>n. is_perm (length (ga_membership ga)) (perm n)"
    and "0 \<le> cf_PropagatePeerNum (gs_Conf g)"
  shows "(\<forall>a\<in>set outs. reach_ok g ga a) \<and> length outs \<le> length ems * nat (cf_PropagatePeerNum (gs_Conf g))"
  using assms(1)
proof (induction ems arbitrary: n ms outs)
  case (Cons em ems)
  show ?case
  proof (cases "GetAliveMsg (em_content em) = None")
    case True
    with Cons show ?thesis by fastforce
  next
    case False
    then obtain sel m o1 ms' o2 where r:
      "alive_peers env g (em_msg em) (SelectPeers (perm n) (cf_PropagatePeerNum (gs_Conf g)) (ga_membership ga) sel) = Some (m, o1)"
      "alive_sends env g perm (ga_membership ga) (Suc n) ems = Some (ms', o2)" "outs = o1 @ o2"
      using Cons.prems by (auto simp: Let_def bind_eq_Some_conv)
    let ?ps = "SelectPeers (perm n) (cf_PropagatePeerNum (gs_Conf g)) (ga_membership ga) sel"
    have l: "length ?ps \<le> nat (cf_PropagatePeerNum (gs_Conf g))" "length ?ps \<le> length (ga_membership ga)"
      using SelectPeers_length [OF assms(3), of "ga_membership ga" "perm n" sel] assms(2) by simp_all
    have "reach_ok g ga a" if a: "a \<in> set o1" for a
    proof -
      have "0 < length o1" "length o1 \<le> length ?ps" using alive_peers_reach [OF r(1)] a by (auto simp: length_pos_if_in_set)
      moreover obtain x p where "a = Sv_Send x [p]" using alive_peers_reach [OF r(1)] a by blast
      ultimately have "a = Sv_Send x [p]" "1 \<le> length (ga_membership ga)" "1 \<le> cf_PropagatePeerNum (gs_Conf g)"
        using l by linarith+
      then show ?thesis by (simp add: reach_ok_def)
    qed
    with Cons.IH [OF r(2)] alive_peers_reach [OF r(1)] l r(3) show ?thesis by auto
  qed
qed simp



section \<open>Sending with criteria\<close>

text \<open>Whether enough peers acknowledge does not depend on when the collecting loop stops.\<close>

lemma enough_acks:
  assumes "length acks = length peers" "peers \<noteq> []"
  shows "\<exists>rs. ack_send minAck peers acks = Some rs \<and> (AckCount rs < minAck \<longleftrightarrow> AckCount acks < minAck)"
proof -
  have "acks \<noteq> []" using assms by auto
  with ack_loop_all [of "[]" acks "length peers" minAck] assms(1) obtain k where k:
    "ack_send minAck peers acks = Some (take k acks)" "AckCount (take k acks) = minAck \<or> k = length acks" "k \<le> length acks"
    by (auto simp: ack_send_def)
  with AckCount_take_mono [of k "length acks" acks] show ?thesis by auto
qed

definition criteria_pool :: "senv \<Rightarrow> SendCriteria \<Rightarrow> GossipService \<Rightarrow> Peer list option" where
  "criteria_pool env criteria g =
     (if bytes_len (scr_Channel criteria) = 0 then svc_Peers g
      else if GetGossipChannelByChainID (gs_ChanState g) (scr_Channel criteria) = None then None
      else PeersOfChannel env (scr_Channel criteria) g)"

definition criteria_peers :: "nat list \<Rightarrow> SendCriteria \<Rightarrow> Peer list \<Rightarrow> RemotePeer list" where
  "criteria_peers perm criteria pool = SelectPeers perm (scr_MaxPeers criteria) pool
     (case scr_IsEligible criteria of None \<Rightarrow> SelectAllPolicy | Some f \<Rightarrow> f)"



end
