(* ===== verification/GossipStop.thy ===== *)
theory GossipStop
  imports GossipFlow
begin

text \<open>
  Stopping a gossip service: every operation keeps what is stopped, so after \<open>Stop\<close> the service neither
  handles nor sends anything, whatever happens to it.
\<close>

declare map_of_eq_Some_iff [simp del] Some_eq_map_of_iff [simp del]

text \<open>What is stopped stays stopped.\<close>

definition stops_le :: "GossipService \<Rightarrow> GossipService \<Rightarrow> bool" where
  "stops_le g g' \<longleftrightarrow> (gs_StopFlag g \<longrightarrow> gs_StopFlag g') \<and> (gs_IncClosed g \<longrightarrow> gs_IncClosed g') \<and>
     (be_stopFlag (gs_Emitter g) \<longrightarrow> be_stopFlag (gs_Emitter g')) \<and> (dm_closed (gs_demux g) \<longrightarrow> dm_closed (gs_demux g')) \<and>
     (cst_Stopping (gs_ChanState g) \<longrightarrow> cst_Stopping (gs_ChanState g'))"

lemma stops_refl [simp]: "stops_le g g"
  by (simp add: stops_le_def)

lemma stops_trans: "stops_le a b \<Longrightarrow> stops_le b c \<Longrightarrow> stops_le a c"
  by (simp add: stops_le_def)

lemma stops_fields [simp]:
  "stops_le g (g\<lparr>gs_IdMapper := im\<rparr>)" "stops_le g (g\<lparr>gs_Discovery := d\<rparr>)" "stops_le g (g\<lparr>gs_CertPuller := p\<rparr>)"
  "stops_le g (g\<lparr>gs_StateInfoMsgStore := s\<rparr>)" "stops_le g (g\<lparr>gs_PresumedDead := q\<rparr>)"
  "stops_le g (g\<lparr>gs_Discovery := d, gs_IdMapper := im\<rparr>)" "stops_le g (put_channel gc g)"
  by (simp_all add: stops_le_def put_channel_def)

lemma emitter_Add_stop: "be_stopFlag (fst (BatchingEmitter_Add x e)) = be_stopFlag e"
  by (simp add: BatchingEmitter_Add_def emit_def Let_def split: prod.splits)

lemma emitter_Add_stops: "emitter_Add em g = (g', outs) \<Longrightarrow> stops_le g g'"
  using emitter_Add_stop [of em "gs_Emitter g"] by (auto simp: emitter_Add_def stops_le_def split: prod.splits)

lemma DeMultiplex_stop: "DeMultiplex m d = (d', ok) \<Longrightarrow> dm_closed d' = dm_closed d"
  by (auto simp: DeMultiplex_def split: if_splits prod.splits)

lemma run_chan_out_stops:
  assumes "run_chan_out a s = Some s'"
  shows "stops_le (fst s) (fst s')"
proof -
  obtain g outs where s: "s = (g, outs)" by (rule prod.exhaust)
  show ?thesis
  proof (cases a)
    case (Ch_DeMultiplex m)
    then show ?thesis using assms s by (auto simp: run_chan_out_def stops_le_def dest: DeMultiplex_stop split: prod.splits)
  qed (use assms s in \<open>auto simp: run_chan_out_def GossipAdapter_Gossip_def GossipAdapter_Forward_def dest: emitter_Add_stops split: prod.splits\<close>)
qed

lemma run_disc_out_stops:
  assumes "run_disc_out a s = Some s'"
  shows "stops_le (fst s) (fst s')"
proof -
  obtain g outs where s: "s = (g, outs)" by (rule prod.exhaust)
  show ?thesis
    by (cases a) (use assms s in \<open>auto simp: run_disc_out_def GossipFunc_def ForwardFunc_def dest: emitter_Add_stops split: prod.splits if_splits\<close>)
qed

lemma on_channel_stops: "on_channel f env gc g = Some (g', outs) \<Longrightarrow> stops_le g g'"
proof -
  assume "on_channel f env gc g = Some (g', outs)"
  then obtain gc' os where "foldM run_chan_out os (put_channel gc' g, []) = Some (g', outs)"
    by (auto simp: on_channel_def bind_eq_Some_conv)
  then have "stops_le g (fst (g', outs))"
    by (rule foldM_inv [where I = "\<lambda>s. stops_le g (fst s)"]) (auto intro: stops_trans dest: run_chan_out_stops)
  then show ?thesis by simp
qed

lemma on_disc_stops: "on_disc f env g = Some (g', outs) \<Longrightarrow> stops_le g g'"
proof -
  assume "on_disc f env g = Some (g', outs)"
  then obtain d os where "foldM run_disc_out os (g\<lparr>gs_Discovery := Some (d\<lparr>di_out := []\<rparr>), gs_IdMapper := di_idMapper d\<rparr>, []) = Some (g', outs)"
    by (auto simp: on_disc_def bind_eq_Some_conv)
  then have "stops_le g (fst (g', outs))"
    by (rule foldM_inv [where I = "\<lambda>s. stops_le g (fst s)"]) (auto intro: stops_trans dest: run_disc_out_stops)
  then show ?thesis by simp
qed

lemma validateMsg_stops: "validateMsg env now m g = Some (b, g') \<Longrightarrow> stops_le g g'"
  by (auto simp: validateMsg_def Let_def split: if_splits prod.splits)

lemma identity_Put_stops: "stops_le g (identity_Put env now i g)"
  by (simp add: identity_Put_def)

lemma run_cert_out_stops:
  assumes "run_cert_out env now a s = Some s'"
  shows "stops_le (fst s) (fst s')"
proof -
  obtain g outs where s: "s = (g, outs)" by (rule prod.exhaust)
  have h: "cert_hook env now ms g = Some g' \<Longrightarrow> stops_le g g'" for ms g'
    unfolding cert_hook_def
    by (erule foldM_inv [where I = "stops_le g"]) (auto intro: stops_trans identity_Put_stops)
  show ?thesis
    by (cases a) (use assms s h in \<open>auto simp: run_cert_out_def certConsumer_def identity_Put_stops split: option.splits\<close>)
qed

lemma cert_puller_stops: "cert_puller_handle env now m g = Some (g', outs) \<Longrightarrow> stops_le g g'"
proof -
  assume "cert_puller_handle env now m g = Some (g', outs)"
  then obtain p os where "foldM (run_cert_out env now) os (g\<lparr>gs_CertPuller := p\<rparr>, []) = Some (g', outs)"
    by (auto simp: cert_puller_handle_def bind_eq_Some_conv)
  then have "stops_le g (fst (g', outs))"
    by (rule foldM_inv [where I = "\<lambda>s. stops_le g (fst s)"]) (auto intro: stops_trans dest: run_cert_out_stops)
  then show ?thesis by simp
qed

lemma identity_pull_stops: "handle_identity_pull env now m g = Some (g', outs) \<Longrightarrow> stops_le g g'"
  by (auto simp: handle_identity_pull_def Let_def bind_eq_Some_conv dest: cert_puller_stops split: if_splits)

lemma unrestricted_stops: "handle_unrestricted env now m g = Some (g', outs) \<Longrightarrow> stops_le g g'"
  by (auto simp: handle_unrestricted_def bind_eq_Some_conv dest: identity_pull_stops split: if_splits)

lemma no_channel_stops:
  assumes h: "handle_no_channel env now m g = Some (g', outs)"
  shows "stops_le g g'"
proof (cases "g' = g")
  case False
  with h obtain store em o1 where "g' = g\<lparr>gs_StateInfoMsgStore := store\<rparr> \<or> emitter_Add em (g\<lparr>gs_StateInfoMsgStore := store\<rparr>) = (g', o1)"
    by (auto simp: handle_no_channel_def bind_eq_Some_conv Let_def split: if_splits)
  then show ?thesis by (metis emitter_Add_stops stops_fields(4) stops_trans)
qed simp

lemma restricted_stops: "handle_restricted env now m g = Some (g', outs) \<Longrightarrow> stops_le g g'"
  by (auto simp: handle_restricted_def bind_eq_Some_conv dest: on_channel_stops no_channel_stops split: option.splits if_splits)

lemma handleMessage_stops: "handleMessage env now mo g = Some (g', outs) \<Longrightarrow> stops_le g g'"
  by (auto simp: handleMessage_def bind_eq_Some_conv dest!: validateMsg_stops
      dest: restricted_stops unrestricted_stops intro: stops_trans split: option.splits if_splits)

lemma Gossip_stops: "svc_Gossip env now msg g = Some (g', outs) \<Longrightarrow> stops_le g g'"
  by (drule Gossip_cases) (auto dest!: on_channel_stops emitter_Add_stops intro: stops_trans)

lemma self_member_stops: "selfNetworkMember env g = (p, g') \<Longrightarrow> stops_le g g'"
  by (auto simp: selfNetworkMember_def Let_def split: option.splits prod.splits)

lemma connect_stops: "connect_to idf env now hs endpoint g = Some (g', outs) \<Longrightarrow> stops_le g g'"
  by (auto simp: connect_to_def dest: on_disc_stops)

lemma learn_anchor_stops: "learn_anchor env now hs org ap (g, outs) = Some s' \<Longrightarrow> stops_le g (fst s')"
  by (auto simp: learn_anchor_def Let_def dest!: connect_stops self_member_stops split: if_splits prod.splits)
     (meson stops_trans)+

lemma learnAnchorPeers_stops: "learnAnchorPeers env now hs org aps s = Some s' \<Longrightarrow> stops_le (fst s) (fst s')"
  unfolding learnAnchorPeers_def
  by (auto split: if_splits elim!: foldM_inv [where I = "\<lambda>t. stops_le (fst s) (fst t)"] dest!: learn_anchor_stops intro: stops_trans)

lemma JoinChan_stops: "JoinChan env now now1 now2 hs j c g = Some (g', outs) \<Longrightarrow> stops_le g g'"
proof -
  assume "JoinChan env now now1 now2 hs j c g = Some (g', outs)"
  then obtain ga cs where j: "JoinChannel ga (se_config env) now now1 now2 (gs_PKIID g) (gs_SelfOrg g) j c (gs_ChanState g) = Some cs"
    "foldM (\<lambda>org. learnAnchorPeers env now hs org (AnchorPeersOf org j)) (JoinChanMsg_Peers j) (g\<lparr>gs_ChanState := cs\<rparr>, []) = Some (g', outs)"
    by (auto simp: JoinChan_def bind_eq_Some_conv)
  have "stops_le g (g\<lparr>gs_ChanState := cs\<rparr>)" using j(1) by (auto simp: stops_le_def JoinChannel_def split: if_splits option.splits)
  then have "stops_le g (fst (g', outs))"
    by (intro foldM_inv [OF j(2), where I = "\<lambda>s. stops_le g (fst s)"]) (auto dest: learnAnchorPeers_stops intro: stops_trans)
  then show ?thesis by simp
qed

lemma bootstrap_stops: "connect2BootstrapPeers env now hs g = Some (g', outs) \<Longrightarrow> stops_le g g'"
  unfolding connect2BootstrapPeers_def
  using foldM_inv [where I = "\<lambda>s. stops_le g (fst s)" and t = "(g', outs)" and s = "(g, [])"]
  by (force dest: connect_stops intro: stops_trans)

lemma purged_stops: "stops_le (fst s) (fst (fold identity_purged ps s))"
proof (induction ps arbitrary: s)
  case (Cons x ps)
  have "stops_le (fst s) (fst (identity_purged x s))" by (cases x; cases s) (simp add: identity_purged_def)
  with Cons.IH [of "identity_purged x s"] show ?case by (auto intro: stops_trans)
qed simp

lemma svc_step_stops: "svc_step env g g' \<Longrightarrow> stops_le g g'"
proof (induction rule: svc_step.induct)
  case (sv_message mo now g g' outs)
  then show ?case by (blast intro: handleMessage_stops)
next
  case (sv_takes m now g g' outs)
  then show ?case by (auto simp: discovery_takes_def intro: on_disc_stops)
next
  case (sv_sync now draws g g' outs)
  then show ?case by (auto simp: syncDiscovery_def intro: on_disc_stops split: if_splits)
next
  case (sv_presumed p g g')
  then show ?case by (auto simp: handlePresumedDead_def split: if_splits)
next
  case (sv_emit g)
  have "be_stopFlag (fst (periodicEmit e)) = be_stopFlag e" for e :: "EmittedGossipMessage BatchingEmitter"
    by (simp add: periodicEmit_def emit_def Let_def split: prod.splits)
  then show ?case by (simp add: svc_periodicEmit_def stops_le_def split: prod.splits) (metis fst_conv)
next
  case (sv_suspect g th now sus)
  obtain im ps where s: "SuspectPeers (se_mcs env) th now sus (gs_IdMapper g) = (im, ps)" by (rule prod.exhaust)
  from stops_trans [OF stops_fields(1) purged_stops [of "(g\<lparr>gs_IdMapper := im\<rparr>, [])" ps, simplified fst_conv]] s show ?case
    by (simp add: svc_SuspectPeers_def)
next
  case (sv_timer now k g g' outs)
  then obtain im ps where t: "fold identity_purged ps (g\<lparr>gs_IdMapper := im\<rparr>, []) = (g', outs)"
    by (auto simp: identity_expires_def)
  from stops_trans [OF stops_fields(1) purged_stops [of "(g\<lparr>gs_IdMapper := im\<rparr>, [])" ps, simplified fst_conv]] t show ?case by simp
next
  case (sv_height now h c g g' outs)
  then show ?case by (auto simp: svc_UpdateLedgerHeight_def intro: on_channel_stops split: option.splits)
next
  case (sv_leave now c g g' outs)
  then show ?case by (auto simp: LeaveChan_def intro: on_channel_stops split: option.splits)
next
  case (sv_receive g acceptor pass)
  then show ?case by (simp add: svc_Receive_def stops_le_def AddChannel_def)
next
  case (sv_received i g msg g')
  then show ?case by (auto simp: Receive_next_def Let_def stops_le_def split: if_splits list.splits)
next
  case (sv_stop g)
  then show ?case by (simp add: svc_Stop_def stops_le_def BatchingEmitter_Stop_def demux_Close_def ChannelState_Stop_def)
qed (auto simp: stateInfo_expirationTick_def intro: Gossip_stops JoinChan_stops bootstrap_stops on_disc_stops on_channel_stops)

lemma svc_steps_stops: "(svc_step env)\<^sup>*\<^sup>* g g' \<Longrightarrow> stops_le g g'"
  by (induction rule: rtranclp_induct) (auto intro: stops_trans svc_step_stops)



end
