(* ===== verification/GossipIds.thy ===== *)
theory GossipIds
  imports GossipStop PullProps
begin

text \<open>
  Identities across the service: what an update of identities leaves in the mapper, and what the loss of
  an identity does to the puller and the connections.
\<close>

declare map_of_eq_Some_iff [simp del] Some_eq_map_of_iff [simp del]

section \<open>The mapper only grows\<close>

definition mapper_le :: "GossipService \<Rightarrow> GossipService \<Rightarrow> bool" where
  "mapper_le a b \<longleftrightarrow> (\<forall>k si. map_get (im_pkiID2Cert (gs_IdMapper a)) k = Some si \<longrightarrow>
     map_get (im_pkiID2Cert (gs_IdMapper b)) k = Some si)"

lemma mapper_le_refl [simp]: "mapper_le g g"
  by (simp add: mapper_le_def)

lemma mapper_le_trans: "mapper_le a b \<Longrightarrow> mapper_le b c \<Longrightarrow> mapper_le a c"
  by (simp add: mapper_le_def)

lemma mapper_le_has: "mapper_le a b \<Longrightarrow> map_has (im_pkiID2Cert (gs_IdMapper a)) k \<Longrightarrow> map_has (im_pkiID2Cert (gs_IdMapper b)) k"
  by (auto simp: mapper_le_def map_has_def)

text \<open>An identity that the mapper accepts.\<close>

definition acceptable :: "senv \<Rightarrow> instant \<Rightarrow> PeerIdentity \<Rightarrow> bool" where
  "acceptable env now i \<longleftrightarrow> pi_Cert i \<noteq> None \<and> pi_PkiId i \<noteq> None \<and> bytes_eq (pi_PkiId i) (GetPKIidOfCert (pi_Cert i)) \<and>
     ValidateIdType (se_mcs env) (pi_Cert i) = None \<and>
     (\<forall>t. Expiration (se_ExpirationTimes env) now (pi_Cert i) = Inr (Some t) \<longrightarrow> now \<le> t)"

lemma identity_Put_learns:
  "mapper_le g (identity_Put env now i g)"
  "acceptable env now i \<Longrightarrow> map_has (im_pkiID2Cert (gs_IdMapper (identity_Put env now i g))) (str_of (pi_PkiId i))"
proof -
  obtain r im where p: "IdMapper_Put (se_mcs env) (se_ExpirationTimes env) now (pi_PkiId i) (pi_Cert i) (gs_IdMapper g) = (r, im)"
    by (rule prod.exhaust)
  then have put: "identity_Put env now i g = g\<lparr>gs_IdMapper := im\<rparr>" by (simp add: identity_Put_def)
  from p show "mapper_le g (identity_Put env now i g)" unfolding put
    by (cases rule: Put_cases) (auto simp: mapper_le_def map_has_def)
  assume a: "acceptable env now i"
  obtain tm where "Expiration (se_ExpirationTimes env) now (pi_Cert i) = Inr tm"
    by (cases "map_get (se_ExpirationTimes env) (str_of (pi_Cert i))") (auto simp: Expiration_def)
  with a p have "r = None"
    by (auto simp: acceptable_def IdMapper_Put_def Let_def split: option.splits if_splits)
  with p show "map_has (im_pkiID2Cert (gs_IdMapper (identity_Put env now i g))) (str_of (pi_PkiId i))" unfolding put
    by (cases rule: Put_cases) (auto simp: map_has_def)
qed

lemma certConsumer_learns:
  "mapper_le g (certConsumer env now m g)"
  "GetPeerIdentity (sg_Msg m) = Some i \<Longrightarrow> acceptable env now i \<Longrightarrow>
     map_has (im_pkiID2Cert (gs_IdMapper (certConsumer env now m g))) (str_of (pi_PkiId i))"
  by (auto simp: certConsumer_def identity_Put_learns acceptable_def split: option.splits)

lemma run_cert_out_le:
  assumes "run_cert_out env now a s = Some s'"
  shows "mapper_le (fst s) (fst s')"
proof -
  obtain g outs where s: "s = (g, outs)" by (rule prod.exhaust)
  have h: "mapper_le g g'" if "cert_hook env now ms g = Some g'" for ms g'
    using that unfolding cert_hook_def
    by (rule foldM_inv [where I = "mapper_le g"]) (auto intro: mapper_le_trans identity_Put_learns)
  show ?thesis
    by (cases a) (use assms s h in \<open>auto simp: run_cert_out_def certConsumer_learns\<close>)
qed

lemma run_cert_outs:
  assumes "foldM (run_cert_out env now) os s = Some s'"
  shows "mapper_le (fst s) (fst s') \<and>
    (\<forall>m i. Pull_Consume m \<in> set os \<longrightarrow> GetPeerIdentity (sg_Msg m) = Some i \<longrightarrow> acceptable env now i \<longrightarrow>
       map_has (im_pkiID2Cert (gs_IdMapper (fst s'))) (str_of (pi_PkiId i)))"
  using assms
proof (induction os arbitrary: s)
  case (Cons a os)
  obtain s1 where s1: "run_cert_out env now a s = Some s1" "foldM (run_cert_out env now) os s1 = Some s'"
    using Cons.prems by (auto simp: bind_eq_Some_conv)
  note le = run_cert_out_le [OF s1(1)] Cons.IH [OF s1(2)]
  have "map_has (im_pkiID2Cert (gs_IdMapper (fst s'))) (str_of (pi_PkiId i))"
    if "a = Pull_Consume m" "GetPeerIdentity (sg_Msg m) = Some i" "acceptable env now i" for m i
  proof -
    obtain g outs where "s = (g, outs)" by (rule prod.exhaust)
    then have "fst s1 = certConsumer env now m g" using s1(1) that(1) by (auto simp: run_cert_out_def)
    with certConsumer_learns(2) [OF that(2,3), of g] have "map_has (im_pkiID2Cert (gs_IdMapper (fst s1))) (str_of (pi_PkiId i))" by simp
    with le show ?thesis by (blast intro: mapper_le_has)
  qed
  with le show ?case by (auto intro: mapper_le_trans)
qed simp

section \<open>An update of identities\<close>

lemma update_check_all:
  "update_check env es = Some True \<Longrightarrow>
   \<exists>msgs. list_all2 (\<lambda>e msg. e \<noteq> None \<and> ToGossipMessage (se_codec env) (the e) = Inr msg) es msgs \<and>
     (\<forall>m\<in>set msgs. GetPeerIdentity (sg_Msg m) \<noteq> None \<and> validateIdMsg (se_mcs env) m = None)"
proof (induction es)
  case (Cons item es)
  obtain e where e: "item = Some e" using Cons.prems by (auto simp: bind_eq_Some_conv)
  obtain m where m: "ToGossipMessage (se_codec env) e = Inr m" using Cons.prems e by (auto split: sum.splits)
  then have v: "GetPeerIdentity (sg_Msg m) \<noteq> None" "validateIdMsg (se_mcs env) m = None" "update_check env es = Some True"
    using Cons.prems e by (auto split: if_split_asm)
  from Cons.IH [OF v(3)] obtain msgs where
    "list_all2 (\<lambda>e msg. e \<noteq> None \<and> ToGossipMessage (se_codec env) (the e) = Inr msg) es msgs"
    "\<forall>m\<in>set msgs. GetPeerIdentity (sg_Msg m) \<noteq> None \<and> validateIdMsg (se_mcs env) m = None" by blast
  with e m v show ?case by (intro exI [of _ "m # msgs"]) auto
qed simp

lemma validated_identity:
  assumes "GetPeerIdentity (sg_Msg m) = Some i" "validateIdMsg mcs m = None"
  shows "bytes_eq (pi_PkiId i) (GetPKIidOfCert (pi_Cert i)) \<and> ValidateIdType mcs (pi_Cert i) = None"
  using assms by (auto simp: validateIdMsg_def bytes_eq_def split: if_split_asm option.split_asm)

text \<open>C10. An update of identities is taken as a whole or not at all: when one of its items is not an identity that hashes to its
  PKI-ID, is signed with its key and is not revoked, nothing changes. Otherwise every identity of it that
  has not expired is in the mapper afterwards, and what was there before stays.\<close>

theorem identity_update_learns:
  assumes "handleMessage env now (Some m) g = Some (g', outs)" "\<not> gs_StopFlag g"
    and "GetDataUpdate (sg_Msg (rm_msg m)) = Some u" "du_MsgType u = PullMsgType_IDENTITY_MSG" "gm_Tag (sg_Msg (rm_msg m)) = Tag_EMPTY"
    and "pc_MsgType (pu_config (gs_CertPuller g)) = PullMsgType_IDENTITY_MSG"
  shows "(update_check env (du_Data u) \<noteq> Some True \<longrightarrow> g' = g \<and> outs = []) \<and>
    (update_check env (du_Data u) = Some True \<longrightarrow> mapper_le g g' \<and>
      (\<forall>e\<in>set (du_Data u). \<exists>ev s i. e = Some ev \<and> ToGossipMessage (se_codec env) ev = Inr s \<and> GetPeerIdentity (sg_Msg s) = Some i \<and>
        (pi_Cert i \<noteq> None \<longrightarrow> pi_PkiId i \<noteq> None \<longrightarrow>
         (\<forall>t. Expiration (se_ExpirationTimes env) now (pi_Cert i) = Inr (Some t) \<longrightarrow> now \<le> t) \<longrightarrow>
         map_has (im_pkiID2Cert (gs_IdMapper g')) (str_of (pi_PkiId i)))))"
proof -
  let ?msg = "sg_Msg (rm_msg m)"
  have c: "gm_Content ?msg = Some (DataUpdateMsg u)" using assms(3) by (simp add: getter_Some_iff)
  then have pm: "IsPullMsg ?msg" "GetPullMsgType ?msg = PullMsgType_IDENTITY_MSG"
    using assms(4) by (simp_all add: IsPullMsg_def GetPullMsgType_def getter_defs)
  have "validateMsg env now m g = Some (True, g)" "\<not> IsChannelRestricted ?msg" "\<not> selectOnlyDiscoveryMessages m"
    using c pm assms(5) by (simp_all add: validateMsg_def IsTagLegal_def tag_should_be_def getter_defs IsChannelRestricted_def
        selectOnlyDiscoveryMessages_def Let_def)
  then have h: "handle_identity_pull env now m g = Some (g', outs)"
    using assms(1,2) by (simp add: handleMessage_def handle_unrestricted_def)
  show ?thesis
  proof (cases "update_check env (du_Data u) = Some True")
    case False
    then show ?thesis using h pm assms(3) by (auto simp: handle_identity_pull_def Let_def bind_eq_Some_conv split: if_splits)
  next
    case True
    then obtain p os where p: "PullMediator_HandleMessage (se_codec env) (fst (createCertStorePuller env g)) m
          ((gs_CertPuller g)\<lparr>en_digestFilter := cert_EgressDigFilter env g\<rparr>) = Some (p, os)"
      and f: "foldM (run_cert_out env now) os (g\<lparr>gs_CertPuller := p\<rparr>, []) = Some (g', outs)"
      using h pm assms(3) by (auto simp: handle_identity_pull_def cert_puller_handle_def Let_def bind_eq_Some_conv)
    from update_check_all [OF True] obtain msgs where
      ms: "list_all2 (\<lambda>e msg. e \<noteq> None \<and> ToGossipMessage (se_codec env) (the e) = Inr msg) (du_Data u) msgs"
      "\<forall>m\<in>set msgs. GetPeerIdentity (sg_Msg m) \<noteq> None \<and> validateIdMsg (se_mcs env) m = None" by blast
    have consumed: "\<forall>s\<in>set msgs. Pull_Consume s \<in> set os"
      using p pm assms(6) update_loop_all [OF ms(1)] by (auto simp: PullMediator_HandleMessage_def c Let_def)
    from run_cert_outs [OF f] have le: "mapper_le g g'" by (simp add: mapper_le_def)
    have "\<exists>ev s i. e = Some ev \<and> ToGossipMessage (se_codec env) ev = Inr s \<and> GetPeerIdentity (sg_Msg s) = Some i \<and>
        (pi_Cert i \<noteq> None \<longrightarrow> pi_PkiId i \<noteq> None \<longrightarrow>
         (\<forall>t. Expiration (se_ExpirationTimes env) now (pi_Cert i) = Inr (Some t) \<longrightarrow> now \<le> t) \<longrightarrow>
         map_has (im_pkiID2Cert (gs_IdMapper g')) (str_of (pi_PkiId i)))" if e: "e \<in> set (du_Data u)" for e
    proof -
      from e obtain n where "n < length (du_Data u)" "e = du_Data u ! n" by (auto simp: in_set_conv_nth)
      with ms(1) have s: "msgs ! n \<in> set msgs" "e \<noteq> None" "ToGossipMessage (se_codec env) (the e) = Inr (msgs ! n)"
        by (auto simp: list_all2_conv_all_nth)
      then obtain i where i: "GetPeerIdentity (sg_Msg (msgs ! n)) = Some i" "validateIdMsg (se_mcs env) (msgs ! n) = None" using ms(2) by auto
      with s run_cert_outs [OF f] consumed validated_identity [OF i] show ?thesis by (auto simp: acceptable_def)
    qed
    with True le show ?thesis by simp
  qed
qed

definition ex_identity :: GossipMessage where
  "ex_identity = \<lparr>gm_Nonce = 0, gm_Channel = None, gm_Tag = Tag_EMPTY,
     gm_Content = Some (PeerIdentityMsg \<lparr>pi_PkiId = Some ''n'', pi_Cert = Some ''n'', pi_Metadata = None\<rparr>)\<rparr>"

definition ex_update :: ReceivedMessage where
  "ex_update = ex_received (DataUpdateMsg \<lparr>du_Nonce = 1,
     du_Data = [Some \<lparr>ev_Payload = Some ''x'', ev_Signature = Some ''x'', ev_SecretEnvelope = None\<rparr>],
     du_MsgType = PullMsgType_IDENTITY_MSG\<rparr>) Tag_EMPTY None"

theorem identity_update_learns_witness:
  "\<exists>g' outs. handleMessage (ex_senv (table_codec [ex_identity] [])) 7 (Some ex_update) ex_node = Some (g', outs) \<and>
     map_has (im_pkiID2Cert (gs_IdMapper g')) ''n''"
proof -
  let ?env = "ex_senv (table_codec [ex_identity] [])" and ?e = "\<lparr>ev_Payload = Some ''x'', ev_Signature = Some ''x'', ev_SecretEnvelope = None\<rparr>"
  let ?s = "\<lparr>sg_Envelope = Some ?e, sg_Msg = ex_identity\<rparr>" and ?m = "sg_Msg (rm_msg ex_update)"
  have m: "GetDataUpdate ?m = Some \<lparr>du_Nonce = 1, du_Data = [Some ?e], du_MsgType = PullMsgType_IDENTITY_MSG\<rparr>" "gm_Tag ?m = Tag_EMPTY"
    by (simp_all add: ex_update_def ex_received_def getter_defs)
  have dec: "ToGossipMessage (se_codec ?env) ?e = Inr ?s"
    by (simp add: ex_senv_def ToGossipMessage_def table_codec_def table_dec_def bytes_len_def)
  have ok: "update_check ?env [Some ?e] = Some True"
    using dec by (simp add: validateIdMsg_def ex_identity_def getter_defs ex_senv_def GetPKIidOfCert_def SignedGossipMessage_Verify_def
        ValidateIdType_def bytes_len_def mcs_Verify_self)
  have c: "pc_MsgType (pu_config (gs_CertPuller ex_node)) = PullMsgType_IDENTITY_MSG"
    by (simp add: ex_node_def initial_service_def NewPullMediator_def cert_puller_config_def Let_def)
  have "\<exists>g' outs. handleMessage ?env 7 (Some ex_update) ex_node = Some (g', outs)"
    using ok dec c
    by (simp add: ex_update_def ex_received_def handleMessage_def validateMsg_def IsTagLegal_def tag_should_be_def getter_defs IsPullMsg_def
        GetPullMsgType_def Let_def IsChannelRestricted_def handle_unrestricted_def selectOnlyDiscoveryMessages_def handle_identity_pull_def
        cert_puller_handle_def PullMediator_HandleMessage_def)
       (simp add: ex_node_def initial_service_def NewPullMediator_def Let_def run_hooks_def hooksByMsgType_def onRes_def run_cert_out_def)
  then obtain g' outs where h: "handleMessage ?env 7 (Some ex_update) ex_node = Some (g', outs)" by blast
  have "Expiration (se_ExpirationTimes ?env) 7 (Some ''n'') = Inr (Some (7 + 3600 * second))" by (simp add: Expiration_def ex_senv_def)
  with identity_update_learns [OF h ex_node_simps(2) m(1) _ m(2) c] ok dec h show ?thesis
    by (auto simp: ex_identity_def getter_defs second_def)
qed

end
