(* ===== verification/GossipAlive.thy ===== *)
theory GossipAlive
  imports GossipProps
begin

text \<open>
  An alive message across two peers: discovery of the one signs it, the network delivers its envelope,
  the service of the other one validates it and passes it to its discovery, which lists the sender as
  alive.
\<close>

declare map_of_eq_Some_iff [simp del] Some_eq_map_of_iff [simp del]

section \<open>What is signed\<close>

text \<open>The protobuf library writes no empty message for the ones that are signed here.\<close>

definition nonempty_codec :: "codec \<Rightarrow> bool" where
  "nonempty_codec c \<longleftrightarrow> codec_ok c \<and> (\<forall>m pl. marshal c m = Inr pl \<longrightarrow> bytes_len pl \<noteq> 0) \<and>
     (\<forall>x pl. marshal_secret c x = Inr pl \<longrightarrow> bytes_len pl \<noteq> 0)"

definition own_member :: "disc \<Rightarrow> Member" where
  "own_member a = \<lparr>mb_Endpoint = p_Endpoint (di_self a), mb_Metadata = p_Metadata (di_self a), mb_PkiId = p_PKIid (di_self a)\<rparr>"

definition alive_from :: "denv \<Rightarrow> disc \<Rightarrow> SignedGossipMessage \<Rightarrow> Envelope \<Rightarrow> AliveMessage \<Rightarrow> bool" where
  "alive_from ea a m e am \<longleftrightarrow> sg_Envelope m = Some e \<and> gm_Tag (sg_Msg m) = Tag_EMPTY \<and> gm_Content (sg_Msg m) = Some (AliveMsg am) \<and>
     am_Membership am = Some (own_member a) \<and> am_Timestamp am = Some (PeerTime (di_incTime a) (di_seqNum a + 1)) \<and>
     am_Identity am \<in> {None, de_Id ea} \<and> ev_Payload e \<noteq> None \<and> ev_Signature e \<noteq> None \<and>
     (\<forall>p. SignedGossipMessage_Verify p mcs_Verify m = None)"

lemma signed_alive:
  assumes "nonempty_codec (de_codec ea)" "createSignedAliveMessage ea now b a = (Inr m, a')"
  shows "\<exists>e am. alive_from ea a m e am \<and> ToGossipMessage (de_codec ea) e = Inr m"
proof -
  let ?c = "de_codec ea"
  obtain g0 ep a1 where g0: "aliveMsgAndInternalEndpoint a = (g0, ep, a1)" by (rule prod_cases3)
  obtain r m1 where sm: "SignMessage ea now g0 ep = (r, m1)" by (rule prod.exhaust)
  obtain e0 where r: "r = Some e0" "m = \<lparr>sg_Envelope = Some (if b then e0 else e0\<lparr>ev_SecretEnvelope := None\<rparr>), sg_Msg = m1\<rparr>"
    using assms(2) g0 sm by (cases r) (auto simp: createSignedAliveMessage_def)
  let ?e = "if b then e0 else e0\<lparr>ev_SecretEnvelope := None\<rparr>"
  obtain e1 where sg: "Sign ?c mcs_Sign \<lparr>sg_Envelope = None, sg_Msg = m1\<rparr> = (Inr e1, \<lparr>sg_Envelope = Some e1, sg_Msg = m1\<rparr>)"
    and e0: "e0 = e1 \<or> e0 = snd (SignSecret ?c mcs_Sign \<lparr>sc_Content = Some (Secret_InternalEndpoint ep)\<rparr> e1)"
    and m1: "m1 = g0 \<or> m1 = set_identity (de_Id ea) g0"
    using sm r(1) Sign_envelope
    by (auto simp: SignMessage_def Let_def split: if_splits sum.splits prod.splits) fastforce+
  have pl: "marshal ?c m1 = Inr (ev_Payload e1)" "ev_Signature e1 = Some (str_of (ev_Payload e1))" "ev_SecretEnvelope e1 = None"
    using sg by (auto simp: Sign_def mcs_Sign_def Let_def split: sum.splits)
  have same: "ev_Payload ?e = ev_Payload e1" "ev_Signature ?e = ev_Signature e1"
    using e0 by (auto simp: SignSecret_def split: sum.splits)
  have sec: "\<forall>se. ev_SecretEnvelope ?e = Some se \<longrightarrow> bytes_len (se_Payload se) \<noteq> 0 \<and> se_Signature se = Some (str_of (se_Payload se))"
    using e0 pl(3) assms(1) by (auto simp: SignSecret_def mcs_Sign_def nonempty_codec_def split: sum.splits)
  have len: "bytes_len (ev_Payload e1) \<noteq> 0" using pl(1) assms(1) by (auto simp: nonempty_codec_def)
  have v: "SignedGossipMessage_Verify p mcs_Verify m = None" for p
    using same pl(2) len sec
    by (auto simp: SignedGossipMessage_Verify_def r(2) bytes_len_def str_of_def mcs_Verify_self split: option.splits)
  have "unmarshal ?c (ev_Payload ?e) = Inr m1" using assms(1) pl(1) same by (simp add: nonempty_codec_def codec_ok_def)
  then have dec: "ToGossipMessage ?c ?e = Inr m" by (simp add: ToGossipMessage_def r(2))
  obtain am where "gm_Content m1 = Some (AliveMsg am)" "gm_Tag m1 = Tag_EMPTY" "am_Membership am = Some (own_member a)"
    "am_Timestamp am = Some (PeerTime (di_incTime a) (di_seqNum a + 1))" "am_Identity am \<in> {None, de_Id ea}"
    using m1 g0 by (auto simp: aliveMsgAndInternalEndpoint_def set_identity_def own_member_def getter_defs Let_def)
  moreover have "ev_Payload e1 \<noteq> None" using len by (cases "ev_Payload e1") (auto simp: bytes_len_def)
  ultimately have "alive_from ea a m ?e am"
    using v same pl(2) len by (auto simp: alive_from_def r(2) bytes_len_def)
  with dec show ?thesis by blast
qed

section \<open>What the receiver makes of it\<close>

text \<open>The receiver knows the sender's identity, which is the sender's own and not revoked.\<close>

definition knows :: "senv \<Rightarrow> string \<Rightarrow> IdMapper \<Rightarrow> bool" where
  "knows env k im \<longleftrightarrow> mapper_ok im \<and> map_has (im_pkiID2Cert im) k \<and> ValidateIdType (se_mcs env) (Some k) = None"

lemma knows_validates:
  assumes "alive_from ea a m e am" "p_PKIid (di_self a) = Some k" "de_Id ea \<in> {None, Some k}" "knows env k (di_idMapper d)"
  shows "\<exists>im. ValidateAliveMsg (denv_of env g) now m d = (True, d\<lparr>di_idMapper := im\<rparr>) \<and> knows env k im"
proof -
  have m: "GetAliveMsg (sg_Msg m) = Some am" "sg_Envelope m = Some e" "ev_Payload e \<noteq> None" "ev_Signature e \<noteq> None"
    "am_Membership am = Some (own_member a)" "mb_PkiId (own_member a) = Some k" "am_Identity am = None \<or> am_Identity am = Some k"
    "\<And>p. SignedGossipMessage_Verify p mcs_Verify m = None"
    using assms(1-3) by (auto simp: alive_from_def own_member_def getter_defs)
  show ?thesis
  proof (cases "am_Identity am = None")
    case True
    obtain si where si: "map_get (im_pkiID2Cert (di_idMapper d)) k = Some si" "sid_peerId si \<noteq> None"
      using assms(4) by (auto simp: knows_def map_has_def mapper_ok_def entry_ok_def)
    obtain r im where g: "IdMapper_Get now (Some k) (di_idMapper d) = (r, im)" by (rule prod.exhaust)
    with si have "r = Inr (sid_peerId si)" "map_has (im_pkiID2Cert im) k" by (auto simp: IdMapper_Get_def fetchId_def map_has_def)
    moreover have "mapper_ok im" using Get_ok [of "di_idMapper d" now "Some k"] g assms(4) by (simp add: knows_def)
    ultimately show ?thesis using m True g si(2) assms(4) by (auto simp: ValidateAliveMsg_def knows_def)
  next
    case False
    then have i: "am_Identity am = Some k" using m(7) by auto
    obtain tm where "Expiration (se_ExpirationTimes env) now (Some k) = Inr tm"
      by (cases "map_get (se_ExpirationTimes env) k") (auto simp: Expiration_def)
    then have "IdMapper_Put (se_mcs env) (se_ExpirationTimes env) now (Some k) (Some k) (di_idMapper d) = (None, di_idMapper d)"
      using assms(4) by (simp add: IdMapper_Put_def knows_def GetPKIidOfCert_def)
    then show ?thesis using m i assms(4) by (intro exI [of _ "di_idMapper d"]) (simp add: ValidateAliveMsg_def denv_of_def)
  qed
qed

lemma service_passes_alive:
  assumes "alive_from ea a (rm_msg rm) e am" "p_PKIid (di_self a) = Some k" "de_Id ea \<in> {None, Some k}"
    and "knows env k (gs_IdMapper g)" "\<not> gs_StopFlag g" "\<not> gs_IncClosed g"
  shows "\<exists>im. handleMessage env now (Some rm) g = Some (g\<lparr>gs_IdMapper := im\<rparr>, [Sv_Discovery rm]) \<and> knows env k im"
proof -
  have "knows env k (di_idMapper (mapper_view (gs_IdMapper g)))" using assms(4) by (simp add: mapper_view_def)
  from knows_validates [OF assms(1-3) this] obtain im where
    v: "ValidateAliveMsg (denv_of env g) now (rm_msg rm) (mapper_view (gs_IdMapper g)) = (True, (mapper_view (gs_IdMapper g))\<lparr>di_idMapper := im\<rparr>)"
      "knows env k im" by blast
  have c: "gm_Content (sg_Msg (rm_msg rm)) = Some (AliveMsg am)" "gm_Tag (sg_Msg (rm_msg rm)) = Tag_EMPTY"
    using assms(1) by (simp_all add: alive_from_def)
  have "validateMsg env now rm g = Some (True, g\<lparr>gs_IdMapper := im\<rparr>)"
    using v(1) c by (simp add: validateMsg_def IsTagLegal_def tag_should_be_def getter_defs Let_def)
  then have "handleMessage env now (Some rm) g = Some (g\<lparr>gs_IdMapper := im\<rparr>, [Sv_Discovery rm])"
    using c assms(5,6) by (simp add: handleMessage_def IsChannelRestricted_def handle_unrestricted_def selectOnlyDiscoveryMessages_def
        memReq_check_def handle_identity_pull_def IsPullMsg_def forwardDiscoveryMsg_def getter_defs Let_def)
  with v(2) show ?thesis by blast
qed

lemma discovery_lists_alive:
  assumes "alive_from ea a (rm_msg rm) e am" "p_PKIid (di_self a) = Some k" "de_Id ea \<in> {None, Some k}"
    and "svc_ok env g" "knows env k (gs_IdMapper g)" "gs_Discovery g = Some d" "rm_ConnInfo rm = Some ci"
    and "k \<noteq> self_key d" "\<forall>x. status_of d k = Some x \<longrightarrow> status_time x < PeerTime (di_incTime a) (di_seqNum a + 1)"
    and "MessageStore_CheckValid alive_comparator (rm_msg rm) (di_msgStore d) = Some True"
  shows "\<exists>g' outs d'. discovery_takes env now rm g = Some (g', outs) \<and> gs_Discovery g' = Some d' \<and>
    status_of d' = (status_of d)(k \<mapsto> Alive (PeerTime (di_incTime a) (di_seqNum a + 1)))"
proof -
  let ?m = "rm_msg rm" and ?t = "PeerTime (di_incTime a) (di_seqNum a + 1)" and ?d0 = "d\<lparr>di_idMapper := gs_IdMapper g, di_out := []\<rparr>"
  have m: "GetAliveMsg (sg_Msg ?m) = Some am" "am_Membership am = Some (own_member a)" "am_Timestamp am = Some ?t"
    using assms(1) by (auto simp: alive_from_def getter_defs)
  then have al: "alive_ok ?m" "msg_peer ?m = k" "msg_stamp ?m = ?t" using alive_okI [OF m] assms(2) by (simp_all add: own_member_def)
  have "disc_ok d" using svc_okD(2) [OF assms(4)] assms(6) by simp
  then have ok0: "disc_ok ?d0" using disc_ok_mapper [of d "gs_IdMapper g"] assms(5) by (simp add: knows_def)
  obtain b d1 where add: "aliveMsgStore_Add now ?m ?d0 = Some (b, d1)" using Add_runs [OF ok0 al(1)] by blast
  obtain s trig where s: "MessageStore_Add alive_comparator now ?m (di_msgStore d) = Some (b, s, trig)" "d1 = ?d0\<lparr>di_msgStore := s\<rparr>"
    using add m(1) by (auto simp: aliveMsgStore_Add_def bind_eq_Some_conv)
  have b: b using Add_answer [of alive_comparator now ?m "di_msgStore d"] s(1) assms(10) by simp
  have ok1: "disc_ok d1" using Add_runs [OF ok0 al(1), of now] add trans_ok_ok by fastforce
  have d1: "status_of d1 = status_of d" "self_key d1 = self_key d" "di_idMapper d1 = gs_IdMapper g" "di_out d1 = []"
    using s(2) by (simp_all add: status_of_def self_key_def)
  have "fst (ValidateAliveMsg (denv_of env g) now ?m d1)"
    using knows_validates [OF assms(1-3), of env d1 g now] assms(5) d1(3) by auto
  moreover have "abs_alive k ?t (status_of d) = (status_of d)(k \<mapsto> Alive ?t)"
    using assms(9) by (auto simp: abs_alive_def fun_eq_iff split: option.splits status.splits)
  ultimately have "ends d1 ((status_of d)(k \<mapsto> Alive ?t)) (handleAliveMessage (denv_of env g) now ?m d1)"
    using handleAlive_ends [OF ok1 alive_ok_stamped [OF al(1)], of "denv_of env g" now] al d1 assms(8) by simp
  then obtain d2 where d2: "handleAliveMessage (denv_of env g) now ?m d1 = Some d2" "status_of d2 = (status_of d)(k \<mapsto> Alive ?t)" "di_out d2 = []"
    using d1(4) by (auto simp: ends_def same_rest_def)
  define d3 where "d3 = (if di_stopping d2 then d2 else out (OutForward rm) d2)"
  have h: "handleMsgFromComm (denv_of env g) now (Some rm) ?d0 = Some d3"
    using m(1) add b d2(1) assms(1) by (auto simp: handleMsgFromComm_def alive_from_def getter_defs d3_def)
  have st: "status_of d3 = status_of d2" by (simp add: d3_def out_def status_of_def)
  have outs: "\<exists>s. foldM run_disc_out (di_out d3) (g\<lparr>gs_Discovery := Some (d3\<lparr>di_out := []\<rparr>), gs_IdMapper := di_idMapper d3\<rparr>, []) = Some s \<and>
      gs_Discovery (fst s) = Some (d3\<lparr>di_out := []\<rparr>)"
    using d2(3) assms(7) by (auto simp: d3_def out_def run_disc_out_def ForwardFunc_def forward_from_def emitter_Add_def split: prod.splits)
  then obtain g' os where "discovery_takes env now rm g = Some (g', os)" "gs_Discovery g' = Some (d3\<lparr>di_out := []\<rparr>)"
    using assms(6) h by (auto simp: discovery_takes_def on_disc_def)
  moreover have "status_of (d3\<lparr>di_out := []\<rparr>) = status_of d3" by (simp add: status_of_def)
  ultimately show ?thesis using st d2(2) by auto
qed


definition ex_hello :: GossipMessage where
  "ex_hello = \<lparr>gm_Nonce = 0, gm_Channel = None, gm_Tag = Tag_EMPTY,
     gm_Content = Some (AliveMsg \<lparr>am_Membership = Some \<lparr>mb_Endpoint = ''f'', mb_Metadata = None, mb_PkiId = Some ''f''\<rparr>,
       am_Timestamp = Some (PeerTime 0 1), am_Identity = None\<rparr>)\<rparr>"


end
