(* ===== verification/ChannelTotal.thy ===== *)
theory ChannelTotal
  imports ChannelProps
begin

text \<open>
  A channel never panics on a message that carries what the code reads without a test: under the
  invariant of the channel, every branch of its handler returns.
\<close>

declare map_of_eq_Some_iff [simp del] Some_eq_map_of_iff [simp del]

section \<open>Stores\<close>

lemma CheckValid_defined:
  assumes "\<forall>d\<in>set (datas s). pol x d \<noteq> None"
  shows "\<exists>v. MessageStore_CheckValid pol x s = Some v"
proof -
  have "\<exists>v. check_valid pol x ms = Some v" if "\<forall>d\<in>set (map sd_data ms). pol x d \<noteq> None" for ms
    using that by (induction ms) auto
  then show ?thesis using assms by (simp add: MessageStore_CheckValid_def datas_def)
qed

lemma Add_defined:
  assumes "\<forall>d\<in>set (datas s). pol x d \<noteq> None"
  shows "\<exists>b s' trig. MessageStore_Add pol now x s = Some (b, s', trig)"
proof -
  have "MessageStore_Add pol now x s \<noteq> None"
    using CheckValid_defined [where pol = pol and x = x and s = s, OF assms] Add_answer [of pol now x s] by auto
  then show ?thesis by (metis not_Some_eq prod_cases3)
qed

lemma add_loop_trig:
  "add_loop pol x i ms trig = Some (b, ms', trig') \<Longrightarrow> set trig' \<subseteq> set trig \<union> sd_data ` set ms"
proof (induction pol x i ms trig rule: add_loop.induct)
  case (1 pol x i ms trig)
  show ?case
  proof (cases "i < length ms")
    case True
    have cut: "sd_data ` set (take i ms @ drop (Suc i) ms) \<subseteq> sd_data ` set ms" by (auto dest: in_set_takeD in_set_dropD)
    have "sd_data (ms ! i) \<in> sd_data ` set ms" using True by simp
    with True 1 cut show ?thesis
      by (subst (asm) (3) add_loop.simps) (auto split: option.splits InvalidationResult.splits dest!: subsetD)
  next
    case False
    then show ?thesis using 1(3) by (subst (asm) add_loop.simps) simp
  qed
qed

lemma Add_trig_subset: "MessageStore_Add pol now x s = Some (b, s', trig) \<Longrightarrow> set trig \<subseteq> set (datas s)"
  using add_loop_trig [of pol x 0 "ms_messages s" "[]"]
  by (auto simp: MessageStore_Add_def datas_def split: option.splits prod.splits bool.splits)

lemma block_pol_defined:
  assumes "block_seqNum d \<noteq> None" and "GetDataMsg (sg_Msg x) = None \<or> block_seqNum x \<noteq> None"
  shows "block_comparator ga x d \<noteq> None"
proof -
  obtain dm pl where d: "gm_Content (sg_Msg d) = Some (DataMsg dm)" "dm_Payload dm = Some pl"
    using assms(1) by (auto simp: block_seqNum_def bind_eq_Some_conv getter_Some_iff)
  show ?thesis
  proof (cases "GetDataMsg (sg_Msg x)")
    case None
    then show ?thesis
      by (simp add: block_comparator_def NewGossipMessageComparator_def invalidationPolicy_def Let_def d getter_defs
          split: option.splits Content.splits)
  next
    case (Some xm)
    with assms(2) have "block_seqNum x \<noteq> None" by simp
    then obtain xm' xp where x: "gm_Content (sg_Msg x) = Some (DataMsg xm')" "dm_Payload xm' = Some xp"
      by (auto simp: block_seqNum_def bind_eq_Some_conv getter_Some_iff)
    then show ?thesis using d by (simp add: block_comparator_def NewGossipMessageComparator_def invalidationPolicy_view view_of_def)
  qed
qed

lemma chan_invD:
  assumes "chan_inv sha gc"
  shows "cache_ok (mac_good sha (gch_chainID gc)) (gch_stateInfoMsgStore gc)"
    "b \<in> set (datas (gch_blockMsgStore gc)) \<Longrightarrow> block_seqNum b \<noteq> None"
    "m \<in> set (datas (gch_leaderMsgStore gc)) \<Longrightarrow> leader_ok m" "pull_ok (gch_blocksPuller gc)"
  using assms unfolding chan_inv_def by blast+

lemma block_valid_total:
  assumes "chan_inv sha gc" "GetDataMsg (sg_Msg m) = None \<or> block_seqNum m \<noteq> None"
  shows "\<exists>v. MessageStore_CheckValid (block_comparator ga) m (gch_blockMsgStore gc) = Some v"
  by (rule CheckValid_defined) (use block_pol_defined chan_invD(2) [OF assms(1)] assms(2) in blast)

lemma block_add_total:
  assumes "chan_inv sha gc" "block_seqNum m \<noteq> None"
  shows "\<exists>b gc'. blockMsgStore_Add ga now m gc = Some (b, gc') \<and> chan_inv sha gc' \<and> gch_chainID gc' = gch_chainID gc"
proof -
  have good: "\<forall>d\<in>set (datas (gch_blockMsgStore gc)). block_comparator ga m d \<noteq> None"
    using block_pol_defined chan_invD(2) [OF assms(1)] assms(2) by blast
  obtain b s trig where a: "MessageStore_Add (block_comparator ga) now m (gch_blockMsgStore gc) = Some (b, s, trig)"
    using Add_defined [where s = "gch_blockMsgStore gc" and pol = "block_comparator ga" and x = m and now = now, OF good] by blast
  have "set trig \<subseteq> set (datas (gch_blockMsgStore gc))" by (rule Add_trig_subset [OF a])
  then have "\<exists>p. foldM block_removed trig (gch_blocksPuller gc) = Some p \<and> True"
    using chan_invD(2) [OF assms(1)] by (intro foldM_total [where I = "\<lambda>_. True"]) (auto simp: block_removed_def)
  then obtain p where "foldM block_removed trig (gch_blocksPuller gc) = Some p" by blast
  with a have add: "blockMsgStore_Add ga now m gc = Some (b, gc\<lparr>gch_blockMsgStore := s, gch_blocksPuller := p\<rparr>)"
    by (simp add: blockMsgStore_Add_def)
  then show ?thesis using block_add_keeps [OF add assms(2), of sha] assms(1) by (auto simp: keeps_def same_chan_def)
qed

lemma state_add_total:
  assumes "chan_inv sha gc" "state_ok m" "sg_Envelope m \<noteq> None"
  shows "\<exists>b gc'. stateInfoCache_add ga now m gc = Some (b, gc')"
proof -
  note ok = chan_invD(1) [OF assms(1)]
  have v: "\<exists>b. verifyStateInfoMsg ga gc [] m = Some b"
    using assms(2,3) by (auto simp: verifyStateInfoMsg_def Let_def elim!: state_okE)
  show ?thesis
  proof (cases "stale m (gch_stateInfoMsgStore gc)")
    case True
    then show ?thesis using cache_add(1) [OF ok assms(2)] by blast
  next
    case False
    then show ?thesis using v cache_add(2,3) [OF ok assms(2) False, of ga now] by (metis (full_types))
  qed
qed

section \<open>What a message must carry\<close>

definition no_nil :: "'a option list \<Rightarrow> bool" where
  "no_nil xs \<longleftrightarrow> None \<notin> set xs"

lemma no_nil_simps [simp]:
  "no_nil []" "no_nil (x # xs) \<longleftrightarrow> (\<exists>e. x = Some e) \<and> no_nil xs" "no_nil (xs @ ys) \<longleftrightarrow> no_nil xs \<and> no_nil ys"
  by (cases x; auto simp: no_nil_def)+

definition chan_fields :: "codec \<Rightarrow> ReceivedMessage \<Rightarrow> bool" where
  "chan_fields c m \<longleftrightarrow> rm_ConnInfo m \<noteq> None \<and> sg_Envelope (rm_msg m) \<noteq> None \<and>
     timed_state (rm_msg m) \<and> timed_leader (rm_msg m) \<and>
     (\<forall>ss. GetStateSnapshot (sg_Msg (rm_msg m)) = Some ss \<longrightarrow> no_nil (ss_Elements ss) \<and>
        (\<forall>e r. Some e \<in> set (ss_Elements ss) \<longrightarrow> ToGossipMessage c e = Inr r \<longrightarrow> timed_state r)) \<and>
     (\<forall>du. GetDataUpdate (sg_Msg (rm_msg m)) = Some du \<longrightarrow> no_nil (du_Data du))"

lemma chan_fields_timed: "chan_fields (ga_codec ga) m \<Longrightarrow> timed_msg ga (rm_msg m)"
  by (simp add: chan_fields_def timed_msg_def)

section \<open>The branches of the handler\<close>

lemma snapshot_total:
  assumes "chan_inv sha gc"
  shows "\<exists>r. createStateInfoSnapshot ga gc org = Some r"
proof -
  have "\<exists>es. snapshot_elements ga gc org msgs = Some es" if "\<forall>m\<in>set msgs. state_ok m" for msgs
    using that
  proof (induction msgs)
    case (Cons m msgs)
    then obtain si where "GetStateInfo (sg_Msg m) = Some si" by (auto elim: state_okE)
    with Cons show ?case by (auto split: option.splits)
  qed simp
  moreover have "\<forall>m\<in>set (MessageStore_Get (sic_store (gch_stateInfoMsgStore gc))). state_ok m"
    using cache_okD(2) [OF chan_invD(1) [OF assms]] by (auto simp: MessageStore_Get_def datas_def)
  ultimately show ?thesis by (simp add: createStateInfoSnapshot_def)
qed

lemma snapshot_loop_total:
  assumes "chan_inv (ga_sha ga) gc" "no_nil es"
    and "\<And>e r. Some e \<in> set es \<Longrightarrow> ToGossipMessage (ga_codec ga) e = Inr r \<Longrightarrow> timed_state r"
  shows "\<exists>gc'. snapshot_loop ga now es gc = Some gc'"
  using assms
proof (induction es arbitrary: gc)
  case (Cons x es)
  then obtain e where x: "x = Some e" by auto
  have es: "no_nil es" using Cons.prems(2) by simp
  have rest: "\<exists>gc'. snapshot_loop ga now es g = Some gc'" if "chan_inv (ga_sha ga) g" for g
    by (rule Cons.IH [OF that es]) (use Cons.prems(3) in auto)
  show ?case
  proof (cases "ToGossipMessage (ga_codec ga) e")
    case (Inr m)
    show ?thesis
    proof (cases "GetStateInfo (sg_Msg m)")
      case (Some si)
      have "timed_state m" using Cons.prems(3) [of e m] x Inr by simp
      then have ok: "state_ok m" using Some by (rule timed_state_ok)
      have "sg_Envelope m \<noteq> None" using Inr by (auto simp: ToGossipMessage_def split: sum.splits)
      from state_add_total [OF Cons.prems(1) ok this] obtain b gc1
        where a: "stateInfoCache_add ga now m gc = Some (b, gc1)" by blast
      have "\<exists>gc'. snapshot_loop ga now es gc1 = Some gc'"
        if mac: "bytes_eq (si_Channel_MAC si) (stateInfo_MAC ga gc (si_PkiId si))"
      proof -
        have "mac_good (ga_sha ga) (gch_chainID gc) m" using Some mac by (simp add: mac_good_def stateInfo_MAC_def)
        with keeps_cache_add [OF a ok] Cons.prems(1) show ?thesis by (intro rest) (simp add: keeps_def)
      qed
      then show ?thesis using rest [OF Cons.prems(1)] by (simp add: x Inr Some Let_def a)
    qed (simp add: x Inr)
  qed (simp add: x)
qed simp

lemma update_blocks_total:
  assumes "chan_inv sha gc" "no_nil items" "GetDataMsg (sg_Msg m) = None" "no_nil filtered"
  shows "\<exists>ok fs gc'. update_blocks ga now m items filtered gc = Some (ok, fs, gc') \<and> chan_inv sha gc' \<and> no_nil fs"
  using assms
proof (induction items arbitrary: filtered gc)
  case (Cons x items)
  then obtain e where x: "x = Some e" by auto
  have items: "no_nil items" using Cons.prems(2) by simp
  show ?case
  proof (cases "ToGossipMessage (ga_codec ga) e")
    case (Inr g)
    obtain v where v: "MessageStore_CheckValid (block_comparator ga) m (gch_blockMsgStore gc) = Some v"
      using block_valid_total [OF Cons.prems(1)] Cons.prems(3) by blast
    show ?thesis
    proof (cases "verifyBlock (sg_Msg g)")
      case True
      obtain b gc1 where b: "blockMsgStore_Add ga now g gc = Some (b, gc1)" "chan_inv sha gc1"
        using block_add_total [OF Cons.prems(1) verifyBlock_seqNum [OF True]] by blast
      have "no_nil (if b then filtered @ [x] else filtered)" using Cons.prems(4) x by simp
      from Cons.IH [OF b(2) items Cons.prems(3) this] show ?thesis
        using Cons.prems(1,4) by (auto simp: x Inr v b(1))
    qed (use Cons.prems in \<open>auto simp: x Inr v\<close>)
  qed (use Cons.prems in \<open>auto simp: x\<close>)
qed auto

section \<open>The mediator\<close>

lemma update_loop_total:
  assumes "no_nil es"
  shows "\<exists>ok p' done'. update_loop c ad es (p, done) = Some (ok, p', done')"
  using assms by (induction es arbitrary: p "done") (auto simp: Let_def split: sum.splits)

lemma HandleMessage_total:
  assumes "pull_ok p" "pa_IngressDigFilter ad \<noteq> None"
    and "\<And>du. GetDataUpdate (sg_Msg (rm_msg m)) = Some du \<Longrightarrow> no_nil (du_Data du)"
  shows "\<exists>p' outs. PullMediator_HandleMessage c ad m p = Some (p', outs)"
proof (cases "IsPullMsg (sg_Msg (rm_msg m)) \<and> GetPullMsgType (sg_Msg (rm_msg m)) = pc_MsgType (pu_config p)")
  case True
  show ?thesis
  proof (cases "gm_Content (sg_Msg (rm_msg m))")
    case (Some x)
    show ?thesis
    proof (cases x)
      case (HelloMsg h)
      obtain d where "onHello (gh_Nonce h) m p = Some d" using onHello_eq [OF assms(1), of "gh_Nonce h" m] by metis
      with True Some HelloMsg show ?thesis by (cases d) (simp add: PullMediator_HandleMessage_def Let_def)
    next
      case (DataUpdateMsg du)
      then have "no_nil (du_Data du)" using assms(3) Some by (simp add: getter_defs)
      then obtain ok p' done' where "update_loop c ad (du_Data du) (p, []) = Some (ok, p', done')"
        using update_loop_total by blast
      with True Some DataUpdateMsg show ?thesis by (simp add: PullMediator_HandleMessage_def Let_def)
    qed (use True Some assms(2) in \<open>auto simp: PullMediator_HandleMessage_def Let_def\<close>)
  qed (use True in \<open>simp add: PullMediator_HandleMessage_def\<close>)
qed (auto simp: PullMediator_HandleMessage_def Let_def)

section \<open>The handler\<close>

text \<open>What a channel gives out for a message: it forwards nothing but that message.\<close>

definition handles :: "ReceivedMessage \<Rightarrow> (GossipChannel \<times> chan_out list) option \<Rightarrow> bool" where
  "handles m r \<longleftrightarrow> (\<exists>gc outs. r = Some (gc, outs) \<and>
     (\<forall>a\<in>set outs. a \<noteq> Ch_Gossip None \<and> (\<forall>m'. a = Ch_Forward m' \<longrightarrow> m' = m)))"

lemma handles_Some [simp]:
  "handles m (Some (gc, outs)) \<longleftrightarrow> (\<forall>a\<in>set outs. a \<noteq> Ch_Gossip None \<and> (\<forall>m'. a = Ch_Forward m' \<longrightarrow> m' = m))"
  by (auto simp: handles_def)

lemma of_pull_simps [simp]: "chan_of_pull p \<noteq> Ch_Gossip mo" "chan_of_pull p \<noteq> Ch_Forward m"
  by (cases p; simp)+

lemma puller_handles:
  assumes "chan_inv sha gc" "\<And>du. GetDataUpdate (sg_Msg (rm_msg msg)) = Some du \<Longrightarrow> no_nil (du_Data du)"
  shows "handles m (puller_handle ga msg gc)"
proof -
  have "pa_IngressDigFilter (chan_adapter gc) \<noteq> None" by (simp add: chan_adapter_def block_adapter_def)
  from HandleMessage_total [OF chan_invD(4) [OF assms(1)] this assms(2)]
  obtain p outs where "PullMediator_HandleMessage (ga_codec ga) (chan_adapter gc) msg (gch_blocksPuller gc) = Some (p, outs)"
    by blast
  then show ?thesis by (auto simp: puller_handle_def)
qed

lemma block_pull_handles:
  assumes "chan_inv (ga_sha ga) gc" "chan_fields (ga_codec ga) m"
  shows "handles m (handle_block_pull ga now m sender gc)"
proof -
  have upd: "no_nil (du_Data du)" if "GetDataUpdate (sg_Msg (rm_msg m)) = Some du" for du
    using assms(2) that by (simp add: chan_fields_def)
  have "handles m (puller_handle ga m gc)" by (rule puller_handles [OF assms(1) upd])
  moreover have "handles m (do {
          (ok, filtered, gc1) \<leftarrow> update_blocks ga now (rm_msg m) (du_Data du) [] gc;
          (if \<not> ok then Some (gc1, []) else puller_handle ga (with_data m du filtered) gc1)
        })" if du: "GetDataUpdate (sg_Msg (rm_msg m)) = Some du" for du
  proof -
    have "GetDataMsg (sg_Msg (rm_msg m)) = None" using du by (auto simp: getter_defs split: option.splits Content.splits)
    from update_blocks_total [OF assms(1) upd [OF du] this, of "[]" ga now]
    obtain ok fs gc1 where u: "update_blocks ga now (rm_msg m) (du_Data du) [] gc = Some (ok, fs, gc1)"
      "chan_inv (ga_sha ga) gc1" "no_nil fs" by auto
    have "handles m (puller_handle ga (with_data m du fs) gc1)"
      by (rule puller_handles [OF u(2)]) (use u(3) in \<open>auto simp: with_data_def getter_defs\<close>)
    then show ?thesis by (simp add: u(1))
  qed
  ultimately show ?thesis by (auto simp: handle_block_pull_def split: option.splits)
qed

lemma data_handles:
  assumes "chan_inv (ga_sha ga) gc" "chan_fields (ga_codec ga) m"
    and "GetDataMsg (sg_Msg (rm_msg m)) \<noteq> None \<or> GetStateInfo (sg_Msg (rm_msg m)) \<noteq> None"
  shows "handles m (handle_data ga now m gc)"
proof (cases "GetDataMsg (sg_Msg (rm_msg m))")
  case None
  with assms(3) obtain si where "GetStateInfo (sg_Msg (rm_msg m)) = Some si" by auto
  then have "state_ok (rm_msg m)" using assms(2) timed_state_ok by (auto simp: chan_fields_def)
  moreover have "sg_Envelope (rm_msg m) \<noteq> None" using assms(2) by (simp add: chan_fields_def)
  ultimately obtain b gc1 where "stateInfoCache_add ga now (rm_msg m) gc = Some (b, gc1)"
    using state_add_total [OF assms(1)] by blast
  then show ?thesis by (simp add: handle_data_def Let_def None)
next
  case (Some d)
  show ?thesis
  proof (cases "dm_Payload d")
    case None
    then show ?thesis by (simp add: handle_data_def Let_def Some)
  next
    case payload: (Some pl)
    then have seq: "block_seqNum (rm_msg m) \<noteq> None" using Some by (simp add: block_seqNum_def)
    obtain v where "MessageStore_CheckValid (block_comparator ga) (rm_msg m) (gch_blockMsgStore gc) = Some v"
      using block_valid_total [OF assms(1)] seq by blast
    moreover obtain b gc1 where "blockMsgStore_Add ga now (rm_msg m) gc = Some (b, gc1)"
      using block_add_total [OF assms(1) seq] by blast
    ultimately show ?thesis by (simp add: handle_data_def Let_def Some payload)
  qed
qed

lemma leadership_handles:
  assumes "chan_inv sha gc" "timed_leader (rm_msg m)"
  shows "handles m (handle_leadership now (rm_msg m) (gc, []))"
proof (cases "GetLeadershipMsg (sg_Msg (rm_msg m)) = None")
  case False
  have "\<forall>d\<in>set (datas (gch_leaderMsgStore gc)). NewGossipMessageComparator 0 (rm_msg m) d \<noteq> None"
    using leader_policy.pol_total [OF timed_leader_ok [OF assms(2) False]] chan_invD(3) [OF assms(1)] by blast
  then obtain b s tr where "MessageStore_Add (NewGossipMessageComparator 0) now (rm_msg m) (gch_leaderMsgStore gc) = Some (b, s, tr)"
    using Add_defined [where pol = "NewGossipMessageComparator 0" and x = "rm_msg m" and s = "gch_leaderMsgStore gc" and now = now] by blast
  then show ?thesis by (simp add: handle_leadership_def False)
qed (simp add: handle_leadership_def)

lemma chan_HandleMessage_handles:
  assumes "chan_inv (ga_sha ga) gc" "chan_fields (ga_codec ga) m"
  shows "handles m (chan_HandleMessage ga now m gc)"
proof -
  let ?m = "sg_Msg (rm_msg m)"
  obtain ci where ci: "rm_ConnInfo m = Some ci" using assms(2) by (auto simp: chan_fields_def)
  then have "\<exists>ok. verifyMsg ga gc m = Some ok"
    by (auto simp: verifyMsg_def Let_def split: option.splits)
  then obtain ok where v: "verifyMsg ga gc m = Some ok" by blast
  obtain r where "createStateInfoSnapshot ga gc (ga_GetOrgOfPeer ga (ci_ID ci)) = Some r"
    using snapshot_total [OF assms(1)] by blast
  moreover have "handles m (map_option (\<lambda>gc1. (gc1, [])) (handleStateInfoSnapshot ga now ?m gc))" if "GetStateSnapshot ?m = Some ss" for ss
  proof -
    have "\<exists>gc'. snapshot_loop ga now (ss_Elements ss) gc = Some gc'"
      using assms(2) that by (intro snapshot_loop_total [OF assms(1)]) (auto simp: chan_fields_def)
    then show ?thesis using that by (auto simp: handleStateInfoSnapshot_def)
  qed
  moreover have "handles m (handle_leadership now (rm_msg m) (gc, []))"
    using assms by (intro leadership_handles) (auto simp: chan_fields_def)
  ultimately show ?thesis
    using block_pull_handles [OF assms] data_handles [OF assms]
    by (auto simp: chan_HandleMessage_def v ci Let_def)
qed

end
