(* ===== verification/GossipTotal.thy ===== *)
theory GossipTotal
  imports GossipExample ChannelTotal
begin

text \<open>
  What it takes to bring a node down: under the invariant of the service, the handler of received
  messages returns for every message that carries what the code reads without a test. The condition
  names every such field, and each of them is one a remote peer may leave out.
\<close>

declare map_of_eq_Some_iff [simp del] Some_eq_map_of_iff [simp del]

section \<open>What a message must carry\<close>

text \<open>
  The self information of a membership request is there, and if it is an alive message, its membership;
  a data update, also one of identities, has no nil envelope; the rest is what a channel reads.
\<close>

definition recv_fields :: "codec \<Rightarrow> ReceivedMessage \<Rightarrow> bool" where
  "recv_fields c m \<longleftrightarrow> chan_fields c m \<and>
     (\<forall>mq. GetMemReq (sg_Msg (rm_msg m)) = Some mq \<longrightarrow> (\<exists>e. mq_SelfInformation mq = Some e \<and>
        (\<forall>s am. ToGossipMessage c e = Inr s \<longrightarrow> GetAliveMsg (sg_Msg s) = Some am \<longrightarrow> am_Membership am \<noteq> None)))"

lemma recv_fields_timed: "recv_fields c m \<Longrightarrow> timed_recv c m"
  by (simp add: recv_fields_def chan_fields_def timed_recv_def)

section \<open>The puller of identities\<close>

text \<open>Every message of an update that passes the check is an identity.\<close>

definition identities :: "SignedGossipMessage list \<Rightarrow> bool" where
  "identities ms \<longleftrightarrow> (\<forall>m\<in>set ms. GetPeerIdentity (sg_Msg m) \<noteq> None)"

lemma update_check_total: "no_nil items \<Longrightarrow> \<exists>b. update_check env items = Some b"
  by (induction items) (auto split: sum.splits)

lemma update_loop_identities:
  "update_check env items = Some True \<Longrightarrow> update_loop (se_codec env) ad items (p, done) = Some (ok, p', done') \<Longrightarrow>
   identities (map snd done) \<Longrightarrow> identities (map snd done')"
proof (induction items arbitrary: p "done")
  case (Cons x items)
  then obtain e msg where x: "x = Some e" "ToGossipMessage (se_codec env) e = Inr msg" "GetPeerIdentity (sg_Msg msg) \<noteq> None"
    "update_check env items = Some True"
    by (cases x) (auto split: sum.splits if_splits)
  with Cons.prems(3) have "identities (map snd (done @ [(pa_IdExtractor ad msg, msg)]))"
    by (simp add: identities_def)
  with Cons.IH [OF x(4)] Cons.prems(2) x(1,2) show ?case by (simp add: Let_def)
qed simp

definition hooks_ok :: "pull_out list \<Rightarrow> bool" where
  "hooks_ok outs \<longleftrightarrow> (\<forall>h items msgs. Pull_Hook h items msgs \<in> set outs \<longrightarrow> identities msgs)"

lemma hooks_ok_simps [simp]:
  "hooks_ok []" "hooks_ok (xs @ ys) \<longleftrightarrow> hooks_ok xs \<and> hooks_ok ys"
  "hooks_ok (run_hooks t items msgs p) \<longleftrightarrow> identities msgs \<or> hooksByMsgType p t = []"
  "hooks_ok (map (\<lambda>(k, m). Pull_Consume m) ms)"
proof -
  show "hooks_ok (run_hooks t items msgs p) \<longleftrightarrow> identities msgs \<or> hooksByMsgType p t = []"
    by (cases "hooksByMsgType p t") (auto simp: hooks_ok_def run_hooks_def)
qed (auto simp: hooks_ok_def)

lemma cert_hooks_ok:
  assumes "PullMediator_HandleMessage (se_codec env) ad m p = Some (p', outs)" "pull_ok p"
    and "\<And>du. GetDataUpdate (sg_Msg (rm_msg m)) = Some du \<Longrightarrow> update_check env (du_Data du) = Some True"
  shows "hooks_ok outs"
proof (cases "gm_Content (sg_Msg (rm_msg m))")
  case (Some x)
  have none: "identities []" by (simp add: identities_def)
  show ?thesis
  proof (cases x)
    case (HelloMsg h)
    obtain digest where "onHello (gh_Nonce h) m p = Some (p\<lparr>en_incomingNONCES := Set_Add (gh_Nonce h) (en_incomingNONCES p)\<rparr>,
       Pull_AfterRequestWait (gh_Nonce h) #
         (if digest = [] then [] else [Pull_Respond m (digest_msg (pu_config p) digest (gh_Nonce h))]))"
      using onHello_eq [OF assms(2), of "gh_Nonce h" m] by metis
    with assms(1) Some HelloMsg none show ?thesis
      by (auto simp: PullMediator_HandleMessage_def Let_def hooks_ok_def run_hooks_def split: if_splits)
  next
    case (DataUpdateMsg du)
    then have upd: "update_check env (du_Data du) = Some True" using assms(3) Some by (simp add: getter_defs)
    have "update_loop (se_codec env) ad (du_Data du) (p, []) = Some (ok, p1, done') \<Longrightarrow> identities (map snd done')" for ok p1 done'
      using update_loop_identities [OF upd, of ad p "[]" ok p1 done'] none by simp
    with assms(1) Some DataUpdateMsg show ?thesis
      by (auto simp: PullMediator_HandleMessage_def Let_def bind_eq_Some_conv split: if_splits)
  qed (use assms(1) Some none in \<open>auto simp: PullMediator_HandleMessage_def Let_def bind_eq_Some_conv onReq_def hooks_ok_def
      run_hooks_def split: if_splits\<close>)
qed (use assms(1) in \<open>auto simp: PullMediator_HandleMessage_def Let_def split: if_splits\<close>)

lemma cert_hook_total: "identities msgs \<Longrightarrow> \<exists>g'. cert_hook env now msgs g = Some g'"
  unfolding cert_hook_def by (induction msgs arbitrary: g) (auto simp: identities_def)

lemma cert_outs_total: "hooks_ok outs \<Longrightarrow> \<exists>r. foldM (run_cert_out env now) outs s = Some r"
proof (induction outs arbitrary: s)
  case (Cons a outs)
  have "\<exists>t. run_cert_out env now a s = Some t"
    using Cons.prems cert_hook_total by (cases s; cases a) (auto simp: run_cert_out_def hooks_ok_def)
  moreover have "hooks_ok outs" using Cons.prems by (simp add: hooks_ok_def)
  ultimately show ?case using Cons.IH by fastforce
qed simp

lemma identity_pull_total:
  assumes "svc_ok env g" "chan_fields (se_codec env) m"
  shows "\<exists>r. handle_identity_pull env now m g = Some r"
proof -
  let ?p = "(gs_CertPuller g)\<lparr>en_digestFilter := cert_EgressDigFilter env g\<rparr>"
  have nil: "no_nil (du_Data du)" if "GetDataUpdate (sg_Msg (rm_msg m)) = Some du" for du
    using assms(2) that by (simp add: chan_fields_def)
  have ok: "pull_ok ?p" using svc_okD(5) [OF assms(1)] by (simp add: pull_ok_def)
  have "pa_IngressDigFilter (fst (createCertStorePuller env g)) \<noteq> None"
    by (simp add: createCertStorePuller_def NewPullMediator_def)
  from HandleMessage_total [OF ok this nil]
  obtain p' outs where h: "PullMediator_HandleMessage (se_codec env) (fst (createCertStorePuller env g)) m ?p = Some (p', outs)" by blast
  have pull: "\<exists>r. cert_puller_handle env now m g = Some r"
    if "\<And>du. GetDataUpdate (sg_Msg (rm_msg m)) = Some du \<Longrightarrow> update_check env (du_Data du) = Some True"
    using cert_outs_total [OF cert_hooks_ok [OF h ok that]] by (simp add: cert_puller_handle_def h)
  show ?thesis
  proof (cases "GetDataUpdate (sg_Msg (rm_msg m))")
    case None
    then show ?thesis using pull by (simp add: handle_identity_pull_def Let_def)
  next
    case (Some du)
    obtain b where "update_check env (du_Data du) = Some b" using update_check_total [OF nil [OF Some]] by blast
    then show ?thesis using pull Some by (cases b) (simp_all add: handle_identity_pull_def Let_def)
  qed
qed

section \<open>Messages for no channel\<close>

lemma memReq_total:
  assumes "recv_fields (se_codec env) m"
  shows "\<exists>b. memReq_check env m = Some b"
proof (cases "GetMemReq (sg_Msg (rm_msg m))")
  case (Some mq)
  obtain ci where ci: "rm_ConnInfo m = Some ci" using assms by (auto simp: recv_fields_def chan_fields_def)
  obtain e where e: "mq_SelfInformation mq = Some e"
    "\<And>s am. ToGossipMessage (se_codec env) e = Inr s \<Longrightarrow> GetAliveMsg (sg_Msg s) = Some am \<Longrightarrow> am_Membership am \<noteq> None"
    using assms Some by (auto simp: recv_fields_def)
  show ?thesis
  proof (cases "ToGossipMessage (se_codec env) e")
    case (Inr s)
    show ?thesis
    proof (cases "GetAliveMsg (sg_Msg s)")
      case (Some am)
      then obtain mem where "am_Membership am = Some mem" using e(2) [OF Inr] by blast
      then show ?thesis by (simp add: memReq_check_def member_of_def \<open>GetMemReq _ = _\<close> e(1) Inr Some ci)
    qed (auto simp: memReq_check_def Some e(1) Inr)
  qed (auto simp: memReq_check_def Some e(1))
qed (auto simp: memReq_check_def)

lemma unrestricted_total:
  assumes "svc_ok env g" "recv_fields (se_codec env) m"
  shows "\<exists>r. handle_unrestricted env now m g = Some r"
proof -
  have c: "chan_fields (se_codec env) m" using assms(2) by (simp add: recv_fields_def)
  obtain r where "handle_identity_pull env now m g = Some r" using identity_pull_total [OF assms(1) c] by blast
  moreover obtain b where "memReq_check env m = Some b" using memReq_total [OF assms(2)] by blast
  ultimately show ?thesis by (simp add: handle_unrestricted_def)
qed

section \<open>Messages for a channel\<close>

lemma chan_outs_total:
  assumes "rm_ConnInfo m \<noteq> None" "\<forall>a\<in>set outs. a \<noteq> Ch_Gossip None \<and> (\<forall>m'. a = Ch_Forward m' \<longrightarrow> m' = m)"
  shows "\<exists>r. foldM run_chan_out outs s = Some r"
  using assms(2)
proof (induction outs arbitrary: s)
  case (Cons a outs)
  have "\<exists>t. run_chan_out a s = Some t"
    using Cons.prems assms(1)
    by (cases s; cases a) (auto simp: run_chan_out_def GossipAdapter_Forward_def forward_from_def split: prod.splits)
  with Cons show ?case by fastforce
qed simp

lemma on_channel_total:
  assumes "svc_ok env g" "map_get (cst_Channels (gs_ChanState g)) k = Some gc" "chan_fields (se_codec env) m"
  shows "\<exists>r. on_channel (\<lambda>ga. chan_HandleMessage ga now m) env gc g = Some r"
proof -
  obtain ga where ga: "adapter_of env g = Some ga" using svc_adapter [OF assms(1)] by blast
  have "chan_inv (se_sha env) gc" using assms(1,2) by (auto simp: svc_ok_def chans_ok_def)
  then have "handles m (chan_HandleMessage ga now m gc)"
    using assms(3) adapter_sha [OF ga] by (intro chan_HandleMessage_handles) simp_all
  then obtain gc' outs where h: "chan_HandleMessage ga now m gc = Some (gc', outs)"
    "\<forall>a\<in>set outs. a \<noteq> Ch_Gossip None \<and> (\<forall>m'. a = Ch_Forward m' \<longrightarrow> m' = m)" by (auto simp: handles_def)
  have "rm_ConnInfo m \<noteq> None" using assms(3) by (simp add: chan_fields_def)
  from chan_outs_total [OF this h(2)] show ?thesis by (simp add: on_channel_def ga h(1))
qed

lemma no_channel_total:
  assumes "svc_ok env g" "chan_fields (se_codec env) m"
  shows "\<exists>r. handle_no_channel env now m g = Some r"
proof -
  obtain ci where ci: "rm_ConnInfo m = Some ci" using assms(2) by (auto simp: chan_fields_def)
  have "\<exists>b s tr. MessageStore_Add (NewGossipMessageComparator 0) now (rm_msg m) (gs_StateInfoMsgStore g) = Some (b, s, tr)"
    if si: "GetStateInfo (sg_Msg (rm_msg m)) \<noteq> None"
  proof -
    have "state_ok (rm_msg m)" using si assms(2) timed_state_ok by (auto simp: chan_fields_def)
    then show ?thesis
      using state_policy.Add_total [of 0, folded state_comparator_def, OF svc_okD(4) [OF assms(1)]] by (simp add: state_comparator_def)
  qed
  then show ?thesis by (auto simp: handle_no_channel_def ci Let_def)
qed

lemma restricted_total:
  assumes "svc_ok env g" "chan_fields (se_codec env) m"
  shows "\<exists>r. handle_restricted env now m g = Some r"
proof -
  have "rm_ConnInfo m \<noteq> None" using assms(2) by (simp add: chan_fields_def)
  then have "LookupChannelForMsg (se_sha env) (gs_ChanState g) m \<noteq> None"
    by (simp add: LookupChannelForMsg_def split: option.split)
  then obtain gco where l: "LookupChannelForMsg (se_sha env) (gs_ChanState g) m = Some gco" by blast
  show ?thesis
  proof (cases gco)
    case None
    with l no_channel_total [OF assms] show ?thesis by (simp add: handle_restricted_def)
  next
    case (Some gc)
    with l obtain k where "map_get (cst_Channels (gs_ChanState g)) k = Some gc"
      using lookup_in [of "se_sha env" "gs_ChanState g" m gc] assms(1) by (auto simp: svc_ok_def chans_ok_def)
    from on_channel_total [OF assms(1) this assms(2)] show ?thesis
      by (auto simp: handle_restricted_def l Some validateLeadershipMessage_def Let_def split: sum.splits)
  qed
qed

section \<open>The handler\<close>

lemma validateMsg_total: "\<exists>b g'. validateMsg env now m g = Some (b, g')"
  by (auto simp: validateMsg_def Let_def ValidateStateInfoMsg_def split: prod.splits sum.splits)

lemma received_total:
  assumes ok: "svc_ok env g" and m: "recv_fields (se_codec env) m"
  shows "\<exists>g' outs. handleMessage env now (Some m) g = Some (g', outs) \<and> svc_step env g g'"
proof -
  obtain b g1 where v: "validateMsg env now m g = Some (b, g1)" using validateMsg_total by blast
  then have ok1: "svc_ok env g1" using validateMsg_ok [OF v ok] svc_ok_mapper [OF ok] by auto
  have "\<exists>r. handleMessage env now (Some m) g = Some r"
    using restricted_total [OF ok1] unrestricted_total [OF ok1 m] m
    by (auto simp: handleMessage_def v recv_fields_def)
  then obtain g' outs where h: "handleMessage env now (Some m) g = Some (g', outs)" by auto
  moreover have "svc_step env g g'"
    by (rule svc_step.sv_message [OF _ h]) (use m recv_fields_timed in auto)
  ultimately show ?thesis by blast
qed

text \<open>C3. Whatever a service has been through (as long as the messages it handled carried their fields), a received
  message that carries its fields is handled without a panic and leaves the service in a state of the same kind.
  The fields are: the connection info and the envelope the communication layer adds; the time of a state info, also
  inside a snapshot, and of a leadership message; the self information of a membership request and the membership
  of the alive message in it; no nil envelope in a snapshot or an update. Nothing else a remote peer leaves out or
  makes up can bring the handler down.\<close>

theorem handleMessage_total:
  assumes "fresh_service env g0" and "(svc_step env)\<^sup>*\<^sup>* g0 g" and "recv_fields (se_codec env) m"
  shows "\<exists>g' outs. handleMessage env now (Some m) g = Some (g', outs) \<and> svc_ok env g' \<and> svc_step env g g'"
proof -
  have ok: "svc_ok env g" using service.reach_inv assms(1,2) by blast
  from received_total [OF ok assms(3)] show ?thesis using svc_step_ok ok by blast
qed

text \<open>A membership request of ''q'', whose self information is an alive message.\<close>

definition ex_memReq :: ReceivedMessage where
  "ex_memReq = \<lparr>rm_msg = \<lparr>sg_Envelope = Some (ex_envelope (Some ''p'')),
     sg_Msg = \<lparr>gm_Nonce = 0, gm_Channel = None, gm_Tag = Tag_EMPTY,
       gm_Content = Some (MemReq \<lparr>mq_SelfInformation = Some (ex_envelope (Some ''x'')), mq_Known = []\<rparr>)\<rparr>\<rparr>,
     rm_ConnInfo = Some \<lparr>ci_ID = Some ''q'', ci_Id = Some ''q''\<rparr>\<rparr>"

lemma ex_memReq_fields: "recv_fields (table_codec [sg_Msg (hello_from ''q'' 1)] []) ex_memReq"
  by (auto simp: recv_fields_def chan_fields_def timed_state_def timed_leader_def ex_memReq_def getter_defs ToGossipMessage_def
      ex_envelope_def table_codec_def table_dec_def bytes_len_def hello_from_def)

theorem handleMessage_total_witness:
  "\<exists>g g' outs. handleMessage (ex_senv (table_codec [sg_Msg (hello_from ''q'' 1)] [])) 5 (Some ex_memReq) g = Some (g', outs) \<and>
     svc_ok (ex_senv (table_codec [sg_Msg (hello_from ''q'' 1)] [])) g'"
proof -
  let ?env = "ex_senv (table_codec [sg_Msg (hello_from ''q'' 1)] [])"
  obtain g where g: "fresh_service ?env g" using ex_fresh by blast
  have "recv_fields (se_codec ?env) ex_memReq" using ex_memReq_fields by (simp add: ex_senv_def)
  from handleMessage_total [OF g rtranclp.rtrancl_refl this, of 5] show ?thesis by blast
qed

end
