(* ===== verification/Loops.thy ===== *)
theory Loops
  imports Prelude
begin

text \<open>
  The goroutines of a component that wait in a \<open>select\<close> for an item to handle or for the end. They share one
  channel of capacity 1 for the end: who takes the token out of it puts it back and returns, so that the next one
  finds it. The machine interleaves any number of such loops, each an item at a time, with everything else that
  changes the state they work on. It is used for the loops of a service, of discovery and of a channel.
\<close>

section \<open>One loop\<close>

text \<open>Where a loop is: before its test of a flag, at the \<open>select\<close>, in its handler, putting the token back, returned.\<close>

datatype 'm pc = Testing | Selecting | Handling 'm | Returning | Ended

text \<open>What the \<open>select\<close> chooses; anywhere else a loop just goes on.\<close>

datatype 'm choice = Go | Take_Item 'm | Take_Stop

text \<open>A handler panics, waits (for a channel that is full) or gives the new state.\<close>

datatype 's outcome = Panics | Waits | Goes 's

record ('s, 'm) loops =
  lp_state :: 's
  lp_tokens :: nat
  lp_pcs :: "'m pc list"

definition at_pc :: "nat \<Rightarrow> 'm pc \<Rightarrow> ('s, 'm) loops \<Rightarrow> ('s, 'm) loops" where
  "at_pc i p ls = ls\<lparr>lp_pcs := (lp_pcs ls)[i := p]\<rparr>"

definition loop_do ::
  "(nat \<Rightarrow> 's \<Rightarrow> bool) \<Rightarrow> (nat \<Rightarrow> 'm \<Rightarrow> 's \<Rightarrow> 's outcome) \<Rightarrow> nat \<Rightarrow> 'm choice \<Rightarrow> ('s, 'm) loops \<Rightarrow> ('s, 'm) loops outcome" where
  "loop_do dead handler i ch ls =
     (if length (lp_pcs ls) \<le> i then Waits
      else (case lp_pcs ls ! i of
         Testing \<Rightarrow> Goes (at_pc i (if dead i (lp_state ls) then Ended else Selecting) ls)
       | Selecting \<Rightarrow>
           (case ch of
              Take_Item m \<Rightarrow> Goes (at_pc i (Handling m) ls)
            | Take_Stop \<Rightarrow> if lp_tokens ls = 0 then Waits else Goes (at_pc i Returning (ls\<lparr>lp_tokens := lp_tokens ls - 1\<rparr>))
            | Go \<Rightarrow> Waits)
       | Handling m \<Rightarrow>
           (case handler i m (lp_state ls) of
              Panics \<Rightarrow> Panics
            | Waits \<Rightarrow> Waits
            | Goes s \<Rightarrow> Goes (at_pc i Testing (ls\<lparr>lp_state := s\<rparr>)))
       | Returning \<Rightarrow> if lp_tokens ls = 0 then Goes (at_pc i Ended (ls\<lparr>lp_tokens := 1\<rparr>)) else Waits
       | Ended \<Rightarrow> Waits))"

text \<open>\<open>Stop\<close> puts the token in.\<close>

definition send_stop :: "('s, 'm) loops \<Rightarrow> ('s, 'm) loops outcome" where
  "send_stop ls = (if lp_tokens ls = 0 then Goes (ls\<lparr>lp_tokens := 1\<rparr>) else Waits)"

definition started :: "nat \<Rightarrow> 's \<Rightarrow> ('s, 'm) loops" where
  "started n s = \<lparr>lp_state = s, lp_tokens = 0, lp_pcs = replicate n Testing\<rparr>"

section \<open>All of them\<close>

text \<open>
  The flag says whether \<open>Stop\<close> has sent its token, which it does once. The items a loop may get and the changes
  others make to the state are relations of the component.
\<close>

inductive loops_step ::
  "(nat \<Rightarrow> 's \<Rightarrow> bool) \<Rightarrow> (nat \<Rightarrow> 'm \<Rightarrow> 's \<Rightarrow> 's outcome) \<Rightarrow> (nat \<Rightarrow> 'm \<Rightarrow> bool) \<Rightarrow> ('s \<Rightarrow> 's \<Rightarrow> bool) \<Rightarrow>
   bool \<times> ('s, 'm) loops \<Rightarrow> bool \<times> ('s, 'm) loops \<Rightarrow> bool"
  for dead handler admissible others where
  ls_loop: "loop_do dead handler i ch ls = Goes ls' \<Longrightarrow> (\<And>m. ch = Take_Item m \<Longrightarrow> admissible i m) \<Longrightarrow>
     loops_step dead handler admissible others (b, ls) (b, ls')"
| ls_others: "others (lp_state ls) s \<Longrightarrow> loops_step dead handler admissible others (b, ls) (b, ls\<lparr>lp_state := s\<rparr>)"
| ls_stop: "send_stop ls = Goes ls' \<Longrightarrow> loops_step dead handler admissible others (False, ls) (True, ls')"

definition weight :: "('m pc \<Rightarrow> nat) \<Rightarrow> ('s, 'm) loops \<Rightarrow> nat" where
  "weight w ls = sum_list (map w (lp_pcs ls))"

lemma weight_simps [simp]:
  "weight w (ls\<lparr>lp_state := s\<rparr>) = weight w ls" "weight w (ls\<lparr>lp_tokens := t\<rparr>) = weight w ls"
  "lp_state (at_pc i p ls) = lp_state ls" "lp_tokens (at_pc i p ls) = lp_tokens ls" "lp_pcs (at_pc i p ls) = (lp_pcs ls)[i := p]"
  by (simp_all add: weight_def at_pc_def)

lemma weight_at:
  assumes "i < length (lp_pcs ls)"
  shows "weight w (at_pc i p ls) + w (lp_pcs ls ! i) = weight w ls + w p"
proof -
  have "w (lp_pcs ls ! i) \<le> weight w ls" unfolding weight_def using assms by (simp add: member_le_sum_list)
  then show ?thesis using assms by (simp add: weight_def at_pc_def map_update sum_list_update)
qed

lemma loop_doE:
  assumes "loop_do dead handler i ch ls = Goes ls'"
  obtains (testing) "i < length (lp_pcs ls)" "lp_pcs ls ! i = Testing" "ls' = at_pc i (if dead i (lp_state ls) then Ended else Selecting) ls"
  | (item) m where "i < length (lp_pcs ls)" "lp_pcs ls ! i = Selecting" "ch = Take_Item m" "ls' = at_pc i (Handling m) ls"
  | (stop) "i < length (lp_pcs ls)" "lp_pcs ls ! i = Selecting" "ch = Take_Stop" "lp_tokens ls \<noteq> 0"
      "ls' = at_pc i Returning (ls\<lparr>lp_tokens := lp_tokens ls - 1\<rparr>)"
  | (handled) m s where "i < length (lp_pcs ls)" "lp_pcs ls ! i = Handling m" "handler i m (lp_state ls) = Goes s"
      "ls' = at_pc i Testing (ls\<lparr>lp_state := s\<rparr>)"
  | (returned) "i < length (lp_pcs ls)" "lp_pcs ls ! i = Returning" "lp_tokens ls = 0" "ls' = at_pc i Ended (ls\<lparr>lp_tokens := 1\<rparr>)"
  using assms by (cases "lp_pcs ls ! i"; cases ch) (auto simp: loop_do_def split: if_splits outcome.splits)

section \<open>The token\<close>

text \<open>Once it is sent there is one token: in the channel or with the loop that is putting it back.\<close>

definition one_token :: "bool \<times> ('s, 'm) loops \<Rightarrow> bool" where
  "one_token = (\<lambda>(sent, ls). lp_tokens ls + weight (\<lambda>p. of_bool (p = Returning)) ls = of_bool sent)"

lemma weight_returning:
  fixes ls :: "('s, 'm) loops"
  shows "weight (\<lambda>p. of_bool (p = Returning)) ls = length (filter (\<lambda>p. p = Returning) (lp_pcs ls))"
proof -
  have "sum_list (map (\<lambda>p. of_bool (p = Returning)) ps) = length (filter (\<lambda>p. p = Returning) ps)" for ps :: "'m pc list"
    by (induction ps) auto
  then show ?thesis by (simp add: weight_def)
qed

lemma loop_do_token:
  assumes "loop_do dead handler i ch ls = Goes ls'"
  shows "lp_tokens ls' + weight (\<lambda>p. of_bool (p = Returning)) ls' = lp_tokens ls + weight (\<lambda>p. of_bool (p = Returning)) ls"
  using assms
proof (cases rule: loop_doE)
  case testing
  then show ?thesis using weight_at [of i ls "\<lambda>p. of_bool (p = Returning)" "if dead i (lp_state ls) then Ended else Selecting"]
    by (simp split: if_splits)
next
  case (item m)
  then show ?thesis using weight_at [of i ls "\<lambda>p. of_bool (p = Returning)" "Handling m"] by simp
next
  case stop
  then show ?thesis
    using weight_at [of i "ls\<lparr>lp_tokens := lp_tokens ls - 1\<rparr>" "\<lambda>p. of_bool (p = Returning)" Returning] by simp
next
  case (handled m s)
  then show ?thesis using weight_at [of i "ls\<lparr>lp_state := s\<rparr>" "\<lambda>p. of_bool (p = Returning)" Testing] by simp
next
  case returned
  then show ?thesis using weight_at [of i "ls\<lparr>lp_tokens := 1\<rparr>" "\<lambda>p. of_bool (p = Returning)" Ended] by simp
qed

lemma started_token: "one_token (False, started n s)"
  by (simp add: one_token_def started_def weight_def)

lemma loops_step_token:
  assumes "loops_step dead handler admissible others x y" "one_token x"
  shows "one_token y"
  using assms
proof (induction rule: loops_step.induct)
  case (ls_loop i ch ls ls' b)
  then show ?case using loop_do_token [OF ls_loop(1)] by (simp add: one_token_def)
qed (auto simp: one_token_def send_stop_def split: if_splits)

interpretation token: inv_machine "\<lambda>x. \<exists>n s. x = (False, started n s)" "loops_step dead handler admissible others" one_token
  for dead handler admissible others
  by unfold_locales (auto intro: started_token loops_step_token)

text \<open>The number of loops does not change, and what a loop holds is what it may hold.\<close>

lemma loops_step_length: "loops_step dead handler admissible others x y \<Longrightarrow> length (lp_pcs (snd y)) = length (lp_pcs (snd x))"
  by (induction rule: loops_step.induct) (auto simp: send_stop_def elim!: loop_doE split: if_splits)

definition holds_items :: "(nat \<Rightarrow> 'm \<Rightarrow> bool) \<Rightarrow> ('s, 'm) loops \<Rightarrow> bool" where
  "holds_items admissible ls \<longleftrightarrow> (\<forall>i m. i < length (lp_pcs ls) \<longrightarrow> lp_pcs ls ! i = Handling m \<longrightarrow> admissible i m)"

lemma holds_at:
  assumes "holds_items admissible ls" "\<And>m. p = Handling m \<Longrightarrow> admissible i m"
  shows "holds_items admissible (at_pc i p ls)"
proof -
  have "admissible j m" if "j < length (lp_pcs ls)" "(lp_pcs ls)[i := p] ! j = Handling m" for j m
    using assms that by (cases "j = i") (auto simp: holds_items_def)
  then show ?thesis by (simp add: holds_items_def)
qed

lemma holds_fields [simp]:
  "holds_items admissible (ls\<lparr>lp_state := s\<rparr>) = holds_items admissible ls"
  "holds_items admissible (ls\<lparr>lp_tokens := t\<rparr>) = holds_items admissible ls"
  by (simp_all add: holds_items_def)

lemma loops_step_inv:
  assumes "loops_step dead handler admissible others x y" "I (lp_state (snd x)) \<and> holds_items admissible (snd x)"
    and "\<And>i m s s'. I s \<Longrightarrow> admissible i m \<Longrightarrow> handler i m s = Goes s' \<Longrightarrow> I s'"
    and "\<And>s s'. I s \<Longrightarrow> others s s' \<Longrightarrow> I s'"
  shows "I (lp_state (snd y)) \<and> holds_items admissible (snd y)"
  using assms(1,2)
proof (induction rule: loops_step.induct)
  case (ls_loop i ch ls ls' b)
  from ls_loop(1) show ?case
  proof (cases rule: loop_doE)
    case (handled m s)
    then have "admissible i m" using ls_loop(3) by (simp add: holds_items_def)
    then show ?thesis using handled ls_loop(3) assms(3) by (auto intro: holds_at)
  qed (use ls_loop(2,3) in \<open>auto intro!: holds_at\<close>)
next
  case (ls_others ls s b)
  then show ?case using assms(4) by auto
qed (auto simp: send_stop_def split: if_splits)

lemma started_holds: "holds_items admissible (started n s)"
  by (simp add: holds_items_def started_def)

text \<open>A loop panics only in its handler.\<close>

lemma loop_do_panics:
  assumes "loop_do dead handler i ch ls = Panics"
  obtains m where "i < length (lp_pcs ls)" "lp_pcs ls ! i = Handling m" "handler i m (lp_state ls) = Panics"
  using assms by (auto simp: loop_do_def split: if_splits pc.splits outcome.splits choice.splits)

section \<open>The end\<close>

text \<open>A step of a loop that takes no further item, after which the others may have changed the state.\<close>

definition ending_step ::
  "(nat \<Rightarrow> 's \<Rightarrow> bool) \<Rightarrow> (nat \<Rightarrow> 'm \<Rightarrow> 's \<Rightarrow> 's outcome) \<Rightarrow> ('s \<Rightarrow> 's \<Rightarrow> bool) \<Rightarrow>
   ('s, 'm) loops \<Rightarrow> ('s, 'm) loops \<Rightarrow> bool" where
  "ending_step dead handler others ls ls' \<longleftrightarrow>
     (\<exists>i ch ls1 s. (ch = Go \<or> ch = Take_Stop) \<and> loop_do dead handler i ch ls = Goes ls1 \<and>
        others\<^sup>*\<^sup>* (lp_state ls1) s \<and> ls' = ls1\<lparr>lp_state := s\<rparr>)"

text \<open>Such steps are steps of the machine.\<close>

lemma others_run:
  "others\<^sup>*\<^sup>* (lp_state ls) s \<Longrightarrow> (loops_step dead handler admissible others)\<^sup>*\<^sup>* (b, ls) (b, ls\<lparr>lp_state := s\<rparr>)"
proof (induction rule: rtranclp_induct)
  case (step s s')
  have "loops_step dead handler admissible others (b, ls\<lparr>lp_state := s\<rparr>) (b, ls\<lparr>lp_state := s\<rparr>\<lparr>lp_state := s'\<rparr>)"
    by (rule ls_others) (use step.hyps in simp)
  with step.IH show ?case by simp
qed simp

lemma ending_run:
  assumes "ending_step dead handler others ls ls'"
  shows "(loops_step dead handler admissible others)\<^sup>*\<^sup>* (b, ls) (b, ls')"
proof -
  obtain i ch ls1 s where c: "ch = Go \<or> ch = Take_Stop" and d: "loop_do dead handler i ch ls = Goes ls1"
    and o: "others\<^sup>*\<^sup>* (lp_state ls1) s" and l: "ls' = ls1\<lparr>lp_state := s\<rparr>"
    using assms by (auto simp: ending_step_def)
  have "loops_step dead handler admissible others (b, ls) (b, ls1)" by (rule ls_loop [OF d]) (use c in auto)
  from converse_rtranclp_into_rtranclp [OF this others_run [OF o]] l show ?thesis by simp
qed

lemma ending_runs:
  "(ending_step dead handler others ^^ k) ls ls' \<Longrightarrow> (loops_step dead handler admissible others)\<^sup>*\<^sup>* (b, ls) (b, ls')"
proof (induction k arbitrary: ls')
  case (Suc k)
  then obtain ls1 where "(ending_step dead handler others ^^ k) ls ls1" "ending_step dead handler others ls1 ls'" by auto
  with Suc.IH ending_run show ?case by (meson rtranclp_trans)
qed simp

primrec to_go :: "'m pc \<Rightarrow> nat" where
  "to_go Testing = 3"
| "to_go Selecting = 2"
| "to_go (Handling m) = 4"
| "to_go Returning = 1"
| "to_go Ended = 0"

lemma to_go_le: "to_go p \<le> 4"
  by (cases p) simp_all

lemma weight_le: "weight to_go ls \<le> 4 * length (lp_pcs ls)"
proof -
  have "weight to_go ls \<le> sum_list (map (\<lambda>_. 4) (lp_pcs ls))"
    unfolding weight_def by (rule sum_list_mono) (rule to_go_le)
  then show ?thesis by (simp add: sum_list_triv mult.commute)
qed

lemma weight_0: "weight to_go ls = 0 \<longleftrightarrow> (\<forall>p\<in>set (lp_pcs ls). p = Ended)"
proof -
  have "to_go p = 0 \<longleftrightarrow> p = Ended" for p :: "'a pc" by (cases p) simp_all
  then show ?thesis by (simp add: weight_def)
qed

lemma ending_decreases:
  assumes "ending_step dead handler others ls ls'"
  shows "weight to_go ls' < weight to_go ls"
proof -
  obtain i ch ls1 s where c: "ch = Go \<or> ch = Take_Stop" and d: "loop_do dead handler i ch ls = Goes ls1" and l: "ls' = ls1\<lparr>lp_state := s\<rparr>"
    using assms by (auto simp: ending_step_def)
  from d have "weight to_go ls1 < weight to_go ls"
  proof (cases rule: loop_doE)
    case testing
    then show ?thesis using weight_at [of i ls to_go "if dead i (lp_state ls) then Ended else Selecting"] by (simp split: if_splits)
  next
    case (item m)
    with c show ?thesis by auto
  next
    case stop
    then show ?thesis using weight_at [of i "ls\<lparr>lp_tokens := lp_tokens ls - 1\<rparr>" to_go Returning] by simp
  next
    case (handled m s)
    then show ?thesis using weight_at [of i "ls\<lparr>lp_state := s\<rparr>" to_go Testing] by simp
  next
    case returned
    then show ?thesis using weight_at [of i "ls\<lparr>lp_tokens := 1\<rparr>" to_go Ended] by simp
  qed
  with l show ?thesis by simp
qed

text \<open>A run without further items takes at most four steps per loop.\<close>

lemma ending_run_bound: "(ending_step dead handler others ^^ k) ls ls' \<Longrightarrow> k + weight to_go ls' \<le> weight to_go ls"
proof (induction k arbitrary: ls')
  case (Suc k)
  then obtain ls1 where "(ending_step dead handler others ^^ k) ls ls1" "ending_step dead handler others ls1 ls'" by auto
  with Suc.IH ending_decreases show ?case by fastforce
qed simp

text \<open>While a loop has not ended there is such a step, when the handlers of the items that are held return.\<close>

lemma ending_progress:
  assumes tok: "one_token (True, ls)" and p: "p \<in> set (lp_pcs ls)" "p \<noteq> Ended"
    and h: "\<And>i m. i < length (lp_pcs ls) \<Longrightarrow> lp_pcs ls ! i = Handling m \<Longrightarrow> \<exists>s'. handler i m (lp_state ls) = Goes s'"
  shows "\<exists>ls'. ending_step dead handler others ls ls'"
proof -
  have step: ?thesis if "loop_do dead handler i ch ls = Goes ls1" "ch = Go \<or> ch = Take_Stop" for i ch ls1
  proof -
    have "ls1 = ls1\<lparr>lp_state := lp_state ls1\<rparr>" by simp
    with that show ?thesis unfolding ending_step_def by blast
  qed
  show ?thesis
  proof (cases "lp_tokens ls = 0")
    case True
    then have "weight (\<lambda>p. of_bool (p = Returning)) ls \<noteq> 0" using tok by (simp add: one_token_def)
    then have "Returning \<in> set (lp_pcs ls)" by (auto simp: weight_def)
    then obtain i where "i < length (lp_pcs ls)" "lp_pcs ls ! i = Returning" by (auto simp: in_set_conv_nth)
    with True have "loop_do dead handler i Go ls = Goes (at_pc i Ended (ls\<lparr>lp_tokens := 1\<rparr>))" by (simp add: loop_do_def)
    then show ?thesis by (rule step) simp
  next
    case False
    have "weight (\<lambda>p. of_bool (p = Returning)) ls = 0" using tok False by (simp add: one_token_def split: if_splits)
    then have "Returning \<notin> set (lp_pcs ls)" by (auto simp: weight_def)
    with p(1) have ret: "p \<noteq> Returning" by auto
    obtain i where i: "i < length (lp_pcs ls)" "lp_pcs ls ! i = p" using p(1) by (auto simp: in_set_conv_nth)
    show ?thesis
    proof (cases p)
      case (Handling m)
      with h [OF i(1)] i(2) obtain s' where "handler i m (lp_state ls) = Goes s'" by blast
      with Handling i have "loop_do dead handler i Go ls = Goes (at_pc i Testing (ls\<lparr>lp_state := s'\<rparr>))" by (simp add: loop_do_def)
      then show ?thesis by (rule step) simp
    next
      case Selecting
      with i False have "loop_do dead handler i Take_Stop ls = Goes (at_pc i Returning (ls\<lparr>lp_tokens := lp_tokens ls - 1\<rparr>))"
        by (simp add: loop_do_def)
      then show ?thesis by (rule step) simp
    next
      case Testing
      with i have "loop_do dead handler i Go ls = Goes (at_pc i (if dead i (lp_state ls) then Ended else Selecting) ls)"
        by (simp add: loop_do_def)
      then show ?thesis by (rule step) simp
    qed (use p(2) ret in auto)
  qed
qed

section \<open>The contract of the handlers\<close>

text \<open>
  What a component has to show of its handlers: they keep its invariant, as everything else does, and do not panic on the
  items the loops get. Then its loops never panic, and they end after \<open>Stop\<close> unless a handler waits for ever.
\<close>

locale safe_loops =
  fixes dead :: "nat \<Rightarrow> 's \<Rightarrow> bool"
    and handler :: "nat \<Rightarrow> 'm \<Rightarrow> 's \<Rightarrow> 's outcome"
    and admissible :: "nat \<Rightarrow> 'm \<Rightarrow> bool"
    and others :: "'s \<Rightarrow> 's \<Rightarrow> bool"
    and Inv :: "'s \<Rightarrow> bool"
  assumes handler_inv: "Inv s \<Longrightarrow> admissible i m \<Longrightarrow> handler i m s = Goes s' \<Longrightarrow> Inv s'"
    and handler_safe: "Inv s \<Longrightarrow> admissible i m \<Longrightarrow> handler i m s \<noteq> Panics"
    and others_inv: "others s s' \<Longrightarrow> Inv s \<Longrightarrow> Inv s'"
begin

lemma runs_inv:
  assumes "Inv s0" and "(loops_step dead handler admissible others)\<^sup>*\<^sup>* (False, started n s0) x"
  shows "Inv (lp_state (snd x))" "holds_items admissible (snd x)" "one_token x" "length (lp_pcs (snd x)) = n"
proof -
  have "(Inv (lp_state (snd x)) \<and> holds_items admissible (snd x)) \<and> one_token x \<and> length (lp_pcs (snd x)) = n"
    using assms(2)
  proof (induction rule: rtranclp_induct)
    case base
    then show ?case using assms(1) started_token started_holds by (auto simp: started_def)
  next
    case (step y z)
    have "Inv (lp_state (snd z)) \<and> holds_items admissible (snd z)"
      using step.IH handler_inv others_inv by (intro loops_step_inv [OF step.hyps(2), where I = Inv]) blast+
    then show ?case using step.IH loops_step_token [OF step.hyps(2)] loops_step_length [OF step.hyps(2)] by simp
  qed
  then show "Inv (lp_state (snd x))" "holds_items admissible (snd x)" "one_token x" "length (lp_pcs (snd x)) = n" by auto
qed

lemma never_panics:
  assumes "Inv s0" and "(loops_step dead handler admissible others)\<^sup>*\<^sup>* (False, started n s0) (stopped, ls)"
  shows "loop_do dead handler i ch ls \<noteq> Panics"
proof
  note inv = runs_inv [OF assms]
  assume "loop_do dead handler i ch ls = Panics"
  then obtain m where "i < length (lp_pcs ls)" "lp_pcs ls ! i = Handling m" "handler i m (lp_state ls) = Panics"
    by (rule loop_do_panics)
  then show False using inv(1,2) handler_safe [of "lp_state ls" i m] by (simp add: holds_items_def)
qed

lemma tokens:
  assumes "Inv s0" and "(loops_step dead handler admissible others)\<^sup>*\<^sup>* (False, started n s0) (stopped, ls)"
  shows "lp_tokens ls + length (filter (\<lambda>p. p = Returning) (lp_pcs ls)) = of_bool stopped"
  using runs_inv(3) [OF assms] by (simp add: one_token_def weight_returning)

lemma goes_on:
  assumes "Inv s0" and "(loops_step dead handler admissible others)\<^sup>*\<^sup>* (False, started n s0) (True, ls)"
  shows "(\<exists>ls'. ending_step dead handler others ls ls') \<or> (\<forall>p\<in>set (lp_pcs ls). p = Ended) \<or>
      (\<exists>i m. i < n \<and> lp_pcs ls ! i = Handling m \<and> admissible i m \<and> handler i m (lp_state ls) = Waits)"
proof (rule ccontr)
  note inv = runs_inv [OF assms]
  assume no: "\<not> ?thesis"
  then obtain p where p: "p \<in> set (lp_pcs ls)" "p \<noteq> Ended" by blast
  have returns: "\<exists>s'. handler i m (lp_state ls) = Goes s'" if "i < length (lp_pcs ls)" "lp_pcs ls ! i = Handling m" for i m
  proof -
    have "admissible i m" using inv(2) that by (simp add: holds_items_def)
    then have "handler i m (lp_state ls) \<noteq> Panics" "handler i m (lp_state ls) \<noteq> Waits"
      using handler_safe [of "lp_state ls" i m] inv(1,4) no that by auto
    then show ?thesis by (cases "handler i m (lp_state ls)") auto
  qed
  have "\<exists>ls'. ending_step dead handler others ls ls'" by (rule ending_progress [OF inv(3) p]) (rule returns)
  with no show False by blast
qed

lemma ends:
  assumes "Inv s0" and "(loops_step dead handler admissible others)\<^sup>*\<^sup>* (False, started n s0) (True, ls)"
    and "(ending_step dead handler others ^^ k) ls ls'"
  shows "k \<le> 4 * n"
    and "(\<exists>ls2. ending_step dead handler others ls' ls2) \<or> (\<forall>p\<in>set (lp_pcs ls'). p = Ended) \<or>
      (\<exists>i m. i < n \<and> lp_pcs ls' ! i = Handling m \<and> admissible i m \<and> handler i m (lp_state ls') = Waits)"
proof -
  have "length (lp_pcs ls) = n" using runs_inv(4) [OF assms(1,2)] by simp
  then show "k \<le> 4 * n" using ending_run_bound [OF assms(3)] weight_le [of ls] by simp
  show "(\<exists>ls2. ending_step dead handler others ls' ls2) \<or> (\<forall>p\<in>set (lp_pcs ls'). p = Ended) \<or>
      (\<exists>i m. i < n \<and> lp_pcs ls' ! i = Handling m \<and> admissible i m \<and> handler i m (lp_state ls') = Waits)"
    using goes_on [OF assms(1)] rtranclp_trans [OF assms(2) ending_runs [OF assms(3)]] by blast
qed

end

end
