(* ===== verification/GossipLoops.thy ===== *)
theory GossipLoops
  imports GossipTotal Loops
begin

text \<open>
  The loops of a service, of its discovery and of a channel as instances of the machine of theory \<open>Loops\<close>. The two
  loops of a service that \<open>Stop\<close> waits for are \<open>acceptMessages\<close> (number 0) and \<open>handlePresumedDead\<close> (number 1); a
  goroutine of \<open>Receive\<close> passes the same token on and is any further number. What else happens to the service between
  two steps of its loops is any sequence of the operations of \<open>svc_step\<close>.
\<close>

declare map_of_eq_Some_iff [simp del] Some_eq_map_of_iff [simp del]

section \<open>The loops of a service\<close>

datatype svc_item = Incoming instant "ReceivedMessage option" | DeadEndpoint bytes

definition service_handler ::
  "senv \<Rightarrow> nat \<Rightarrow> svc_item \<Rightarrow> GossipService \<times> svc_out list \<Rightarrow> (GossipService \<times> svc_out list) outcome" where
  "service_handler env i item = (\<lambda>(g, outs).
     case item of
       Incoming now msg \<Rightarrow>
         (case handleMessage env now msg g of
            None \<Rightarrow> Panics
          | Some (g', outs') \<Rightarrow> Goes (g', outs @ outs'))
     | DeadEndpoint deadEndpoint \<Rightarrow>
         (case handlePresumedDead deadEndpoint g of
            None \<Rightarrow> Waits
          | Some g' \<Rightarrow> Goes (g', outs)))"

definition service_dead :: "nat \<Rightarrow> GossipService \<times> svc_out list \<Rightarrow> bool" where
  "service_dead i s \<longleftrightarrow> False"

text \<open>What a loop gets: messages that carry their fields, or the nil of a closed channel; presumed deaths.\<close>

definition service_item :: "senv \<Rightarrow> nat \<Rightarrow> svc_item \<Rightarrow> bool" where
  "service_item env i item \<longleftrightarrow>
     (case item of
        Incoming now mo \<Rightarrow> i = 0 \<and> (\<forall>m. mo = Some m \<longrightarrow> recv_fields (se_codec env) m)
      | DeadEndpoint p \<Rightarrow> i = 1)"

definition service_others :: "senv \<Rightarrow> GossipService \<times> svc_out list \<Rightarrow> GossipService \<times> svc_out list \<Rightarrow> bool" where
  "service_others env s s' \<longleftrightarrow> svc_step env (fst s) (fst s')"

definition service_runs :: "senv \<Rightarrow> GossipService \<Rightarrow> nat \<Rightarrow> bool \<times> (GossipService \<times> svc_out list, svc_item) loops \<Rightarrow> bool" where
  "service_runs env g0 n x \<longleftrightarrow>
     (loops_step service_dead (service_handler env) (service_item env) (service_others env))\<^sup>*\<^sup>* (False, started n (g0, [])) x"

lemma handler_ok:
  assumes "svc_ok env (fst s)" "service_item env i item"
  shows "service_handler env i item s \<noteq> Panics" "service_handler env i item s = Goes s' \<Longrightarrow> svc_ok env (fst s')"
proof -
  obtain g outs where s: "s = (g, outs)" by (cases s)
  have "service_handler env i item s \<noteq> Panics \<and> (service_handler env i item s = Goes s' \<longrightarrow> svc_ok env (fst s'))"
  proof (cases item)
    case (Incoming now mo)
    show ?thesis
    proof (cases mo)
      case None
      then show ?thesis using assms(1) by (auto simp: service_handler_def Incoming handleMessage_def s)
    next
      case (Some m)
      then have "recv_fields (se_codec env) m" using assms(2) Incoming by (simp add: service_item_def)
      from received_total [OF _ this] obtain g' outs' where "handleMessage env now (Some m) g = Some (g', outs')" "svc_step env g g'"
        using assms(1) s by fastforce
      then show ?thesis using svc_step_ok assms(1) s by (auto simp: service_handler_def Incoming Some)
    qed
  next
    case (DeadEndpoint p)
    then show ?thesis using svc_step_ok [OF svc_step.sv_presumed] assms(1)
      by (auto simp: service_handler_def s split: option.splits)
  qed
  then show "service_handler env i item s \<noteq> Panics" "service_handler env i item s = Goes s' \<Longrightarrow> svc_ok env (fst s')" by auto
qed

interpretation service_loops: safe_loops service_dead "service_handler env" "service_item env" "service_others env" "\<lambda>s. svc_ok env (fst s)"
  for env
proof
  fix s s' :: "GossipService \<times> svc_out list" and i m
  assume ok: "svc_ok env (fst s)"
  show "svc_ok env (fst s')" if "service_item env i m" "service_handler env i m s = Goes s'"
    using handler_ok(2) [OF ok that] .
  show "service_handler env i m s \<noteq> Panics" if "service_item env i m" using handler_ok(1) [OF ok that] .
  show "svc_ok env (fst s')" if "service_others env s s'" using svc_step_ok ok that by (simp add: service_others_def)
qed

text \<open>A handler of the service waits in one case.\<close>

lemma handler_waits:
  assumes "service_item env i m" "service_handler env i m s = Waits"
  shows "i = 1 \<and> (\<exists>p. m = DeadEndpoint p) \<and> presumedDeadChanSize \<le> length (gs_PresumedDead (fst s))"
  using assms
  by (auto simp: service_item_def service_handler_def handlePresumedDead_def split: svc_item.splits option.splits prod.splits if_splits)



text \<open>The witnesses run the two loops of a new service.\<close>

definition ex_cd :: codec where
  "ex_cd = table_codec [sg_Msg (hello_from ''q'' 1)] []"



section \<open>A full channel to discovery\<close>

text \<open>
  The way \<open>Stop\<close> does get stuck: a presumed death is held while the channel is full and its reader is gone, because
  \<open>GossipDiscovery.Stop\<close> comes before the wait and its loop ends at the flag. \<open>handlePresumedDead\<close> never gets back to
  its \<open>select\<close>, and \<open>StopSignal\<close> is never done.
\<close>

definition stuck :: "bytes \<Rightarrow> (GossipService \<times> svc_out list, svc_item) loops \<Rightarrow> bool" where
  "stuck p ls \<longleftrightarrow> 1 < length (lp_pcs ls) \<and> lp_pcs ls ! 1 = Handling (DeadEndpoint p) \<and> gs_StopFlag (fst (lp_state ls)) \<and>
     presumedDeadChanSize \<le> length (gs_PresumedDead (fst (lp_state ls)))"

text \<open>What the others still do: they leave the flag set, and none of them reads the channel.\<close>

definition unread :: "GossipService \<times> svc_out list \<Rightarrow> GossipService \<times> svc_out list \<Rightarrow> bool" where
  "unread s s' \<longleftrightarrow> (gs_StopFlag (fst s) \<longrightarrow> gs_StopFlag (fst s')) \<and> length (gs_PresumedDead (fst s)) \<le> length (gs_PresumedDead (fst s'))"

lemma stopped_handler:
  assumes "gs_StopFlag (fst s)" "service_handler env i m s = Goes s'"
  shows "gs_StopFlag (fst s')" "length (gs_PresumedDead (fst s)) \<le> length (gs_PresumedDead (fst s'))"
  using assms
  by (auto simp: service_handler_def handleMessage_def handlePresumedDead_def split: svc_item.splits option.splits if_splits prod.splits)

theorem full_channel_blocks_stop:
  assumes "stuck p ls" and "(loops_step service_dead (service_handler env) adm unread)\<^sup>*\<^sup>* (b, ls) (b', ls')"
  shows "stuck p ls' \<and> loop_do service_dead (service_handler env) 1 ch ls' = Waits"
proof -
  have "stuck p (snd y)" if "loops_step service_dead (service_handler env) adm unread x y" "stuck p (snd x)" for x y
    using that
  proof (induction rule: loops_step.induct)
    case (ls_loop i ch ls ls' b)
    have full: "\<not> length (gs_PresumedDead (fst (lp_state ls))) < presumedDeadChanSize" using ls_loop(3) by (simp add: stuck_def)
    from ls_loop(1) show ?case
    proof (cases rule: loop_doE)
      case (handled m s)
      have "i \<noteq> 1"
      proof
        assume "i = 1"
        with handled(2,3) ls_loop(3) full show False
          by (cases "lp_state ls") (auto simp: stuck_def service_handler_def handlePresumedDead_def)
      qed
      with stopped_handler [OF _ handled(3)] handled(4) ls_loop(3) show ?thesis by (auto simp: stuck_def)
    qed (use ls_loop(3) in \<open>auto simp: stuck_def nth_list_update\<close>)
  qed (auto simp: stuck_def unread_def send_stop_def split: if_splits)
  with assms(2,1) have st: "stuck p ls'" by (induction rule: rtranclp_induct2) (auto dest: loops_step_length)
  moreover have "loop_do service_dead (service_handler env) 1 ch ls' = Waits"
    using st by (cases "lp_state ls'") (auto simp: stuck_def loop_do_def service_handler_def handlePresumedDead_def)
  ultimately show ?thesis by blast
qed

theorem full_channel_blocks_stop_witness:
  "\<exists>ls :: (GossipService \<times> svc_out list, svc_item) loops. stuck None ls \<and>
     loop_do service_dead (service_handler (ex_senv ex_cd)) 1 Go ls = Waits"
proof -
  let ?ls = "\<lparr>lp_state = (ex_node\<lparr>gs_StopFlag := True, gs_PresumedDead := replicate presumedDeadChanSize (Some ''q'')\<rparr>, []), lp_tokens = 1,
    lp_pcs = [Ended, Handling (DeadEndpoint None)]\<rparr> :: (GossipService \<times> svc_out list, svc_item) loops"
  have st: "stuck None ?ls" by (simp add: stuck_def)
  from full_channel_blocks_stop [where env = "ex_senv ex_cd" and ch = Go and adm = "\<lambda>_ _. True" and b = True,
      OF st rtranclp.rtrancl_refl] st show ?thesis by blast
qed

section \<open>The loops of discovery\<close>

text \<open>\<open>handleMessages\<close> (number 0) and \<open>handlePresumedDeadPeers\<close> (number 1) also test the flag before each \<open>select\<close>.\<close>

datatype disc_item = FromComm instant "ReceivedMessage option" | DeadPeer bytes

definition disc_handler :: "denv \<Rightarrow> nat \<Rightarrow> disc_item \<Rightarrow> disc \<Rightarrow> disc outcome" where
  "disc_handler env i item d =
     (case (case item of
              FromComm now msg \<Rightarrow> handleMsgFromComm env now msg d
            | DeadPeer deadPeer \<Rightarrow> handlePresumedDeadPeer deadPeer d) of
        None \<Rightarrow> Panics
      | Some d' \<Rightarrow> Goes d')"

definition disc_dead :: "nat \<Rightarrow> disc \<Rightarrow> bool" where
  "disc_dead i d \<longleftrightarrow> di_toDieFlag d"

definition disc_item_ok :: "denv \<Rightarrow> nat \<Rightarrow> disc_item \<Rightarrow> bool" where
  "disc_item_ok env i item \<longleftrightarrow>
     (case item of FromComm now mo \<Rightarrow> i = 0 \<and> recv_ok (de_codec env) mo | DeadPeer p \<Rightarrow> i = 1)"

definition disc_others :: "denv \<Rightarrow> disc \<Rightarrow> disc \<Rightarrow> bool" where
  "disc_others env d d' \<longleftrightarrow> policies_ok env \<and> disc_step env d d'"

lemma disc_handler_goes:
  assumes "disc_ok d" "disc_item_ok env i item"
  shows "\<exists>d'. disc_handler env i item d = Goes d' \<and> disc_ok d'"
proof (cases item)
  case (FromComm now mo)
  then have "recv_ok (de_codec env) mo" using assms(2) by (simp add: disc_item_ok_def)
  from handleMsg_runs [OF assms(1) this, of now] show ?thesis
    by (auto simp: disc_handler_def FromComm runs_def trans_ok_def)
next
  case (DeadPeer p)
  from presumedDead_runs [OF assms(1), of p] show ?thesis
    by (auto simp: disc_handler_def DeadPeer runs_def trans_ok_def)
qed

interpretation disc_loops: safe_loops disc_dead "disc_handler env" "disc_item_ok env" "disc_others env" disc_ok for env
proof
  fix s i m s'
  show "disc_handler env i m s = Goes s' \<Longrightarrow> disc_ok s'" "disc_handler env i m s \<noteq> Panics" if "disc_ok s" "disc_item_ok env i m"
    using disc_handler_goes [OF that] by auto
  show "disc_others env s s' \<Longrightarrow> disc_ok s \<Longrightarrow> disc_ok s'"
    unfolding disc_others_def by (blast intro: trans_ok_ok disc_step_trans)
qed

text \<open>The loops of discovery do not panic, and they end after \<open>Stop\<close> whatever else happens: their handlers do not wait.\<close>

theorem discovery_loops_correct:
  assumes "NewDiscoveryService env' now self im = Some d0" "mapper_ok im"
    and "(loops_step disc_dead (disc_handler env) (disc_item_ok env) (disc_others env))\<^sup>*\<^sup>* (False, started n d0) (stopped, ls)"
  shows "loop_do disc_dead (disc_handler env) i ch ls \<noteq> Panics \<and> disc_ok (lp_state ls) \<and>
    (stopped \<longrightarrow> (\<exists>ls'. ending_step disc_dead (disc_handler env) (disc_others env) ls ls') \<or> (\<forall>p\<in>set (lp_pcs ls). p = Ended))"
proof -
  have ok: "disc_ok d0" using New_disc_ok [OF assms(1,2)] by simp
  note inv = disc_loops.runs_inv(1) [OF ok assms(3)] disc_loops.never_panics [OF ok assms(3), of i ch]
  have "(\<exists>ls'. ending_step disc_dead (disc_handler env) (disc_others env) ls ls') \<or> (\<forall>p\<in>set (lp_pcs ls). p = Ended)" if stopped
  proof -
    have "disc_handler env i m (lp_state ls) \<noteq> Waits" if "disc_item_ok env i m" for i m
      using disc_handler_goes [of "lp_state ls" env i m] inv(1) that by auto
    moreover from assms(3) \<open>stopped\<close> have
      "(loops_step disc_dead (disc_handler env) (disc_item_ok env) (disc_others env))\<^sup>*\<^sup>* (False, started n d0) (True, ls)" by simp
    ultimately show ?thesis using disc_loops.goes_on [OF ok] by blast
  qed
  with inv show ?thesis by simp
qed

theorem discovery_loops_correct_witness:
  "\<exists>d0 ls. lp_state ls = d0 \<and> lp_tokens ls = 1 \<and> disc_ok d0 \<and> (\<exists>ls'. ending_step disc_dead (disc_handler example_env) (disc_others example_env) ls ls')"
proof -
  let ?l = "(started 2 example_disc)\<lparr>lp_tokens := 1\<rparr> :: (disc, disc_item) loops"
  have "send_stop (started 2 example_disc) = Goes ?l" by (simp add: send_stop_def started_def)
  from loops_step.ls_stop [OF this] have run:
    "(loops_step disc_dead (disc_handler example_env) (disc_item_ok example_env) (disc_others example_env))\<^sup>*\<^sup>* (False, started 2 example_disc) (True, ?l)"
    by blast
  have im: "mapper_ok example_mapper" by simp
  have "(\<exists>ls'. ending_step disc_dead (disc_handler example_env) (disc_others example_env) ?l ls') \<or> (\<forall>p\<in>set (lp_pcs ?l). p = Ended)"
    using discovery_loops_correct [OF example_New im run] by blast
  moreover have "lp_pcs ?l = [Testing, Testing]" "lp_state ?l = example_disc" "lp_tokens ?l = 1" by (simp_all add: started_def numeral_2_eq_2)
  moreover have "disc_ok example_disc" using New_disc_ok [OF example_New im] by simp
  ultimately show ?thesis by (metis list.set_intros(1) pc.distinct(7))
qed

section \<open>The loops of a channel\<close>

text \<open>\<open>periodicalInvocation\<close> runs \<open>publishStateInfo\<close> (number 0) and \<open>requestStateInfo\<close> (number 1) at the ticks of a
  clock; the tick of the second carries the permutation it draws.\<close>

datatype tick = PublishTick | RequestTick "nat list"

definition tick_handler :: "GossipAdapter \<Rightarrow> nat \<Rightarrow> tick \<Rightarrow> GossipChannel \<times> chan_out list \<Rightarrow> (GossipChannel \<times> chan_out list) outcome" where
  "tick_handler ga i t = (\<lambda>(gc, outs).
     case t of
       PublishTick \<Rightarrow> (let (gc', outs') = publishStateInfo ga gc in Goes (gc', outs @ outs'))
     | RequestTick perm \<Rightarrow> Goes (gc, outs @ requestStateInfo ga perm gc))"

definition chan_others :: "GossipAdapter \<Rightarrow> GossipChannel \<times> chan_out list \<Rightarrow> GossipChannel \<times> chan_out list \<Rightarrow> bool" where
  "chan_others ga s s' \<longleftrightarrow> chan_step (ga_sha ga) (fst s) (fst s')"

interpretation chan_loops: safe_loops "\<lambda>_ _. False" "tick_handler ga" "\<lambda>_ _. True" "chan_others ga" "\<lambda>s. chan_inv (ga_sha ga) (fst s)"
  for ga
proof
  have keep: "chan_step (ga_sha ga) gc gc' \<Longrightarrow> chan_inv (ga_sha ga) gc \<Longrightarrow> chan_inv (ga_sha ga) gc'" for gc gc'
    using chan_step_keeps by (auto simp: keeps_def)
  fix s s' :: "GossipChannel \<times> chan_out list" and i m
  show "chan_inv (ga_sha ga) (fst s')" if "chan_inv (ga_sha ga) (fst s)" "tick_handler ga i m s = Goes s'"
    using that keep [OF chan_step.publish [of "ga_sha ga" "fst s" ga]]
    by (auto simp: tick_handler_def split: tick.splits prod.splits)
  show "tick_handler ga i m s \<noteq> Panics" by (auto simp: tick_handler_def split: tick.splits prod.splits)
  show "chan_others ga s s' \<Longrightarrow> chan_inv (ga_sha ga) (fst s) \<Longrightarrow> chan_inv (ga_sha ga) (fst s')"
    using keep by (simp add: chan_others_def)
qed

lemma channel_loops_end:
  assumes "fresh_channel gc0"
    and "(loops_step (\<lambda>_ _. False) (tick_handler ga) (\<lambda>_ _. True) (chan_others ga))\<^sup>*\<^sup>* (False, started n (gc0, [])) (True, ls)"
  shows "(\<exists>ls'. ending_step (\<lambda>_ _. False) (tick_handler ga) (chan_others ga) ls ls') \<or> (\<forall>p\<in>set (lp_pcs ls). p = Ended)"
proof -
  have ok: "chan_inv (ga_sha ga) (fst (gc0, [] :: chan_out list))" using channel.init_inv [OF assms(1)] by simp
  have "tick_handler ga i m s \<noteq> Waits" for i m s by (auto simp: tick_handler_def split: tick.splits prod.splits)
  then show ?thesis using chan_loops.goes_on [OF ok assms(2)] by blast
qed

end
