(* ===== verification/Rpc.thy ===== *)
theory Rpc
  imports Format
begin

text \<open>
  The set-up of gRPC clients and servers (src/grpc): the configuration and its defaults, the
  certificates a configuration names, the options a client dials with and a server listens with.
  A certificate is its raw bytes and its subject; parsing PEM blocks, certificates and key pairs is
  an argument, and so are reading files, dialing and opening a port. Set-up code panics on a bad
  certificate: a result is \<open>Inl\<close> of what it panics with, and \<open>None\<close> of the option around it when a
  loop over PEM blocks does not return.
\<close>

section \<open>Configuration\<close>

definition minute :: duration where
  "minute = 60 * second"

record KeepaliveOptions =
  ka_UseKeepalive :: bool
  ka_Interval :: duration
  ka_MinInterval :: duration
  ka_AliveTimeout :: duration
  ka_PermitWithoutStream :: bool

text \<open>\<open>Token\<close> is the source's only implementation of per-RPC credentials.\<close>

record Token =
  tk_token :: string

definition GetToken :: "string \<Rightarrow> Token" where
  "GetToken token = \<lparr>tk_token = token\<rparr>"

definition GetRequestMetadata :: "Token \<Rightarrow> (string, string) gomap" where
  "GetRequestMetadata t = [(''authorization'', tk_token t)]"

definition RequireTransportSecurity :: "Token \<Rightarrow> bool" where
  "RequireTransportSecurity t = True"

text \<open>What the code uses of certificates: a \<open>tls.Certificate\<close> is a chain of raw certificates.\<close>

record x509 =
  xc_Raw :: string
  xc_RawSubject :: string

record tls_Certificate =
  tl_Certificate :: "string list"

text \<open>\<open>GetCert\<close> is the certificate its closure loads; \<open>VerifyCertificate\<close> a function of the raw certificates.\<close>

record SecureOptions =
  so_UseTLS :: bool
  so_InsecureSkipVerify :: bool
  so_Key :: bytes
  so_Certificate :: bytes
  so_CipherSuites :: "16 word list"
  so_PreCreds :: "Token option"
  so_ServerRootCAs :: "bytes list"
  so_ClientRootCAs :: "bytes list"
  so_GetCert :: "tls_Certificate option"
  so_VerifyCertificate :: "(string list \<Rightarrow> x509 list list \<Rightarrow> error option) option"

record BaseClientConfig =
  bc_Addr :: string
  bc_CaPath :: string
  bc_KeyPath :: string
  bc_CertPath :: string
  bc_ServerName :: string
  bc_Timeout :: duration
  bc_MaxRecvMsgSize :: int
  bc_MaxSendMsgSize :: int

record ClientConfig =
  cc_base :: BaseClientConfig
  cc_secure :: SecureOptions
  cc_keepalive :: KeepaliveOptions

record BaseServerConfig =
  bs_Addr :: string
  bs_CaPath :: string
  bs_KeyPath :: string
  bs_CertPath :: string
  bs_Timeout :: duration
  bs_MaxRecvMsgSize :: int
  bs_MaxSendMsgSize :: int

record ServerConfig =
  sc_base :: BaseServerConfig
  sc_secure :: SecureOptions
  sc_keepalive :: KeepaliveOptions

text \<open>An error of \<open>ioutil.ReadFile\<close> is dropped, which leaves a nil slice.\<close>

type_synonym files = "string \<Rightarrow> error + string"

definition ReadFile :: "files \<Rightarrow> string \<Rightarrow> bytes" where
  "ReadFile files path = (case files path of Inl _ \<Rightarrow> None | Inr s \<Rightarrow> Some s)"

definition config_dir :: string where
  "config_dir = ''/files/sources/src/xianhetian.com/tendermint/p2p/grpc/config/''"

definition DefaultBaseServerConfig :: BaseServerConfig where
  "DefaultBaseServerConfig =
     \<lparr>bs_Addr = ''0.0.0.0:36658'', bs_CaPath = config_dir @ ''ca.pem'', bs_KeyPath = config_dir @ ''server.key'',
      bs_CertPath = config_dir @ ''server.pem'', bs_Timeout = 5 * second,
      bs_MaxRecvMsgSize = 100 * 1024 * 1024, bs_MaxSendMsgSize = 100 * 1024 * 1024\<rparr>"

definition DefaultServerKeepaliveOptions :: KeepaliveOptions where
  "DefaultServerKeepaliveOptions =
     \<lparr>ka_UseKeepalive = True, ka_Interval = 2 * 60 * minute, ka_MinInterval = minute,
      ka_AliveTimeout = 20 * second, ka_PermitWithoutStream = True\<rparr>"

definition DefaultTLSCipherSuites :: "16 word list" where
  "DefaultTLSCipherSuites = [0xc02f, 0xc030, 0xc02b, 0xc02c, 0x009c, 0x009d]"

definition no_SecureOptions :: SecureOptions where
  "no_SecureOptions = \<lparr>so_UseTLS = False, so_InsecureSkipVerify = False, so_Key = None, so_Certificate = None,
     so_CipherSuites = [], so_PreCreds = None, so_ServerRootCAs = [], so_ClientRootCAs = [], so_GetCert = None,
     so_VerifyCertificate = None\<rparr>"

definition DefaultServerSecureOptions :: "files \<Rightarrow> SecureOptions" where
  "DefaultServerSecureOptions files =
     (let ca = ReadFile files (bs_CaPath DefaultBaseServerConfig);
          key = ReadFile files (bs_KeyPath DefaultBaseServerConfig);
          cert = ReadFile files (bs_CertPath DefaultBaseServerConfig)
      in no_SecureOptions\<lparr>so_UseTLS := True, so_Key := key, so_Certificate := cert, so_ClientRootCAs := [ca],
           so_CipherSuites := DefaultTLSCipherSuites\<rparr>)"

definition DefaultServerConfig :: "files \<Rightarrow> ServerConfig" where
  "DefaultServerConfig files = \<lparr>sc_base = DefaultBaseServerConfig, sc_secure = DefaultServerSecureOptions files,
     sc_keepalive = DefaultServerKeepaliveOptions\<rparr>"

definition DefaultBaseClientConfig :: BaseClientConfig where
  "DefaultBaseClientConfig =
     \<lparr>bc_Addr = ''0.0.0.0:36658'', bc_CaPath = config_dir @ ''ca.pem'', bc_KeyPath = config_dir @ ''client.key'',
      bc_CertPath = config_dir @ ''client.pem'', bc_ServerName = ''go-grpc-example'', bc_Timeout = 3 * second,
      bc_MaxRecvMsgSize = 100 * 1024 * 1024, bc_MaxSendMsgSize = 100 * 1024 * 1024\<rparr>"

text \<open>The client's key and certificate are read from the paths of the server.\<close>

definition DefaultClientSecureOptions :: "files \<Rightarrow> SecureOptions" where
  "DefaultClientSecureOptions files =
     (let ca = ReadFile files (bs_CaPath DefaultBaseServerConfig);
          key = ReadFile files (bs_KeyPath DefaultBaseServerConfig);
          cert = ReadFile files (bs_CertPath DefaultBaseServerConfig)
      in no_SecureOptions\<lparr>so_UseTLS := True, so_Key := key, so_Certificate := cert, so_ServerRootCAs := [ca]\<rparr>)"

definition DefaultClientKeepaliveOptions :: KeepaliveOptions where
  "DefaultClientKeepaliveOptions =
     \<lparr>ka_UseKeepalive = True, ka_Interval = minute, ka_MinInterval = 0, ka_AliveTimeout = 20 * second,
      ka_PermitWithoutStream = False\<rparr>"

definition DefaultClientConfig :: "files \<Rightarrow> ClientConfig" where
  "DefaultClientConfig files = \<lparr>cc_base = DefaultBaseClientConfig, cc_secure = DefaultClientSecureOptions files,
     cc_keepalive = DefaultClientKeepaliveOptions\<rparr>"

section \<open>Certificates\<close>

text \<open>
  What the code calls of the crypto libraries. \<open>pem.Decode\<close> returns the next block, if there is one,
  and the rest of its input, which a block makes shorter.
\<close>

record tlslib =
  X509KeyPair :: "bytes \<Rightarrow> bytes \<Rightarrow> error + tls_Certificate"
  pem_Decode :: "string \<Rightarrow> string option \<times> string"
  ParseCertificate :: "string \<Rightarrow> error + x509"

definition pem_ok :: "tlslib \<Rightarrow> bool" where
  "pem_ok lib \<longleftrightarrow> (\<forall>s der rest. pem_Decode lib s = (Some der, rest) \<longrightarrow> length rest < length s)"

partial_function (option) pem_loop ::
  "tlslib \<Rightarrow> string \<Rightarrow> x509 list \<Rightarrow> string list \<Rightarrow> (error option \<times> x509 list \<times> string list) option" where
  "pem_loop lib pemCerts certs subjects =
     (if 0 < length pemCerts
      then (case pem_Decode lib pemCerts of
              (None, _) \<Rightarrow> Some (None, certs, subjects)
            | (Some der, rest) \<Rightarrow>
                (case ParseCertificate lib der of
                   Inl err \<Rightarrow> Some (Some err, [], subjects)
                 | Inr cert \<Rightarrow> pem_loop lib rest (certs @ [cert]) (subjects @ [xc_RawSubject cert])))
      else Some (None, certs, subjects))"

definition pemToX509Certs :: "tlslib \<Rightarrow> bytes \<Rightarrow> (error option \<times> x509 list \<times> string list) option" where
  "pemToX509Certs lib pemCerts = pem_loop lib (str_of pemCerts) [] []"

text \<open>A pool holds a certificate once.\<close>

definition AddCert :: "x509 \<Rightarrow> x509 list \<Rightarrow> x509 list" where
  "AddCert cert pool = (if xc_Raw cert \<in> xc_Raw ` set pool then pool else pool @ [cert])"

definition AddPemToCertPool :: "tlslib \<Rightarrow> bytes \<Rightarrow> x509 list \<Rightarrow> (error option \<times> x509 list) option" where
  "AddPemToCertPool lib pemCerts pool =
     (case pemToX509Certs lib pemCerts of
        None \<Rightarrow> None
      | Some (Some err, _, _) \<Rightarrow> Some (Some err, pool)
      | Some (None, certs, _) \<Rightarrow> Some (None, fold AddCert certs pool))"

section \<open>The client\<close>

record tls_Config =
  tc_GetCertificate :: "tls_Certificate option"
  tc_MinVersion :: "16 word"
  tc_CipherSuites :: "16 word list"
  tc_Certificates :: "tls_Certificate list"
  tc_ClientAuth :: bool
  tc_VerifyPeerCertificate :: "(string list \<Rightarrow> x509 list list \<Rightarrow> error option) option"
  tc_ServerName :: string
  tc_RootCAs :: "x509 list option"
  tc_ClientCAs :: "x509 list option"

text \<open>\<open>tc_ClientAuth\<close>: require and verify a certificate of the client, instead of asking for none.\<close>

definition VersionTLS12 :: "16 word" where
  "VersionTLS12 = 0x0303"

datatype DialOption =
    WithInsecure
  | WithPerRPCCredentials Token
  | WithTransportCredentials tls_Config
  | WithKeepaliveParams duration duration bool
  | WithBlock
  | WithDefaultCallOptions int int

text \<open>A connection is a number; the client's own one is the last it dialed for itself.\<close>

record Client =
  cl_ClientConn :: "nat option"
  cl_Config :: ClientConfig

definition NewClient :: "files \<Rightarrow> Client" where
  "NewClient files = \<lparr>cl_ClientConn = None, cl_Config = DefaultClientConfig files\<rparr>"

definition client_setupKeepalive :: "KeepaliveOptions \<Rightarrow> DialOption list" where
  "client_setupKeepalive ka =
     (if \<not> ka_UseKeepalive ka then []
      else [WithKeepaliveParams (ka_Interval ka) (ka_AliveTimeout ka) (ka_PermitWithoutStream ka), WithBlock])"

fun add_server_roots :: "tlslib \<Rightarrow> bytes list \<Rightarrow> x509 list \<Rightarrow> (error + x509 list) option" where
  "add_server_roots lib [] pool = Some (Inr pool)"
| "add_server_roots lib (certBytes # others) pool =
     (case AddPemToCertPool lib certBytes pool of
        None \<Rightarrow> None
      | Some (Some err, _) \<Rightarrow> Some (Inl err)
      | Some (None, pool') \<Rightarrow> add_server_roots lib others pool')"

definition client_setupSecure ::
  "tlslib \<Rightarrow> string \<Rightarrow> SecureOptions \<Rightarrow> (error + DialOption list \<times> SecureOptions) option" where
  "client_setupSecure lib serverName so =
     (if \<not> so_UseTLS so \<and> so_PreCreds so = None then Some (Inr ([WithInsecure], so))
      else (let opts = (case so_PreCreds so of None \<Rightarrow> [] | Some c \<Rightarrow> [WithPerRPCCredentials c]) in
        if \<not> so_UseTLS so then Some (Inr (opts, so))
        else (case X509KeyPair lib (so_Certificate so) (so_Key so) of
            Inl err \<Rightarrow> Some (Inl err)
          | Inr cert \<Rightarrow>
             (let so' = so\<lparr>so_GetCert := Some cert\<rparr>;
                  tlsConfig = \<lparr>tc_GetCertificate = so_GetCert so', tc_MinVersion = VersionTLS12, tc_CipherSuites = [],
                    tc_Certificates = [cert], tc_ClientAuth = False,
                    tc_VerifyPeerCertificate = so_VerifyCertificate so, tc_ServerName = serverName,
                    tc_RootCAs = None, tc_ClientCAs = None\<rparr>
              in if 0 < length (so_ServerRootCAs so)
                 then (case add_server_roots lib (so_ServerRootCAs so) [] of
                     None \<Rightarrow> None
                   | Some (Inl err) \<Rightarrow> Some (Inl err)
                   | Some (Inr pool) \<Rightarrow>
                       Some (Inr (opts @ [WithTransportCredentials (tlsConfig\<lparr>tc_RootCAs := Some pool\<rparr>)], so')))
                 else Some (Inr (opts @ [WithTransportCredentials tlsConfig], so'))))))"

text \<open>
  \<open>Conn\<close>: the \<open>i\<close>-th dial to an address under options is an argument. The result says what is
  returned and which connections were opened.
\<close>

type_synonym dialer = "nat \<Rightarrow> string \<Rightarrow> DialOption list \<Rightarrow> error + nat"

fun dial_all :: "dialer \<Rightarrow> DialOption list \<Rightarrow> nat \<Rightarrow> string list \<Rightarrow> nat list \<Rightarrow> (error + nat list) \<times> nat list" where
  "dial_all dial opts i [] conns = (Inr conns, conns)"
| "dial_all dial opts i (a # others) conns =
     (case dial i a opts of
        Inl err \<Rightarrow> (Inl err, conns)
      | Inr conn \<Rightarrow> dial_all dial opts (Suc i) others (conns @ [conn]))"

definition client_opts :: "tlslib \<Rightarrow> Client \<Rightarrow> (error + DialOption list \<times> Client) option" where
  "client_opts lib c =
     (let cfg = cl_Config c in
      case client_setupSecure lib (bc_ServerName (cc_base cfg)) (cc_secure cfg) of
        None \<Rightarrow> None
      | Some (Inl err) \<Rightarrow> Some (Inl err)
      | Some (Inr (secure, so')) \<Rightarrow>
          Some (Inr (secure @ client_setupKeepalive (cc_keepalive cfg) @
                     [WithDefaultCallOptions (bc_MaxRecvMsgSize (cc_base cfg)) (bc_MaxSendMsgSize (cc_base cfg))],
                     c\<lparr>cl_Config := cfg\<lparr>cc_secure := so'\<rparr>\<rparr>)))"

definition dial_one :: "dialer \<Rightarrow> DialOption list \<Rightarrow> string \<Rightarrow> Client \<Rightarrow> (error + nat list) \<times> Client \<times> nat list" where
  "dial_one dial opts address c =
     (case dial 0 address opts of
        Inl err \<Rightarrow> (Inl err, c, [])
      | Inr conn \<Rightarrow> (Inr [], c\<lparr>cl_ClientConn := Some conn\<rparr>, [conn]))"

definition Client_Conn ::
  "tlslib \<Rightarrow> dialer \<Rightarrow> string list \<Rightarrow> Client \<Rightarrow> (error + (error + nat list) \<times> Client \<times> nat list) option" where
  "Client_Conn lib dial address c =
     (case client_opts lib c of
        None \<Rightarrow> None
      | Some (Inl err) \<Rightarrow> Some (Inl err)
      | Some (Inr (opts, c')) \<Rightarrow>
          Some (Inr (case address of
              [] \<Rightarrow> dial_one dial opts (bc_Addr (cc_base (cl_Config c'))) c'
            | [a] \<Rightarrow> dial_one dial opts a c'
            | _ \<Rightarrow> (let (r, opened) = dial_all dial opts 0 address [] in (r, c', opened)))))"

section \<open>The server\<close>

text \<open>Interceptors are functions; what chains them is the middleware.\<close>

type_synonym ('ctx, 'req, 'info, 'resp) unary = "'ctx \<Rightarrow> 'req \<Rightarrow> 'info \<Rightarrow> ('ctx \<Rightarrow> 'req \<Rightarrow> 'resp) \<Rightarrow> 'resp"

record ('u, 's) Interceptor =
  ic_UnaryInterceptors :: "'u list"
  ic_StreamInterceptors :: "'s list"

definition Logger :: "('ctx, 'req, 'info, 'resp) unary" where
  "Logger ctx req info handler = handler ctx req"

datatype ('u, 's) ServerOption =
    Creds tls_Config
  | KeepaliveParams duration duration
  | KeepaliveEnforcementPolicy duration bool
  | ConnectionTimeout duration
  | UnaryInterceptor "'u list"
  | StreamInterceptor "'s list"
  | MaxSendMsgSize int
  | MaxRecvMsgSize int

text \<open>The embedded gRPC server is the options it was made with.\<close>

record ('u, 's) Server =
  sv_Server :: "('u, 's) ServerOption list option"
  sv_Listener :: "nat option"
  sv_Interceptor :: "('u, 's) Interceptor"
  sv_Config :: ServerConfig

definition NewServer :: "files \<Rightarrow> (('ctx, 'req, 'info, 'resp) unary, 's) Server" where
  "NewServer files = \<lparr>sv_Server = None, sv_Listener = None,
     sv_Interceptor = \<lparr>ic_UnaryInterceptors = [Logger], ic_StreamInterceptors = []\<rparr>,
     sv_Config = DefaultServerConfig files\<rparr>"

fun add_client_cas :: "tlslib \<Rightarrow> bytes list \<Rightarrow> x509 list \<Rightarrow> (error + x509 list) option" where
  "add_client_cas lib [] pool = Some (Inr pool)"
| "add_client_cas lib (ca # others) pool =
     (case pemToX509Certs lib ca of
        None \<Rightarrow> None
      | Some (Some err, _, _) \<Rightarrow> Some (Inl err)
      | Some (None, certs, _) \<Rightarrow>
          if length certs < 1
          then Some (Inl (Error ''failed to append client root certificate(s): No client root certificates found''))
          else add_client_cas lib others (fold AddCert certs pool))"

definition server_setupSecure ::
  "tlslib \<Rightarrow> SecureOptions \<Rightarrow> (error + ('u, 's) ServerOption list \<times> SecureOptions) option" where
  "server_setupSecure lib so =
     (if \<not> so_UseTLS so then Some (Inr ([], so))
      else (case X509KeyPair lib (so_Certificate so) (so_Key so) of
          Inl err \<Rightarrow> Some (Inl err)
        | Inr cert \<Rightarrow>
           (let so' = so\<lparr>so_GetCert := Some cert\<rparr>;
                serverTLS = \<lparr>tc_GetCertificate = so_GetCert so', tc_MinVersion = 0,
                  tc_CipherSuites = so_CipherSuites so, tc_Certificates = [cert], tc_ClientAuth = True,
                  tc_VerifyPeerCertificate = so_VerifyCertificate so, tc_ServerName = [],
                  tc_RootCAs = None, tc_ClientCAs = None\<rparr>
            in if 0 < length (so_ClientRootCAs so)
               then (case add_client_cas lib (so_ClientRootCAs so) [] of
                   None \<Rightarrow> None
                 | Some (Inl err) \<Rightarrow> Some (Inl err)
                 | Some (Inr pool) \<Rightarrow> Some (Inr ([Creds (serverTLS\<lparr>tc_ClientCAs := Some pool\<rparr>)], so')))
               else Some (Inr ([Creds serverTLS], so')))))"

definition server_setupKeepalive :: "ServerConfig \<Rightarrow> ('u, 's) ServerOption list" where
  "server_setupKeepalive cfg =
     (let ka = sc_keepalive cfg in
      if \<not> ka_UseKeepalive ka then []
      else [KeepaliveParams (ka_Interval ka) (ka_AliveTimeout ka),
            KeepaliveEnforcementPolicy (ka_MinInterval ka) (ka_PermitWithoutStream ka),
            ConnectionTimeout (bs_Timeout (sc_base cfg))])"

definition setupInterceptor :: "('u, 's) Interceptor \<Rightarrow> ('u, 's) ServerOption list" where
  "setupInterceptor ic =
     (if 0 < length (ic_UnaryInterceptors ic) then [UnaryInterceptor (ic_UnaryInterceptors ic)] else []) @
     (if 0 < length (ic_StreamInterceptors ic) then [StreamInterceptor (ic_StreamInterceptors ic)] else [])"

definition Server_Listen ::
  "tlslib \<Rightarrow> (string \<Rightarrow> error + nat) \<Rightarrow> ('u, 's) Server \<Rightarrow> (error + ('u, 's) Server) option" where
  "Server_Listen lib listen s =
     (let cfg = sv_Config s in
      case server_setupSecure lib (sc_secure cfg) of
        None \<Rightarrow> None
      | Some (Inl err) \<Rightarrow> Some (Inl err)
      | Some (Inr (secure, so')) \<Rightarrow>
         (let opts = secure @ server_setupKeepalive cfg @ setupInterceptor (sv_Interceptor s) @
                [MaxSendMsgSize (bs_MaxSendMsgSize (sc_base cfg)), MaxRecvMsgSize (bs_MaxRecvMsgSize (sc_base cfg))];
              s' = s\<lparr>sv_Config := cfg\<lparr>sc_secure := so'\<rparr>, sv_Server := Some opts\<rparr>
          in case listen (bs_Addr (sc_base cfg)) of
               Inl err \<Rightarrow> Some (Inl err)
             | Inr ll \<Rightarrow> Some (Inr (s'\<lparr>sv_Listener := Some ll\<rparr>))))"

section \<open>Properties\<close>

text \<open>The blocks of an input and what parsing them in order gives, without the accumulators of the loop.\<close>

function pem_blocks :: "tlslib \<Rightarrow> string \<Rightarrow> string list" where
  "pem_blocks lib s =
     (case pem_Decode lib s of
        (Some der, rest) \<Rightarrow> if length rest < length s then der # pem_blocks lib rest else []
      | _ \<Rightarrow> [])"
  by pat_completeness auto
termination by (relation "measure (length \<circ> snd)") auto

declare pem_blocks.simps [simp del]

fun parse_all :: "tlslib \<Rightarrow> string list \<Rightarrow> error option \<times> x509 list \<times> string list" where
  "parse_all lib [] = (None, [], [])"
| "parse_all lib (der # ders) =
     (case ParseCertificate lib der of
        Inl err \<Rightarrow> (Some err, [], [])
      | Inr cert \<Rightarrow> (let (e, cs, ss) = parse_all lib ders
                     in (e, if e = None then cert # cs else [], xc_RawSubject cert # ss)))"

lemma pem_loop_eq:
  assumes "pem_ok lib"
  shows "pem_loop lib s certs subjects =
    Some (case parse_all lib (pem_blocks lib s) of (e, cs, ss) \<Rightarrow> (e, if e = None then certs @ cs else [], subjects @ ss))"
proof (induction s arbitrary: certs subjects rule: length_induct)
  case (1 s)
  obtain b rest where d: "pem_Decode lib s = (b, rest)" by fastforce
  have short: "b = Some der \<Longrightarrow> length rest < length s" for der
    using assms d by (auto simp: pem_ok_def)
  show ?case
    by (subst pem_loop.simps)
      (use 1 short d in \<open>auto simp: pem_blocks.simps [of lib s] split: option.splits sum.splits prod.splits\<close>)
qed

definition certs_of :: "tlslib \<Rightarrow> bytes \<Rightarrow> x509 list" where
  "certs_of lib pem = fst (snd (parse_all lib (pem_blocks lib (str_of pem))))"

definition bad_pem :: "tlslib \<Rightarrow> bytes \<Rightarrow> bool" where
  "bad_pem lib pem \<longleftrightarrow> fst (parse_all lib (pem_blocks lib (str_of pem))) \<noteq> None"

lemma pemToX509Certs_good:
  "pem_ok lib \<Longrightarrow> \<not> bad_pem lib pem \<Longrightarrow> \<exists>ss. pemToX509Certs lib pem = Some (None, certs_of lib pem, ss)"
  by (auto simp: pemToX509Certs_def pem_loop_eq bad_pem_def certs_of_def split: prod.splits)

lemma pemToX509Certs_bad:
  "pem_ok lib \<Longrightarrow> bad_pem lib pem \<Longrightarrow> \<exists>err ss. pemToX509Certs lib pem = Some (Some err, [], ss)"
  by (auto simp: pemToX509Certs_def pem_loop_eq bad_pem_def certs_of_def split: prod.splits)

lemma AddCert_fold: "xc_Raw ` set (fold AddCert cs pool) = xc_Raw ` set pool \<union> xc_Raw ` set cs"
  by (induction cs arbitrary: pool) (auto simp: AddCert_def)

lemma add_server_roots_good:
  assumes "pem_ok lib" and "\<forall>ca \<in> set cas. \<not> bad_pem lib ca"
  shows "add_server_roots lib cas pool = Some (Inr (fold AddCert (concat (map (certs_of lib) cas)) pool))"
  using assms(2)
proof (induction cas arbitrary: pool)
  case (Cons ca cas)
  obtain ss where "pemToX509Certs lib ca = Some (None, certs_of lib ca, ss)"
    using pemToX509Certs_good [OF assms(1)] Cons.prems by force
  with Cons show ?case by (simp add: AddPemToCertPool_def)
qed simp

lemma add_server_roots_bad:
  assumes "pem_ok lib" and "\<exists>ca \<in> set cas. bad_pem lib ca"
  shows "\<exists>err. add_server_roots lib cas pool = Some (Inl err)"
  using assms(2)
proof (induction cas arbitrary: pool)
  case (Cons ca cas)
  show ?case
  proof (cases "bad_pem lib ca")
    case True
    then show ?thesis using pemToX509Certs_bad [OF assms(1) True] by (auto simp: AddPemToCertPool_def)
  next
    case False
    with Cons pemToX509Certs_good [OF assms(1) False] show ?thesis by (auto simp: AddPemToCertPool_def)
  qed
qed simp

text \<open>The client CAs panic for an empty file too.\<close>

definition no_client_cas :: "tlslib \<Rightarrow> bytes \<Rightarrow> bool" where
  "no_client_cas lib ca \<longleftrightarrow> bad_pem lib ca \<or> certs_of lib ca = []"

lemma add_client_cas_good:
  assumes "pem_ok lib" and "\<forall>ca \<in> set cas. \<not> no_client_cas lib ca"
  shows "add_client_cas lib cas pool = Some (Inr (fold AddCert (concat (map (certs_of lib) cas)) pool))"
  using assms(2)
proof (induction cas arbitrary: pool)
  case (Cons ca cas)
  then have good: "\<not> bad_pem lib ca" "certs_of lib ca \<noteq> []" by (auto simp: no_client_cas_def)
  then obtain ss where "pemToX509Certs lib ca = Some (None, certs_of lib ca, ss)"
    using pemToX509Certs_good [OF assms(1)] by blast
  with Cons good show ?case by (simp add: Suc_le_eq)
qed simp

lemma add_client_cas_bad:
  assumes "pem_ok lib" and "\<exists>ca \<in> set cas. no_client_cas lib ca"
  shows "\<exists>err. add_client_cas lib cas pool = Some (Inl err)"
  using assms(2)
proof (induction cas arbitrary: pool)
  case (Cons ca cas)
  show ?case
  proof (cases "bad_pem lib ca")
    case True
    then show ?thesis using pemToX509Certs_bad [OF assms(1) True] by auto
  next
    case False
    then obtain ss where parsed: "pemToX509Certs lib ca = Some (None, certs_of lib ca, ss)"
      using pemToX509Certs_good [OF assms(1)] by blast
    show ?thesis
    proof (cases "certs_of lib ca = []")
      case True
      then show ?thesis by (simp add: parsed)
    next
      case nonempty: False
      with False Cons.prems have "\<exists>ca \<in> set cas. no_client_cas lib ca" by (simp add: no_client_cas_def)
      with nonempty Cons.IH show ?thesis by (simp add: parsed Suc_le_eq)
    qed
  qed
qed simp

lemma pool_raws:
  "xc_Raw ` set (fold AddCert (concat (map (certs_of lib) cas)) []) = (\<Union>ca \<in> set cas. xc_Raw ` set (certs_of lib ca))"
  by (auto simp: AddCert_fold)

text \<open>Setting up the security of a client always returns (when a PEM block makes its input shorter). It
  panics only with TLS, and only for a key pair or a root certificate that does not parse. Otherwise the
  client dials without transport security only when TLS is off and there are no credentials to send; with
  TLS it has one TLS configuration, of version 1.2 at least, with its own certificate, and with a pool of
  exactly the certificates of the configured roots, or none when none are configured.\<close>

theorem client_secure_correct:
  assumes "pem_ok lib"
  shows "case client_setupSecure lib sn so of
      None \<Rightarrow> False
    | Some (Inl err) \<Rightarrow> so_UseTLS so \<and>
        (X509KeyPair lib (so_Certificate so) (so_Key so) = Inl err \<or> (\<exists>ca \<in> set (so_ServerRootCAs so). bad_pem lib ca))
    | Some (Inr (opts, so')) \<Rightarrow>
        (WithInsecure \<in> set opts \<longleftrightarrow> \<not> so_UseTLS so \<and> so_PreCreds so = None) \<and>
        (\<forall>t. WithPerRPCCredentials t \<in> set opts \<longleftrightarrow> Some t = so_PreCreds so) \<and>
        (if so_UseTLS so
         then \<exists>tc cert. {t. WithTransportCredentials t \<in> set opts} = {tc} \<and> tc_MinVersion tc = VersionTLS12 \<and>
           X509KeyPair lib (so_Certificate so) (so_Key so) = Inr cert \<and> tc_Certificates tc = [cert] \<and>
           tc_ServerName tc = sn \<and>
           map_option (\<lambda>pool. xc_Raw ` set pool) (tc_RootCAs tc) =
             (if so_ServerRootCAs so = [] then None
              else Some (\<Union>ca \<in> set (so_ServerRootCAs so). xc_Raw ` set (certs_of lib ca)))
         else \<forall>t. WithTransportCredentials t \<notin> set opts)"
proof (cases "so_UseTLS so")
  case False
  then show ?thesis by (cases "so_PreCreds so") (auto simp: client_setupSecure_def)
next
  case tls: True
  show ?thesis
  proof (cases "X509KeyPair lib (so_Certificate so) (so_Key so)")
    case (Inl err)
    with tls show ?thesis by (simp add: client_setupSecure_def)
  next
    case cert: (Inr cert)
    show ?thesis
    proof (cases "\<exists>ca \<in> set (so_ServerRootCAs so). bad_pem lib ca")
      case True
      then have "so_ServerRootCAs so \<noteq> []" by auto
      moreover obtain err where "add_server_roots lib (so_ServerRootCAs so) [] = Some (Inl err)"
        using add_server_roots_bad [OF assms True] by blast
      ultimately show ?thesis using tls True by (simp add: client_setupSecure_def cert)
    next
      case False
      then have roots: "add_server_roots lib (so_ServerRootCAs so) [] =
          Some (Inr (fold AddCert (concat (map (certs_of lib) (so_ServerRootCAs so))) []))"
        using add_server_roots_good [OF assms] by blast
      show ?thesis
        using tls by (cases "so_PreCreds so"; cases "so_ServerRootCAs so = []")
          (simp_all add: client_setupSecure_def cert roots pool_raws)
    qed
  qed
qed

text \<open>Setting up the security of a server always returns. Without TLS there are no credentials. With TLS it
  panics exactly when the key pair does not parse or a configured client CA does not parse or holds no
  certificate; otherwise the server requires a certificate of every client and verifies it against exactly
  the certificates of the configured CAs, or against the system's when none are configured.\<close>

theorem server_secure_correct:
  assumes "pem_ok lib"
  shows "case server_setupSecure lib so of
      None \<Rightarrow> False
    | Some (Inl err) \<Rightarrow> so_UseTLS so \<and>
        (X509KeyPair lib (so_Certificate so) (so_Key so) = Inl err \<or> (\<exists>ca \<in> set (so_ClientRootCAs so). no_client_cas lib ca))
    | Some (Inr (opts, so')) \<Rightarrow>
        (\<not> so_UseTLS so \<longrightarrow> opts = [] \<and> so' = so) \<and>
        (so_UseTLS so \<longrightarrow> (\<forall>ca \<in> set (so_ClientRootCAs so). \<not> no_client_cas lib ca) \<and>
          (\<exists>tc cert. opts = [Creds tc] \<and> tc_ClientAuth tc \<and> tc_CipherSuites tc = so_CipherSuites so \<and>
            X509KeyPair lib (so_Certificate so) (so_Key so) = Inr cert \<and>
            tc_Certificates tc = [cert] \<and> so_GetCert so' = Some cert \<and>
            map_option (\<lambda>pool. xc_Raw ` set pool) (tc_ClientCAs tc) =
              (if so_ClientRootCAs so = [] then None
               else Some (\<Union>ca \<in> set (so_ClientRootCAs so). xc_Raw ` set (certs_of lib ca)))))"
proof (cases "so_UseTLS so")
  case False
  then show ?thesis by (simp add: server_setupSecure_def)
next
  case tls: True
  show ?thesis
  proof (cases "X509KeyPair lib (so_Certificate so) (so_Key so)")
    case (Inl err)
    with tls show ?thesis by (simp add: server_setupSecure_def)
  next
    case cert: (Inr cert)
    show ?thesis
    proof (cases "\<exists>ca \<in> set (so_ClientRootCAs so). no_client_cas lib ca")
      case True
      then have "so_ClientRootCAs so \<noteq> []" by auto
      moreover obtain err where "add_client_cas lib (so_ClientRootCAs so) [] = Some (Inl err)"
        using add_client_cas_bad [OF assms True] by blast
      ultimately show ?thesis using tls True by (simp add: server_setupSecure_def cert)
    next
      case False
      then have cas: "add_client_cas lib (so_ClientRootCAs so) [] =
          Some (Inr (fold AddCert (concat (map (certs_of lib) (so_ClientRootCAs so))) []))"
        using add_client_cas_good [OF assms] by blast
      show ?thesis
        using tls False by (cases "so_ClientRootCAs so = []")
          (simp_all add: server_setupSecure_def cert cas pool_raws)
    qed
  qed
qed

text \<open>A library to compute with: a block is one byte, a certificate is its block, a key pair needs both files.\<close>

definition ex_tlslib :: tlslib where
  "ex_tlslib = \<lparr>X509KeyPair = (\<lambda>cert key. if cert = None \<or> key = None then Inl (Error ''tls: failed to find any PEM data'')
       else Inr \<lparr>tl_Certificate = [str_of cert]\<rparr>),
     pem_Decode = (\<lambda>s. case s of [] \<Rightarrow> (None, []) | b # rest \<Rightarrow> (Some [b], rest)),
     ParseCertificate = (\<lambda>der. Inr \<lparr>xc_Raw = der, xc_RawSubject = der\<rparr>)\<rparr>"

lemma ex_tlslib_ok: "pem_ok ex_tlslib"
  by (simp add: pem_ok_def ex_tlslib_def split: list.splits)

definition ex_secure :: SecureOptions where
  "ex_secure = no_SecureOptions\<lparr>so_UseTLS := True, so_Key := Some ''k'', so_Certificate := Some ''c'',
     so_ServerRootCAs := [Some ''ab'', Some ''a''], so_ClientRootCAs := [None]\<rparr>"

theorem client_secure_correct_witness:
  "\<exists>opts so' tc. client_setupSecure ex_tlslib ''server'' ex_secure = Some (Inr (opts, so')) \<and> WithInsecure \<notin> set opts \<and>
     {t. WithTransportCredentials t \<in> set opts} = {tc} \<and> tc_RootCAs tc \<noteq> None"
proof -
  have "\<not> bad_pem ex_tlslib pem" for pem
  proof -
    have "fst (parse_all ex_tlslib ders) = None" for ders
      by (induction ders) (auto simp: ex_tlslib_def split: prod.splits)
    then show ?thesis by (simp add: bad_pem_def)
  qed
  moreover have "X509KeyPair ex_tlslib (so_Certificate ex_secure) (so_Key ex_secure) = Inr \<lparr>tl_Certificate = [''c'']\<rparr>"
    by (simp add: ex_tlslib_def ex_secure_def)
  moreover have "so_UseTLS ex_secure" "so_ServerRootCAs ex_secure \<noteq> []" by (simp_all add: ex_secure_def)
  ultimately show ?thesis
    using client_secure_correct [OF ex_tlslib_ok, where so = ex_secure and sn = "''server''"]
    by (auto split: option.splits sum.splits)
qed

theorem server_secure_correct_witness:
  "\<exists>err. (server_setupSecure ex_tlslib ex_secure :: (error + (nat, nat) ServerOption list \<times> SecureOptions) option) =
     Some (Inl err)"
proof -
  have "no_client_cas ex_tlslib None"
    by (simp add: no_client_cas_def certs_of_def pem_blocks.simps [of ex_tlslib "[]"] split: prod.splits option.splits)
  then show ?thesis
    using server_secure_correct [OF ex_tlslib_ok, where so = ex_secure and 'a = nat and 'b = nat]
    by (auto simp: ex_secure_def split: option.splits sum.splits)
qed

lemma dial_all_fails:
  assumes "k < length address" and "\<forall>i < k. dial (n + i) (address ! i) opts = Inr (conns ! i)"
    and "length conns = k" and "dial (n + k) (address ! k) opts = Inl err"
  shows "dial_all dial opts n address done' = (Inl err, done' @ conns)"
  using assms
proof (induction address arbitrary: n k conns done')
  case (Cons a address)
  show ?case
  proof (cases k)
    case 0
    with Cons.prems show ?thesis by simp
  next
    case (Suc j)
    then obtain c cs where conns: "conns = c # cs" using Cons.prems(3) by (cases conns) auto
    have "dial n a opts = Inr c" using Cons.prems(2) Suc conns by force
    moreover have "dial_all dial opts (Suc n) address (done' @ [c]) = (Inl err, (done' @ [c]) @ cs)"
    proof (rule Cons.IH)
      show "\<forall>i < j. dial (Suc n + i) (address ! i) opts = Inr (cs ! i)"
        using Cons.prems(2) Suc conns by (metis Suc_less_eq add_Suc_right add_Suc_shift nth_Cons_Suc)
    qed (use Cons.prems Suc conns in auto)
    ultimately show ?thesis by (simp add: conns)
  qed
qed simp

text \<open>A client that connects to several addresses and fails at one returns the error only: the connections
  it has opened to the addresses before it stay open, and neither the caller nor the client has them, so
  nothing can close them.\<close>

theorem Conn_leaks:
  assumes "client_opts lib c = Some (Inr (opts, c'))" and "2 \<le> length address"
    and "k < length address" and "\<forall>i < k. dial i (address ! i) opts = Inr (conns ! i)" and "length conns = k"
    and "dial k (address ! k) opts = Inl err"
  shows "Client_Conn lib dial address c = Some (Inr (Inl err, c', conns)) \<and> cl_ClientConn c' = cl_ClientConn c"
proof -
  obtain a b rest where address: "address = a # b # rest"
    using assms(2) by (cases address; cases "tl address") auto
  have "dial_all dial opts 0 address [] = (Inl err, [] @ conns)"
    by (rule dial_all_fails [where k = k]) (simp_all add: assms)
  moreover have "cl_ClientConn c' = cl_ClientConn c"
    using assms(1) by (auto simp: client_opts_def Let_def split: option.splits sum.splits)
  ultimately show ?thesis by (simp add: Client_Conn_def assms(1) address)
qed

definition ex_client :: Client where
  "ex_client = (NewClient (\<lambda>_. Inl (Error ''no file'')))
     \<lparr>cl_Config := (DefaultClientConfig (\<lambda>_. Inl (Error ''no file'')))\<lparr>cc_secure := no_SecureOptions\<rparr>\<rparr>"

lemma ex_client_opts: "\<exists>opts c'. client_opts ex_tlslib ex_client = Some (Inr (opts, c'))"
  by (simp add: client_opts_def Let_def ex_client_def client_setupSecure_def no_SecureOptions_def)

theorem Conn_leaks_witness:
  "\<exists>c'. Client_Conn ex_tlslib (\<lambda>i _ _. if i = 0 then Inr 7 else Inl (Error ''refused'')) [''a'', ''b''] ex_client =
    Some (Inr (Inl (Error ''refused''), c', [7])) \<and> cl_ClientConn c' = None"
proof -
  obtain opts c' where opts: "client_opts ex_tlslib ex_client = Some (Inr (opts, c'))"
    using ex_client_opts by blast
  have "cl_ClientConn ex_client = None" by (simp add: ex_client_def NewClient_def)
  moreover have "Client_Conn ex_tlslib (\<lambda>i _ _. if i = 0 then Inr 7 else Inl (Error ''refused'')) [''a'', ''b''] ex_client =
      Some (Inr (Inl (Error ''refused''), c', [7])) \<and> cl_ClientConn c' = cl_ClientConn ex_client"
    by (rule Conn_leaks [OF opts, where k = 1]) simp_all
  ultimately show ?thesis by (intro exI [of _ c']) simp
qed

end
