(* ===== verification/CommServer.thy ===== *)
theory CommServer
  imports Rpc CommProps Discovery
begin

text \<open>
  The set-up of the communication layer (\<open>NewCommInstanceWithServer\<close>, \<open>createGRPCLayer\<close>), the hash of
  the own certificate that an authentication sends, and the two goroutine loops that carry received
  messages: \<open>serviceConnection\<close> with its reader, from the stream of a connection to the handler of its
  messages, and the forwarder \<open>Receive\<close> starts, from a channel of the demultiplexer to its subscriber.
  A loop is a function of an event, so that a run is a list of events in any order; \<open>None\<close> is an event
  that cannot happen now.
\<close>

section \<open>Set-up\<close>

text \<open>An atomic value that was stored holds a certificate; a failed \<open>X509KeyPair\<close> gives the zero one.\<close>

record TLSCertificates =
  TLSServerCert :: tls_Certificate
  TLSClientCert :: tls_Certificate

type_synonym grpc_unary = "(string, string, string, error + string) unary"
type_synonym grpc_server = "(grpc_unary, string) Server"

definition createGRPCLayer :: "tlslib \<Rightarrow> files \<Rightarrow> int \<Rightarrow> bytes \<times> bytes \<times> string \<times> TLSCertificates" where
  "createGRPCLayer lib files port =
     (let s = NewServer files :: grpc_server;
          c = NewClient files;
          serverPem = so_Certificate (sc_secure (sv_Config s)); serverKey = so_Key (sc_secure (sv_Config s));
          clientPem = so_Certificate (cc_secure (cl_Config c)); clientKey = so_Key (cc_secure (cl_Config c));
          pair = (\<lambda>pem key. case X509KeyPair lib pem key of Inl _ \<Rightarrow> \<lparr>tl_Certificate = []\<rparr> | Inr cert \<Rightarrow> cert);
          certs = \<lparr>TLSServerCert = pair serverPem serverKey, TLSClientCert = pair clientPem clientKey\<rparr>
      in (serverPem, serverKey, [] @ '':'' @ fmt_int port, certs))"

text \<open>What a new instance holds beside the state of \<open>Communicate\<close>; it serves when a port is given.\<close>

record comm_instance =
  nc_comm :: Communicate
  nc_PKIID :: bytes
  nc_peerId :: bytes
  nc_tlsCerts :: "TLSCertificates option"
  nc_server :: grpc_server
  nc_serving :: bool

definition server_without_tls :: "files \<Rightarrow> grpc_server" where
  "server_without_tls files =
     (let s = NewServer files; cfg = sv_Config s
      in s\<lparr>sv_Config := cfg\<lparr>sc_secure := (sc_secure cfg)\<lparr>so_UseTLS := False\<rparr>\<rparr>\<rparr>)"

definition NewCommInstanceWithServer ::
  "tlslib \<Rightarrow> files \<Rightarrow> (string \<Rightarrow> error + nat) \<Rightarrow> int \<Rightarrow> bytes \<Rightarrow> bytes \<Rightarrow> bytes \<Rightarrow> (error + comm_instance) option" where
  "NewCommInstanceWithServer lib files listen port peerId pem0 key0 =
     (let s = server_without_tls files;
          (pem, key, ll, certs) =
            (if 0 < port then (let (pem, key, ll, certs) = createGRPCLayer lib files port in (pem, key, ll, Some certs))
             else (pem0, key0, [], None));
          cfg = sv_Config s;
          s1 = (if 0 < bytes_len pem \<and> 0 < bytes_len key
                then s\<lparr>sv_Config := cfg\<lparr>sc_secure := (sc_secure cfg)\<lparr>so_UseTLS := False\<rparr>,
                                        sc_base := (sc_base cfg)\<lparr>bs_Addr := ll\<rparr>\<rparr>\<rparr>
                else s)
      in case Server_Listen lib listen s1 of
           None \<Rightarrow> None
         | Some (Inl err) \<Rightarrow> Some (Inl err)
         | Some (Inr s2) \<Rightarrow>
             Some (Inr \<lparr>nc_comm = NewCommInstance, nc_PKIID = GetPKIidOfCert peerId, nc_peerId = peerId,
                        nc_tlsCerts = certs, nc_server = s2, nc_serving = 0 < port\<rparr>))"

text \<open>The hash of the own certificate; \<open>None\<close> is the panic of indexing an empty chain.\<close>

definition selfCertHash :: "(string \<Rightarrow> string) \<Rightarrow> TLSCertificates option \<Rightarrow> bool \<Rightarrow> bytes option" where
  "selfCertHash sha tlsCerts initiator =
     (case tlsCerts of
        None \<Rightarrow> Some None
      | Some certs \<Rightarrow>
          (let certReference = (if initiator then TLSClientCert certs else TLSServerCert certs) in
           case tl_Certificate certReference of
             [] \<Rightarrow> None
           | rawCert # _ \<Rightarrow> Some (if length rawCert \<noteq> 0 then Some (sha rawCert) else None)))"

text \<open>An authentication of an instance, from the hash on.\<close>

definition instance_authenticate ::
  "(string \<Rightarrow> string) \<Rightarrow> comm_instance \<Rightarrow> bool \<Rightarrow> cenv \<Rightarrow> instant \<Rightarrow> string \<Rightarrow> (error + Envelope) option \<Rightarrow> IdMapper \<Rightarrow>
    ((error + ConnectionInfo) \<times> IdMapper \<times> Envelope option list) option" where
  "instance_authenticate sha nc initiator env now address recv im =
     map_option (\<lambda>h. authenticate (env\<lparr>ce_certHash := h, ce_PKIID := nc_PKIID nc, ce_peerId := nc_peerId nc\<rparr>) now address recv im)
       (selfCertHash sha (nc_tlsCerts nc) initiator)"

section \<open>Accepting a connection and sending\<close>

text \<open>
  \<open>GossipStream\<close> up to the service of the connection: the connection's info and number when the peer
  authenticates. \<open>sendToEndpoint\<close> returns at once when the communication stops (\<open>None\<close>), and otherwise asks
  for the connection.
\<close>

definition GossipStream_enter ::
  "(string \<Rightarrow> string) \<Rightarrow> comm_instance \<Rightarrow> cenv \<Rightarrow> instant \<Rightarrow> string \<Rightarrow> (error + Envelope) option \<Rightarrow> IdMapper \<Rightarrow> Communicate \<Rightarrow>
    ((error + ConnectionInfo \<times> nat) \<times> IdMapper \<times> Communicate) option" where
  "GossipStream_enter sha nc env now address recv im c =
     (if cm_stopping c then Some (Inl (Error ''shutting down''), im, c)
      else case instance_authenticate sha nc False env now address recv im of
        None \<Rightarrow> None
      | Some (Inl err, im', _) \<Rightarrow> Some (Inl err, im', c)
      | Some (Inr connInfo, im', _) \<Rightarrow>
          (let (conn, cs) = onConnected (ce_config env) connInfo (cm_connStore c)
           in Some (Inr (connInfo, conn), im', c\<lparr>cm_connStore := cs\<rparr>)))"

definition sendToEndpoint_start :: "RemotePeer \<Rightarrow> Communicate \<Rightarrow> ((error + nat) \<times> Communicate) option" where
  "sendToEndpoint_start peer c =
     (if cm_stopping c then None
      else (let (r, cs) = getConnection_lock (rp_PKIID peer) (cm_connStore c) in Some (r, c\<lparr>cm_connStore := cs\<rparr>)))"

section \<open>Serving a connection\<close>

text \<open>
  A connection being served: what its stream still gives, what its reader has still to put on the
  channel of errors (of capacity 1) and on the channel of messages, the two channels, what the handler
  was called with, and the result once \<open>serviceConnection\<close> has returned. The reader and the loop are two
  goroutines.
\<close>

record serving =
  sl_in :: "(error + Envelope) list"
  sl_reading :: bool
  sl_pendErr :: "error list"
  sl_pendMsg :: "SignedGossipMessage option list"
  sl_errChan :: "error list"
  sl_msgChan :: "SignedGossipMessage option list"
  sl_cap :: nat
  sl_comm :: Communicate
  sl_handled :: "SignedGossipMessage list"
  sl_stopFlag :: bool
  sl_result :: "error option option"
  sl_panicked :: bool

definition new_serving :: "(string \<Rightarrow> int) \<Rightarrow> Communicate \<Rightarrow> (error + Envelope) list \<Rightarrow> serving" where
  "new_serving config c ins =
     \<lparr>sl_in = ins, sl_reading = True, sl_pendErr = [], sl_pendMsg = [], sl_errChan = [], sl_msgChan = [],
      sl_cap = nat (GetIntOrDefault config ''peer.gossip.recvBuffSize'' defRecvBuffSize), sl_comm = c, sl_handled = [],
      sl_stopFlag = False, sl_result = None, sl_panicked = False\<rparr>"

datatype serve_event = Recv | PutErr | PutMsg | HandleMsg | TakeErr | TakeStop | ConnClosed | Others Communicate

text \<open>
  The reader's \<open>quit\<close> channel is never closed, so its two sends only wait for room. A reader whose
  connection has stopped returns after its next \<open>Recv\<close>. \<open>Others\<close> is whatever else happens to the
  communication layer in between; after a panic nothing happens.
\<close>

definition reader_do :: "codec \<Rightarrow> serving \<Rightarrow> serving option" where
  "reader_do cd s =
     (if \<not> sl_reading s \<or> sl_pendErr s \<noteq> [] \<or> sl_pendMsg s \<noteq> [] then None
      else if sl_stopFlag s then Some (s\<lparr>sl_reading := False\<rparr>)
      else (case sl_in s of
              [] \<Rightarrow> None
            | r # rest \<Rightarrow>
                (let (errs, ms, go) = read_step cd r
                 in Some (s\<lparr>sl_in := rest, sl_pendErr := errs, sl_pendMsg := ms, sl_reading := go\<rparr>))))"

definition handler_do :: "ConnectionInfo \<Rightarrow> serving \<Rightarrow> serving option" where
  "handler_do ci s =
     (case sl_msgChan s of
        [] \<Rightarrow> None
      | m # ms \<Rightarrow>
          (if sl_result s \<noteq> None then None
           else case interceptAcks ci m (sl_comm s) of
             None \<Rightarrow> Some (s\<lparr>sl_msgChan := ms, sl_panicked := True\<rparr>)
           | Some (c', ok) \<Rightarrow>
               if ok then Some (s\<lparr>sl_msgChan := ms, sl_comm := c', sl_handled := sl_handled s @ [the m]\<rparr>) else None))"

fun serve_do :: "codec \<Rightarrow> ConnectionInfo \<Rightarrow> serve_event \<Rightarrow> serving \<Rightarrow> serving option" where
  "serve_do cd ci Recv s = reader_do cd s"
| "serve_do cd ci PutErr s =
     (case sl_pendErr s of
        [] \<Rightarrow> None
      | e # es \<Rightarrow> if length (sl_errChan s) < 1 then Some (s\<lparr>sl_pendErr := es, sl_errChan := sl_errChan s @ [e]\<rparr>) else None)"
| "serve_do cd ci PutMsg s =
     (case sl_pendMsg s of
        [] \<Rightarrow> None
      | m # ms \<Rightarrow> if sl_pendErr s = [] \<and> length (sl_msgChan s) < sl_cap s
                 then Some (s\<lparr>sl_pendMsg := ms, sl_msgChan := sl_msgChan s @ [m]\<rparr>) else None)"
| "serve_do cd ci HandleMsg s = handler_do ci s"
| "serve_do cd ci TakeErr s =
     (case sl_errChan s of
        [] \<Rightarrow> None
      | e # es \<Rightarrow> if sl_result s = None then Some (s\<lparr>sl_errChan := es, sl_result := Some (Some e)\<rparr>) else None)"
| "serve_do cd ci TakeStop s =
     (if sl_stopFlag s \<and> sl_result s = None then Some (s\<lparr>sl_result := Some None\<rparr>) else None)"
| "serve_do cd ci ConnClosed s = Some (s\<lparr>sl_stopFlag := True\<rparr>)"
| "serve_do cd ci (Others c) s = Some (s\<lparr>sl_comm := c\<rparr>)"

fun serve_run :: "codec \<Rightarrow> ConnectionInfo \<Rightarrow> serve_event list \<Rightarrow> serving \<Rightarrow> serving option" where
  "serve_run cd ci [] s = Some s"
| "serve_run cd ci (ev # evs) s =
     (if sl_panicked s then None else Option.bind (serve_do cd ci ev s) (serve_run cd ci evs))"

section \<open>Forwarding to a subscriber\<close>

text \<open>
  The goroutine of \<open>Receive\<close>: the channel of the demultiplexer it reads, the message it holds, and the
  channel of the subscriber, which holds 10. It ends when the communication stops, or when the
  demultiplexer has closed its channel and the channel is empty.
\<close>

record forwarder =
  fw_generic :: "ReceivedMessage list"
  fw_closed :: bool
  fw_held :: "ReceivedMessage option"
  fw_specific :: "ReceivedMessage list"
  fw_ended :: bool

definition new_forwarder :: forwarder where
  "new_forwarder = \<lparr>fw_generic = [], fw_closed = False, fw_held = None, fw_specific = [], fw_ended = False\<rparr>"

text \<open>A subscription made after the stop has a channel that nothing feeds and nothing closes.\<close>

definition comm_Receive :: "(ReceivedMessage \<Rightarrow> bool) \<Rightarrow> Communicate \<Rightarrow> Communicate \<times> forwarder option" where
  "comm_Receive acceptor c =
     (c\<lparr>cm_msgPublisher := AddChannel acceptor (cm_msgPublisher c)\<rparr>,
      if cm_stopping c then None else Some new_forwarder)"

datatype forward_event = Deliver ReceivedMessage | CloseGeneric | TakeGeneric | PutSpecific | Exit | ClientTake

definition specificSize :: nat where
  "specificSize = 10"

fun forward_do :: "forward_event \<Rightarrow> forwarder \<Rightarrow> (forwarder \<times> ReceivedMessage list) option" where
  "forward_do (Deliver m) f =
     (if \<not> fw_closed f \<and> length (fw_generic f) < demuxBuffSize then Some (f\<lparr>fw_generic := fw_generic f @ [m]\<rparr>, []) else None)"
| "forward_do CloseGeneric f = Some (f\<lparr>fw_closed := True\<rparr>, [])"
| "forward_do TakeGeneric f =
     (if fw_ended f \<or> fw_held f \<noteq> None then None
      else (case fw_generic f of
              [] \<Rightarrow> if fw_closed f then Some (f\<lparr>fw_ended := True\<rparr>, []) else None
            | m # ms \<Rightarrow> Some (f\<lparr>fw_generic := ms, fw_held := Some m\<rparr>, [])))"
| "forward_do PutSpecific f =
     (case fw_held f of
        None \<Rightarrow> None
      | Some m \<Rightarrow> if \<not> fw_ended f \<and> length (fw_specific f) < specificSize
                  then Some (f\<lparr>fw_held := None, fw_specific := fw_specific f @ [m]\<rparr>, []) else None)"
| "forward_do Exit f = Some (f\<lparr>fw_ended := True\<rparr>, [])"
| "forward_do ClientTake f =
     (case fw_specific f of [] \<Rightarrow> None | m # ms \<Rightarrow> Some (f\<lparr>fw_specific := ms\<rparr>, [m]))"

text \<open>What the client has taken in a run, in order.\<close>

fun forward_run :: "forward_event list \<Rightarrow> forwarder \<Rightarrow> (forwarder \<times> ReceivedMessage list) option" where
  "forward_run [] f = Some (f, [])"
| "forward_run (ev # evs) f =
     do { (f', got) \<leftarrow> forward_do ev f; (f'', gots) \<leftarrow> forward_run evs f'; Some (f'', got @ gots) }"

section \<open>Properties of the set-up\<close>

lemma server_without_tls_fields [simp]:
  "so_UseTLS (sc_secure (sv_Config (server_without_tls files))) = False"
  "bs_Addr (sc_base (sv_Config (server_without_tls files))) = ''0.0.0.0:36658''"
  by (simp_all add: server_without_tls_def Let_def NewServer_def DefaultServerConfig_def DefaultBaseServerConfig_def)

lemma plain_Listen:
  assumes "\<not> so_UseTLS (sc_secure (sv_Config s))"
  shows "Server_Listen lib listen s =
    (case listen (bs_Addr (sc_base (sv_Config s))) of
       Inl err \<Rightarrow> Some (Inl err)
     | Inr ll \<Rightarrow> Some (Inr (s\<lparr>sv_Server := Some (server_setupKeepalive (sv_Config s) @ setupInterceptor (sv_Interceptor s) @
         [MaxSendMsgSize (bs_MaxSendMsgSize (sc_base (sv_Config s))), MaxRecvMsgSize (bs_MaxRecvMsgSize (sc_base (sv_Config s)))]),
         sv_Listener := Some ll\<rparr>)))"
  using assms by (simp add: Server_Listen_def server_setupSecure_def Let_def split: sum.splits)

lemma no_creds [simp]:
  "Creds tc \<notin> set (server_setupKeepalive cfg)" "Creds tc \<notin> set (setupInterceptor ic)"
  by (auto simp: server_setupKeepalive_def setupInterceptor_def Let_def)

definition served_addr :: "files \<Rightarrow> int \<Rightarrow> bytes \<Rightarrow> bytes \<Rightarrow> string" where
  "served_addr files port pem key =
     (let (pem', key') = (if 0 < port then (ReadFile files (bs_CertPath DefaultBaseServerConfig), ReadFile files (bs_KeyPath DefaultBaseServerConfig))
                          else (pem, key))
      in if 0 < bytes_len pem' \<and> 0 < bytes_len key' then (if 0 < port then '':'' @ fmt_int port else []) else ''0.0.0.0:36658'')"

lemma createGRPCLayer_fields:
  "\<exists>certs. createGRPCLayer lib files port =
     (ReadFile files (bs_CertPath DefaultBaseServerConfig), ReadFile files (bs_KeyPath DefaultBaseServerConfig), '':'' @ fmt_int port, certs)"
  by (simp add: createGRPCLayer_def Let_def NewServer_def DefaultServerConfig_def DefaultServerSecureOptions_def)


text \<open>When the certificate file cannot be read, and a key pair without a certificate does not parse, a node that
  is given a port starts all the same, on the default port; then every authentication it takes part in panics, of
  a peer it dials as well as of a peer that connects, because the hash of its own certificate is taken of the
  first element of an empty chain.\<close>

theorem missing_certificate_panics_later:
  assumes "0 < port" and "files (bs_CertPath DefaultBaseServerConfig) = Inl err"
    and "\<forall>key. \<exists>e. X509KeyPair lib None key = Inl e" and "listen ''0.0.0.0:36658'' = Inr ll"
  shows "\<exists>nc. NewCommInstanceWithServer lib files listen port peerId pem key = Some (Inr nc) \<and> nc_serving nc \<and>
    sv_Listener (nc_server nc) = Some ll \<and>
    (\<forall>initiator env now address recv im. instance_authenticate sha nc initiator env now address recv im = None)"
proof -
  have cert: "ReadFile files (bs_CertPath DefaultBaseServerConfig) = None"
    by (simp add: ReadFile_def assms(2))
  obtain e where pair: "X509KeyPair lib None (ReadFile files (bs_KeyPath DefaultBaseServerConfig)) = Inl e"
    using assms(3) by blast
  have layer: "createGRPCLayer lib files port =
     (None, ReadFile files (bs_KeyPath DefaultBaseServerConfig), '':'' @ fmt_int port,
      \<lparr>TLSServerCert = \<lparr>tl_Certificate = []\<rparr>, TLSClientCert = \<lparr>tl_Certificate = []\<rparr>\<rparr>)"
    by (simp add: createGRPCLayer_def Let_def NewServer_def NewClient_def DefaultServerConfig_def DefaultServerSecureOptions_def
        DefaultClientConfig_def DefaultClientSecureOptions_def cert pair)
  show ?thesis
    using assms(1,4)
    by (simp add: NewCommInstanceWithServer_def Let_def layer plain_Listen bytes_len_def instance_authenticate_def selfCertHash_def)
qed

theorem missing_certificate_panics_later_witness:
  "\<exists>nc. NewCommInstanceWithServer ex_tlslib (\<lambda>_. Inl (Error ''no such file'')) (\<lambda>_. Inr 3) 7051 (Some ''peer'') None None =
     Some (Inr nc) \<and> sv_Listener (nc_server nc) = Some 3 \<and>
     instance_authenticate (\<lambda>s. s) nc True example_env 5 ''a'' None \<lparr>im_pkiID2Cert = [], im_selfPKIID = ''q''\<rparr> = None"
proof -
  have "\<forall>key. \<exists>e. X509KeyPair ex_tlslib None key = Inl e" by (simp add: ex_tlslib_def)
  then show ?thesis
    using missing_certificate_panics_later [where port = 7051 and files = "\<lambda>_. Inl (Error ''no such file'')"
        and lib = ex_tlslib and listen = "\<lambda>_. Inr 3" and ll = 3 and err = "Error ''no such file''" and peerId = "Some ''peer''"
        and pem = None and key = None and sha = "\<lambda>s. s"]
    by auto
qed

section \<open>Properties of accepting a connection\<close>

lemma stored_identity_verifies:
  assumes "mapper_ok im" and "IdMapper_Put mcs tab now pkiID idType im = (None, im')" and "str_of sig = str_of msg"
  shows "conn_verifier t im' idType sig msg = None"
proof -
  have ok: "mapper_ok im'" using Put_ok [OF assms(1), of mcs tab now pkiID idType] assms(2) by simp
  have key: "str_of idType = str_of pkiID" using Put_None [OF assms(2)] by (simp add: bytes_eq_def)
  obtain si where "map_get (im_pkiID2Cert im') (str_of pkiID) = Some si"
    using Put_None [OF assms(2)] by (auto simp: map_has_def)
  with ok key assms(3) show ?thesis
    by (simp add: conn_verifier_def IdMapper_Verify_def IdMapper_Get_def fetchId_def GetPKIidOfCert_def)
qed

lemma sent_connection_message:
  assumes "authenticate a t0 address0 recv0 im0 = (r, im1, [Some e])"
  shows "\<exists>s. Sign (ce_codec a) IdMapper_Sign \<lparr>sg_Envelope = None, sg_Msg = \<lparr>gm_Nonce = 0, gm_Channel = None, gm_Tag = Tag_EMPTY,
      gm_Content = Some (ConnMsg \<lparr>ce_PkiId = ce_PKIID a, ce_Identity = ce_peerId a, ce_TlsCertHash = ce_certHash a\<rparr>)\<rparr>\<rparr> = (Inr e, s)"
proof -
  obtain cMsg err where c: "createConnectionMsg (ce_codec a) IdMapper_Sign (ce_PKIID a) (ce_certHash a) (ce_peerId a) = (cMsg, err)"
    by fastforce
  have "err = None \<and> sg_Envelope cMsg = Some e"
    using assms c
    by (auto simp: authenticate_def authenticateRemotePeer_def Let_def split: prod.splits option.splits sum.splits if_splits)
  with c show ?thesis
    by (auto simp: createConnectionMsg_def Let_def split: prod.splits sum.splits dest: Sign_envelope)
qed



text \<open>
  A stream is accepted only while the communication runs and only for an authenticated peer; its
  connection is new, carries the peer's identity and is the one the store finds for it.
\<close>

lemma GossipStream_enter_correct:
  assumes "GossipStream_enter sha nc env now address recv im c = Some (Inr (connInfo, conn), im', c')"
  shows "\<not> cm_stopping c \<and>
    (\<exists>gots. instance_authenticate sha nc False env now address recv im = Some (Inr connInfo, im', gots)) \<and>
    map_get (cs_pki2Conn (cm_connStore c')) (str_of (ci_ID connInfo)) = Some conn \<and>
    map_get (cs_conns (cm_connStore c')) conn = Some (newConnection (ce_config env) (ci_ID connInfo))"
  using assms
  by (auto simp: GossipStream_enter_def onConnected_def Let_def split: if_splits option.splits prod.splits sum.splits)

section \<open>Properties of serving\<close>

text \<open>What the reader makes of a stream: it goes on after an envelope that does not unmarshal, with a nil message.\<close>

definition msgs_of :: "codec \<Rightarrow> (error + Envelope) list \<Rightarrow> SignedGossipMessage option list" where
  "msgs_of cd rs = concat (map (\<lambda>r. fst (snd (read_step cd r))) rs)"

definition decoded :: "codec \<Rightarrow> (error + Envelope) list \<Rightarrow> SignedGossipMessage list" where
  "decoded cd rs = List.map_filter (\<lambda>m. m) (msgs_of cd rs)"

definition undecodable :: "codec \<Rightarrow> (error + Envelope) \<Rightarrow> bool" where
  "undecodable cd r \<longleftrightarrow> (case r of Inl _ \<Rightarrow> False | Inr e \<Rightarrow> \<exists>err. ToGossipMessage cd e = Inl err)"

lemma msgs_of_simps [simp]:
  "msgs_of cd [] = []" "msgs_of cd (rs @ rs') = msgs_of cd rs @ msgs_of cd rs'"
  "msgs_of cd [r] = fst (snd (read_step cd r))"
  by (simp_all add: msgs_of_def)

lemma read_step_None: "None \<in> set (fst (snd (read_step cd r))) \<longleftrightarrow> undecodable cd r"
  by (auto simp: read_step_def undecodable_def split: sum.splits)

lemma msgs_of_None: "None \<in> set (msgs_of cd rs) \<longleftrightarrow> (\<exists>r \<in> set rs. undecodable cd r)"
  by (simp add: msgs_of_def read_step_None)

lemma interceptAcks_None: "interceptAcks ci m c = None \<longleftrightarrow> m = None"
  by (auto simp: interceptAcks_def split: option.splits prod.splits)

lemma interceptAcks_Some: "interceptAcks ci m c = Some r \<Longrightarrow> Some (the m) = m"
  by (cases m) (auto simp: interceptAcks_def)

definition serving_ok :: "codec \<Rightarrow> (error + Envelope) list \<Rightarrow> nat \<Rightarrow> serving \<Rightarrow> bool" where
  "serving_ok cd ins cap s \<longleftrightarrow>
     (\<exists>consumed. ins = consumed @ sl_in s \<and>
       msgs_of cd consumed = map Some (sl_handled s) @ (if sl_panicked s then [None] else []) @ sl_msgChan s @ sl_pendMsg s) \<and>
     sl_cap s = cap \<and> length (sl_msgChan s) \<le> cap \<and> length (sl_errChan s) \<le> 1"

lemma new_serving_ok: "serving_ok cd ins (sl_cap (new_serving config c ins)) (new_serving config c ins)"
  by (auto simp: serving_ok_def new_serving_def)

lemma reader_do_ok:
  assumes "serving_ok cd ins cap s" and "reader_do cd s = Some s'"
  shows "serving_ok cd ins cap s'"
proof -
  obtain consumed where c: "ins = consumed @ sl_in s"
    "msgs_of cd consumed = map Some (sl_handled s) @ (if sl_panicked s then [None] else []) @ sl_msgChan s @ sl_pendMsg s"
    using assms(1) by (auto simp: serving_ok_def)
  show ?thesis
  proof (cases "sl_stopFlag s")
    case True
    then show ?thesis using assms by (auto simp: reader_do_def serving_ok_def split: if_splits)
  next
    case False
    then obtain r rest where r: "sl_in s = r # rest" and idle: "sl_pendMsg s = []"
      using assms(2) by (auto simp: reader_do_def split: if_splits list.splits)
    obtain errs ms go where rs: "read_step cd r = (errs, ms, go)" by (cases "read_step cd r") auto
    have "s' = s\<lparr>sl_in := rest, sl_pendErr := errs, sl_pendMsg := ms, sl_reading := go\<rparr>"
      using assms(2) False r rs by (auto simp: reader_do_def split: if_splits)
    then show ?thesis
      using assms(1) c r rs idle by (auto simp: serving_ok_def intro!: exI [of _ "consumed @ [r]"])
  qed
qed

lemma handler_do_ok:
  assumes "serving_ok cd ins cap s" and "handler_do ci s = Some s'" and "\<not> sl_panicked s"
  shows "serving_ok cd ins cap s'"
  using assms
  by (auto simp: handler_do_def serving_ok_def interceptAcks_None interceptAcks_Some split: list.splits if_splits option.splits prod.splits)

lemma serve_do_ok:
  assumes "serving_ok cd ins cap s" and "serve_do cd ci ev s = Some s'" and "\<not> sl_panicked s"
  shows "serving_ok cd ins cap s'"
  using assms(2)
proof (cases ev)
  case Recv
  then show ?thesis using assms reader_do_ok by auto
next
  case HandleMsg
  then show ?thesis using assms handler_do_ok by auto
qed (use assms in \<open>auto simp: serving_ok_def split: list.splits if_splits\<close>)

lemma serve_run_ok:
  "serving_ok cd ins cap s \<Longrightarrow> serve_run cd ci evs s = Some s' \<Longrightarrow> serving_ok cd ins cap s'"
  by (induction evs arbitrary: s) (auto intro: serve_do_ok split: if_splits bind_splits)

text \<open>C33. Over every interleaving of the reader of a connection, the loop that serves it, its closing and whatever the
  rest of the communication layer does, the handler sees the messages of the stream's envelopes in the order they
  came, each once and none skipped; the channels stay within their capacities; and it panics only when an
  envelope came that does not unmarshal.\<close>

theorem serving_in_order:
  assumes "serve_run cd ci evs (new_serving config c ins) = Some s"
  shows "(\<exists>rest. decoded cd ins = sl_handled s @ rest) \<and>
    length (sl_msgChan s) \<le> nat (GetIntOrDefault config ''peer.gossip.recvBuffSize'' defRecvBuffSize) \<and>
    length (sl_errChan s) \<le> 1 \<and> (sl_panicked s \<longrightarrow> (\<exists>r \<in> set ins. undecodable cd r))"
proof -
  have ok: "serving_ok cd ins (sl_cap (new_serving config c ins)) s"
    using serve_run_ok [OF new_serving_ok assms] .
  then obtain consumed where c: "ins = consumed @ sl_in s"
    "msgs_of cd consumed = map Some (sl_handled s) @ (if sl_panicked s then [None] else []) @ sl_msgChan s @ sl_pendMsg s"
    by (auto simp: serving_ok_def)
  have keep: "List.map_filter (\<lambda>m. m) (map Some ms @ rest) = ms @ List.map_filter (\<lambda>m. m) rest"
    for ms :: "SignedGossipMessage list" and rest
    by (induction ms) (simp_all add: List.map_filter_def)
  have "\<exists>rest. decoded cd ins = sl_handled s @ rest"
    unfolding decoded_def c(1) msgs_of_simps c(2) append_assoc keep by blast
  moreover have "sl_panicked s \<Longrightarrow> None \<in> set (msgs_of cd consumed)"
    by (simp add: c(2))
  ultimately show ?thesis
    using ok c(1) by (auto simp: serving_ok_def msgs_of_None new_serving_def)
qed

text \<open>An alive connection to compute with, whose codec knows no bytes.\<close>

definition deaf_codec :: codec where
  "deaf_codec = \<lparr>marshal = (\<lambda>_. Inr None), unmarshal = (\<lambda>_. Inl (Error ''proto: bad bytes'')),
     marshal_secret = (\<lambda>_. Inr None), unmarshal_secret = (\<lambda>_. Inl (Error ''proto: bad bytes''))\<rparr>"

definition ex_envelope :: Envelope where
  "ex_envelope = \<lparr>ev_Payload = Some ''?'', ev_Signature = None, ev_SecretEnvelope = None\<rparr>"

text \<open>C34. One envelope that does not unmarshal is enough to bring a node down: when the loop that serves the
  connection reads the channel of messages before the channel of errors it calls the handler with the nil message
  the reader passed on, and panics. When it reads the channel of errors first, the connection ends with the error
  and the nil message is never handled.\<close>

theorem garbage_may_panic:
  assumes "ToGossipMessage cd e = Inl err" and "0 < nat (GetIntOrDefault config ''peer.gossip.recvBuffSize'' defRecvBuffSize)"
  shows "(\<exists>s. serve_run cd ci [Recv, PutErr, PutMsg, HandleMsg] (new_serving config c (Inr e # ins)) = Some s \<and> sl_panicked s) \<and>
    (\<exists>s. serve_run cd ci [Recv, PutErr, PutMsg, TakeErr] (new_serving config c (Inr e # ins)) = Some s \<and>
       sl_result s = Some (Some err) \<and> \<not> sl_panicked s \<and> serve_do cd ci HandleMsg s = None)"
  using assms by (simp add: new_serving_def reader_do_def handler_do_def read_step_def interceptAcks_def)

theorem garbage_may_panic_witness:
  "\<exists>s. serve_run deaf_codec \<lparr>ci_ID = Some ''p'', ci_Id = Some ''p''\<rparr> [Recv, PutErr, PutMsg, HandleMsg]
     (new_serving (\<lambda>_. 0) NewCommInstance [Inr ex_envelope]) = Some s \<and> sl_panicked s"
proof -
  obtain err where "ToGossipMessage deaf_codec ex_envelope = Inl err"
    by (cases "ToGossipMessage deaf_codec ex_envelope") (auto simp: ToGossipMessage_def deaf_codec_def)
  moreover have "0 < nat (GetIntOrDefault (\<lambda>_. 0) ''peer.gossip.recvBuffSize'' defRecvBuffSize)"
    by (simp add: GetIntOrDefault_def defRecvBuffSize_def)
  ultimately show ?thesis
    using garbage_may_panic [where cd = deaf_codec and e = ex_envelope and config = "\<lambda>_. 0" and ins = "[]"
        and ci = "\<lparr>ci_ID = Some ''p'', ci_Id = Some ''p''\<rparr>"] by blast
qed

definition conn_envelope :: Envelope where
  "conn_envelope = \<lparr>ev_Payload = Some ''x'', ev_Signature = Some ''x'', ev_SecretEnvelope = None\<rparr>"

theorem serving_in_order_witness:
  "\<exists>s rest. serve_run (ce_codec example_env) \<lparr>ci_ID = Some ''p'', ci_Id = Some ''p''\<rparr> [Recv, PutMsg, HandleMsg]
      (new_serving (\<lambda>_. 0) NewCommInstance [Inr conn_envelope, Inr conn_envelope]) = Some s \<and>
    sl_handled s = [\<lparr>sg_Envelope = Some conn_envelope, sg_Msg = conn_msg\<rparr>] \<and> decoded (ce_codec example_env) [Inr conn_envelope, Inr conn_envelope] = sl_handled s @ rest"
proof -
  have m: "ToGossipMessage (ce_codec example_env) conn_envelope = Inr \<lparr>sg_Envelope = Some conn_envelope, sg_Msg = conn_msg\<rparr>"
    by (simp add: ToGossipMessage_def conn_envelope_def example_env_def table_codec_def table_dec_def bytes_len_def)
  obtain s where s: "serve_run (ce_codec example_env) \<lparr>ci_ID = Some ''p'', ci_Id = Some ''p''\<rparr> [Recv, PutMsg, HandleMsg]
      (new_serving (\<lambda>_. 0) NewCommInstance [Inr conn_envelope, Inr conn_envelope]) = Some s" "sl_handled s = [\<lparr>sg_Envelope = Some conn_envelope, sg_Msg = conn_msg\<rparr>]"
    by (simp add: new_serving_def reader_do_def handler_do_def read_step_def interceptAcks_def m GetIntOrDefault_def
        defRecvBuffSize_def conn_msg_def getter_defs DeMultiplex_def NewCommInstance_def NewChannelDemultiplexer_def)
  with serving_in_order [OF s(1)] show ?thesis by blast
qed

text \<open>
  The reader of a connection that has ended may stay for ever: nothing closes \<open>quit\<close>, so a reader with
  a message and no room for it waits, whatever happens.
\<close>

definition reader_stuck :: "serving \<Rightarrow> bool" where
  "reader_stuck s \<longleftrightarrow> sl_result s \<noteq> None \<and> sl_pendErr s = [] \<and> sl_pendMsg s \<noteq> [] \<and> sl_cap s \<le> length (sl_msgChan s)"

lemma reader_stuck_step:
  "reader_stuck s \<Longrightarrow> serve_do cd ci ev s = Some s' \<Longrightarrow> reader_stuck s' \<and> sl_pendMsg s' = sl_pendMsg s"
  by (cases ev) (auto simp: reader_stuck_def reader_do_def handler_do_def split: list.splits if_splits)

lemma reader_leaks:
  "reader_stuck s \<Longrightarrow> serve_run cd ci evs s = Some s' \<Longrightarrow> reader_stuck s' \<and> sl_pendMsg s' = sl_pendMsg s"
proof (induction evs arbitrary: s)
  case (Cons ev evs)
  then obtain s1 where "serve_do cd ci ev s = Some s1" "serve_run cd ci evs s1 = Some s'"
    by (auto split: if_splits bind_splits)
  with Cons reader_stuck_step show ?case by metis
qed simp

section \<open>Properties of forwarding\<close>

definition fw_all :: "forwarder \<Rightarrow> ReceivedMessage list" where
  "fw_all f = fw_specific f @ (case fw_held f of None \<Rightarrow> [] | Some m \<Rightarrow> [m]) @ fw_generic f"

definition delivered :: "forward_event list \<Rightarrow> ReceivedMessage list" where
  "delivered evs = List.map_filter (\<lambda>ev. case ev of Deliver m \<Rightarrow> Some m | _ \<Rightarrow> None) evs"

lemma delivered_simps [simp]:
  "delivered [] = []" "delivered (Deliver m # evs) = m # delivered evs"
  "delivered (CloseGeneric # evs) = delivered evs" "delivered (TakeGeneric # evs) = delivered evs"
  "delivered (PutSpecific # evs) = delivered evs" "delivered (Exit # evs) = delivered evs"
  "delivered (ClientTake # evs) = delivered evs"
  by (simp_all add: delivered_def List.map_filter_def)

lemma forward_do_all:
  "forward_do ev f = Some (f', got) \<Longrightarrow> got @ fw_all f' = fw_all f @ delivered [ev] \<and>
     (length (fw_specific f) \<le> specificSize \<longrightarrow> length (fw_specific f') \<le> specificSize)"
  by (cases ev) (auto simp: fw_all_def split: if_splits list.splits option.splits)

text \<open>A subscriber receives what the demultiplexer delivers to its channel, in order, each message once and none
  skipped: whatever the interleaving, what the client has taken, followed by what is still in its channel, held by
  the forwarder and in the channel of the demultiplexer, is what was delivered.\<close>

theorem Receive_in_order:
  "case forward_run evs f of
     None \<Rightarrow> True
   | Some (f', taken) \<Rightarrow> taken @ fw_all f' = fw_all f @ delivered evs"
proof (induction evs arbitrary: f)
  case (Cons ev evs)
  show ?case
  proof (cases "forward_do ev f")
    case (Some r)
    obtain f' got where "r = (f', got)" by fastforce
    with Some forward_do_all [of ev f f' got] Cons [of f'] show ?thesis
      by (cases ev) (auto split: option.splits)
  qed simp
qed simp

end
