(* ===== verification/Settings.thy ===== *)
theory Settings
  imports Discovery
begin

text \<open>
  The settings of the package: what the setters of common.go write and the readers of discovery.go and
  of the pull engine read. The state is the part of the configuration library the package uses, a number per
  key with 0 for a key that is not set, and the two package variables of discovery.go.
\<close>

section \<open>State and setters\<close>

record settings =
  st_viper :: "string \<Rightarrow> int"
  st_AliveExpirationCheckInterval :: duration
  st_MaxConnectionAttempts :: int

text \<open>The variables of discovery.go at the start of the program.\<close>

definition initial_settings :: settings where
  "initial_settings = \<lparr>st_viper = (\<lambda>_. 0), st_AliveExpirationCheckInterval = 0, st_MaxConnectionAttempts = 120\<rparr>"

definition SetVal :: "string \<Rightarrow> int \<Rightarrow> settings \<Rightarrow> settings" where
  "SetVal key val s = s\<lparr>st_viper := (st_viper s)(key := val)\<rparr>"

text \<open>The three waits of the pull engine are set without the lock, to the same table.\<close>

definition SetDigestWaitTime :: "duration \<Rightarrow> settings \<Rightarrow> settings" where
  "SetDigestWaitTime t = SetVal ''peer.gossip.digestWaitTime'' t"

definition SetRequestWaitTime :: "duration \<Rightarrow> settings \<Rightarrow> settings" where
  "SetRequestWaitTime t = SetVal ''peer.gossip.requestWaitTime'' t"

definition SetResponseWaitTime :: "duration \<Rightarrow> settings \<Rightarrow> settings" where
  "SetResponseWaitTime t = SetVal ''peer.gossip.responseWaitTime'' t"

definition SetAliveExpirationCheckInterval :: "duration \<Rightarrow> settings \<Rightarrow> settings" where
  "SetAliveExpirationCheckInterval interval s = s\<lparr>st_AliveExpirationCheckInterval := interval\<rparr>"

text \<open>Go's quotient truncates.\<close>

definition SetAliveExpirationTimeout :: "duration \<Rightarrow> settings \<Rightarrow> settings" where
  "SetAliveExpirationTimeout timeout s =
     (SetVal ''peer.gossip.aliveExpirationTimeout'' timeout s)
       \<lparr>st_AliveExpirationCheckInterval := sgn timeout * (\<bar>timeout\<bar> div 10)\<rparr>"

definition SetAliveTimeInterval :: "duration \<Rightarrow> settings \<Rightarrow> settings" where
  "SetAliveTimeInterval interval = SetVal ''peer.gossip.aliveTimeInterval'' interval"

definition SetReconnectInterval :: "duration \<Rightarrow> settings \<Rightarrow> settings" where
  "SetReconnectInterval interval = SetVal ''peer.gossip.reconnectInterval'' interval"

definition SetMaxConnAttempts :: "int \<Rightarrow> settings \<Rightarrow> settings" where
  "SetMaxConnAttempts attempts s = s\<lparr>st_MaxConnectionAttempts := attempts\<rparr>"

lemmas setter_defs = SetVal_def SetDigestWaitTime_def SetRequestWaitTime_def SetResponseWaitTime_def
  SetAliveExpirationCheckInterval_def SetAliveExpirationTimeout_def SetAliveTimeInterval_def SetReconnectInterval_def
  SetMaxConnAttempts_def

section \<open>Readers\<close>

text \<open>The waits of a pull engine are read when it is made.\<close>

definition defDigestWaitTime :: duration where
  "defDigestWaitTime = 1000 * (second div 1000)"

definition defRequestWaitTime :: duration where
  "defRequestWaitTime = 1500 * (second div 1000)"

definition defResponseWaitTime :: duration where
  "defResponseWaitTime = 2000 * (second div 1000)"

record pull_waits =
  pw_digestWaitTime :: duration
  pw_requestWaitTime :: duration
  pw_responseWaitTime :: duration

definition engine_waits :: "(string \<Rightarrow> int) \<Rightarrow> pull_waits" where
  "engine_waits config =
     \<lparr>pw_digestWaitTime = GetDurationOrDefault config ''peer.gossip.digestWaitTime'' defDigestWaitTime,
      pw_requestWaitTime = GetDurationOrDefault config ''peer.gossip.requestWaitTime'' defRequestWaitTime,
      pw_responseWaitTime = GetDurationOrDefault config ''peer.gossip.responseWaitTime'' defResponseWaitTime\<rparr>"

text \<open>What a discovery service reads when it is made.\<close>

definition alive_timeout :: "settings \<Rightarrow> duration" where
  "alive_timeout s = getAliveExpirationTimeout (st_viper s)"

definition check_interval :: "settings \<Rightarrow> duration" where
  "check_interval s = getAliveExpirationCheckInterval (st_AliveExpirationCheckInterval s) (st_viper s)"

definition reconnect_interval :: "settings \<Rightarrow> duration" where
  "reconnect_interval s = getReconnectInterval (st_viper s)"

definition alive_interval :: "settings \<Rightarrow> duration" where
  "alive_interval s = getAliveTimeInterval (st_viper s)"

lemmas reader_defs = alive_timeout_def check_interval_def reconnect_interval_def alive_interval_def getAliveExpirationTimeout_def
  getAliveExpirationCheckInterval_def getReconnectInterval_def getAliveTimeInterval_def GetDurationOrDefault_def

section \<open>What a setter changes for the readers\<close>

text \<open>A value that is set is read, except 0, which brings the default back.\<close>

lemma SetVal_read: "GetDurationOrDefault (st_viper (SetVal key v s)) key dflt = (if v = 0 then dflt else v)"
  by (simp add: SetVal_def GetDurationOrDefault_def)

lemma SetVal_other: "key' \<noteq> key \<Longrightarrow>
    GetDurationOrDefault (st_viper (SetVal key v s)) key' dflt = GetDurationOrDefault (st_viper s) key' dflt"
  by (simp add: SetVal_def GetDurationOrDefault_def)

text \<open>Without settings a peer says hello every five seconds, is dead after five silent intervals, and is looked
  after ten times within them; an engine waits longer for each answer of a round than for the one before.\<close>

lemma default_readers:
  "alive_interval initial_settings = 5 * second" "alive_timeout initial_settings = 5 * alive_interval initial_settings"
  "10 * check_interval initial_settings = alive_timeout initial_settings"
  "reconnect_interval initial_settings = alive_timeout initial_settings"
  by (simp_all add: initial_settings_def reader_defs defaultHelloInterval_def second_def)

lemma default_waits:
  "pw_digestWaitTime (engine_waits (\<lambda>_. 0)) < pw_requestWaitTime (engine_waits (\<lambda>_. 0))"
  "pw_requestWaitTime (engine_waits (\<lambda>_. 0)) < pw_responseWaitTime (engine_waits (\<lambda>_. 0))"
  by (simp_all add: engine_waits_def GetDurationOrDefault_def defDigestWaitTime_def defRequestWaitTime_def
      defResponseWaitTime_def second_def)

text \<open>Setting the timeout keeps the ratio of ten between it and the check.\<close>

lemma SetAliveExpirationTimeout_reads:
  assumes "10 \<le> t"
  shows "alive_timeout (SetAliveExpirationTimeout t s) = t" "check_interval (SetAliveExpirationTimeout t s) = t div 10"
proof -
  show "alive_timeout (SetAliveExpirationTimeout t s) = t" using assms by (simp add: reader_defs setter_defs)
  have "0 < t div 10" using assms by (simp add: pos_imp_zdiv_pos_iff)
  then show "check_interval (SetAliveExpirationTimeout t s) = t div 10" using assms by (simp add: reader_defs setter_defs)
qed

text \<open>
  The interval between two hellos moves the timeout only as long as no timeout is set; once one is set, a longer
  interval than the timeout is accepted and the peers of the node are dead to it between two of their messages.
\<close>

lemma SetAliveTimeInterval_moves:
  assumes "st_viper s ''peer.gossip.aliveExpirationTimeout'' = 0" "0 < i"
  shows "alive_interval (SetAliveTimeInterval i s) = i" "alive_timeout (SetAliveTimeInterval i s) = 5 * i"
  using assms by (simp_all add: reader_defs setter_defs)

lemma SetAliveTimeInterval_fixed:
  assumes "10 \<le> t" "t < i"
  shows "alive_timeout (SetAliveTimeInterval i (SetAliveExpirationTimeout t s)) < alive_interval (SetAliveTimeInterval i (SetAliveExpirationTimeout t s))"
  using assms by (simp add: reader_defs setter_defs)

text \<open>
  A timeout set to 0 is the default again, and so is the check: the variable of the check is 0 too. A check interval
  that was set on its own is lost with the next setting of the timeout.
\<close>

lemma SetAliveExpirationTimeout_0:
  assumes "st_viper s ''peer.gossip.aliveTimeInterval'' = 0"
  shows "alive_timeout (SetAliveExpirationTimeout 0 s) = 25 * second" "10 * check_interval (SetAliveExpirationTimeout 0 s) = 25 * second"
  using assms by (simp_all add: reader_defs setter_defs defaultHelloInterval_def second_def)

lemma check_interval_lost:
  assumes "10 \<le> t"
  shows "check_interval (SetAliveExpirationTimeout t (SetAliveExpirationCheckInterval i s)) = t div 10"
  by (rule SetAliveExpirationTimeout_reads(2) [OF assms])

text \<open>
  The settings of the program's test, in its order: the interval it sets for the check is overwritten by the setting of
  the timeout, with the same value because the timeout is ten times that.
\<close>

lemma test_settings:
  assumes "1 \<le> i"
  defines "s \<equiv> SetMaxConnAttempts 5 (SetReconnectInterval i (SetAliveExpirationTimeout (i * 10)
     (SetAliveExpirationCheckInterval i (SetAliveTimeInterval i initial_settings))))"
  shows "alive_interval s = i" "alive_timeout s = 10 * i" "check_interval s = i" "reconnect_interval s = i"
    "st_MaxConnectionAttempts s = 5"
  using assms(1) by (simp_all add: s_def reader_defs setter_defs)

end
