(* ===== verification/Spec2Isabelle.thy ===== *)
theory Spec2Isabelle
  imports Emitter DiscoveryProps PullProps CommProps ChannelOps GossipIds GossipAlive GossipLoops CommServer Settings
begin

text \<open>
  A verification development of the gossip package (src/gossip) and the gRPC set-up it uses (src/grpc): peers that find each other,
  exchange membership, spread blocks and state over channels, and keep what their organisation
  keeps to itself.

  THE PROGRAM. A node is a \<open>GossipService\<close> (gossip.go). Below it are the communication layer
  (communicate.go: gRPC streams, authentication, acknowledged sends), the identity mapper
  (mapper.go), discovery (discovery.go: who is alive, who is dead), one \<open>GossipChannel\<close> per joined
  channel (channel.go), a batching emitter, a demultiplexer and two pullers (channel.go), and the
  message store with its replacement policy (msg.go). A message received by the communication layer is
  validated by the service, then handed to the channel it is for, to discovery or to the puller of
  identities; what these want to spread goes into the emitter, whose batches the service routes to
  peers under the disclosure policy.

  THE MODEL. Every operation is a function from the state record of its component to the new state
  and what it did (messages sent, callbacks called, goroutines and timers started, in order). A
  lock-protected handler is one such function; where the code releases a lock in the middle of an
  operation and something depends on it, the operation is split there (\<open>Subscribe\<close>, \<open>onDigest\<close>,
  \<open>getConnection\<close>, \<open>readWithTimeout\<close>). A run-time panic is \<open>None\<close> of an option result, a Go error is
  \<open>Inl\<close>, a wait for ever has a value of its own. The clock, random draws and permutations, the protobuf
  codec, the hash function, the configuration, files, certificate parsing and the results of gRPC calls are
  arguments. A Go map is
  an association list with distinct keys, ranged over in list order; a statement about every list is
  a statement about every order. Sequence numbers, nonces and times on the wire are 64-bit words.

  THEORIES, in the order of their imports:
    \<^item> \<open>Prelude\<close>: Go values, maps (locale \<open>key_store\<close>, interpreted on association lists), the
      deletion loop that removes list elements while it ranges over them, machines with an invariant
      (locale \<open>inv_machine\<close>, interpreted on every component's step relation).
    \<^item> \<open>Format\<close>: the number formatting and hex encoding that keys and topics go through.
    \<^item> \<open>Messages\<close> (message.pb.go): the protocol messages, enums, the oneof and the getters.
    \<^item> \<open>Policy\<close> (msg.go, \<open>IsTagLegal\<close> to \<open>leaderInvalidationPolicy\<close>): what kind a message is, which of two
      messages replaces the other. The order of peer times is an instance of \<open>linorder\<close>; locales
      \<open>replacing_policy\<close> and \<open>newest_policy\<close> say what a store needs of a policy and are interpreted on
      the comparator.
    \<^item> \<open>MsgStore\<close> (msg.go, \<open>MessageStore\<close>): adding, invalidating, purging, the two-phase expiration.
    \<^item> \<open>Crypto\<close> (common.go \<open>NaiveMessageCryptoService\<close>, msg.go \<open>Sign\<close>, \<open>Verify\<close>, \<open>SignSecret\<close>,
      \<open>ToGossipMessage\<close>): locale \<open>signature_scheme\<close>, interpreted on the naive service.
    \<^item> \<open>Emitter\<close> (channel.go \<open>BatchingEmitter\<close>), \<open>IdMapper\<close> (mapper.go), \<open>Util\<close> (common.go, filter.go),
      \<open>Sets\<close> (common.go \<open>Set\<close>, locale \<open>set_contract\<close>).
    \<^item> \<open>Discovery\<close> (discovery.go), \<open>DiscoveryInv\<close> (its invariant and every handler's effect on the
      status of each peer, the abstract machine it refines), \<open>DiscoveryProps\<close>. \<open>Settings\<close> (common.go, \<open>SetVal\<close> to
      \<open>SetMaxConnAttempts\<close>): the setters and what discovery and the pull engine read after them.
    \<^item> \<open>Pull\<close> (channel.go \<open>PullMediator\<close>, \<open>pullEngine\<close>; \<open>createBlockPuller\<close>, the puller of identities),
      \<open>PullProps\<close>.
    \<^item> \<open>PubSub\<close> (common.go \<open>PubSub\<close>; channel.go \<open>ChannelDeMultiplexer\<close>).
    \<^item> \<open>Comm\<close> (communicate.go: connections, the connection store, authentication, dialing, sending),
      \<open>CommProps\<close>. \<open>CommServer\<close>: the set-up of an instance (\<open>NewCommInstanceWithServer\<close>, \<open>createGRPCLayer\<close>), the
      acceptance of a stream (\<open>GossipStream\<close>), and two pairs of goroutines as functions of an event: the reader and
      the loop of \<open>serviceConnection\<close>, and the forwarder of \<open>Receive\<close>.
    \<^item> \<open>Rpc\<close> (src/grpc/config, service, interceptor): configurations and their defaults, certificate pools from PEM
      blocks, the options of a client (\<open>Client.Conn\<close>) and of a server (\<open>Server.Listen\<close>).
    \<^item> \<open>Channel\<close> (channel.go \<open>GossipChannel\<close>, \<open>stateInfoCache\<close>, \<open>ChannelState\<close>), \<open>ChannelProps\<close>
      (the invariant of a channel), \<open>ChannelOps\<close>, \<open>ChannelTotal\<close> (when the handler of a channel returns).
    \<^item> \<open>GossipSvc\<close> and \<open>GossipNode\<close> (gossip.go): the service's state and disclosure; its handlers, its
      interface and its construction. \<open>GossipInv\<close>: the invariant of the service from those of its
      components. \<open>GossipExample\<close>: a service to compute with. \<open>GossipProps\<close>, \<open>GossipFlow\<close>,
      \<open>GossipStop\<close>, \<open>GossipIds\<close>, \<open>GossipAlive\<close>: its properties. \<open>GossipTotal\<close>: when its handler returns.
    \<^item> \<open>Loops\<close>: the goroutines of a component that select between items and the end, interleaved with everything else
      (locale \<open>safe_loops\<close>: what their handlers have to keep); \<open>GossipLoops\<close>: its interpretations on \<open>acceptMessages\<close> and
      \<open>handlePresumedDead\<close> (gossip.go), \<open>handleMessages\<close> and \<open>handlePresumedDeadPeers\<close> (discovery.go) and
      \<open>periodicalInvocation\<close> (channel.go).

  WHAT THE LEMMAS SHOW. Every component has an invariant (no table disagrees with another, keys are
  distinct, timestamps belong to the stored messages, a known peer is alive or dead and never both,
  a connection's key is its peer, a subscription is in its topic's set while it may receive) that
  every operation keeps, hence that holds in every reachable state (the interpretations of
  \<open>inv_machine\<close>). Discovery refines an abstract machine of peer statuses. Functional theorems say what
  \<open>handleAliveMessage\<close>, a pull round, an acknowledged send, an update of the own ledger height and an
  update of identities do on every branch. The safety theorems are about disclosure and authentication:
  what a batch or a membership answer shows to a peer of another organisation, which peers a block
  reaches, what the service checks before it acts. The round trips compose components: an alive message
  is signed by one node, travels, and makes the sender alive at another; an acknowledgement finds the
  sender that waits for it; a connection message authenticates its sender at another node, whoever delivers it.
  Serving a connection hands over the stream's messages in order over every interleaving. Error theorems state behaviour that surprises: the manifest's findings name
  them.

  BOUNDS AND FUEL. The only loop with a bound of its own is the one over draws of \<open>GetRandomIndices\<close>, which
  is structural over the list of draws; the theorem about it says which draws are enough. The loop over PEM
  blocks is a \<open>partial_function\<close>, and it returns when a block makes its input shorter (\<open>pem_ok\<close>). Buffers
  have the capacities of the code (100 dead endpoints, 20 messages per connection by default, 50 per
  subscription, 10 per demultiplexer channel) and a full buffer is an explicit result.

  NOT MODELLED. The generated marshalling, reflection and RPC stubs of message.pb.go (the codec argument
  stands for them); what gRPC, TLS and the X.509 library do with the options they are given; the
  loops that sleep between two rounds (\<open>periodicalCheckAlive\<close> and its relatives): one round of each is a definition, how often
  and in what order they run is free in the step relations; how fair the choices of a \<open>select\<close> are; the renewal of the last access time when a filter of the
  service or a channel reads the mapper; the tests of src/grpc/test, which need a network.
\<close>

end
